(* ===== verification/Prelude.thy ===== *)
theory Prelude
  imports Main "HOL-Library.Sublist" "HOL-Library.Char_ord" "HOL-Library.List_Lexorder"
    "HOL-Library.Word"
begin

text \<open>
  Shared vocabulary of the development: Go strings as byte strings with the functions of
  package \<^verbatim>\<open>strings\<close> the program uses, Go errors as optional values checked in order, instants
  and durations, and database tables as lists of rows with a key.
\<close>

named_theorems go_checks "characterisations of chains of early returns"
named_theorems row_simps "lookup and update laws of tables of rows"

subsection \<open>Errors and early returns\<close>

text \<open>
  A Go function that returns only an \<^verbatim>\<open>error\<close> is modelled by \<open>'e option\<close> (\<open>None\<close> is nil),
  one that returns a value or an error by \<open>'e + 'a\<close>. \<open>check_all\<close> is a sequence of
  \<^verbatim>\<open>if err := ...; err != nil { return err }\<close> statements.
\<close>

fun check_all :: "'e option list \<Rightarrow> 'e option" where
  "check_all [] = None"
| "check_all (None # cs) = check_all cs"
| "check_all (Some e # cs) = Some e"

definition reject_if :: "bool \<Rightarrow> 'e \<Rightarrow> 'e option" where
  "reject_if b e = (if b then Some e else None)"

definition map_err :: "('e \<Rightarrow> 'f) \<Rightarrow> 'e option \<Rightarrow> 'f option" where
  "map_err f c = map_option f c"

definition err_of :: "'e + 'a \<Rightarrow> 'e option" where
  "err_of r = (case r of Inl e \<Rightarrow> Some e | Inr _ \<Rightarrow> None)"

lemma check_all_None [go_checks]: "check_all cs = None \<longleftrightarrow> (\<forall>c \<in> set cs. c = None)"
  by (induction cs rule: check_all.induct) auto

lemma check_all_append: "check_all (xs @ ys) = (case check_all xs of None \<Rightarrow> check_all ys | Some e \<Rightarrow> Some e)"
  by (induction xs rule: check_all.induct) auto

lemma check_all_Some_in: "check_all cs = Some e \<Longrightarrow> Some e \<in> set cs"
  by (induction cs rule: check_all.induct) auto

lemma reject_if_None [simp, go_checks]: "reject_if b e = None \<longleftrightarrow> \<not> b"
  by (simp add: reject_if_def)

lemma reject_if_Some [simp, go_checks]: "reject_if b e = Some x \<longleftrightarrow> b \<and> x = e"
  by (auto simp: reject_if_def)

lemma map_err_None [simp, go_checks]: "map_err f c = None \<longleftrightarrow> c = None"
  by (simp add: map_err_def)

lemma err_of_None [simp, go_checks]: "err_of r = None \<longleftrightarrow> (\<exists>x. r = Inr x)"
  by (cases r) (auto simp: err_of_def)

lemma err_of_simps [simp]: "err_of (Inl e) = Some e" "err_of (Inr x) = None"
  by (simp_all add: err_of_def)

subsection \<open>Instants and durations\<close>

text \<open>
  \<^verbatim>\<open>time.Time\<close> is the number of nanoseconds since Go's zero time (1 January of year 1, UTC), so
  \<^verbatim>\<open>IsZero\<close> is equality with 0; \<^verbatim>\<open>time.Duration\<close> is a number of nanoseconds. Arithmetic on
  durations whose range is not bounded by the code wraps at 64 bits: \<open>int64\<close>.
\<close>

type_synonym gotime = int
type_synonym duration = int

definition int64 :: "int \<Rightarrow> int" where
  "int64 x = signed_take_bit 63 x"

abbreviation second :: duration where "second \<equiv> 1000000000"
abbreviation minute :: duration where "minute \<equiv> 60 * second"
abbreviation hour :: duration where "hour \<equiv> 3600 * second"

lemma int64_id [simp]: "- (2 ^ 63) \<le> x \<Longrightarrow> x < 2 ^ 63 \<Longrightarrow> int64 x = x"
  by (simp add: int64_def signed_take_bit_int_eq_self)

subsection \<open>Byte strings\<close>

text \<open>Go strings are byte sequences; a \<open>char\<close> is a byte, so \<open>length\<close> is Go's \<^verbatim>\<open>len\<close>.\<close>

definition byte_of :: "char \<Rightarrow> nat" where
  "byte_of c = of_char c"

definition in_range :: "char \<Rightarrow> char \<Rightarrow> char \<Rightarrow> bool" where
  "in_range lo hi c \<longleftrightarrow> byte_of lo \<le> byte_of c \<and> byte_of c \<le> byte_of hi"

abbreviation is_lower :: "char \<Rightarrow> bool" where "is_lower \<equiv> in_range (CHR ''a'') (CHR ''z'')"
abbreviation is_upper :: "char \<Rightarrow> bool" where "is_upper \<equiv> in_range (CHR ''A'') (CHR ''Z'')"
abbreviation is_digit :: "char \<Rightarrow> bool" where "is_digit \<equiv> in_range (CHR ''0'') (CHR ''9'')"

definition ascii_lower :: "char \<Rightarrow> char" where
  "ascii_lower c = (if is_upper c then char_of (byte_of c + 32) else c)"

definition lower_ascii :: "string \<Rightarrow> string" where
  "lower_ascii s = map ascii_lower s"

lemma byte_of_less [simp]: "byte_of c < 256"
  by (simp add: byte_of_def)

lemma byte_of_inject [simp]: "byte_of c = byte_of d \<longleftrightarrow> c = d"
  by (simp add: byte_of_def)

lemma byte_of_ascii_lower:
  "byte_of (ascii_lower c) = (if is_upper c then byte_of c + 32 else byte_of c)"
  by (auto simp: ascii_lower_def in_range_def byte_of_def)

lemma ascii_lower_not_upper [simp]: "\<not> is_upper (ascii_lower c)"
  unfolding in_range_def byte_of_ascii_lower by (auto simp: byte_of_def)

lemma ascii_lower_id: "\<not> is_upper c \<Longrightarrow> ascii_lower c = c"
  by (simp add: ascii_lower_def)

lemma lower_ascii_id: "\<forall>c \<in> set s. \<not> is_upper c \<Longrightarrow> lower_ascii s = s"
  by (simp add: lower_ascii_def ascii_lower_id map_idI)

lemma lower_ascii_idem [simp]: "lower_ascii (lower_ascii s) = lower_ascii s"
  by (rule lower_ascii_id) (auto simp: lower_ascii_def)

lemma length_lower_ascii [simp]: "length (lower_ascii s) = length s"
  by (simp add: lower_ascii_def)

subsection \<open>strings.TrimSpace\<close>

text \<open>
  The UTF-8 encodings of the code points \<^verbatim>\<open>unicode.IsSpace\<close> accepts. Trimming removes such
  encodings from both ends for as long as there is one.
\<close>

definition space_encodings :: "string list" where
  "space_encodings =
     [[CHR 9], [CHR 10], [CHR 11], [CHR 12], [CHR 13], [CHR 32],
      [CHR 0xC2, CHR 0x85], [CHR 0xC2, CHR 0xA0], [CHR 0xE1, CHR 0x9A, CHR 0x80]]
     @ map (\<lambda>i. [CHR 0xE2, CHR 0x80, char_of (0x80 + i :: nat)]) [0..<11]
     @ [[CHR 0xE2, CHR 0x80, CHR 0xA8], [CHR 0xE2, CHR 0x80, CHR 0xA9],
        [CHR 0xE2, CHR 0x80, CHR 0xAF], [CHR 0xE2, CHR 0x81, CHR 0x9F],
        [CHR 0xE3, CHR 0x80, CHR 0x80]]"

function strip_prefixes :: "string list \<Rightarrow> string \<Rightarrow> string" where
  "strip_prefixes es s =
     (case find (\<lambda>e. e \<noteq> [] \<and> prefix e s) es of
        None \<Rightarrow> s
      | Some e \<Rightarrow> strip_prefixes es (drop (length e) s))"
  by pat_completeness auto
termination
  by (relation "measure (\<lambda>(es, s). length s)")
    (auto simp: find_Some_iff prefix_def)

declare strip_prefixes.simps [simp del]

definition TrimSpace :: "string \<Rightarrow> string" where
  "TrimSpace s =
     rev (strip_prefixes (map rev space_encodings) (rev (strip_prefixes space_encodings s)))"

lemma strip_prefixes_id:
  assumes "\<forall>e \<in> set es. e = [] \<or> \<not> prefix e s"
  shows "strip_prefixes es s = s"
proof -
  have "find (\<lambda>e. e \<noteq> [] \<and> prefix e s) es = None"
    using assms by (auto simp: find_None_iff)
  then show ?thesis by (subst strip_prefixes.simps) simp
qed

definition space_heads :: "char list" where
  "space_heads = [CHR 9, CHR 10, CHR 11, CHR 12, CHR 13, CHR 32, CHR 0xC2, CHR 0xE1, CHR 0xE2, CHR 0xE3]"

lemma space_encodings_hd: "e \<in> set space_encodings \<Longrightarrow> e \<noteq> [] \<and> hd e \<in> set space_heads"
  by (auto simp: space_encodings_def space_heads_def)

lemma space_encodings_last:
  "e \<in> set space_encodings \<Longrightarrow> last e \<in> {CHR 9, CHR 10, CHR 11, CHR 12, CHR 13, CHR 32} \<or> 128 \<le> byte_of (last e)"
  by (auto simp: space_encodings_def byte_of_def)

text \<open>A visible ASCII byte never begins or ends the encoding of a white-space code point.\<close>

definition visible :: "char \<Rightarrow> bool" where
  "visible c \<longleftrightarrow> 32 < byte_of c \<and> byte_of c < 127"

lemma visible_not_space_head: "visible c \<Longrightarrow> c \<notin> set space_heads"
  by (auto simp: visible_def space_heads_def byte_of_def)

lemma strip_front:
  assumes "s \<noteq> []" "visible (hd s)"
  shows "strip_prefixes space_encodings s = s"
proof (rule strip_prefixes_id, intro ballI disjI2 notI)
  fix e assume "e \<in> set space_encodings" "prefix e s"
  with space_encodings_hd[of e] have "hd s \<in> set space_heads"
    by (auto simp: prefix_def)
  with assms(2) show False using visible_not_space_head by blast
qed

lemma strip_back:
  assumes "s \<noteq> []" "visible (last s)"
  shows "strip_prefixes (map rev space_encodings) (rev s) = rev s"
proof (rule strip_prefixes_id, intro ballI disjI2 notI)
  fix r assume "r \<in> set (map rev space_encodings)" and pre: "prefix r (rev s)"
  then obtain e where e: "e \<in> set space_encodings" and r: "r = rev e" by auto
  from pre r have "suffix e s" by (simp add: suffix_to_prefix)
  with e space_encodings_hd[of e] have "last s = last e" by (auto simp: suffix_def)
  with space_encodings_last[OF e] assms(2) show False
    by (auto simp: visible_def byte_of_def)
qed

lemma TrimSpace_visible: "s \<noteq> [] \<Longrightarrow> visible (hd s) \<Longrightarrow> visible (last s) \<Longrightarrow> TrimSpace s = s"
  by (simp add: TrimSpace_def strip_front strip_back)

lemma TrimSpace_newline:
  assumes "s \<noteq> []" "visible (hd s)" "visible (last s)"
  shows "TrimSpace (s @ [CHR 10]) = s"
proof -
  have "find (\<lambda>e. e \<noteq> [] \<and> prefix e (CHR 10 # rev s)) (map rev space_encodings) = Some [CHR 10]"
    by (simp add: space_encodings_def)
  then have "strip_prefixes (map rev space_encodings) (CHR 10 # rev s) = rev s"
    by (subst strip_prefixes.simps) (simp add: strip_back assms)
  then show ?thesis using strip_front[of "s @ [CHR 10]"] assms by (simp add: TrimSpace_def)
qed

subsection \<open>strings.Split and strings.Contains\<close>

text \<open>\<open>Split\<close> cuts at every occurrence of a one-byte separator; \<open>Join\<close> is its inverse.\<close>

fun Split :: "char \<Rightarrow> string \<Rightarrow> string list" where
  "Split c [] = [[]]"
| "Split c (x # xs) =
     (if x = c then [] # Split c xs
      else (case Split c xs of [] \<Rightarrow> [[x]] | l # ls \<Rightarrow> (x # l) # ls))"

fun Join :: "char \<Rightarrow> string list \<Rightarrow> string" where
  "Join c [] = []"
| "Join c [l] = l"
| "Join c (l # ls) = l @ c # Join c ls"

definition Contains :: "string \<Rightarrow> string \<Rightarrow> bool" where
  "Contains s t \<longleftrightarrow> sublist t s"

lemma Split_nonempty [simp]: "Split c s \<noteq> []"
  by (induction s) (auto split: list.splits)

lemma Join_Cons: "ls \<noteq> [] \<Longrightarrow> Join c (l # ls) = l @ c # Join c ls"
  by (cases ls) auto

lemma Join_head: "Join c ((x # l) # ls) = x # Join c (l # ls)"
  by (cases ls) auto

lemma Join_Split [simp]: "Join c (Split c s) = s"
proof (induction s)
  case (Cons x xs)
  obtain l ls where eq: "Split c xs = l # ls" by (cases "Split c xs") auto
  with Cons.IH have "Join c (l # ls) = xs" by simp
  then show ?case using eq by (auto simp: Join_Cons Join_head)
qed simp

lemma Split_free: "l \<in> set (Split c s) \<Longrightarrow> c \<notin> set l"
  by (induction s arbitrary: l) (auto split: list.splits if_splits)

lemma Split_append_sep: "Split c (a @ c # b) = Split c a @ Split c b"
  by (induction a) (auto split: list.splits)

lemma Split_no_sep: "c \<notin> set l \<Longrightarrow> Split c l = [l]"
  by (induction l) auto

lemma Split_Join:
  "ls \<noteq> [] \<Longrightarrow> \<forall>l \<in> set ls. c \<notin> set l \<Longrightarrow> Split c (Join c ls) = ls"
  by (induction c ls rule: Join.induct) (auto simp: Split_no_sep Split_append_sep)

lemma Split_inject: "Split c s = Split c t \<longleftrightarrow> s = t"
  using Join_Split by metis

lemma set_Split: "x \<in> set s \<Longrightarrow> x = c \<or> (\<exists>l \<in> set (Split c s). x \<in> set l)"
  by (induction s) (auto split: list.splits)

lemma Split_suffix_iff:
  "suffix (Split c t) (Split c s) \<longleftrightarrow> s = t \<or> suffix (c # t) s"
proof
  assume "suffix (Split c t) (Split c s)"
  then obtain A where A: "Split c s = A @ Split c t" by (auto simp: suffix_def)
  show "s = t \<or> suffix (c # t) s"
  proof (cases "A = []")
    case True with A show ?thesis by (simp add: Split_inject)
  next
    case False
    have "c \<notin> set l" if "l \<in> set A" for l using that A by (intro Split_free[of l c s]) simp
    with False have "Split c (Join c A @ c # t) = Split c s"
      by (simp add: Split_append_sep Split_Join A)
    then show ?thesis by (auto simp: Split_inject suffix_def)
  qed
next
  assume "s = t \<or> suffix (c # t) s"
  then show "suffix (Split c t) (Split c s)"
    by (auto simp: suffix_def Split_append_sep)
qed

lemma hd_Split_Nil: "hd (Split c s) = [] \<Longrightarrow> s = [] \<or> hd s = c"
  by (cases s) (auto split: list.splits if_splits)

lemma hd_Join: "l \<noteq> [] \<Longrightarrow> hd (Join c (l # ls)) = hd l"
  by (cases ls) auto

lemma last_Join: "ls \<noteq> [] \<Longrightarrow> last ls \<noteq> [] \<Longrightarrow> Join c ls \<noteq> [] \<and> last (Join c ls) = last (last ls)"
  by (induction c ls rule: Join.induct) auto

end
