(* ===== verification/Policy.thy ===== *)
theory Policy
  imports Prelude
begin

text \<open>
  Package \<^verbatim>\<open>internal/policy\<close>: normalisation of host names (\<^verbatim>\<open>fqdn.go\<close>), the names of one
  certificate (\<^verbatim>\<open>names.go\<close>), suffix matching on label boundaries, the certificate policy the
  Conductor evaluates and the Runner's own authorization policy (\<^verbatim>\<open>authorize.go\<close>). The
  sentinel errors are kept, their formatted messages are not.
\<close>

subsection \<open>Sentinel errors and limits\<close>

datatype policy_error =
    ErrEmpty | ErrTooLong | ErrNonASCII | ErrIDNALabel | ErrInvalidLabel | ErrTooFewLabels
  | ErrNumericTLD | ErrInvalidWildcard | ErrWildcardInSuffix | ErrSuffixNotAllowed
  | ErrWildcardNotAllowed | ErrNoSuffixes
  | ErrDuplicateName | ErrTooManyNames
  | ErrBindingNotAllowed | ErrNotNormalized

definition maxFQDNLength :: nat where "maxFQDNLength = 253"
definition maxLabelLength :: nat where "maxLabelLength = 63"
definition wildcardLabel :: string where "wildcardLabel = ''*''"

abbreviation dot :: char where "dot \<equiv> CHR ''.''"
abbreviation hyphen :: char where "hyphen \<equiv> CHR ''-''"

subsection \<open>NormalizeFQDN\<close>

definition allDigits :: "string \<Rightarrow> bool" where
  "allDigits s \<longleftrightarrow> s \<noteq> [] \<and> list_all is_digit s"

definition label_char :: "char \<Rightarrow> bool" where
  "label_char c \<longleftrightarrow> is_lower c \<or> is_digit c \<or> c = hyphen"

definition validateLabel :: "string \<Rightarrow> policy_error option" where
  "validateLabel label =
     (if label = [] then Some ErrInvalidLabel
      else if length label > maxLabelLength then Some ErrInvalidLabel
      else if prefix ''xn--'' label then Some ErrIDNALabel
      else if hd label = hyphen \<or> last label = hyphen then Some ErrInvalidLabel
      else if \<not> list_all label_char label then Some ErrInvalidLabel
      else None)"

fun check_labels :: "nat \<Rightarrow> string list \<Rightarrow> policy_error option" where
  "check_labels i [] = None"
| "check_labels i (label # labels) =
     (if label = wildcardLabel then
        (if i \<noteq> 0 then Some ErrInvalidWildcard else check_labels (Suc i) labels)
      else if Contains label wildcardLabel then Some ErrInvalidWildcard
      else (case validateLabel label of
              Some e \<Rightarrow> Some e
            | None \<Rightarrow> check_labels (Suc i) labels))"

definition strip_dot :: "string \<Rightarrow> string" where
  "strip_dot s = (if suffix [dot] s then butlast s else s)"

definition NormalizeFQDN :: "string \<Rightarrow> policy_error + string" where
  "NormalizeFQDN input =
     (let s = TrimSpace input in
      if s = [] then Inl ErrEmpty
      else if list_ex (\<lambda>c. 128 \<le> byte_of c) s then Inl ErrNonASCII
      else let s = strip_dot (lower_ascii s) in
      if s = [] then Inl ErrEmpty
      else if length s > maxFQDNLength then Inl ErrTooLong
      else let labels = Split dot s in
      if length labels < 2 then Inl ErrTooFewLabels
      else (case check_labels 0 labels of
        Some e \<Rightarrow> Inl e
      | None \<Rightarrow>
          if hd labels = wildcardLabel \<and> length labels < 3 then Inl ErrInvalidWildcard
          else if allDigits (last labels) then Inl ErrNumericTLD
          else Inr s))"

definition IsWildcard :: "string \<Rightarrow> bool" where
  "IsWildcard fqdn \<longleftrightarrow> prefix (wildcardLabel @ [dot]) fqdn"

definition NormalizeSuffix :: "string \<Rightarrow> policy_error + string" where
  "NormalizeSuffix input =
     (case NormalizeFQDN input of
        Inl e \<Rightarrow> Inl e
      | Inr s \<Rightarrow> if IsWildcard s then Inl ErrWildcardInSuffix else Inr s)"

definition base_name :: "string \<Rightarrow> string" where
  "base_name fqdn = (if IsWildcard fqdn then drop (length wildcardLabel + 1) fqdn else fqdn)"

definition MatchesSuffix :: "string \<Rightarrow> string \<Rightarrow> bool" where
  "MatchesSuffix fqdn suf =
     (if fqdn = [] \<or> suf = [] then False
      else let base = base_name fqdn in
      if base = suf then True
      else if length base \<le> length suf then False
      else suffix ([dot] @ suf) base)"

subsection \<open>Policy and Evaluate\<close>

record policy =
  AllowedDnsSuffixes :: "string list"
  AllowWildcard :: bool

fun normalize_suffixes :: "string list \<Rightarrow> policy_error + string list" where
  "normalize_suffixes [] = Inr []"
| "normalize_suffixes (s # ss) =
     (case NormalizeSuffix s of
        Inl e \<Rightarrow> Inl e
      | Inr n \<Rightarrow> (case normalize_suffixes ss of Inl e \<Rightarrow> Inl e | Inr ns \<Rightarrow> Inr (n # ns)))"

definition Policy_Normalize :: "policy \<Rightarrow> policy_error + policy" where
  "Policy_Normalize p =
     (if AllowedDnsSuffixes p = [] then Inl ErrNoSuffixes
      else (case normalize_suffixes (AllowedDnsSuffixes p) of
              Inl e \<Rightarrow> Inl e
            | Inr ns \<Rightarrow> Inr \<lparr>AllowedDnsSuffixes = ns, AllowWildcard = AllowWildcard p\<rparr>))"

definition Evaluate :: "string \<Rightarrow> policy \<Rightarrow> policy_error + string" where
  "Evaluate fqdn p =
     (case NormalizeFQDN fqdn of
        Inl e \<Rightarrow> Inl e
      | Inr name \<Rightarrow>
          (case Policy_Normalize p of
             Inl e \<Rightarrow> Inl e
           | Inr np \<Rightarrow>
               if IsWildcard name \<and> \<not> AllowWildcard np then Inl ErrWildcardNotAllowed
               else if list_ex (MatchesSuffix name) (AllowedDnsSuffixes np) then Inr name
               else Inl ErrSuffixNotAllowed))"

subsection \<open>The names of one certificate\<close>

definition MaxNames :: nat where "MaxNames = 100"

definition Names :: "string \<Rightarrow> string list \<Rightarrow> string list" where
  "Names fqdn additional = fqdn # additional"

fun check_distinct :: "string set \<Rightarrow> string list \<Rightarrow> policy_error option" where
  "check_distinct seen [] = None"
| "check_distinct seen (n # ns) =
     (if n \<in> seen then Some ErrDuplicateName else check_distinct (insert n seen) ns)"

definition CheckDistinct :: "string list \<Rightarrow> policy_error option" where
  "CheckDistinct names = check_distinct {} names"

definition CheckCount :: "int \<Rightarrow> int \<Rightarrow> policy_error option" where
  "CheckCount n mx =
     (let mx = (if mx < 1 then 1 else mx) in if n > mx then Some ErrTooManyNames else None)"

subsection \<open>The Runner's authorization policy\<close>

record runner_policy =
  rp_AllowedDnsSuffixes :: "string list"
  rp_AllowWildcard :: bool
  AllowedACMEBindings :: "string list"
  AllowedDNSBindings :: "string list"
  AllowedStoreBindings :: "string list"
  rp_MaxNames :: int

record auth_request =
  req_FQDN :: string
  req_AdditionalNames :: "string list"
  req_ACMEBinding :: string
  req_DNSBinding :: string
  req_StoreBinding :: string

definition allowBinding :: "string \<Rightarrow> string list \<Rightarrow> policy_error option" where
  "allowBinding name allowed =
     (if name = [] then Some ErrBindingNotAllowed
      else if list_ex (\<lambda>a. a = name) allowed then None
      else Some ErrBindingNotAllowed)"

definition authorize_name :: "runner_policy \<Rightarrow> string \<Rightarrow> policy_error option" where
  "authorize_name p n =
     (case NormalizeFQDN n of
        Inl e \<Rightarrow> Some e
      | Inr name \<Rightarrow>
          if name \<noteq> n then Some ErrNotNormalized
          else err_of (Evaluate name
            \<lparr>AllowedDnsSuffixes = rp_AllowedDnsSuffixes p, AllowWildcard = rp_AllowWildcard p\<rparr>))"

definition Authorize :: "runner_policy \<Rightarrow> auth_request \<Rightarrow> policy_error option" where
  "Authorize p req =
     (let names = Names (req_FQDN req) (req_AdditionalNames req) in
      check_all
        ([CheckCount (int (length names)) (rp_MaxNames p)]
         @ map (authorize_name p) names
         @ [CheckDistinct names,
            allowBinding (req_ACMEBinding req) (AllowedACMEBindings p),
            allowBinding (req_DNSBinding req) (AllowedDNSBindings p),
            allowBinding (req_StoreBinding req) (AllowedStoreBindings p)]))"

subsection \<open>What a canonical host name is\<close>

text \<open>
  The declarative reading of the comment on \<^verbatim>\<open>NormalizeFQDN\<close>: at least two labels of at most 63
  letters, digits and hyphens, 253 octets in all, no all-digit top level, a wildcard only as the
  whole left-most label of a name with at least two further labels.
\<close>

definition host_label :: "string \<Rightarrow> bool" where
  "host_label l \<longleftrightarrow>
     l \<noteq> [] \<and> length l \<le> 63 \<and> \<not> prefix ''xn--'' l \<and> hd l \<noteq> hyphen \<and> last l \<noteq> hyphen \<and>
     (\<forall>c \<in> set l. label_char c)"

definition canonical_host :: "string \<Rightarrow> bool" where
  "canonical_host s \<longleftrightarrow>
     (let ls = Split dot s in
      length s \<le> 253 \<and> 2 \<le> length ls \<and>
      (host_label (hd ls) \<or> hd ls = ''*'' \<and> 3 \<le> length ls) \<and>
      (\<forall>l \<in> set (tl ls). host_label l) \<and> \<not> list_all is_digit (last ls))"

lemma validateLabel_iff: "validateLabel l = None \<longleftrightarrow> host_label l"
  by (auto simp: validateLabel_def host_label_def maxLabelLength_def list_all_iff)

lemma label_char_star: "\<not> label_char (CHR ''*'')"
  by (simp add: label_char_def in_range_def byte_of_def)

lemma host_label_no_star: "host_label l \<Longrightarrow> l \<noteq> wildcardLabel \<and> \<not> Contains l wildcardLabel"
  using label_char_star
  by (auto simp: host_label_def wildcardLabel_def Contains_def sublist_def)

lemma check_labels_step:
  "check_labels (Suc i) ls = None \<longleftrightarrow> (\<forall>l \<in> set ls. host_label l)"
proof (induction ls arbitrary: i)
  case (Cons l ls)
  then show ?case
    using host_label_no_star[of l] validateLabel_iff[of l] by (auto split: option.splits)
qed simp

lemma check_labels_start:
  "check_labels 0 (l # ls) = None \<longleftrightarrow> (host_label l \<or> l = ''*'') \<and> (\<forall>l \<in> set ls. host_label l)"
  using host_label_no_star[of l] validateLabel_iff[of l]
  by (auto simp: check_labels_step wildcardLabel_def split: option.splits)

lemma canonical_host_nonempty: "canonical_host s \<Longrightarrow> s \<noteq> []"
  by (auto simp: canonical_host_def)

lemma label_char_visible: "label_char c \<Longrightarrow> visible c \<and> \<not> is_upper c \<and> c \<noteq> dot"
  by (auto simp: label_char_def visible_def in_range_def byte_of_def)

lemma canonical_labels:
  assumes "canonical_host s" "l \<in> set (Split dot s)"
  shows "l \<noteq> [] \<and> (\<forall>c \<in> set l. visible c \<and> \<not> is_upper c \<and> c \<noteq> dot)"
proof -
  have "host_label l \<or> l = ''*''"
    using assms by (cases "Split dot s") (auto simp: canonical_host_def Let_def)
  then show ?thesis
  proof
    assume "host_label l"
    then show ?thesis using label_char_visible by (auto simp: host_label_def)
  qed (auto simp: visible_def in_range_def byte_of_def)
qed

lemma canonical_chars:
  assumes "canonical_host s" "c \<in> set s"
  shows "visible c \<and> \<not> is_upper c"
  using set_Split[OF assms(2), of dot] canonical_labels[OF assms(1)]
  by (auto simp: visible_def in_range_def byte_of_def)

lemma canonical_last: "canonical_host s \<Longrightarrow> last s \<noteq> dot"
  using last_Join[of "Split dot s" dot] canonical_labels[of s "last (Split dot s)"]
  by (metis Join_Split Split_nonempty last_in_set)

lemma canonical_fixpoints:
  assumes "canonical_host s"
  shows "TrimSpace s = s" "lower_ascii s = s" "strip_dot s = s" "\<not> list_ex (\<lambda>c. 128 \<le> byte_of c) s"
proof -
  have ne: "s \<noteq> []" using assms by (rule canonical_host_nonempty)
  have vis: "\<forall>c \<in> set s. visible c \<and> \<not> is_upper c" using canonical_chars[OF assms] by blast
  show "TrimSpace s = s" using ne vis by (intro TrimSpace_visible) auto
  show "lower_ascii s = s" using vis by (intro lower_ascii_id) auto
  show "strip_dot s = s"
    using canonical_last[OF assms] by (auto simp: strip_dot_def suffix_def)
  show "\<not> list_ex (\<lambda>c. 128 \<le> byte_of c) s"
    using vis by (force simp: list_ex_iff visible_def)
qed

lemma NormalizeFQDN_iff:
  "NormalizeFQDN s = Inr n \<longleftrightarrow>
     (\<forall>c \<in> set (TrimSpace s). byte_of c < 128) \<and>
     n = strip_dot (lower_ascii (TrimSpace s)) \<and> canonical_host n"
proof -
  define t where "t = strip_dot (lower_ascii (TrimSpace s))"
  obtain l ls where ls: "Split dot t = l # ls" by (cases "Split dot t") auto
  define lab where "lab = (check_labels 0 (l # ls) = None)"
  have lab: "lab \<longleftrightarrow> (host_label l \<or> l = ''*'') \<and> (\<forall>l \<in> set ls. host_label l)"
    by (simp only: lab_def check_labels_start)
  have empty: "TrimSpace s = [] \<Longrightarrow> t = []" by (simp add: t_def lower_ascii_def strip_dot_def)
  have can: "canonical_host t \<longleftrightarrow>
      length t \<le> 253 \<and> ls \<noteq> [] \<and> lab \<and>
      \<not> (l = ''*'' \<and> length (l # ls) < 3) \<and> \<not> allDigits (last (l # ls))"
    using host_label_no_star[of l] unfolding canonical_host_def Let_def ls lab
    by (cases ls rule: rev_cases) (auto simp: wildcardLabel_def allDigits_def host_label_def Suc_le_eq)
  have norm: "NormalizeFQDN s = Inr n \<longleftrightarrow>
      \<not> list_ex (\<lambda>c. 128 \<le> byte_of c) (TrimSpace s) \<and> t \<noteq> [] \<and> length t \<le> 253 \<and> ls \<noteq> [] \<and> lab \<and>
      \<not> (l = ''*'' \<and> length (l # ls) < 3) \<and> \<not> allDigits (last (l # ls)) \<and> n = t"
    unfolding NormalizeFQDN_def Let_def t_def[symmetric] ls lab_def
    using empty
    by (auto simp del: check_labels.simps simp: maxFQDNLength_def wildcardLabel_def
        split: option.splits)
  have "canonical_host t \<Longrightarrow> t \<noteq> []" by (rule canonical_host_nonempty)
  then show ?thesis
    unfolding norm t_def[symmetric] using can by (auto simp: list_ex_iff not_le)
qed

lemma NormalizeFQDN_fixpoint: "NormalizeFQDN n = Inr n \<longleftrightarrow> canonical_host n"
proof
  assume "canonical_host n"
  then show "NormalizeFQDN n = Inr n"
    using canonical_fixpoints[of n] by (auto simp: NormalizeFQDN_iff list_ex_iff not_le)
next
  assume "NormalizeFQDN n = Inr n"
  then show "canonical_host n" unfolding NormalizeFQDN_iff by blast
qed

lemma NormalizeFQDN_canonical: "NormalizeFQDN s = Inr n \<Longrightarrow> canonical_host n"
  unfolding NormalizeFQDN_iff by blast

text \<open>
  Property C33: \<^verbatim>\<open>NormalizeFQDN\<close> is exactly the documented canonicalisation. It succeeds on an
  input if and only if the trimmed input is ASCII and its lower-cased form without one trailing
  dot is a canonical host name, which it then returns; and its fixed points are exactly the
  canonical host names, so normalising twice changes nothing.
\<close>

theorem normalize_fqdn_exact:
  "(NormalizeFQDN s = Inr n \<longleftrightarrow>
      (\<forall>c. c \<in> set (TrimSpace s) \<longrightarrow> byte_of c < 128) \<and>
      n = strip_dot (lower_ascii (TrimSpace s)) \<and> canonical_host n) \<and>
   (NormalizeFQDN n = Inr n \<longleftrightarrow> canonical_host n)"
  by (auto simp: NormalizeFQDN_iff[of s] NormalizeFQDN_fixpoint)

theorem normalize_fqdn_exact_witness:
  "NormalizeFQDN ''Wiki.Example.ac.jp. '' = Inr ''wiki.example.ac.jp'' \<and>
   canonical_host ''wiki.example.ac.jp'' \<and> NormalizeFQDN ''wiki.example.ac.jp'' = Inr ''wiki.example.ac.jp''"
proof -
  have "NormalizeFQDN ''wiki.example.ac.jp'' = Inr ''wiki.example.ac.jp''"
    by code_simp
  then have can: "canonical_host ''wiki.example.ac.jp''"
    using normalize_fqdn_exact by blast
  have "TrimSpace ''Wiki.Example.ac.jp. '' = ''Wiki.Example.ac.jp.''" by code_simp
  moreover have "strip_dot (lower_ascii ''Wiki.Example.ac.jp.'') = ''wiki.example.ac.jp''" by code_simp
  ultimately have "NormalizeFQDN ''Wiki.Example.ac.jp. '' = Inr ''wiki.example.ac.jp''"
    using can normalize_fqdn_exact[of "''Wiki.Example.ac.jp. ''" "''wiki.example.ac.jp''"]
    by (auto simp: byte_of_def)
  with can show ?thesis using normalize_fqdn_exact by blast
qed

subsection \<open>Suffix matching on labels\<close>

definition host_labels :: "string \<Rightarrow> string list" where
  "host_labels f = (if IsWildcard f then tl (Split dot f) else Split dot f)"

lemma Split_base_name: "Split dot (base_name f) = host_labels f"
proof (cases "IsWildcard f")
  case True
  then obtain r where f: "f = ''*'' @ dot # r" by (auto simp: IsWildcard_def wildcardLabel_def prefix_def)
  then have "base_name f = r" using True by (simp add: base_name_def wildcardLabel_def)
  moreover have "Split dot f = ''*'' # Split dot r" unfolding f Split_append_sep by simp
  ultimately show ?thesis using True by (simp add: host_labels_def)
qed (simp add: base_name_def host_labels_def)

lemma MatchesSuffix_labels:
  "MatchesSuffix f u \<longleftrightarrow> f \<noteq> [] \<and> u \<noteq> [] \<and> suffix (Split dot u) (host_labels f)"
proof -
  have "suffix (dot # u) (base_name f) \<Longrightarrow> length u < length (base_name f)"
    by (auto simp: suffix_def)
  then show ?thesis
    unfolding MatchesSuffix_def Let_def Split_base_name[symmetric] Split_suffix_iff
    by auto
qed

text \<open>
  Suffix matching is done on whole labels. \<^verbatim>\<open>MatchesSuffix\<close> holds exactly when the
  list of labels of the suffix ends the list of labels of the name, the wildcard label left
  out; a raw string suffix such as \<^verbatim>\<open>example.ac.jp\<close> of \<^verbatim>\<open>evil-example.ac.jp\<close> does not match.
\<close>

theorem matches_suffix_labelwise:
  "MatchesSuffix f u \<longleftrightarrow>
     f \<noteq> [] \<and> u \<noteq> [] \<and>
     suffix (Split dot u) (if IsWildcard f then tl (Split dot f) else Split dot f)"
  by (simp add: MatchesSuffix_labels host_labels_def)

lemma normalize_suffixes_sound:
  "normalize_suffixes ss = Inr ns \<Longrightarrow> list_all2 (\<lambda>s n. NormalizeSuffix s = Inr n) ss ns"
  by (induction ss arbitrary: ns) (auto split: sum.splits)

lemma NormalizeSuffix_iff:
  "NormalizeSuffix s = Inr n \<longleftrightarrow> NormalizeFQDN s = Inr n \<and> \<not> IsWildcard n"
  by (auto simp: NormalizeSuffix_def split: sum.splits)

lemma Evaluate_iff:
  "Evaluate f p = Inr n \<longleftrightarrow>
     NormalizeFQDN f = Inr n \<and> AllowedDnsSuffixes p \<noteq> [] \<and>
     (\<forall>s \<in> set (AllowedDnsSuffixes p). \<exists>u. NormalizeSuffix s = Inr u) \<and>
     (IsWildcard n \<longrightarrow> AllowWildcard p) \<and>
     (\<exists>s \<in> set (AllowedDnsSuffixes p). \<exists>u. NormalizeSuffix s = Inr u \<and> MatchesSuffix n u)"
proof (cases "\<exists>ns. normalize_suffixes (AllowedDnsSuffixes p) = Inr ns")
  case True
  then obtain ns where ns: "normalize_suffixes (AllowedDnsSuffixes p) = Inr ns" by blast
  then have rel: "list_all2 (\<lambda>s n. NormalizeSuffix s = Inr n) (AllowedDnsSuffixes p) ns"
    by (rule normalize_suffixes_sound)
  have all: "\<forall>s \<in> set (AllowedDnsSuffixes p). \<exists>u. NormalizeSuffix s = Inr u"
    using rel by (auto simp: list_all2_conv_all_nth in_set_conv_nth)
  have ex: "list_ex (MatchesSuffix n) ns \<longleftrightarrow>
      (\<exists>s \<in> set (AllowedDnsSuffixes p). \<exists>u. NormalizeSuffix s = Inr u \<and> MatchesSuffix n u)" for n
    using rel by (induction rule: list_all2_induct) auto
  show ?thesis
    using all ex[of n]
    by (auto simp: Evaluate_def Policy_Normalize_def ns split: sum.splits if_splits)
next
  case False
  have total: "\<forall>s \<in> set ss. \<exists>u. NormalizeSuffix s = Inr u \<Longrightarrow> \<exists>ns. normalize_suffixes ss = Inr ns" for ss
    by (induction ss) auto
  have "\<not> (\<forall>s \<in> set (AllowedDnsSuffixes p). \<exists>u. NormalizeSuffix s = Inr u)"
    using False total by blast
  with False show ?thesis
    by (auto simp: Evaluate_def Policy_Normalize_def split: sum.splits)
qed

subsection \<open>Authorization\<close>

lemma check_distinct_iff:
  "check_distinct seen ns = None \<longleftrightarrow> distinct ns \<and> set ns \<inter> seen = {}"
  by (induction ns arbitrary: seen) auto

lemma CheckDistinct_iff [go_checks]: "CheckDistinct ns = None \<longleftrightarrow> distinct ns"
  by (simp add: CheckDistinct_def check_distinct_iff)

lemma CheckCount_iff [go_checks]: "CheckCount n mx = None \<longleftrightarrow> n \<le> max 1 mx"
  by (auto simp: CheckCount_def Let_def)

lemma allowBinding_iff [go_checks]: "allowBinding b bs = None \<longleftrightarrow> b \<noteq> [] \<and> b \<in> set bs"
  by (auto simp: allowBinding_def list_ex_iff)

text \<open>
  The names a policy admits: canonical, a wildcard only where wildcards are allowed, and under
  one of the suffixes on a label boundary. A policy with no suffix, or with an entry that is not
  a host name, admits nothing.
\<close>

definition admits :: "string list \<Rightarrow> bool \<Rightarrow> string \<Rightarrow> bool" where
  "admits sufs wild n \<longleftrightarrow>
     canonical_host n \<and> (IsWildcard n \<longrightarrow> wild) \<and>
     (\<forall>s \<in> set sufs. \<exists>u. NormalizeSuffix s = Inr u) \<and>
     (\<exists>s \<in> set sufs. \<exists>u. NormalizeSuffix s = Inr u \<and> suffix (Split dot u) (host_labels n))"

lemma canonical_suffix_nonempty: "NormalizeSuffix s = Inr u \<Longrightarrow> u \<noteq> []"
  using canonical_host_nonempty NormalizeFQDN_canonical by (auto simp: NormalizeSuffix_iff)

lemma Evaluate_admits:
  "Evaluate f p = Inr n \<longleftrightarrow> NormalizeFQDN f = Inr n \<and> admits (AllowedDnsSuffixes p) (AllowWildcard p) n"
proof -
  have "NormalizeSuffix s = Inr u \<and> MatchesSuffix n u \<longleftrightarrow>
      NormalizeSuffix s = Inr u \<and> suffix (Split dot u) (host_labels n)" if "canonical_host n" for s u
    using that canonical_host_nonempty[of n] canonical_suffix_nonempty[of s u]
    by (auto simp: MatchesSuffix_labels)
  then show ?thesis
    unfolding Evaluate_iff admits_def using NormalizeFQDN_canonical[of f n] by auto
qed

lemma authorize_name_iff:
  "authorize_name p n = None \<longleftrightarrow> admits (rp_AllowedDnsSuffixes p) (rp_AllowWildcard p) n"
proof (cases "NormalizeFQDN n = Inr n")
  case True
  then show ?thesis
    by (simp add: authorize_name_def) (auto simp: Evaluate_admits NormalizeFQDN_iff)
next
  case False
  then have "\<not> canonical_host n" by (simp add: NormalizeFQDN_fixpoint)
  with False show ?thesis by (auto simp: authorize_name_def admits_def split: sum.splits)
qed

lemma Authorize_iff:
  "Authorize p req = None \<longleftrightarrow>
     int (length (Names (req_FQDN req) (req_AdditionalNames req))) \<le> max 1 (rp_MaxNames p) \<and>
     (\<forall>n \<in> set (Names (req_FQDN req) (req_AdditionalNames req)).
        admits (rp_AllowedDnsSuffixes p) (rp_AllowWildcard p) n) \<and>
     distinct (Names (req_FQDN req) (req_AdditionalNames req)) \<and>
     req_ACMEBinding req \<noteq> [] \<and> req_ACMEBinding req \<in> set (AllowedACMEBindings p) \<and>
     req_DNSBinding req \<noteq> [] \<and> req_DNSBinding req \<in> set (AllowedDNSBindings p) \<and>
     req_StoreBinding req \<noteq> [] \<and> req_StoreBinding req \<in> set (AllowedStoreBindings p)"
  unfolding Authorize_def Let_def check_all_None by (auto simp: go_checks authorize_name_iff)

text \<open>
  The Runner authorizes a job exactly when the certificate carries no more names
  than its own limit (at least one), every name is canonical, admitted by its own suffix list
  and wildcard rule on label boundaries, no name repeats, and all three bindings are on its
  allow-lists. Nothing of the job's embedded policy snapshot takes part in the decision.
\<close>

theorem authorize_exact:
  "Authorize p req = None \<longleftrightarrow>
     (let names = req_FQDN req # req_AdditionalNames req in
      int (length names) \<le> max 1 (rp_MaxNames p) \<and>
      list_all (admits (rp_AllowedDnsSuffixes p) (rp_AllowWildcard p)) names \<and> distinct names \<and>
      req_ACMEBinding req \<in> set (AllowedACMEBindings p) - {[]} \<and>
      req_DNSBinding req \<in> set (AllowedDNSBindings p) - {[]} \<and>
      req_StoreBinding req \<in> set (AllowedStoreBindings p) - {[]})"
  unfolding Authorize_iff Names_def Let_def by (auto simp: list_all_iff)

text \<open>
  \<^verbatim>\<open>Evaluate\<close> is conservative and exact. It returns a name only as the normal form of
  the requested one, and only if the policy admits that name; an empty suffix list or one
  malformed suffix rejects everything, never allows everything.
\<close>

theorem evaluate_exact:
  "Evaluate f p = Inr n \<longleftrightarrow>
     NormalizeFQDN f = Inr n \<and> AllowedDnsSuffixes p \<noteq> [] \<and>
     admits (AllowedDnsSuffixes p) (AllowWildcard p) n"
  unfolding Evaluate_admits by (auto simp: admits_def)

end
