(* ===== verification/Base64.thy ===== *)
theory Base64
  imports Prelude
begin

text \<open>
  \<^verbatim>\<open>base64.RawURLEncoding\<close> as the contract uses it: the URL alphabet without padding, the strict
  decoder (left-over bits of the last character must be zero) and the lenient one. Go's decoder
  skips carriage returns and line feeds wherever they stand, in strict mode too.
\<close>

definition b64_alphabet :: string where
  "b64_alphabet = ''ABCDEFGHIJKLMNOPQRSTUVWXYZabcdefghijklmnopqrstuvwxyz0123456789-_''"

definition enc_digit :: "nat \<Rightarrow> char" where
  "enc_digit n = b64_alphabet ! n"

definition dec_digit :: "char \<Rightarrow> nat option" where
  "dec_digit c =
     (if is_upper c then Some (byte_of c - 65)
      else if is_lower c then Some (byte_of c - 71)
      else if is_digit c then Some (byte_of c + 4)
      else if c = CHR ''-'' then Some 62
      else if c = CHR ''_'' then Some 63
      else None)"

fun b64_digits :: "nat list \<Rightarrow> nat list" where
  "b64_digits (a # b # c # r) =
     (a div 4) # ((a mod 4) * 16 + b div 16) # ((b mod 16) * 4 + c div 64) # (c mod 64) # b64_digits r"
| "b64_digits [a, b] = [a div 4, (a mod 4) * 16 + b div 16, (b mod 16) * 4]"
| "b64_digits [a] = [a div 4, (a mod 4) * 16]"
| "b64_digits [] = []"

fun b64_bytes :: "bool \<Rightarrow> nat list \<Rightarrow> nat list option" where
  "b64_bytes strict (p # q # r # s # t) =
     map_option (\<lambda>u. (p * 4 + q div 16) # ((q mod 16) * 16 + r div 4) # ((r mod 4) * 64 + s) # u)
       (b64_bytes strict t)"
| "b64_bytes strict [p, q, r] =
     (if strict \<and> r mod 4 \<noteq> 0 then None else Some [p * 4 + q div 16, (q mod 16) * 16 + r div 4])"
| "b64_bytes strict [p, q] =
     (if strict \<and> q mod 16 \<noteq> 0 then None else Some [p * 4 + q div 16])"
| "b64_bytes strict [p] = None"
| "b64_bytes strict [] = Some []"

definition b64_encode :: "string \<Rightarrow> string" where
  "b64_encode s = map enc_digit (b64_digits (map byte_of s))"

definition is_crlf :: "char \<Rightarrow> bool" where
  "is_crlf c \<longleftrightarrow> c = CHR 10 \<or> c = CHR 13"

definition b64_decode :: "bool \<Rightarrow> string \<Rightarrow> string option" where
  "b64_decode strict s =
     Option.bind (those (map dec_digit (filter (Not \<circ> is_crlf) s)))
       (\<lambda>ds. map_option (map char_of) (b64_bytes strict ds))"

text \<open>\<^verbatim>\<open>RawURLEncoding.EncodedLen\<close>\<close>

definition b64_encoded_len :: "nat \<Rightarrow> nat" where
  "b64_encoded_len n = (n * 8 + 5) div 6"

subsection \<open>Digits\<close>

lemma b64_digits_less: "\<forall>b \<in> set bs. b < 256 \<Longrightarrow> d \<in> set (b64_digits bs) \<Longrightarrow> d < 64"
  by (induction bs rule: b64_digits.induct) auto

lemma length_b64_digits: "length (b64_digits bs) = b64_encoded_len (length bs)"
  by (induction bs rule: b64_digits.induct) (auto simp: b64_encoded_len_def)

lemma alphabet_table:
  "list_all (\<lambda>n. dec_digit (enc_digit n) = Some n \<and> \<not> is_crlf (enc_digit n)) [0..<64]"
  by code_simp

lemma dec_enc_digit: "n < 64 \<Longrightarrow> dec_digit (enc_digit n) = Some n \<and> \<not> is_crlf (enc_digit n)"
  using alphabet_table unfolding list_all_iff set_upt by (metis atLeastLessThan_iff le0)

lemma in_range_table: "in_range lo hi c \<Longrightarrow> c \<in> set (map char_of [byte_of lo..<Suc (byte_of hi)])"
proof -
  assume "in_range lo hi c"
  then have "byte_of c \<in> set [byte_of lo..<Suc (byte_of hi)]" by (auto simp: in_range_def)
  moreover have "c = char_of (byte_of c)" by (simp add: byte_of_def)
  ultimately show ?thesis unfolding set_map by (rule rev_image_eqI)
qed

lemma dec_digit_alphabet:
  assumes "dec_digit c = Some d"
  shows "c \<in> set b64_alphabet"
proof -
  have "set (map char_of [byte_of (CHR ''A'')..<Suc (byte_of (CHR ''Z''))]) \<subseteq> set b64_alphabet"
    "set (map char_of [byte_of (CHR ''a'')..<Suc (byte_of (CHR ''z''))]) \<subseteq> set b64_alphabet"
    "set (map char_of [byte_of (CHR ''0'')..<Suc (byte_of (CHR ''9''))]) \<subseteq> set b64_alphabet"
    by code_simp+
  moreover have "CHR ''-'' \<in> set b64_alphabet" "CHR ''_'' \<in> set b64_alphabet" by code_simp+
  ultimately show ?thesis
    using assms in_range_table unfolding dec_digit_def by (metis option.distinct(1) subsetD)
qed

lemma enc_dec_digit: "dec_digit c = Some d \<Longrightarrow> d < 64 \<and> enc_digit d = c"
proof -
  assume d: "dec_digit c = Some d"
  have "length b64_alphabet = 64" by code_simp
  then obtain n where n: "n < 64" "c = enc_digit n"
    using dec_digit_alphabet[OF d] by (auto simp: in_set_conv_nth enc_digit_def)
  then show ?thesis using d dec_enc_digit[of n] by simp
qed

subsection \<open>Round trips\<close>

lemma bytes_of_digits: "\<forall>b \<in> set bs. b < 256 \<Longrightarrow> b64_bytes strict (b64_digits bs) = Some bs"
  by (induction bs rule: b64_digits.induct) (auto simp: mult.commute)

lemma digits_of_bytes:
  "b64_bytes True ds = Some bs \<Longrightarrow> \<forall>d \<in> set ds. d < 64 \<Longrightarrow> b64_digits bs = ds \<and> (\<forall>b \<in> set bs. b < 256)"
proof (induction True ds arbitrary: bs rule: b64_bytes.induct)
  case (1 p q r s t)
  then obtain u where u: "b64_bytes True t = Some u"
    and bs: "bs = (p * 4 + q div 16) # ((q mod 16) * 16 + r div 4) # ((r mod 4) * 64 + s) # u" by auto
  from 1 u have IH: "b64_digits u = t \<and> (\<forall>b \<in> set u. b < 256)" by auto
  have lt: "p < 64" "q < 64" "r < 64" "s < 64" using 1 by auto
  have "q div 16 < 4" "q mod 16 < 16" "r div 4 < 16" "r mod 4 < 4" using lt by auto
  then show ?case using IH bs lt by auto
qed (auto split: if_splits)

lemma those_map_dec:
  "those (map dec_digit cs) = Some ds \<Longrightarrow> map enc_digit ds = cs \<and> (\<forall>d \<in> set ds. d < 64)"
  by (induction cs arbitrary: ds) (auto split: option.splits dest: enc_dec_digit)

lemma those_map_enc:
  "\<forall>d \<in> set ds. d < 64 \<Longrightarrow>
   those (map dec_digit (filter (Not \<circ> is_crlf) (map enc_digit ds))) = Some ds"
  by (induction ds) (auto simp: dec_enc_digit)

lemma b64_decode_encode: "b64_decode strict (b64_encode s) = Some s"
proof -
  have bytes: "\<forall>b \<in> set (map byte_of s). b < 256" by auto
  have "those (map dec_digit (filter (Not \<circ> is_crlf) (b64_encode s))) = Some (b64_digits (map byte_of s))"
    unfolding b64_encode_def using b64_digits_less[OF bytes] by (intro those_map_enc) blast
  then show ?thesis
    by (simp add: b64_decode_def bytes_of_digits[OF bytes] byte_of_def comp_def)
qed

lemma b64_encode_decode:
  assumes "b64_decode True s = Some bs"
  shows "b64_encode bs = filter (Not \<circ> is_crlf) s"
proof -
  obtain ds ns where ds: "those (map dec_digit (filter (Not \<circ> is_crlf) s)) = Some ds"
    and ns: "b64_bytes True ds = Some ns" and bs: "bs = map char_of ns"
    using assms by (auto simp: b64_decode_def bind_eq_Some_conv)
  have enc: "map enc_digit ds = filter (Not \<circ> is_crlf) s" and lt: "\<forall>d \<in> set ds. d < 64"
    using those_map_dec[OF ds] by auto
  have dig: "b64_digits ns = ds" and b: "\<forall>b \<in> set ns. b < 256"
    using digits_of_bytes[OF ns lt] by auto
  have "map byte_of bs = ns" using b unfolding bs by (auto simp: byte_of_def intro: map_idI)
  then show ?thesis by (simp add: b64_encode_def dig enc)
qed

lemma length_b64_encode: "length (b64_encode s) = b64_encoded_len (length s)"
  by (simp add: b64_encode_def length_b64_digits)

lemma b64_decode_lenient: "b64_decode True s = Some bs \<Longrightarrow> b64_decode False s = Some bs"
proof -
  have "b64_bytes True ds = Some ns \<Longrightarrow> b64_bytes False ds = Some ns" for ds ns
    by (induction True ds arbitrary: ns rule: b64_bytes.induct) (auto split: if_splits)
  then show "b64_decode True s = Some bs \<Longrightarrow> b64_decode False s = Some bs"
    by (auto simp: b64_decode_def bind_eq_Some_conv)
qed

lemma b64_encoded_len_mono: "m \<le> n \<Longrightarrow> b64_encoded_len m \<le> b64_encoded_len n"
  by (simp add: b64_encoded_len_def div_le_mono)

end
