(* ===== verification/Utf8.thy ===== *)
theory Utf8
  imports Prelude
begin

text \<open>
  UTF-8 as Go reads it: \<open>decode_rune\<close> is \<^verbatim>\<open>utf8.DecodeRuneInString\<close> (an ill-formed sequence yields
  U+FFFD and consumes one byte), \<open>runes\<close> is a \<^verbatim>\<open>for range\<close> loop over a string, \<open>strings_Map\<close> is
  \<^verbatim>\<open>strings.Map\<close>. The last part is \<^verbatim>\<open>unicode.IsPrint\<close> and \<^verbatim>\<open>unicode.ToLower\<close>, with the Unicode
  tables beyond the code points the program's checks depend on as a parameter.
\<close>

definition rune_error :: nat where "rune_error = 0xFFFD"

definition cont :: "nat \<Rightarrow> nat \<Rightarrow> char \<Rightarrow> bool" where
  "cont lo hi c \<longleftrightarrow> lo \<le> byte_of c \<and> byte_of c \<le> hi"

definition decode_rune :: "string \<Rightarrow> nat \<times> nat" where
  "decode_rune s =
     (case s of
        [] \<Rightarrow> (rune_error, 0)
      | a # t \<Rightarrow>
          let a = byte_of a in
          if a < 0x80 then (a, 1)
          else if a < 0xC2 then (rune_error, 1)
          else if a < 0xE0 then
            (case t of
               b # _ \<Rightarrow> if cont 0x80 0xBF b then ((a - 0xC0) * 64 + (byte_of b - 0x80), 2)
                        else (rune_error, 1)
             | _ \<Rightarrow> (rune_error, 1))
          else if a < 0xF0 then
            (case t of
               b # c # _ \<Rightarrow>
                 if cont (if a = 0xE0 then 0xA0 else 0x80) (if a = 0xED then 0x9F else 0xBF) b \<and>
                    cont 0x80 0xBF c
                 then ((a - 0xE0) * 4096 + (byte_of b - 0x80) * 64 + (byte_of c - 0x80), 3)
                 else (rune_error, 1)
             | _ \<Rightarrow> (rune_error, 1))
          else if a < 0xF5 then
            (case t of
               b # c # d # _ \<Rightarrow>
                 if cont (if a = 0xF0 then 0x90 else 0x80) (if a = 0xF4 then 0x8F else 0xBF) b \<and>
                    cont 0x80 0xBF c \<and> cont 0x80 0xBF d
                 then ((a - 0xF0) * 262144 + (byte_of b - 0x80) * 4096 + (byte_of c - 0x80) * 64
                        + (byte_of d - 0x80), 4)
                 else (rune_error, 1)
             | _ \<Rightarrow> (rune_error, 1))
          else (rune_error, 1))"

lemma decode_rune_width: "s \<noteq> [] \<Longrightarrow> 0 < snd (decode_rune s)"
  by (cases s) (auto simp: decode_rune_def Let_def split: list.splits)

function rune_pairs :: "string \<Rightarrow> (nat \<times> nat) list" where
  "rune_pairs [] = []"
| "rune_pairs (c # s) =
     decode_rune (c # s) # rune_pairs (drop (snd (decode_rune (c # s))) (c # s))"
  by pat_completeness auto
termination
  by (relation "measure length") (use decode_rune_width in \<open>auto simp: neq_Nil_conv\<close>)

definition runes :: "string \<Rightarrow> nat list" where
  "runes s = map fst (rune_pairs s)"

definition valid_utf8 :: "string \<Rightarrow> bool" where
  "valid_utf8 s \<longleftrightarrow> list_all (\<lambda>(r, w). \<not> (r = rune_error \<and> w = 1)) (rune_pairs s)"

definition encode_rune :: "nat \<Rightarrow> string" where
  "encode_rune r =
     (if r < 0x80 then [char_of r]
      else if r < 0x800 then [char_of (0xC0 + r div 64), char_of (0x80 + r mod 64)]
      else if 0x110000 \<le> r \<or> (0xD800 \<le> r \<and> r \<le> 0xDFFF) then [CHR 0xEF, CHR 0xBF, CHR 0xBD]
      else if r < 0x10000 then
        [char_of (0xE0 + r div 4096), char_of (0x80 + (r div 64) mod 64), char_of (0x80 + r mod 64)]
      else
        [char_of (0xF0 + r div 262144), char_of (0x80 + (r div 4096) mod 64),
         char_of (0x80 + (r div 64) mod 64), char_of (0x80 + r mod 64)])"

text \<open>\<^verbatim>\<open>strings.Map\<close>: a mapping that returns \<open>None\<close> (a negative rune) drops the character.\<close>

definition strings_Map :: "(nat \<Rightarrow> nat option) \<Rightarrow> string \<Rightarrow> string" where
  "strings_Map f s =
     concat (map (\<lambda>r. case f r of None \<Rightarrow> [] | Some r' \<Rightarrow> encode_rune r') (runes s))"

record unicode =
  print_table :: "nat \<Rightarrow> bool"
  lower_table :: "nat \<Rightarrow> nat"

definition IsPrint :: "unicode \<Rightarrow> nat \<Rightarrow> bool" where
  "IsPrint u r =
     (if r < 0x80 then 0x20 \<le> r \<and> r < 0x7F
      else if r \<le> 0xFF then 0xA1 \<le> r \<and> r \<noteq> 0xAD
      else print_table u r)"

definition lower_rune :: "unicode \<Rightarrow> nat \<Rightarrow> nat" where
  "lower_rune u r =
     (if r < 0x80 then (if 65 \<le> r \<and> r \<le> 90 then r + 32 else r)
      else if r = 0x130 then 105
      else if r = 0x212A then 107
      else lower_table u r)"

definition strings_ToLower :: "unicode \<Rightarrow> string \<Rightarrow> string" where
  "strings_ToLower u s =
     (if list_all (\<lambda>c. byte_of c < 128) s then lower_ascii s
      else strings_Map (\<lambda>r. Some (lower_rune u r)) s)"

subsection \<open>ASCII bytes are runes of their own\<close>

lemma decode_rune_ascii: "byte_of c < 128 \<Longrightarrow> decode_rune (c # s) = (byte_of c, 1)"
  by (simp add: decode_rune_def)

lemma runes_Nil [simp]: "runes [] = []"
  by (simp add: runes_def)

lemma runes_Cons_ascii [simp]: "byte_of c < 128 \<Longrightarrow> runes (c # s) = byte_of c # runes s"
  by (simp add: runes_def decode_rune_ascii)

text \<open>A byte below 0x80 is never consumed as part of a longer sequence.\<close>

lemma decode_rune_multibyte:
  assumes "128 \<le> byte_of a"
  shows "\<forall>c \<in> set (take (snd (decode_rune (a # s))) (a # s)). 128 \<le> byte_of c"
proof -
  consider "s = []" | b where "s = [b]" | b c where "s = [b, c]" | b c d t where "s = b # c # d # t"
    by (metis list.exhaust)
  then show ?thesis
  proof cases
    case 1 then show ?thesis using assms by (simp add: decode_rune_def Let_def)
  next
    case 2 then show ?thesis using assms by (simp add: decode_rune_def Let_def cont_def)
  next
    case 3 then show ?thesis using assms by (simp add: decode_rune_def Let_def cont_def)
  next
    case 4 then show ?thesis using assms by (simp add: decode_rune_def Let_def cont_def)
  qed
qed

lemma decode_rune_tail:
  assumes "c \<in> set (take (snd (decode_rune (a # s))) (a # s))" "byte_of c < 128"
  shows "c = a \<and> fst (decode_rune (a # s)) = byte_of a"
proof (cases "byte_of a < 128")
  case True
  then show ?thesis using assms by (simp add: decode_rune_ascii)
next
  case False
  then show ?thesis using assms decode_rune_multibyte[of a s] by fastforce
qed

lemma ascii_byte_is_rune:
  "c \<in> set s \<Longrightarrow> byte_of c < 128 \<Longrightarrow> byte_of c \<in> set (runes s)"
proof (induction s rule: rune_pairs.induct)
  case (2 a s)
  let ?w = "snd (decode_rune (a # s))"
  have "c \<in> set (take ?w (a # s)) \<or> c \<in> set (drop ?w (a # s))"
    using "2.prems"(1) by (metis Un_iff append_take_drop_id set_append)
  then show ?case
  proof
    assume "c \<in> set (take ?w (a # s))"
    then show ?thesis using decode_rune_tail[of c a s] "2.prems"(2) by (auto simp: runes_def)
  next
    assume "c \<in> set (drop ?w (a # s))"
    then show ?thesis using "2.IH" "2.prems"(2) by (auto simp: runes_def)
  qed
qed simp

end
