(* ===== verification/Contract.thy ===== *)
theory Contract
  imports Policy Base64 Utf8
begin

text \<open>
  Package \<^verbatim>\<open>pkg/api/v1alpha1\<close>: the JobSpec and Result documents (\<^verbatim>\<open>types.go\<close>) and their validation
  (\<^verbatim>\<open>validate.go\<close>). A \<^verbatim>\<open>ValidationError\<close> keeps its field path and its underlying cause; the
  message is left out. Slices the code compares with nil are optional lists, pointers are
  options, Go's string-typed enumerations stay strings.
\<close>

subsection \<open>Documents\<close>

record sealed_provisioning =
  sp_Version :: string
  sp_KeyID :: string
  sp_EphemeralPublicKey :: string
  sp_Nonce :: string
  sp_Ciphertext :: string

record account_ref =
  ar_Scope :: string
  ar_Generation :: int
  ar_Provisioning :: "sealed_provisioning option"

record target_ref =
  tr_ID :: string
  tr_FQDN :: string
  tr_AdditionalNames :: "string list option"
  tr_Revision :: int

record policy_spec =
  ps_AllowedDnsSuffixes :: "string list"
  ps_AllowWildcard :: bool
  ps_RenewBeforeDays :: int
  ps_KeyType :: string
  ps_MaxSANs :: "int option"

record job_spec =
  js_APIVersion :: string
  js_Kind :: string
  js_RunID :: string
  js_Target :: target_ref
  js_Policy :: policy_spec
  js_ACMEBinding :: string
  js_ACMEAccount :: "account_ref option"
  js_DNSBinding :: string
  js_StoreBinding :: string

record result_error =
  re_Code :: string
  re_Summary :: string

record account_result =
  ap_Binding :: string
  ap_Scope :: string
  ap_Generation :: int
  ap_Status :: string

record result_doc =
  rs_APIVersion :: string
  rs_Kind :: string
  rs_RunID :: string
  rs_TargetID :: string
  rs_Status :: string
  rs_Action :: string
  rs_ExpiresAt :: "gotime option"
  rs_FingerprintSha256 :: string
  rs_StoreObjectRef :: string
  rs_StartedAt :: gotime
  rs_FinishedAt :: gotime
  rs_Error :: "result_error option"
  rs_AccountProvisioning :: "account_result option"

subsection \<open>Constants\<close>

definition APIVersion :: string where
  "APIVersion = ''acme-conductor.cits-nue.github.io/v1alpha1''"
definition KindCertificateReconcileJob :: string where
  "KindCertificateReconcileJob = ''CertificateReconcileJob''"
definition KindCertificateReconcileResult :: string where
  "KindCertificateReconcileResult = ''CertificateReconcileResult''"

definition KeyTypes :: "string list" where
  "KeyTypes = [''ec256'', ''ec384'', ''rsa2048'', ''rsa3072'', ''rsa4096'']"

abbreviation StatusSucceeded :: string where "StatusSucceeded \<equiv> ''succeeded''"
abbreviation StatusFailed :: string where "StatusFailed \<equiv> ''failed''"
abbreviation ActionIssued :: string where "ActionIssued \<equiv> ''issued''"
abbreviation ActionRenewed :: string where "ActionRenewed \<equiv> ''renewed''"
abbreviation ActionNoop :: string where "ActionNoop \<equiv> ''noop''"
abbreviation ActionFailed :: string where "ActionFailed \<equiv> ''failed''"

abbreviation ErrorCodeInvalidJobSpec :: string where "ErrorCodeInvalidJobSpec \<equiv> ''InvalidJobSpec''"
abbreviation ErrorCodePolicyViolation :: string where "ErrorCodePolicyViolation \<equiv> ''PolicyViolation''"
abbreviation ErrorCodeBindingNotFound :: string where "ErrorCodeBindingNotFound \<equiv> ''BindingNotFound''"
abbreviation ErrorCodeACMEFailure :: string where "ErrorCodeACMEFailure \<equiv> ''AcmeFailure''"
abbreviation ErrorCodeDNSFailure :: string where "ErrorCodeDNSFailure \<equiv> ''DnsFailure''"
abbreviation ErrorCodeStoreFailure :: string where "ErrorCodeStoreFailure \<equiv> ''StoreFailure''"
abbreviation ErrorCodeTimeout :: string where "ErrorCodeTimeout \<equiv> ''Timeout''"
abbreviation ErrorCodeCancelled :: string where "ErrorCodeCancelled \<equiv> ''Cancelled''"
abbreviation ErrorCodeInternal :: string where "ErrorCodeInternal \<equiv> ''Internal''"

definition ErrorCodes :: "string list" where
  "ErrorCodes =
     [ErrorCodeInvalidJobSpec, ErrorCodePolicyViolation, ErrorCodeBindingNotFound,
      ErrorCodeACMEFailure, ErrorCodeDNSFailure, ErrorCodeStoreFailure,
      ErrorCodeTimeout, ErrorCodeCancelled, ErrorCodeInternal]"

abbreviation AccountProvisioningRegistered :: string where "AccountProvisioningRegistered \<equiv> ''registered''"
abbreviation AccountProvisioningFailed :: string where "AccountProvisioningFailed \<equiv> ''failed''"

definition AccountProvisioningStatuses :: "string list" where
  "AccountProvisioningStatuses = [AccountProvisioningRegistered, AccountProvisioningFailed]"

definition MaxAccountGeneration :: int where "MaxAccountGeneration = 1000000"
definition MaxIdentifierLength :: nat where "MaxIdentifierLength = 64"
definition MaxBindingNameLength :: nat where "MaxBindingNameLength = 63"
definition MaxAllowedSuffixes :: nat where "MaxAllowedSuffixes = 64"
definition MinRenewBeforeDays :: int where "MinRenewBeforeDays = 1"
definition MaxRenewBeforeDays :: int where "MaxRenewBeforeDays = 365"
definition MaxErrorSummaryLength :: nat where "MaxErrorSummaryLength = 1024"
definition MaxStoreObjectRefLength :: nat where "MaxStoreObjectRefLength = 128"
definition ephemeralPublicKeyLen :: nat where "ephemeralPublicKeyLen = 32"
definition provisioningNonceLen :: nat where "provisioningNonceLen = 12"
definition MinProvisioningCiphertext :: nat where "MinProvisioningCiphertext = 17"
definition MaxProvisioningCiphertext :: nat where "MaxProvisioningCiphertext = 4096 + 16"

definition ProvisioningVersion :: string where
  "ProvisioningVersion = ''x25519-hkdf-sha256-a256gcm/v1''"
definition ProvisioningVersionScoped :: string where
  "ProvisioningVersionScoped = ''x25519-hkdf-sha256-a256gcm/v2''"

definition provisioningVersionFor :: "string \<Rightarrow> string" where
  "provisioningVersionFor scope = (if scope = [] then ProvisioningVersion else ProvisioningVersionScoped)"

definition KeyType_Valid :: "string \<Rightarrow> bool" where
  "KeyType_Valid k \<longleftrightarrow> list_ex (\<lambda>v. k = v) KeyTypes"

definition ErrorCode_Valid :: "string \<Rightarrow> bool" where
  "ErrorCode_Valid c \<longleftrightarrow> list_ex (\<lambda>v. c = v) ErrorCodes"

definition AccountProvisioningStatus_Valid :: "string \<Rightarrow> bool" where
  "AccountProvisioningStatus_Valid s \<longleftrightarrow> list_ex (\<lambda>v. s = v) AccountProvisioningStatuses"

subsection \<open>Validation errors\<close>

datatype cause = PolicyCause policy_error | Base64Cause

datatype validation_error = ValidationError (ve_Field: string) (ve_Err: "cause option")

abbreviation invalid :: "string \<Rightarrow> validation_error" where
  "invalid field \<equiv> ValidationError field None"

abbreviation invalidErr :: "string \<Rightarrow> cause \<Rightarrow> validation_error" where
  "invalidErr field err \<equiv> ValidationError field (Some err)"

fun show_nat :: "nat \<Rightarrow> string" where
  "show_nat n = (if n < 10 then [char_of (48 + n)] else show_nat (n div 10) @ [char_of (48 + n mod 10)])"

declare show_nat.simps [simp del]

definition indexed :: "string \<Rightarrow> nat \<Rightarrow> string" where
  "indexed field i = field @ ''['' @ show_nat i @ '']''"

subsection \<open>Lexical rules\<close>

definition is_alnum :: "char \<Rightarrow> bool" where
  "is_alnum c \<longleftrightarrow> is_upper c \<or> is_lower c \<or> is_digit c"

definition is_lower_alnum :: "char \<Rightarrow> bool" where
  "is_lower_alnum c \<longleftrightarrow> is_lower c \<or> is_digit c"

definition is_lower_hex :: "char \<Rightarrow> bool" where
  "is_lower_hex c \<longleftrightarrow> is_digit c \<or> in_range (CHR ''a'') (CHR ''f'') c"

definition b64_char :: "char \<Rightarrow> bool" where
  "b64_char c \<longleftrightarrow> is_alnum c \<or> c = CHR ''_'' \<or> c = CHR ''-''"

text \<open>A pattern \<^verbatim>\<open>^E(M{0,k}E)?$\<close> with single-byte classes \<open>E\<close> and \<open>M\<close>.\<close>

definition re_ends :: "(char \<Rightarrow> bool) \<Rightarrow> (char \<Rightarrow> bool) \<Rightarrow> nat \<Rightarrow> string \<Rightarrow> bool" where
  "re_ends E M k s \<longleftrightarrow>
     s \<noteq> [] \<and> E (hd s) \<and>
     (tl s = [] \<or> E (last s) \<and> list_all M (butlast (tl s)) \<and> length (butlast (tl s)) \<le> k)"

definition identifierRe :: "string \<Rightarrow> bool" where
  "identifierRe s \<longleftrightarrow> s \<noteq> [] \<and> is_alnum (hd s) \<and> list_all b64_char (tl s) \<and> length (tl s) \<le> 63"

definition bindingNameRe :: "string \<Rightarrow> bool" where
  "bindingNameRe s \<longleftrightarrow> re_ends is_lower_alnum (\<lambda>c. is_lower_alnum c \<or> c = CHR ''-'') 61 s"

definition fingerprintRe :: "string \<Rightarrow> bool" where
  "fingerprintRe s \<longleftrightarrow> length s = 64 \<and> list_all is_lower_hex s"

definition storeObjectRefRe :: "string \<Rightarrow> bool" where
  "storeObjectRefRe s \<longleftrightarrow>
     re_ends is_alnum (\<lambda>c. is_alnum c \<or> c = CHR ''.'' \<or> c = CHR ''_'' \<or> c = CHR ''-'') 126 s"

definition provisioningKeyIDRe :: "string \<Rightarrow> bool" where
  "provisioningKeyIDRe s \<longleftrightarrow> length s = 16 \<and> list_all is_lower_hex s"

definition base64URLRe :: "string \<Rightarrow> bool" where
  "base64URLRe s \<longleftrightarrow> s \<noteq> [] \<and> list_all b64_char s"

definition validateIdentifier :: "string \<Rightarrow> string \<Rightarrow> validation_error option" where
  "validateIdentifier field v =
     (if v = [] then Some (invalid field)
      else if length v > MaxIdentifierLength \<or> \<not> identifierRe v then Some (invalid field)
      else None)"

definition IsBindingName :: "string \<Rightarrow> bool" where
  "IsBindingName v \<longleftrightarrow> v \<noteq> [] \<and> length v \<le> MaxBindingNameLength \<and> bindingNameRe v"

definition validateBindingName :: "string \<Rightarrow> string \<Rightarrow> validation_error option" where
  "validateBindingName field v =
     (if v = [] then Some (invalid field)
      else if length v > MaxBindingNameLength \<or> \<not> bindingNameRe v then Some (invalid field)
      else None)"

definition validateNormalizedFQDN :: "string \<Rightarrow> string \<Rightarrow> validation_error option" where
  "validateNormalizedFQDN field v =
     (if v = [] then Some (invalid field)
      else (case NormalizeFQDN v of
              Inl e \<Rightarrow> Some (invalidErr field (PolicyCause e))
            | Inr n \<Rightarrow> if n \<noteq> v then Some (invalid field) else None))"

definition validateStoreObjectRef :: "string \<Rightarrow> string \<Rightarrow> validation_error option" where
  "validateStoreObjectRef field v =
     (if v = [] then None
      else if length v > MaxStoreObjectRefLength then Some (invalid field)
      else if Contains v ''..'' then Some (invalid field)
      else if \<not> storeObjectRefRe v then Some (invalid field)
      else None)"

definition IsStoreObjectRef :: "string \<Rightarrow> bool" where
  "IsStoreObjectRef v \<longleftrightarrow> validateStoreObjectRef ''storeObjectRef'' v = None \<and> v \<noteq> []"

definition validateExactB64 :: "string \<Rightarrow> string \<Rightarrow> nat \<Rightarrow> validation_error option" where
  "validateExactB64 field v n =
     (if length v \<noteq> b64_encoded_len n \<or> \<not> base64URLRe v then Some (invalid field)
      else if b64_decode True v = None then Some (invalidErr field Base64Cause)
      else None)"

definition validateBoundedB64 :: "string \<Rightarrow> string \<Rightarrow> nat \<Rightarrow> nat \<Rightarrow> validation_error option" where
  "validateBoundedB64 field v mn mx =
     (if v = [] \<or> \<not> base64URLRe v then Some (invalid field)
      else if length v > b64_encoded_len mx then Some (invalid field)
      else (case b64_decode True v of
              None \<Rightarrow> Some (invalidErr field Base64Cause)
            | Some d \<Rightarrow> if length d < mn \<or> length d > mx then Some (invalid field) else None))"

subsection \<open>Free text\<close>

text \<open>\<^verbatim>\<open>secretMarkers\<close>: the text and whether it is compared ignoring case.\<close>

definition secretMarkers :: "(string \<times> bool) list" where
  "secretMarkers =
     [(''-----BEGIN'', False), (''private key'', True), (''eyJ'', False), (''AKIA'', False),
      (''ghp_'', False), (''github_pat_'', False), (''bearer '', True), (''basic '', True),
      (''authorization:'', True), (''password='', True), (''passwd='', True), (''pwd='', True),
      (''secret='', True), (''token='', True), (''sig='', True), (''signature='', True),
      (''key='', True), (''credential='', True)]"

definition validateOpaqueText :: "unicode \<Rightarrow> string \<Rightarrow> string \<Rightarrow> nat \<Rightarrow> validation_error option" where
  "validateOpaqueText u field v maxLen =
     (if length v > maxLen then Some (invalid field)
      else if list_ex (\<lambda>r. r = rune_error \<or> \<not> IsPrint u r) (runes v) then Some (invalid field)
      else let lower = strings_ToLower u v in
      if list_ex (\<lambda>(needle, ignoreCase). Contains (if ignoreCase then lower else v) needle) secretMarkers
      then Some (invalid field)
      else None)"

subsection \<open>JobSpec.Validate\<close>

fun check_suffixes :: "nat \<Rightarrow> string set \<Rightarrow> string list \<Rightarrow> validation_error option" where
  "check_suffixes i seen [] = None"
| "check_suffixes i seen (s # ss) =
     (let field = indexed ''policy.allowedDnsSuffixes'' i in
      case NormalizeSuffix s of
        Inl e \<Rightarrow> Some (invalidErr field (PolicyCause e))
      | Inr n \<Rightarrow>
          if n \<noteq> s then Some (invalid field)
          else if n \<in> seen then Some (invalid field)
          else check_suffixes (Suc i) (insert n seen) ss)"

definition PolicySpec_validate :: "policy_spec \<Rightarrow> validation_error option" where
  "PolicySpec_validate p =
     check_all
       [reject_if (ps_AllowedDnsSuffixes p = []) (invalid ''policy.allowedDnsSuffixes''),
        reject_if (length (ps_AllowedDnsSuffixes p) > MaxAllowedSuffixes) (invalid ''policy.allowedDnsSuffixes''),
        check_suffixes 0 {} (ps_AllowedDnsSuffixes p),
        reject_if (ps_RenewBeforeDays p < MinRenewBeforeDays \<or> ps_RenewBeforeDays p > MaxRenewBeforeDays)
          (invalid ''policy.renewBeforeDays''),
        reject_if (\<not> KeyType_Valid (ps_KeyType p)) (invalid ''policy.keyType''),
        (case ps_MaxSANs p of
           None \<Rightarrow> None
         | Some m \<Rightarrow> reject_if (m < 1 \<or> m > int MaxNames) (invalid ''policy.maxSANs''))]"

definition SealedProvisioning_validate :: "string \<Rightarrow> sealed_provisioning \<Rightarrow> validation_error option" where
  "SealedProvisioning_validate field p =
     check_all
       [reject_if (sp_Version p \<noteq> ProvisioningVersion \<and> sp_Version p \<noteq> ProvisioningVersionScoped)
          (invalid (field @ ''.version'')),
        reject_if (\<not> provisioningKeyIDRe (sp_KeyID p)) (invalid (field @ ''.keyId'')),
        validateExactB64 (field @ ''.ephemeralPublicKey'') (sp_EphemeralPublicKey p) ephemeralPublicKeyLen,
        validateExactB64 (field @ ''.nonce'') (sp_Nonce p) provisioningNonceLen,
        validateBoundedB64 (field @ ''.ciphertext'') (sp_Ciphertext p)
          MinProvisioningCiphertext MaxProvisioningCiphertext]"

definition ACMEAccountRef_validate :: "string \<Rightarrow> account_ref \<Rightarrow> validation_error option" where
  "ACMEAccountRef_validate field a =
     check_all
       [reject_if (ar_Generation a < 1 \<or> ar_Generation a > MaxAccountGeneration)
          (invalid (field @ ''.generation'')),
        (if ar_Scope a \<noteq> [] then validateIdentifier (field @ ''.scope'') (ar_Scope a) else None),
        (case ar_Provisioning a of
           None \<Rightarrow> None
         | Some p \<Rightarrow>
             check_all
               [SealedProvisioning_validate (field @ ''.provisioning'') p,
                reject_if (sp_Version p \<noteq> provisioningVersionFor (ar_Scope a))
                  (invalid (field @ ''.provisioning.version''))])]"

definition spec_policy :: "job_spec \<Rightarrow> policy" where
  "spec_policy s = \<lparr>AllowedDnsSuffixes = ps_AllowedDnsSuffixes (js_Policy s),
                    AllowWildcard = ps_AllowWildcard (js_Policy s)\<rparr>"

definition additional :: "job_spec \<Rightarrow> string list" where
  "additional s = (case tr_AdditionalNames (js_Target s) of None \<Rightarrow> [] | Some ns \<Rightarrow> ns)"

definition spec_names :: "job_spec \<Rightarrow> string list" where
  "spec_names s = Names (tr_FQDN (js_Target s)) (additional s)"

definition check_indexed :: "(nat \<Rightarrow> 'a \<Rightarrow> 'e option) \<Rightarrow> 'a list \<Rightarrow> 'e option" where
  "check_indexed f xs = check_all (map (\<lambda>(i, x). f i x) (enumerate 0 xs))"

definition JobSpec_Validate :: "job_spec \<Rightarrow> validation_error option" where
  "JobSpec_Validate s =
     check_all
       [reject_if (js_APIVersion s \<noteq> APIVersion) (invalid ''apiVersion''),
        reject_if (js_Kind s \<noteq> KindCertificateReconcileJob) (invalid ''kind''),
        validateIdentifier ''runId'' (js_RunID s),
        validateIdentifier ''target.id'' (tr_ID (js_Target s)),
        reject_if (tr_Revision (js_Target s) < 1) (invalid ''target.revision''),
        validateNormalizedFQDN ''target.fqdn'' (tr_FQDN (js_Target s)),
        reject_if (tr_AdditionalNames (js_Target s) = Some []) (invalid ''target.additionalNames''),
        reject_if (length (additional s) > MaxNames - 1) (invalid ''target.additionalNames''),
        check_indexed (\<lambda>i n. validateNormalizedFQDN (indexed ''target.additionalNames'' i) n) (additional s),
        map_err (\<lambda>e. invalidErr ''target.additionalNames'' (PolicyCause e)) (CheckDistinct (spec_names s)),
        PolicySpec_validate (js_Policy s),
        validateBindingName ''acme.binding'' (js_ACMEBinding s),
        (case js_ACMEAccount s of
           None \<Rightarrow> None
         | Some a \<Rightarrow>
             check_all
               [ACMEAccountRef_validate ''acme.account'' a,
                reject_if (ar_Scope a \<noteq> [] \<and> ar_Scope a \<noteq> tr_ID (js_Target s)) (invalid ''acme.account.scope'')]),
        validateBindingName ''dns.binding'' (js_DNSBinding s),
        validateBindingName ''store.binding'' (js_StoreBinding s),
        map_err (\<lambda>e. invalidErr ''target.fqdn'' (PolicyCause e))
          (err_of (Evaluate (tr_FQDN (js_Target s)) (spec_policy s))),
        check_indexed
          (\<lambda>i n. map_err (\<lambda>e. invalidErr (indexed ''target.additionalNames'' i) (PolicyCause e))
             (err_of (Evaluate n (spec_policy s))))
          (additional s),
        map_err (\<lambda>e. invalidErr ''target.additionalNames'' (PolicyCause e))
          (CheckCount (int (length (spec_names s)))
             (case ps_MaxSANs (js_Policy s) of None \<Rightarrow> 1 | Some m \<Rightarrow> m))]"

subsection \<open>Result.Validate\<close>

definition result_status_checks :: "result_doc \<Rightarrow> validation_error option" where
  "result_status_checks r =
     (if rs_Status r = StatusSucceeded then
        check_all
          [reject_if (rs_Action r = ActionFailed) (invalid ''action''),
           reject_if (rs_Error r \<noteq> None) (invalid ''error''),
           reject_if (rs_ExpiresAt r = None) (invalid ''expiresAt''),
           reject_if (rs_FingerprintSha256 r = []) (invalid ''fingerprintSha256''),
           reject_if (rs_StoreObjectRef r = []) (invalid ''storeObjectRef'')]
      else if rs_Status r = StatusFailed then
        check_all
          [reject_if (rs_Action r \<noteq> ActionFailed) (invalid ''action''),
           reject_if (rs_Error r = None) (invalid ''error'')]
      else Some (invalid ''status''))"

definition Result_Validate :: "unicode \<Rightarrow> result_doc \<Rightarrow> validation_error option" where
  "Result_Validate u r =
     check_all
       [reject_if (rs_APIVersion r \<noteq> APIVersion) (invalid ''apiVersion''),
        reject_if (rs_Kind r \<noteq> KindCertificateReconcileResult) (invalid ''kind''),
        validateIdentifier ''runId'' (rs_RunID r),
        validateIdentifier ''targetId'' (rs_TargetID r),
        result_status_checks r,
        reject_if (rs_Action r \<notin> {ActionIssued, ActionRenewed, ActionNoop, ActionFailed}) (invalid ''action''),
        reject_if (rs_ExpiresAt r = Some 0) (invalid ''expiresAt''),
        reject_if (rs_FingerprintSha256 r \<noteq> [] \<and> \<not> fingerprintRe (rs_FingerprintSha256 r))
          (invalid ''fingerprintSha256''),
        validateStoreObjectRef ''storeObjectRef'' (rs_StoreObjectRef r),
        reject_if (rs_StartedAt r = 0) (invalid ''startedAt''),
        reject_if (rs_FinishedAt r = 0) (invalid ''finishedAt''),
        reject_if (rs_FinishedAt r < rs_StartedAt r) (invalid ''finishedAt''),
        (case rs_Error r of
           None \<Rightarrow> None
         | Some e \<Rightarrow>
             check_all
               [reject_if (\<not> ErrorCode_Valid (re_Code e)) (invalid ''error.code''),
                reject_if (TrimSpace (re_Summary e) = []) (invalid ''error.summary''),
                validateOpaqueText u ''error.summary'' (re_Summary e) MaxErrorSummaryLength]),
        (case rs_AccountProvisioning r of
           None \<Rightarrow> None
         | Some a \<Rightarrow>
             check_all
               [validateBindingName ''accountProvisioning.binding'' (ap_Binding a),
                (if ap_Scope a \<noteq> [] then validateIdentifier ''accountProvisioning.scope'' (ap_Scope a) else None),
                reject_if (ap_Generation a < 1 \<or> ap_Generation a > MaxAccountGeneration)
                  (invalid ''accountProvisioning.generation''),
                reject_if (\<not> AccountProvisioningStatus_Valid (ap_Status a))
                  (invalid ''accountProvisioning.status'')])]"

subsection \<open>What validation guarantees\<close>

lemma check_suffixes_iff:
  "check_suffixes i seen ss = None \<longleftrightarrow>
     (\<forall>s \<in> set ss. NormalizeSuffix s = Inr s) \<and> distinct ss \<and> set ss \<inter> seen = {}"
  by (induction ss arbitrary: i seen) (auto simp: Let_def split: sum.splits)

lemma validateNormalizedFQDN_iff [go_checks]: "validateNormalizedFQDN f v = None \<longleftrightarrow> canonical_host v"
  using canonical_host_nonempty[of v] NormalizeFQDN_fixpoint[of v]
  by (auto simp: validateNormalizedFQDN_def split: sum.splits)

lemma validateIdentifier_iff [go_checks]: "validateIdentifier f v = None \<longleftrightarrow> identifierRe v"
  by (auto simp: validateIdentifier_def identifierRe_def MaxIdentifierLength_def)

lemma validateBindingName_iff [go_checks]: "validateBindingName f v = None \<longleftrightarrow> IsBindingName v"
  by (auto simp: validateBindingName_def IsBindingName_def)

lemma check_indexed_None [go_checks]:
  "check_indexed f xs = None \<longleftrightarrow> (\<forall>i < length xs. f i (xs ! i) = None)"
proof -
  have "check_indexed f xs = None \<longleftrightarrow> (\<forall>p \<in> set (enumerate 0 xs). f (fst p) (snd p) = None)"
    by (auto simp: check_indexed_def check_all_None split_def)
  also have "\<dots> \<longleftrightarrow> (\<forall>i < length xs. f i (xs ! i) = None)"
    by (simp add: all_set_conv_all_nth nth_enumerate_eq)
  finally show ?thesis .
qed

lemma all_nth_iff: "(\<forall>i < length xs. P (xs ! i)) \<longleftrightarrow> (\<forall>x \<in> set xs. P x)"
  by (auto simp: all_set_conv_all_nth)

lemma spec_names_simps: "set (spec_names s) = insert (tr_FQDN (js_Target s)) (set (additional s))"
  "length (spec_names s) = Suc (length (additional s))"
  by (simp_all add: spec_names_def Names_def)

text \<open>The snapshot's bound on the number of names; absent means one.\<close>

definition snapshot_max :: "job_spec \<Rightarrow> int" where
  "snapshot_max s = (case ps_MaxSANs (js_Policy s) of None \<Rightarrow> 1 | Some m \<Rightarrow> m)"

lemma PolicySpec_validateD:
  assumes "PolicySpec_validate p = None"
  shows "\<forall>s \<in> set (ps_AllowedDnsSuffixes p). NormalizeSuffix s = Inr s"
    "1 \<le> ps_RenewBeforeDays p" "ps_RenewBeforeDays p \<le> 365" "ps_KeyType p \<in> set KeyTypes"
    "\<And>m. ps_MaxSANs p = Some m \<Longrightarrow> 1 \<le> m \<and> m \<le> 100"
  using assms
  by (auto simp: PolicySpec_validate_def check_all_None check_suffixes_iff KeyType_Valid_def list_ex_iff
      MinRenewBeforeDays_def MaxRenewBeforeDays_def MaxNames_def)

lemma JobSpec_ValidateD:
  assumes "JobSpec_Validate s = None"
  shows "identifierRe (js_RunID s)" "identifierRe (tr_ID (js_Target s))" "1 \<le> tr_Revision (js_Target s)"
    "\<forall>n \<in> set (spec_names s).
       admits (ps_AllowedDnsSuffixes (js_Policy s)) (ps_AllowWildcard (js_Policy s)) n"
    "distinct (spec_names s)" "int (length (spec_names s)) \<le> max 1 (snapshot_max s)"
    "length (spec_names s) \<le> 100" "PolicySpec_validate (js_Policy s) = None"
    "IsBindingName (js_ACMEBinding s)" "IsBindingName (js_DNSBinding s)" "IsBindingName (js_StoreBinding s)"
    "\<And>a. js_ACMEAccount s = Some a \<Longrightarrow>
       ACMEAccountRef_validate ''acme.account'' a = None \<and> ar_Scope a \<in> {[], tr_ID (js_Target s)}"
    "js_APIVersion s = APIVersion" "js_Kind s = KindCertificateReconcileJob"
    "tr_AdditionalNames (js_Target s) \<noteq> Some []"
proof -
  let ?S = "ps_AllowedDnsSuffixes (js_Policy s)" and ?W = "ps_AllowWildcard (js_Policy s)"
  note v = assms[unfolded JobSpec_Validate_def check_all_None]
  have ev: "\<exists>n'. Evaluate n (spec_policy s) = Inr n'" if "n \<in> set (spec_names s)" for n
    using v that by (auto simp: go_checks spec_names_simps all_nth_iff in_set_conv_nth)
  have can: "canonical_host n" if "n \<in> set (spec_names s)" for n
    using v that by (auto simp: go_checks spec_names_simps in_set_conv_nth)
  show "\<forall>n \<in> set (spec_names s). admits ?S ?W n"
  proof
    fix n assume n: "n \<in> set (spec_names s)"
    obtain n' where "Evaluate n (spec_policy s) = Inr n'" using ev[OF n] by blast
    then have "NormalizeFQDN n = Inr n'" "admits ?S ?W n'"
      by (auto simp: Evaluate_admits spec_policy_def)
    moreover have "NormalizeFQDN n = Inr n" using can[OF n] by (simp add: NormalizeFQDN_fixpoint)
    ultimately show "admits ?S ?W n" by simp
  qed
  show "identifierRe (js_RunID s)" "identifierRe (tr_ID (js_Target s))" "1 \<le> tr_Revision (js_Target s)"
    "distinct (spec_names s)" "int (length (spec_names s)) \<le> max 1 (snapshot_max s)"
    "length (spec_names s) \<le> 100" "PolicySpec_validate (js_Policy s) = None"
    "IsBindingName (js_ACMEBinding s)" "IsBindingName (js_DNSBinding s)" "IsBindingName (js_StoreBinding s)"
    "js_APIVersion s = APIVersion" "js_Kind s = KindCertificateReconcileJob"
    "tr_AdditionalNames (js_Target s) \<noteq> Some []"
    using v by (auto simp: go_checks spec_names_simps snapshot_max_def MaxNames_def)
  show "ACMEAccountRef_validate ''acme.account'' a = None \<and> ar_Scope a \<in> {[], tr_ID (js_Target s)}"
    if "js_ACMEAccount s = Some a" for a
    using v that by (auto simp: check_all_None)
qed

subsection \<open>Validation against the Runner's authorization\<close>

text \<open>The request \<^verbatim>\<open>reconcile\<close> hands to the Runner's policy.\<close>

definition request_of :: "job_spec \<Rightarrow> auth_request" where
  "request_of s = \<lparr>req_FQDN = tr_FQDN (js_Target s), req_AdditionalNames = additional s,
                   req_ACMEBinding = js_ACMEBinding s, req_DNSBinding = js_DNSBinding s,
                   req_StoreBinding = js_StoreBinding s\<rparr>"

text \<open>
  A Runner policy is at least as wide as a job's snapshot when it lists the snapshot's suffixes
  (and only well-formed ones), allows what the snapshot allows, and lists the three bindings.
\<close>

definition at_least_as_wide :: "runner_policy \<Rightarrow> job_spec \<Rightarrow> bool" where
  "at_least_as_wide p s \<longleftrightarrow>
     set (ps_AllowedDnsSuffixes (js_Policy s)) \<subseteq> set (rp_AllowedDnsSuffixes p) \<and>
     list_all (\<lambda>x. NormalizeSuffix x = Inr x) (rp_AllowedDnsSuffixes p) \<and>
     (ps_AllowWildcard (js_Policy s) \<longrightarrow> rp_AllowWildcard p) \<and> snapshot_max s \<le> rp_MaxNames p \<and>
     js_ACMEBinding s \<in> set (AllowedACMEBindings p) \<and> js_DNSBinding s \<in> set (AllowedDNSBindings p) \<and>
     js_StoreBinding s \<in> set (AllowedStoreBindings p)"

lemma admits_mono:
  "admits S w n \<Longrightarrow> set S \<subseteq> set S' \<Longrightarrow> (w \<longrightarrow> w') \<Longrightarrow>
   list_all (\<lambda>x. NormalizeSuffix x = Inr x) S' \<Longrightarrow> admits S' w' n"
  unfolding admits_def list_all_iff by blast

text \<open>
  Property C3: the Conductor's validation and the Runner's authorization agree. Every job that
  passes \<^verbatim>\<open>JobSpec.Validate\<close> is authorized by a Runner whose own policy is at least as wide as the
  policy snapshot the job carries.
\<close>

theorem validated_job_is_authorized:
  assumes "JobSpec_Validate s = None" "at_least_as_wide p s"
  shows "Authorize p (request_of s) = None"
proof -
  note d = JobSpec_ValidateD[OF assms(1)]
  have names: "Names (req_FQDN (request_of s)) (req_AdditionalNames (request_of s)) = spec_names s"
    by (simp add: request_of_def spec_names_def)
  have "\<forall>n \<in> set (spec_names s). admits (rp_AllowedDnsSuffixes p) (rp_AllowWildcard p) n"
    using d(4) assms(2) admits_mono unfolding at_least_as_wide_def by blast
  then show ?thesis
    unfolding Authorize_iff names using d assms(2)
    by (auto simp: at_least_as_wide_def request_of_def IsBindingName_def)
qed

definition sample_target :: target_ref where
  "sample_target = \<lparr>tr_ID = ''T1'', tr_FQDN = ''www.example.jp'',
     tr_AdditionalNames = Some [''example.jp''], tr_Revision = 3\<rparr>"

definition sample_policy :: policy_spec where
  "sample_policy = \<lparr>ps_AllowedDnsSuffixes = [''example.jp''], ps_AllowWildcard = False,
     ps_RenewBeforeDays = 30, ps_KeyType = ''ec256'', ps_MaxSANs = Some 2\<rparr>"

definition sample_job :: job_spec where
  "sample_job = \<lparr>js_APIVersion = APIVersion, js_Kind = KindCertificateReconcileJob, js_RunID = ''R1'',
     js_Target = sample_target, js_Policy = sample_policy, js_ACMEBinding = ''ca'',
     js_ACMEAccount = Some \<lparr>ar_Scope = ''T1'', ar_Generation = 2, ar_Provisioning = None\<rparr>,
     js_DNSBinding = ''dns'', js_StoreBinding = ''kv''\<rparr>"

definition sample_runner :: runner_policy where
  "sample_runner = \<lparr>rp_AllowedDnsSuffixes = [''example.org'', ''example.jp''], rp_AllowWildcard = True,
     AllowedACMEBindings = [''ca''], AllowedDNSBindings = [''dns''], AllowedStoreBindings = [''fs'', ''kv''],
     rp_MaxNames = 5\<rparr>"

lemma sample_job_valid: "JobSpec_Validate sample_job = None"
  by code_simp

theorem validated_job_is_authorized_witness:
  "at_least_as_wide sample_runner sample_job \<and> Authorize sample_runner (request_of sample_job) = None"
proof -
  have "at_least_as_wide sample_runner sample_job" by code_simp
  then show ?thesis using validated_job_is_authorized[OF sample_job_valid] by blast
qed

text \<open>
  Property C34: what a validated JobSpec guarantees. Between one and a hundred canonical, distinct
  names, all admitted by the snapshot and no more than it allows; a renewal window whose
  conversion to nanoseconds cannot overflow 64 bits; and an account reference that belongs to the
  whole binding or to the job's own target, with a payload sealed for exactly that scope.
\<close>

definition account_belongs :: "string \<Rightarrow> account_ref \<Rightarrow> bool" where
  "account_belongs target a \<longleftrightarrow>
     ar_Scope a \<in> {[], target} \<and> 1 \<le> ar_Generation a \<and> ar_Generation a \<le> MaxAccountGeneration \<and>
     pred_option (\<lambda>p. sp_Version p = provisioningVersionFor (ar_Scope a)) (ar_Provisioning a)"

theorem validated_job_guarantees:
  assumes "JobSpec_Validate s = None"
  shows "distinct (spec_names s) \<and> 1 \<le> length (spec_names s) \<and>
      int (length (spec_names s)) \<le> min 100 (max 1 (snapshot_max s)) \<and>
      list_all (\<lambda>n. canonical_host n \<and>
        admits (ps_AllowedDnsSuffixes (js_Policy s)) (ps_AllowWildcard (js_Policy s)) n) (spec_names s) \<and>
      int64 (ps_RenewBeforeDays (js_Policy s) * (24 * hour)) = ps_RenewBeforeDays (js_Policy s) * (24 * hour) \<and>
      pred_option (account_belongs (tr_ID (js_Target s))) (js_ACMEAccount s)"
proof -
  note d = JobSpec_ValidateD[OF assms]
  have "int64 (ps_RenewBeforeDays (js_Policy s) * (24 * hour)) = ps_RenewBeforeDays (js_Policy s) * (24 * hour)"
    using PolicySpec_validateD(2,3)[OF d(8)] by (intro int64_id) auto
  moreover have "pred_option (account_belongs (tr_ID (js_Target s))) (js_ACMEAccount s)"
    using d(12)
    by (cases "js_ACMEAccount s")
      (auto simp: ACMEAccountRef_validate_def account_belongs_def check_all_None pred_option_def)
  ultimately show ?thesis
    using d(4-7) by (auto simp: spec_names_simps list_all_iff admits_def)
qed

theorem validated_job_guarantees_witness:
  "length (spec_names sample_job) \<le> 100 \<and> canonical_host ''example.jp'' \<and>
   int64 (30 * (24 * hour)) = 30 * (24 * hour)"
proof -
  have names: "spec_names sample_job = [''www.example.jp'', ''example.jp'']"
    and days: "ps_RenewBeforeDays (js_Policy sample_job) = 30"
    by (simp_all add: sample_job_def sample_target_def sample_policy_def spec_names_def additional_def Names_def)
  show ?thesis
    using validated_job_guarantees[OF sample_job_valid] by (simp add: names days)
qed

subsection \<open>What a validated Result can carry\<close>

definition no_control :: "string \<Rightarrow> bool" where
  "no_control v \<longleftrightarrow> list_all (\<lambda>c. 32 \<le> byte_of c \<and> byte_of c \<noteq> 127) v"

text \<open>A logical object name: no separator of a path, URL, query or shell word, no \<^verbatim>\<open>..\<close>.\<close>

definition logical_name :: "string \<Rightarrow> bool" where
  "logical_name v \<longleftrightarrow>
     v \<noteq> [] \<and> length v \<le> 128 \<and> \<not> sublist ''..'' v \<and> is_alnum (hd v) \<and> is_alnum (last v) \<and>
     list_all (\<lambda>c. is_alnum c \<or> c \<in> set ''._-'') v"

lemma re_ends_all: "re_ends E M k s \<Longrightarrow> (\<And>c. E c \<Longrightarrow> M c) \<Longrightarrow>
    E (hd s) \<and> E (last s) \<and> list_all M s \<and> length s \<le> k + 2"
  unfolding re_ends_def
  by (cases s; cases "tl s" rule: rev_cases) (auto simp: list_all_iff)

lemma validateStoreObjectRef_logical:
  "v \<noteq> [] \<Longrightarrow> validateStoreObjectRef f v = None \<Longrightarrow> logical_name v"
  using re_ends_all[of is_alnum "\<lambda>c. is_alnum c \<or> c = CHR ''.'' \<or> c = CHR ''_'' \<or> c = CHR ''-''" 126 v]
  by (auto simp: validateStoreObjectRef_def logical_name_def storeObjectRefRe_def Contains_def list_all_iff
      MaxStoreObjectRefLength_def split: if_splits)

lemma validateOpaqueText_no_control:
  assumes "validateOpaqueText u f v m = None"
  shows "no_control v \<and> length v \<le> m"
proof -
  have print: "IsPrint u r" if "r \<in> set (runes v)" for r
    using assms that by (auto simp: validateOpaqueText_def list_ex_iff split: if_splits)
  have "32 \<le> byte_of c \<and> byte_of c \<noteq> 127" if "c \<in> set v" for c
    using print[OF ascii_byte_is_rune[OF that]] by (cases "byte_of c < 128") (auto simp: IsPrint_def)
  then show ?thesis using assms by (auto simp: no_control_def list_all_iff validateOpaqueText_def split: if_splits)
qed

lemma Result_ValidateD:
  assumes "Result_Validate u r = None"
  shows "result_status_checks r = None" "rs_ExpiresAt r \<noteq> Some 0"
    "rs_FingerprintSha256 r \<noteq> [] \<Longrightarrow> fingerprintRe (rs_FingerprintSha256 r)"
    "validateStoreObjectRef ''storeObjectRef'' (rs_StoreObjectRef r) = None"
    "\<And>e. rs_Error r = Some e \<Longrightarrow> re_Code e \<in> set ErrorCodes \<and>
       validateOpaqueText u ''error.summary'' (re_Summary e) MaxErrorSummaryLength = None"
    "rs_Action r \<in> {ActionIssued, ActionRenewed, ActionNoop, ActionFailed}"
    "identifierRe (rs_RunID r)" "identifierRe (rs_TargetID r)" "rs_StartedAt r \<le> rs_FinishedAt r"
  using assms unfolding Result_Validate_def check_all_None
  by (auto simp: go_checks ErrorCode_Valid_def list_ex_iff check_all_None)

text \<open>
  A validated Result is coherent and safe to record. Either it succeeded, with no
  error, a non-zero expiry, a 64-digit hexadecimal fingerprint and a logical object name that can
  be neither a path nor a URL; or it failed, with action failed and a known error code whose
  one-line summary is bounded and free of control characters.
\<close>

theorem validated_result_coherent:
  assumes "Result_Validate u r = None"
  shows "if rs_Status r = StatusSucceeded
    then rs_Error r = None \<and> rs_Action r \<in> {ActionIssued, ActionRenewed, ActionNoop} \<and>
      (\<exists>t. rs_ExpiresAt r = Some t \<and> t \<noteq> 0) \<and>
      length (rs_FingerprintSha256 r) = 64 \<and> list_all is_lower_hex (rs_FingerprintSha256 r) \<and>
      logical_name (rs_StoreObjectRef r)
    else rs_Status r = StatusFailed \<and> rs_Action r = ActionFailed \<and>
      (\<exists>e. rs_Error r = Some e \<and> re_Code e \<in> set ErrorCodes \<and>
           no_control (re_Summary e) \<and> length (re_Summary e) \<le> 1024)"
proof -
  note d = Result_ValidateD[OF assms]
  note st = d(1)[unfolded result_status_checks_def]
  show ?thesis
  proof (cases "rs_Status r = StatusSucceeded")
    case True
    then have checks: "rs_Action r \<noteq> ActionFailed" "rs_Error r = None" "rs_ExpiresAt r \<noteq> None"
      "rs_FingerprintSha256 r \<noteq> []" "rs_StoreObjectRef r \<noteq> []"
      using st by (auto simp: check_all_None)
    then show ?thesis
      using True d(2,6) d(3)[OF checks(4)] validateStoreObjectRef_logical[OF checks(5) d(4)]
      by (auto simp: fingerprintRe_def)
  next
    case False
    then have checks: "rs_Status r = StatusFailed" "rs_Action r = ActionFailed" "rs_Error r \<noteq> None"
      using st by (auto simp: check_all_None split: if_splits)
    then obtain e where e: "rs_Error r = Some e" by auto
    show ?thesis
      using False checks e d(5)[OF e] validateOpaqueText_no_control[of u _ "re_Summary e"]
      by (auto simp: MaxErrorSummaryLength_def)
  qed
qed

definition ascii_only :: unicode where
  "ascii_only = \<lparr>print_table = (\<lambda>_. False), lower_table = (\<lambda>r. r)\<rparr>"

definition sample_result :: result_doc where
  "sample_result = \<lparr>rs_APIVersion = APIVersion, rs_Kind = KindCertificateReconcileResult, rs_RunID = ''R1'',
     rs_TargetID = ''T1'', rs_Status = StatusFailed, rs_Action = ActionFailed, rs_ExpiresAt = None,
     rs_FingerprintSha256 = [], rs_StoreObjectRef = [], rs_StartedAt = 5, rs_FinishedAt = 7,
     rs_Error = Some \<lparr>re_Code = ErrorCodeTimeout, re_Summary = ''late''\<rparr>, rs_AccountProvisioning = None\<rparr>"

lemma sample_summary_valid: "validateOpaqueText ascii_only f ''late'' MaxErrorSummaryLength = None"
proof -
  have "\<not> list_ex (\<lambda>r. r = rune_error \<or> \<not> IsPrint ascii_only r) (runes ''late'')"
    by (simp add: IsPrint_def rune_error_def byte_of_def ascii_only_def)
  moreover have "\<not> list_ex (\<lambda>(needle, ignoreCase). Contains
      (if ignoreCase then strings_ToLower ascii_only ''late'' else ''late'') needle) secretMarkers" by code_simp
  ultimately show ?thesis unfolding validateOpaqueText_def Let_def by (simp add: MaxErrorSummaryLength_def)
qed

lemma sample_result_valid: "Result_Validate ascii_only sample_result = None"
proof -
  have "identifierRe ''R1''" "identifierRe ''T1''" "ErrorCode_Valid ErrorCodeTimeout" "TrimSpace ''late'' \<noteq> []"
    by code_simp+
  then show ?thesis
    by (simp add: Result_Validate_def result_status_checks_def sample_result_def sample_summary_valid
        validateStoreObjectRef_def reject_if_def validateIdentifier_def MaxIdentifierLength_def)
qed

theorem validated_result_coherent_witness:
  "Result_Validate ascii_only sample_result = None \<and>
   (\<exists>e. rs_Error sample_result = Some e \<and> no_control (re_Summary e))"
proof -
  have "rs_Status sample_result \<noteq> StatusSucceeded" by (simp add: sample_result_def)
  then show ?thesis
    using sample_result_valid validated_result_coherent[OF sample_result_valid] by auto
qed

end
