(* ===== verification/Registry.thy ===== *)
theory Registry
  imports Contract
begin

text \<open>
  Package \<^verbatim>\<open>internal/conductor/registry\<close>: the Conductor's domain model (\<^verbatim>\<open>registry.go\<close>) and the
  rows the SQLite implementation keeps for it. A row holds the fields of the Go struct; an
  account row also has the sealed payload, which the Go struct leaves out on purpose.
\<close>

subsection \<open>Errors\<close>

text \<open>\<open>ErrOther\<close> stands for every error the callers do not classify (a failed statement).\<close>

datatype reg_error =
    ErrNotFound | ErrConflict | ErrStaleRevision | ErrRunActive | ErrRetired
  | ErrPolicyNameTaken | ErrTargetEnabled | ErrStaleConsumers | ErrOther

subsection \<open>Policies and targets\<close>

record reg_policy =
  pol_ID :: string
  pol_Name :: string
  pol_AllowedDnsSuffixes :: "string list"
  pol_AllowWildcard :: bool
  pol_ACMEBinding :: string
  pol_RenewBeforeDays :: int
  pol_KeyType :: string
  pol_MaxSANs :: int
  pol_Enabled :: bool
  pol_CreatedAt :: gotime
  pol_UpdatedAt :: gotime

record target =
  tgt_ID :: string
  tgt_FQDN :: string
  tgt_AdditionalNames :: "string list"
  tgt_Enabled :: bool
  tgt_Owner :: string
  tgt_PolicyRef :: string
  tgt_ExecutionBinding :: string
  tgt_DNSBinding :: string
  tgt_StoreBinding :: string
  tgt_CreatedAt :: gotime
  tgt_UpdatedAt :: gotime
  tgt_Revision :: int
  tgt_RetiredAt :: "gotime option"
  tgt_RetiredBy :: string
  tgt_RetiredByAuthority :: string

definition Retired :: "target \<Rightarrow> bool" where
  "Retired t \<longleftrightarrow> tgt_RetiredAt t \<noteq> None"

record consumer =
  con_Service :: string
  con_Contact :: string
  con_Note :: string

record consumers =
  cs_TargetID :: string
  cs_Version :: int
  cs_Items :: "consumer list"
  cs_UpdatedAt :: "gotime option"
  cs_UpdatedBy :: string
  cs_UpdatedByAuthority :: string

subsection \<open>Runs\<close>

datatype run_status =
  RunQueued | RunStarting | RunRunning | RunSucceeded | RunFailed | RunCancelled | RunOther string

definition RunStatus_Valid :: "run_status \<Rightarrow> bool" where
  "RunStatus_Valid s =
     (case s of RunQueued \<Rightarrow> True | RunStarting \<Rightarrow> True | RunRunning \<Rightarrow> True | RunSucceeded \<Rightarrow> True
      | RunFailed \<Rightarrow> True | RunCancelled \<Rightarrow> True | RunOther _ \<Rightarrow> False)"

definition Active :: "run_status \<Rightarrow> bool" where
  "Active s \<longleftrightarrow> s = RunQueued \<or> s = RunStarting \<or> s = RunRunning"

record run =
  run_ID :: string
  run_TargetID :: string
  run_TargetRevision :: int
  run_Status :: run_status
  run_RequestedBy :: string
  run_RequestedByAuthority :: string
  run_RequestedAt :: gotime
  run_StartedAt :: "gotime option"
  run_FinishedAt :: "gotime option"
  run_Action :: string
  run_ExpiresAt :: "gotime option"
  run_FingerprintSha256 :: string
  run_StoreObjectRef :: string
  run_ErrorCode :: string
  run_ErrorSummary :: string
  run_ExternalExecutionID :: string

record run_summary =
  LastRun :: "run option"
  LastSucceeded :: "run option"
  ConsecutiveFailures :: nat

subsection \<open>Audit events\<close>

datatype audit_action =
    AuditTargetCreated | AuditTargetUpdated | AuditTargetEnabled | AuditTargetDisabled
  | AuditTargetRetired | AuditPolicyCreated | AuditPolicyUpdated | AuditPolicyRejected
  | AuditRunRequested | AuditRunStarted | AuditRunSucceeded | AuditRunFailed | AuditRunCancelled
  | AuditACMEAccountProvisioningRequested | AuditACMEAccountProvisioningAttached
  | AuditACMEAccountActivated | AuditACMEAccountProvisioningFailed
  | AuditACMEAccountProvisioningCancelled | AuditACMEAccountRetired
  | AuditTargetConsumersUpdated

definition MaxAuditDetailLength :: nat where "MaxAuditDetailLength = 512"

record audit_event =
  ev_ID :: string
  ev_Time :: gotime
  ev_Actor :: string
  ev_ActorAuthority :: string
  ev_Action :: audit_action
  ev_TargetID :: string
  ev_RunID :: string
  ev_PolicyID :: string
  ev_Detail :: string

text \<open>An event literal that names only actor, authority, action and detail.\<close>

definition new_event :: "string \<Rightarrow> string \<Rightarrow> audit_action \<Rightarrow> string \<Rightarrow> audit_event" where
  "new_event actor authority action detail =
     \<lparr>ev_ID = [], ev_Time = 0, ev_Actor = actor, ev_ActorAuthority = authority, ev_Action = action,
      ev_TargetID = [], ev_RunID = [], ev_PolicyID = [], ev_Detail = detail\<rparr>"

subsection \<open>ACME account generations\<close>

datatype account_status =
    ACMEAccountProvisioning | ACMEAccountActive | ACMEAccountRetired | ACMEAccountFailed
  | ACMEAccountCancelled

record acme_account =
  acc_Binding :: string
  acc_Scope :: string
  acc_Generation :: int
  acc_Status :: account_status
  acc_KeyID :: string
  acc_sealed_payload :: "string option"
  acc_RunID :: "string option"
  acc_RequestedBy :: string
  acc_RequestedByAuthority :: string
  acc_CreatedAt :: gotime
  acc_UpdatedAt :: gotime
  acc_ActivatedAt :: "gotime option"

subsection \<open>Display names of principals\<close>

definition MaxPrincipalDisplayNameLength :: nat where "MaxPrincipalDisplayNameLength = 256"

record principal_name =
  pn_Authority :: string
  pn_Name :: string
  pn_DisplayName :: string
  pn_UpdatedAt :: gotime

subsection \<open>List options\<close>

record list_targets_options =
  lto_Enabled :: "bool option"
  lto_PolicyRef :: string
  lto_IncludeRetired :: bool

record list_runs_options =
  lro_TargetID :: string
  lro_Statuses :: "run_status list"
  lro_Before :: string
  lro_Limit :: int

record list_audit_options =
  lao_TargetID :: string
  lao_RunID :: string
  lao_PolicyID :: string
  lao_Before :: string
  lao_Limit :: int

definition DefaultListLimit :: int where "DefaultListLimit = 100"
definition MaxListLimit :: int where "MaxListLimit = 1000"

subsection \<open>The database\<close>

record db =
  policies :: "reg_policy list"
  targets :: "target list"
  target_names :: "(string \<times> string) list"
  runs :: "run list"
  audit_events :: "audit_event list"
  acme_accounts :: "acme_account list"
  target_consumers :: "consumers list"
  principal_names :: "principal_name list"

definition empty_db :: db where
  "empty_db = \<lparr>policies = [], targets = [], target_names = [], runs = [], audit_events = [],
               acme_accounts = [], target_consumers = [], principal_names = []\<rparr>"

text \<open>
  What an operation takes from its surroundings, by place of the call in the operation: what the
  clock says (\<^verbatim>\<open>time.Now\<close>) and the identifier \<^verbatim>\<open>NewID\<close> returns. Place 0 is the operation itself,
  place \<open>k\<close> its \<open>k\<close>-th audit event.
\<close>

record op_env =
  env_now :: "nat \<Rightarrow> gotime"
  env_id :: "nat \<Rightarrow> string"

lemma run_status_Active [simp]:
  "Active RunQueued" "Active RunStarting" "Active RunRunning"
  "\<not> Active RunSucceeded" "\<not> Active RunFailed" "\<not> Active RunCancelled" "\<not> Active (RunOther x)"
  by (simp_all add: Active_def)

lemma run_status_Valid [simp]:
  "RunStatus_Valid s \<longleftrightarrow> (\<forall>x. s \<noteq> RunOther x)"
  by (cases s) (auto simp: RunStatus_Valid_def)

end
