(* ===== verification/Tables.thy ===== *)
theory Tables
  imports Registry
begin

text \<open>
  The database below the registry (\<^verbatim>\<open>internal/conductor/sqlite/sqlite.go\<close>): a table is a list of
  rows in insertion order, a statement changes tables and fails as a whole when the schema's
  constraints do not hold afterwards, a transaction is a function whose error result discards
  every change. The schema is the one the nine migrations leave behind.
\<close>

subsection \<open>Errors in sequence\<close>

definition and_then :: "'e + 'a \<Rightarrow> ('a \<Rightarrow> 'e + 'b) \<Rightarrow> 'e + 'b" where
  "and_then r f = (case r of Inl e \<Rightarrow> Inl e | Inr x \<Rightarrow> f x)"

definition on_error :: "('e \<Rightarrow> 'f) \<Rightarrow> 'e + 'a \<Rightarrow> 'f + 'a" where
  "on_error h r = (case r of Inl e \<Rightarrow> Inl (h e) | Inr x \<Rightarrow> Inr x)"

definition unless_err :: "'e option \<Rightarrow> 'e + 'a \<Rightarrow> 'e + 'a" where
  "unless_err c r = (case c of Some e \<Rightarrow> Inl e | None \<Rightarrow> r)"

lemma and_then_Inr [simp]: "and_then r f = Inr y \<longleftrightarrow> (\<exists>x. r = Inr x \<and> f x = Inr y)"
  by (cases r) (auto simp: and_then_def)

lemma and_then_simps [simp]: "and_then (Inl e) f = Inl e" "and_then (Inr x) f = f x"
  by (simp_all add: and_then_def)

lemma on_error_Inr [simp]: "on_error h r = Inr y \<longleftrightarrow> r = Inr y"
  by (cases r) (auto simp: on_error_def)

lemma on_error_simps [simp]: "on_error h (Inl e) = Inl (h e)" "on_error h (Inr x) = Inr x"
  by (simp_all add: on_error_def)

lemma unless_err_Inr [simp]: "unless_err c r = Inr y \<longleftrightarrow> c = None \<and> r = Inr y"
  by (cases c) (auto simp: unless_err_def)

lemma unless_err_simps [simp]: "unless_err None r = r" "unless_err (Some e) r = Inl e"
  by (simp_all add: unless_err_def)

subsection \<open>Rows\<close>

text \<open>\<open>upd_where\<close> is \<^verbatim>\<open>UPDATE ... SET f WHERE P\<close>, \<open>affected\<close> its count of rows.\<close>

definition upd_where :: "('r \<Rightarrow> bool) \<Rightarrow> ('r \<Rightarrow> 'r) \<Rightarrow> 'r list \<Rightarrow> 'r list" where
  "upd_where P f rows = map (\<lambda>r. if P r then f r else r) rows"

definition affected :: "('r \<Rightarrow> bool) \<Rightarrow> 'r list \<Rightarrow> nat" where
  "affected P rows = length (filter P rows)"

text \<open>A unique index on \<open>k\<close> over the rows that satisfy \<open>P\<close>.\<close>

definition unique_on :: "('r \<Rightarrow> bool) \<Rightarrow> ('r \<Rightarrow> 'k) \<Rightarrow> 'r list \<Rightarrow> bool" where
  "unique_on P k rows \<longleftrightarrow> distinct (map k (filter P rows))"

definition lookup :: "('r \<Rightarrow> 'k) \<Rightarrow> 'k \<Rightarrow> 'r list \<Rightarrow> 'r option" where
  "lookup k v rows = find (\<lambda>r. k r = v) rows"

definition first_row :: "'r list \<Rightarrow> 'r option" where
  "first_row rows = (case rows of [] \<Rightarrow> None | r # _ \<Rightarrow> Some r)"

abbreviation every :: "'r \<Rightarrow> bool" where "every \<equiv> \<lambda>_. True"

lemma in_upd_where [row_simps]:
  "x \<in> set (upd_where P f rows) \<longleftrightarrow> (x \<in> set rows \<and> \<not> P x) \<or> (\<exists>r \<in> set rows. P r \<and> x = f r)"
  by (auto simp: upd_where_def)

lemma ball_upd_where [row_simps]:
  "(\<forall>x \<in> set (upd_where P f rows). Q x) \<longleftrightarrow> (\<forall>r \<in> set rows. (P r \<longrightarrow> Q (f r)) \<and> (\<not> P r \<longrightarrow> Q r))"
  by (auto simp: upd_where_def)

lemma bex_upd_where:
  "(\<exists>x \<in> set (upd_where P f rows). Q x) \<longleftrightarrow> (\<exists>r \<in> set rows. (P r \<and> Q (f r)) \<or> (\<not> P r \<and> Q r))"
  by (auto simp: upd_where_def)

lemma upd_where_map: "(\<And>r. r \<in> set rows \<Longrightarrow> P r \<Longrightarrow> k (f r) = k r) \<Longrightarrow> map k (upd_where P f rows) = map k rows"
  by (simp add: upd_where_def)

lemma upd_where_image: "(\<And>r. r \<in> set rows \<Longrightarrow> P r \<Longrightarrow> k (f r) = k r) \<Longrightarrow> k ` set (upd_where P f rows) = k ` set rows"
  using upd_where_map[of rows P k f] by (metis list.set_map)

lemma upd_where_none: "(\<And>r. r \<in> set rows \<Longrightarrow> \<not> P r) \<Longrightarrow> upd_where P f rows = rows"
  by (simp add: upd_where_def map_idI)

lemma length_upd_where [simp]: "length (upd_where P f rows) = length rows"
  by (simp add: upd_where_def)

lemma affected_0 [simp]: "affected P rows = 0 \<longleftrightarrow> (\<forall>r \<in> set rows. \<not> P r)"
  by (simp add: affected_def filter_empty_conv)

lemma affected_pos [simp]: "0 < affected P rows \<longleftrightarrow> (\<exists>r \<in> set rows. P r)"
  by (auto simp: affected_def filter_empty_conv)

lemma unique_onD:
  "unique_on P k rows \<Longrightarrow> r \<in> set rows \<Longrightarrow> s \<in> set rows \<Longrightarrow> P r \<Longrightarrow> P s \<Longrightarrow> k r = k s \<Longrightarrow> r = s"
  by (simp add: unique_on_def distinct_map inj_on_def)

lemma unique_on_append [row_simps]:
  "unique_on P k (rows @ [r]) \<longleftrightarrow> unique_on P k rows \<and> (P r \<longrightarrow> (\<forall>s \<in> set rows. P s \<longrightarrow> k s \<noteq> k r))"
  by (auto simp: unique_on_def image_iff)

lemma unique_on_Nil [simp]: "unique_on P k []"
  by (simp add: unique_on_def)

lemma unique_on_every: "unique_on every k rows \<longleftrightarrow> distinct (map k rows)"
  by (simp add: unique_on_def)

text \<open>An update that brings no row under the index, and changes no key there, keeps it.\<close>

lemma unique_on_shrink:
  assumes "unique_on P k rows"
    and "\<And>r. r \<in> set rows \<Longrightarrow> Q r \<Longrightarrow> P (f r) \<Longrightarrow> P r \<and> k (f r) = k r"
  shows "unique_on P k (upd_where Q f rows)"
  using assms
proof (induction rows)
  case (Cons r rows)
  have IH: "unique_on P k (upd_where Q f rows)"
    using Cons by (auto simp: unique_on_def split: if_splits)
  have new: "k x \<in> k ` {s \<in> set rows. P s}" if "x \<in> set (upd_where Q f rows)" "P x" for x
    using that Cons.prems(2) by (auto simp: row_simps)
  have r: "P r \<Longrightarrow> k r \<notin> k ` {s \<in> set rows. P s}"
    using Cons.prems(1) by (auto simp: unique_on_def)
  let ?r = "if Q r then f r else r"
  have "k ?r \<notin> k ` {x \<in> set (upd_where Q f rows). P x}" if "P ?r"
  proof -
    have "P r" "k ?r = k r" using that Cons.prems(2)[of r] by (auto split: if_splits)
    show ?thesis
    proof
      assume "k ?r \<in> k ` {x \<in> set (upd_where Q f rows). P x}"
      then obtain x where "x \<in> set (upd_where Q f rows)" "P x" "k ?r = k x" by blast
      with new[of x] r \<open>P r\<close> \<open>k ?r = k r\<close> show False by simp
    qed
  qed
  with IH show ?case by (auto simp: unique_on_def upd_where_def split: if_splits)
qed (simp add: upd_where_def)

lemmas unique_on_keep = unique_on_shrink[where P = every]

text \<open>An update that brings one row under the index keeps it if no other row holds the key.\<close>

lemma unique_on_enter:
  assumes un: "unique_on P k rows" and one: "\<And>r s. r \<in> set rows \<Longrightarrow> s \<in> set rows \<Longrightarrow> Q r \<Longrightarrow> Q s \<Longrightarrow> r = s"
    and dist: "distinct rows"
    and free: "\<And>r s. r \<in> set rows \<Longrightarrow> s \<in> set rows \<Longrightarrow> Q r \<Longrightarrow> \<not> Q s \<Longrightarrow> P s \<Longrightarrow> P (f r) \<Longrightarrow> k s \<noteq> k (f r)"
  shows "unique_on P k (upd_where Q f rows)"
proof (cases "\<exists>r \<in> set rows. Q r")
  case False
  then show ?thesis using un by (subst upd_where_none) auto
next
  case True
  then obtain r where r: "r \<in> set rows" "Q r" by blast
  then obtain xs ys where split: "rows = xs @ r # ys" by (auto simp: in_set_conv_decomp)
  have off: "\<not> Q s" if "s \<in> set xs \<union> set ys" for s
    using that one[OF r(1) _ r(2)] dist split by auto
  then have eq: "upd_where Q f rows = xs @ f r # ys"
    using r(2) by (auto simp: split upd_where_def intro: map_idI)
  have "k s \<noteq> k (f r)" if "s \<in> set xs \<union> set ys" "P s" "P (f r)" for s
    using free[OF r(1) _ r(2) off[OF that(1)] that(2,3)] that(1) split by auto
  then have "k (f r) \<notin> k ` {s \<in> set xs. P s}" "k (f r) \<notin> k ` {s \<in> set ys. P s}" if "P (f r)"
    using that by (fastforce simp: image_iff)+
  moreover have "distinct (map k (filter P (xs @ ys)))"
    using un by (cases "P r") (auto simp: unique_on_def split)
  ultimately show ?thesis by (cases "P (f r)") (simp_all add: eq unique_on_def)
qed

lemma lookup_Some: "lookup k v rows = Some r \<Longrightarrow> r \<in> set rows \<and> k r = v"
  by (auto simp: lookup_def find_Some_iff)

lemma lookup_None [simp]: "lookup k v rows = None \<longleftrightarrow> v \<notin> k ` set rows"
  by (auto simp: lookup_def find_None_iff)

lemma lookup_unique:
  "unique_on every k rows \<Longrightarrow> lookup k v rows = Some r \<longleftrightarrow> r \<in> set rows \<and> k r = v"
proof
  assume un: "unique_on every k rows" and r: "r \<in> set rows \<and> k r = v"
  have "lookup k v rows \<noteq> None" using r by auto
  then obtain s where s: "lookup k v rows = Some s" by blast
  then have "r = s" using lookup_Some[OF s] unique_onD[OF un, of r s] r by auto
  then show "lookup k v rows = Some r" using s by simp
next
  assume "lookup k v rows = Some r"
  then show "r \<in> set rows \<and> k r = v" by (rule lookup_Some)
qed

lemma first_row_Some: "first_row rows = Some r \<Longrightarrow> r \<in> set rows"
  by (auto simp: first_row_def split: list.splits)

lemma first_row_None [simp]: "first_row rows = None \<longleftrightarrow> rows = []"
  by (auto simp: first_row_def split: list.splits)

text \<open>\<^verbatim>\<open>ORDER BY k LIMIT 1\<close> is a row with the smallest key.\<close>

lemma first_row_sort_key:
  assumes "first_row (sort_key k rows) = Some r"
  shows "r \<in> set rows \<and> (\<forall>s \<in> set rows. k r \<le> k s)"
proof -
  obtain ss where ss: "sort_key k rows = r # ss"
    using assms by (auto simp: first_row_def split: list.splits)
  have "sorted (map k (r # ss))" using sorted_sort_key[of k rows] by (simp add: ss)
  moreover have "set rows = set (r # ss)" by (metis set_sort ss)
  ultimately show ?thesis by auto
qed

lemma first_row_rev_sort_key:
  assumes "first_row (rev (sort_key k rows)) = Some r"
  shows "r \<in> set rows \<and> (\<forall>s \<in> set rows. k s \<le> k r)"
proof -
  obtain ss where "rev (sort_key k rows) = r # ss"
    using assms by (auto simp: first_row_def split: list.splits)
  then have ss: "sort_key k rows = rev ss @ [r]" by (metis rev.simps(2) rev_rev_ident)
  have "sorted (map k (rev ss @ [r]))" using sorted_sort_key[of k rows] by (simp add: ss)
  moreover have "set rows = set (rev ss @ [r])" by (metis set_sort ss)
  ultimately show ?thesis by (auto simp: sorted_append)
qed

subsection \<open>Constraints of the schema\<close>

datatype sql_error = UniquePolicyName | UniqueViolation | ForeignKeyViolation | CheckViolation

definition policies_violated :: "db \<Rightarrow> sql_error option" where
  "policies_violated d = check_all
     [reject_if (\<not> unique_on (\<lambda>p. pol_Name p \<noteq> []) (\<lambda>p. lower_ascii (pol_Name p)) (policies d)) UniquePolicyName,
      reject_if (\<not> unique_on every pol_ID (policies d)) UniqueViolation]"

definition targets_violated :: "db \<Rightarrow> sql_error option" where
  "targets_violated d = check_all
     [reject_if (\<not> unique_on (\<lambda>t. \<not> Retired t) tgt_FQDN (targets d)) UniqueViolation,
      reject_if (\<not> unique_on every tgt_ID (targets d)) UniqueViolation,
      reject_if (\<not> tgt_PolicyRef ` set (targets d) \<subseteq> pol_ID ` set (policies d)) ForeignKeyViolation]"

definition names_violated :: "db \<Rightarrow> sql_error option" where
  "names_violated d = check_all
     [reject_if (\<not> unique_on every fst (target_names d)) UniqueViolation,
      reject_if (\<not> snd ` set (target_names d) \<subseteq> tgt_ID ` set (targets d)) ForeignKeyViolation]"

definition runs_violated :: "db \<Rightarrow> sql_error option" where
  "runs_violated d = check_all
     [reject_if (\<not> unique_on (\<lambda>r. Active (run_Status r)) run_TargetID (runs d)) UniqueViolation,
      reject_if (\<not> unique_on every run_ID (runs d)) UniqueViolation,
      reject_if (\<not> run_TargetID ` set (runs d) \<subseteq> tgt_ID ` set (targets d)) ForeignKeyViolation]"

definition audit_violated :: "db \<Rightarrow> sql_error option" where
  "audit_violated d = reject_if (\<not> unique_on every ev_ID (audit_events d)) UniqueViolation"

definition acc_scope :: "acme_account \<Rightarrow> string \<times> string" where
  "acc_scope a = (acc_Binding a, acc_Scope a)"

definition acc_key :: "acme_account \<Rightarrow> string \<times> string \<times> int" where
  "acc_key a = (acc_Binding a, acc_Scope a, acc_Generation a)"

definition accounts_violated :: "db \<Rightarrow> sql_error option" where
  "accounts_violated d = check_all
     [reject_if (\<exists>a \<in> set (acme_accounts d). acc_Generation a < 1) CheckViolation,
      reject_if (\<not> unique_on (\<lambda>a. acc_Status a = ACMEAccountProvisioning) acc_scope (acme_accounts d)) UniqueViolation,
      reject_if (\<not> unique_on (\<lambda>a. acc_Status a = ACMEAccountActive) acc_scope (acme_accounts d)) UniqueViolation,
      reject_if (\<not> unique_on every acc_key (acme_accounts d)) UniqueViolation]"

definition consumers_violated :: "db \<Rightarrow> sql_error option" where
  "consumers_violated d = check_all
     [reject_if (\<exists>c \<in> set (target_consumers d). cs_Version c < 1) CheckViolation,
      reject_if (\<not> unique_on every cs_TargetID (target_consumers d)) UniqueViolation,
      reject_if (\<not> cs_TargetID ` set (target_consumers d) \<subseteq> tgt_ID ` set (targets d)) ForeignKeyViolation]"

definition pn_key :: "principal_name \<Rightarrow> string \<times> string" where
  "pn_key p = (pn_Authority p, pn_Name p)"

definition principals_violated :: "db \<Rightarrow> sql_error option" where
  "principals_violated d = reject_if (\<not> unique_on every pn_key (principal_names d)) UniqueViolation"

definition violated :: "db \<Rightarrow> sql_error option" where
  "violated d = check_all
     [policies_violated d, targets_violated d, names_violated d, runs_violated d, audit_violated d,
      accounts_violated d, consumers_violated d, principals_violated d]"

text \<open>One statement: its changes stand only if every constraint holds afterwards.\<close>

definition exec :: "(db \<Rightarrow> db) \<Rightarrow> db \<Rightarrow> sql_error + db" where
  "exec f d = (case violated (f d) of None \<Rightarrow> Inr (f d) | Some e \<Rightarrow> Inl e)"

lemma exec_Inr [simp]: "exec f d = Inr d' \<longleftrightarrow> d' = f d \<and> violated (f d) = None"
  by (auto simp: exec_def split: option.splits)

lemma violated_None:
  "violated d = None \<longleftrightarrow>
     policies_violated d = None \<and> targets_violated d = None \<and> names_violated d = None \<and>
     runs_violated d = None \<and> audit_violated d = None \<and> accounts_violated d = None \<and>
     consumers_violated d = None \<and> principals_violated d = None"
  by (simp add: violated_def check_all_None)

lemmas violated_defs =
  policies_violated_def targets_violated_def names_violated_def runs_violated_def
  audit_violated_def accounts_violated_def consumers_violated_def principals_violated_def

end
