(* ===== verification/AuditLog.thy ===== *)
theory AuditLog
  imports Tables Utf8
begin

text \<open>
  The audit log, the display names of principals and the policies of
  \<^verbatim>\<open>internal/conductor/sqlite/sqlite.go\<close>. Every operation is a transaction: it returns the new
  database, or an error and no change.
\<close>

subsection \<open>Audit events\<close>

definition fill_event :: "op_env \<Rightarrow> nat \<Rightarrow> audit_event \<Rightarrow> audit_event" where
  "fill_event E k ev =
     (let ev = (if ev_ID ev = [] then ev\<lparr>ev_ID := env_id E k\<rparr> else ev);
          ev = (if ev_Time ev = 0 then ev\<lparr>ev_Time := env_now E k\<rparr> else ev)
      in if MaxAuditDetailLength < length (ev_Detail ev)
         then ev\<lparr>ev_Detail := take MaxAuditDetailLength (ev_Detail ev)\<rparr> else ev)"

definition insertAudit :: "op_env \<Rightarrow> nat \<Rightarrow> audit_event option \<Rightarrow> db \<Rightarrow> reg_error + db" where
  "insertAudit E k ev d =
     (case ev of
        None \<Rightarrow> Inr d
      | Some ev \<Rightarrow>
          on_error (\<lambda>_. ErrOther)
            (exec (\<lambda>d. d\<lparr>audit_events := audit_events d @ [fill_event E k ev]\<rparr>) d))"

definition AppendAudit :: "op_env \<Rightarrow> audit_event option \<Rightarrow> db \<Rightarrow> reg_error + db" where
  "AppendAudit E ev d = insertAudit E 1 ev d"

definition limit :: "int \<Rightarrow> nat" where
  "limit n = (if n \<le> 0 then nat DefaultListLimit
              else if MaxListLimit < n then nat MaxListLimit else nat n)"

definition ListAudit :: "list_audit_options \<Rightarrow> db \<Rightarrow> audit_event list" where
  "ListAudit opts d =
     take (limit (lao_Limit opts)) (rev (sort_key ev_ID (filter (\<lambda>e.
       (lao_TargetID opts \<noteq> [] \<longrightarrow> ev_TargetID e = lao_TargetID opts) \<and>
       (lao_RunID opts \<noteq> [] \<longrightarrow> ev_RunID e = lao_RunID opts) \<and>
       (lao_PolicyID opts \<noteq> [] \<longrightarrow> ev_PolicyID e = lao_PolicyID opts) \<and>
       (lao_Before opts \<noteq> [] \<longrightarrow> ev_ID e < lao_Before opts)) (audit_events d))))"

subsection \<open>Display names of principals\<close>

definition SetPrincipalName :: "op_env \<Rightarrow> principal_name \<Rightarrow> db \<Rightarrow> reg_error + db" where
  "SetPrincipalName E p d =
     (if pn_Authority p = [] \<or> pn_Name p = [] \<or> pn_DisplayName p = [] then Inl ErrOther
      else if MaxPrincipalDisplayNameLength < length (pn_DisplayName p) then Inl ErrOther
      else
        let p = p\<lparr>pn_UpdatedAt := env_now E 0\<rparr> in
        on_error (\<lambda>_. ErrOther) (exec (\<lambda>d.
          if affected (\<lambda>q. pn_key q = pn_key p) (principal_names d) = 0
          then d\<lparr>principal_names := principal_names d @ [p]\<rparr>
          else d\<lparr>principal_names := upd_where (\<lambda>q. pn_key q = pn_key p)
                   (\<lambda>q. q\<lparr>pn_DisplayName := pn_DisplayName p, pn_UpdatedAt := pn_UpdatedAt p\<rparr>)
                   (principal_names d)\<rparr>) d))"

definition ListPrincipalNames :: "db \<Rightarrow> principal_name list" where
  "ListPrincipalNames d = sort_key pn_Authority (sort_key pn_Name (principal_names d))"

subsection \<open>strings.EqualFold\<close>

text \<open>
  \<^verbatim>\<open>unicode.SimpleFold\<close> on ASCII and on the two other members of the ASCII orbits (the Kelvin sign
  and the long s); \<open>tbl\<close> is the rest of the Unicode table. No orbit has more than four members,
  so eight steps of the loop always reach its end.
\<close>

definition SimpleFold :: "(nat \<Rightarrow> nat) \<Rightarrow> nat \<Rightarrow> nat" where
  "SimpleFold tbl r =
     (if r = 0x6B then 0x212A else if r = 0x212A then 0x4B
      else if r = 0x73 then 0x17F else if r = 0x17F then 0x53
      else if 0x41 \<le> r \<and> r \<le> 0x5A then r + 32
      else if 0x61 \<le> r \<and> r \<le> 0x7A then r - 32
      else if r < 0x80 then r else tbl r)"

fun fold_loop :: "(nat \<Rightarrow> nat) \<Rightarrow> nat \<Rightarrow> nat \<Rightarrow> nat \<Rightarrow> nat \<Rightarrow> nat" where
  "fold_loop tbl 0 sr tr r = r"
| "fold_loop tbl (Suc n) sr tr r =
     (if r \<noteq> sr \<and> r < tr then fold_loop tbl n sr tr (SimpleFold tbl r) else r)"

definition fold_rune :: "(nat \<Rightarrow> nat) \<Rightarrow> nat \<Rightarrow> nat \<Rightarrow> bool" where
  "fold_rune tbl a b =
     (let sr = min a b; tr = max a b in
      if tr = sr then True
      else if tr < 0x80 then 0x41 \<le> sr \<and> sr \<le> 0x5A \<and> tr = sr + 32
      else fold_loop tbl 8 sr tr (SimpleFold tbl sr) = tr)"

definition EqualFold :: "(nat \<Rightarrow> nat) \<Rightarrow> string \<Rightarrow> string \<Rightarrow> bool" where
  "EqualFold tbl s t = list_all2 (fold_rune tbl) (runes s) (runes t)"

subsection \<open>Policies\<close>

definition checkPolicyName :: "(nat \<Rightarrow> nat) \<Rightarrow> string \<Rightarrow> string \<Rightarrow> db \<Rightarrow> reg_error option" where
  "checkPolicyName tbl i name d =
     (if name = [] then None
      else reject_if (\<exists>p \<in> set (policies d). pol_Name p \<noteq> [] \<and> pol_ID p \<noteq> i \<and>
                        EqualFold tbl (pol_Name p) name) ErrPolicyNameTaken)"

definition policy_sql_error :: "reg_error \<Rightarrow> sql_error \<Rightarrow> reg_error" where
  "policy_sql_error other e =
     (case e of UniquePolicyName \<Rightarrow> ErrPolicyNameTaken | UniqueViolation \<Rightarrow> other | _ \<Rightarrow> ErrOther)"

definition CreatePolicy ::
  "(nat \<Rightarrow> nat) \<Rightarrow> op_env \<Rightarrow> reg_policy \<Rightarrow> audit_event option \<Rightarrow> db \<Rightarrow> reg_error + (reg_policy \<times> db)" where
  "CreatePolicy tbl E p ev d =
     (let p = (if pol_ID p = [] then p\<lparr>pol_ID := env_id E 0\<rparr> else p);
          p = (if pol_CreatedAt p = 0 then p\<lparr>pol_CreatedAt := env_now E 0\<rparr> else p);
          p = p\<lparr>pol_UpdatedAt := pol_CreatedAt p\<rparr>;
          ev = map_option (\<lambda>e. e\<lparr>ev_PolicyID := pol_ID p\<rparr>) ev in
      unless_err (checkPolicyName tbl (pol_ID p) (pol_Name p) d)
        (and_then (on_error (policy_sql_error ErrConflict)
                     (exec (\<lambda>d. d\<lparr>policies := policies d @ [p]\<rparr>) d))
           (\<lambda>d. and_then (insertAudit E 1 ev d) (\<lambda>d. Inr (p, d)))))"

definition GetPolicy :: "string \<Rightarrow> db \<Rightarrow> reg_error + reg_policy" where
  "GetPolicy i d = (case lookup pol_ID i (policies d) of None \<Rightarrow> Inl ErrNotFound | Some p \<Rightarrow> Inr p)"

definition ListPolicies :: "db \<Rightarrow> reg_policy list" where
  "ListPolicies d = sort_key pol_ID (policies d)"

definition set_policy :: "reg_policy \<Rightarrow> reg_policy \<Rightarrow> reg_policy" where
  "set_policy p q = q\<lparr>pol_Name := pol_Name p, pol_AllowedDnsSuffixes := pol_AllowedDnsSuffixes p,
      pol_AllowWildcard := pol_AllowWildcard p, pol_ACMEBinding := pol_ACMEBinding p,
      pol_RenewBeforeDays := pol_RenewBeforeDays p, pol_KeyType := pol_KeyType p,
      pol_MaxSANs := pol_MaxSANs p, pol_Enabled := pol_Enabled p, pol_UpdatedAt := pol_UpdatedAt p\<rparr>"

definition UpdatePolicy ::
  "(nat \<Rightarrow> nat) \<Rightarrow> op_env \<Rightarrow> reg_policy \<Rightarrow> audit_event option \<Rightarrow> db \<Rightarrow> reg_error + (reg_policy \<times> db)" where
  "UpdatePolicy tbl E p ev d =
     (let p = p\<lparr>pol_UpdatedAt := env_now E 0\<rparr>;
          ev = map_option (\<lambda>e. e\<lparr>ev_PolicyID := pol_ID p\<rparr>) ev;
          sel = (\<lambda>q. pol_ID q = pol_ID p) in
      unless_err (checkPolicyName tbl (pol_ID p) (pol_Name p) d)
        (and_then (on_error (policy_sql_error ErrOther)
                     (exec (\<lambda>d. d\<lparr>policies := upd_where sel (set_policy p) (policies d)\<rparr>) d))
           (\<lambda>d'. if affected sel (policies d) = 0 then Inl ErrNotFound
                 else and_then (insertAudit E 1 ev d') (\<lambda>d. Inr (p, d)))))"

subsection \<open>Lemmas\<close>

lemma fill_event_Detail [simp]: "ev_Detail (fill_event E k ev) = take MaxAuditDetailLength (ev_Detail ev)"
  by (simp add: fill_event_def Let_def)

lemma fill_event_keeps [simp]:
  "ev_Actor (fill_event E k ev) = ev_Actor ev" "ev_ActorAuthority (fill_event E k ev) = ev_ActorAuthority ev"
  "ev_Action (fill_event E k ev) = ev_Action ev" "ev_TargetID (fill_event E k ev) = ev_TargetID ev"
  "ev_RunID (fill_event E k ev) = ev_RunID ev" "ev_PolicyID (fill_event E k ev) = ev_PolicyID ev"
  by (simp_all add: fill_event_def Let_def)

text \<open>What one \<open>insertAudit\<close> that succeeds has done.\<close>

definition logged :: "op_env \<Rightarrow> nat \<Rightarrow> audit_event option \<Rightarrow> audit_event list" where
  "logged E k ev = map (fill_event E k) (case ev of None \<Rightarrow> [] | Some e \<Rightarrow> [e])"

lemma insertAudit_Inr:
  "insertAudit E k ev d = Inr d' \<Longrightarrow> d' = d\<lparr>audit_events := audit_events d @ logged E k ev\<rparr>"
  by (auto simp: insertAudit_def logged_def split: option.splits)

lemma insertAudit_ok: "insertAudit E k ev d = Inr d' \<Longrightarrow> violated d = None \<Longrightarrow> violated d' = None"
  by (auto simp: insertAudit_def split: option.splits)

text \<open>When identifiers are fresh the event is always recorded.\<close>

lemma insertAudit_fresh:
  assumes ok: "violated d = None"
    and fresh: "\<And>e. ev = Some e \<Longrightarrow> ev_ID (fill_event E k e) \<notin> ev_ID ` set (audit_events d)"
  shows "insertAudit E k ev d = Inr (d\<lparr>audit_events := audit_events d @ logged E k ev\<rparr>)"
proof (cases ev)
  case None
  then show ?thesis by (simp add: insertAudit_def logged_def)
next
  case (Some e)
  let ?d = "d\<lparr>audit_events := audit_events d @ [fill_event E k e]\<rparr>"
  have "violated ?d = None"
    using ok fresh[OF Some]
    by (auto simp: violated_None violated_defs check_all_None row_simps image_iff)
  then show ?thesis using Some by (simp add: insertAudit_def logged_def exec_def)
qed

end
