(* ===== verification/Strconv.thy ===== *)
theory Strconv
  imports Contract
begin

text \<open>
  Decimal text of package \<^verbatim>\<open>strconv\<close> (\<^verbatim>\<open>FormatInt\<close>, the verb \<^verbatim>\<open>%d\<close>, \<^verbatim>\<open>ParseInt\<close> in base 10 with 64
  bits) and Unix seconds of package \<^verbatim>\<open>time\<close>.
\<close>

definition itoa :: "int \<Rightarrow> string" where
  "itoa i = (if i < 0 then CHR ''-'' # show_nat (nat (- i)) else show_nat (nat i))"

text \<open>The verb \<^verbatim>\<open>%q\<close> on a binding name, which has nothing to escape.\<close>

definition quoted :: "string \<Rightarrow> string" where
  "quoted s = CHR 34 # s @ [CHR 34]"

text \<open>What is left of a cut text once the continuation bytes at its end are dropped.\<close>

definition strip_continuation :: "string \<Rightarrow> string" where
  "strip_continuation s = rev (dropWhile (cont 0x80 0xBF) (rev s))"

text \<open>Seconds since the Unix epoch, as \<^verbatim>\<open>Time.Unix\<close>, and back, as \<^verbatim>\<open>time.Unix(secs, 0)\<close>.\<close>

definition unix_of :: "gotime \<Rightarrow> int" where
  "unix_of t = t div second - 62135596800"

definition unix_time :: "int \<Rightarrow> gotime" where
  "unix_time secs = (secs + 62135596800) * second"

definition read_nat :: "string \<Rightarrow> nat" where
  "read_nat s = foldl (\<lambda>n c. n * 10 + (byte_of c - 48)) 0 s"

definition is_number :: "string \<Rightarrow> bool" where
  "is_number s \<longleftrightarrow> s \<noteq> [] \<and> list_all is_digit s"

text \<open>An optional sign and digits, within the range of a signed 64-bit integer.\<close>

definition ParseInt :: "string \<Rightarrow> int option" where
  "ParseInt s =
     (let neg = s \<noteq> [] \<and> hd s = CHR ''-'';
          ds = (if s \<noteq> [] \<and> (hd s = CHR ''-'' \<or> hd s = CHR ''+'') then tl s else s) in
      if \<not> is_number ds then None
      else
        let n = int (read_nat ds) in
        if neg then (if n \<le> 2 ^ 63 then Some (- n) else None)
        else (if n < 2 ^ 63 then Some n else None))"

subsection \<open>Round trip\<close>

lemma digit_char: "d < 10 \<Longrightarrow> byte_of (char_of (48 + d)) = 48 + d" for d :: nat
  by (simp add: byte_of_def)

lemma show_nat_digits: "is_number (show_nat n) \<and> read_nat (show_nat n) = n"
proof (induction n rule: show_nat.induct)
  case (1 n)
  have dig: "is_digit (char_of (48 + d))" if "d < 10" for d :: nat
    using digit_char[OF that] that by (simp add: in_range_def) (simp add: byte_of_def)
  show ?case
  proof (cases "n < 10")
    case True
    then show ?thesis using dig[OF True] digit_char[OF True]
      by (subst show_nat.simps, subst (2) show_nat.simps) (simp add: is_number_def read_nat_def)
  next
    case False
    have "n mod 10 < 10" by simp
    then have "is_number (show_nat (n div 10) @ [char_of (48 + n mod 10)]) \<and>
        read_nat (show_nat (n div 10) @ [char_of (48 + n mod 10)]) = n"
      using 1[OF False] dig[of "n mod 10"] digit_char[of "n mod 10"] by (simp add: is_number_def read_nat_def)
    then show ?thesis using False by (subst show_nat.simps, subst (2) show_nat.simps) simp
  qed
qed

lemma number_head: "is_number s \<Longrightarrow> hd s \<noteq> CHR ''-'' \<and> hd s \<noteq> CHR ''+''"
proof -
  have "\<not> is_digit CHR ''-''" "\<not> is_digit CHR ''+''" by code_simp+
  then show "is_number s \<Longrightarrow> hd s \<noteq> CHR ''-'' \<and> hd s \<noteq> CHR ''+''"
    by (cases s) (auto simp: is_number_def)
qed

lemma ParseInt_itoa: "- (2 ^ 63) \<le> i \<Longrightarrow> i < 2 ^ 63 \<Longrightarrow> ParseInt (itoa i) = Some i"
  using show_nat_digits[of "nat i"] show_nat_digits[of "nat (- i)"]
    number_head[of "show_nat (nat i)"]
  by (auto simp: ParseInt_def itoa_def Let_def)

lemma unix_time_floor: "unix_time (unix_of t) \<le> t" "t < unix_time (unix_of t) + second"
  using mult_div_mod_eq[of second t] pos_mod_bound[of second t] pos_mod_sign[of second t]
  by (simp_all add: unix_time_def unix_of_def mult.commute)

end
