(* ===== verification/AccountStore.thy ===== *)
theory AccountStore
  imports AuditLog Strconv
begin

text \<open>
  ACME account generations of \<^verbatim>\<open>internal/conductor/sqlite/sqlite.go\<close>. An account is named by an
  ACME binding and a scope (empty, or a target's identifier); each of its generations is one row.
\<close>

subsection \<open>Text of audit details\<close>

definition accountDetail :: "string \<Rightarrow> string \<Rightarrow> string" where
  "accountDetail binding scope =
     (if scope = [] then ''binding='' @ binding
      else ''binding='' @ binding @ '' scope='' @ scope)"

definition schedulerActor :: string where "schedulerActor = ''scheduler''"
definition schedulerAuthority :: string where "schedulerAuthority = ''scheduler''"

subsection \<open>Queries\<close>

definition ListACMEAccounts :: "string \<Rightarrow> string \<Rightarrow> db \<Rightarrow> acme_account list" where
  "ListACMEAccounts binding scope d =
     rev (sort_key acc_Generation
       (filter (\<lambda>a. acc_Binding a = binding \<and> acc_Scope a = scope) (acme_accounts d)))"

definition ListScopedACMEAccounts :: "string \<Rightarrow> db \<Rightarrow> acme_account list" where
  "ListScopedACMEAccounts binding d =
     sort_key acc_Scope (rev (sort_key acc_Generation
       (filter (\<lambda>a. acc_Binding a = binding \<and> acc_Scope a \<noteq> []) (acme_accounts d))))"

definition ActiveACMEAccountGeneration :: "string \<Rightarrow> string \<Rightarrow> db \<Rightarrow> int" where
  "ActiveACMEAccountGeneration binding scope d =
     (case find (\<lambda>a. acc_Binding a = binding \<and> acc_Scope a = scope \<and> acc_Status a = ACMEAccountActive)
             (acme_accounts d) of
        None \<Rightarrow> 0 | Some a \<Rightarrow> acc_Generation a)"

text \<open>\<^verbatim>\<open>SELECT MAX(generation)\<close> and the generation a request must carry.\<close>

definition next_generation :: "string \<Rightarrow> string \<Rightarrow> db \<Rightarrow> int" where
  "next_generation binding scope d =
     (case filter (\<lambda>a. acc_Binding a = binding \<and> acc_Scope a = scope) (acme_accounts d) of
        [] \<Rightarrow> 1 | as \<Rightarrow> Max (acc_Generation ` set as) + 1)"

text \<open>\<^verbatim>\<open>SELECT retired_at FROM targets WHERE id = ?\<close> finds a row, and the column is not null.\<close>

definition target_retired :: "string \<Rightarrow> db \<Rightarrow> bool" where
  "target_retired i d = (case lookup tgt_ID i (targets d) of None \<Rightarrow> False | Some t \<Rightarrow> Retired t)"

lemma target_retired_iff [simp]:
  "target_retired i d \<longleftrightarrow> (\<exists>t. lookup tgt_ID i (targets d) = Some t \<and> Retired t)"
  by (cases "lookup tgt_ID i (targets d)") (simp_all add: target_retired_def del: lookup_None)

subsection \<open>State changes\<close>

definition RequestACMEAccountProvisioning ::
  "op_env \<Rightarrow> acme_account \<Rightarrow> string \<Rightarrow> audit_event option \<Rightarrow> db \<Rightarrow> reg_error + (acme_account \<times> db)" where
  "RequestACMEAccountProvisioning E a sealedJSON ev d =
     (let a = a\<lparr>acc_Status := ACMEAccountProvisioning, acc_sealed_payload := Some sealedJSON,
                acc_RunID := None, acc_CreatedAt := env_now E 0, acc_UpdatedAt := env_now E 0,
                acc_ActivatedAt := None\<rparr> in
      if acc_Scope a \<noteq> [] \<and> target_retired (acc_Scope a) d then Inl ErrRetired
      else if acc_Generation a \<noteq> next_generation (acc_Binding a) (acc_Scope a) d then Inl ErrConflict
      else and_then (on_error (\<lambda>e. if e = UniqueViolation then ErrConflict else ErrOther)
                       (exec (\<lambda>d. d\<lparr>acme_accounts := acme_accounts d @ [a]\<rparr>) d))
             (\<lambda>d. and_then (insertAudit E 1 ev d) (\<lambda>d. Inr (a, d))))"

definition attached_event :: "acme_account \<Rightarrow> string \<Rightarrow> audit_event" where
  "attached_event a runID =
     (new_event schedulerActor schedulerAuthority AuditACMEAccountProvisioningAttached
        (''acme account provisioning attached: '' @ accountDetail (acc_Binding a) (acc_Scope a)
          @ '' generation='' @ itoa (acc_Generation a) @ '' keyId='' @ acc_KeyID a
          @ '' runId='' @ runID))\<lparr>ev_RunID := runID\<rparr>"

text \<open>The result is the claimed row with its sealed payload, or \<open>None\<close> when nothing is pending.\<close>

definition ClaimACMEAccountProvisioning ::
  "op_env \<Rightarrow> string \<Rightarrow> string \<Rightarrow> string \<Rightarrow> db \<Rightarrow> reg_error + ((acme_account \<times> string) option \<times> db)" where
  "ClaimACMEAccountProvisioning E binding scope runID d =
     (case first_row (sort_key acc_Generation (filter (\<lambda>a. acc_Binding a = binding \<and>
             acc_Scope a = scope \<and> acc_Status a = ACMEAccountProvisioning \<and> acc_RunID a = None)
             (acme_accounts d))) of
        None \<Rightarrow> Inr (None, d)
      | Some a \<Rightarrow>
          let sel = (\<lambda>b. acc_key b = acc_key a \<and> acc_Status b = ACMEAccountProvisioning \<and>
                         acc_RunID b = None);
              sealed = (case acc_sealed_payload a of None \<Rightarrow> [] | Some s \<Rightarrow> s) in
          and_then (on_error (\<lambda>_. ErrOther)
                      (exec (\<lambda>d. d\<lparr>acme_accounts := upd_where sel
                         (\<lambda>b. b\<lparr>acc_RunID := Some runID, acc_UpdatedAt := env_now E 0\<rparr>)
                         (acme_accounts d)\<rparr>) d))
            (\<lambda>d'. if affected sel (acme_accounts d) = 0 then Inr (None, d')
                  else and_then (insertAudit E 1 (Some (attached_event a runID)) d')
                         (\<lambda>d. Inr (Some (a\<lparr>acc_RunID := Some runID\<rparr>, sealed), d))))"

definition ReleaseACMEAccountProvisioning ::
  "op_env \<Rightarrow> string \<Rightarrow> string \<Rightarrow> int \<Rightarrow> string \<Rightarrow> db \<Rightarrow> reg_error + db" where
  "ReleaseACMEAccountProvisioning E binding scope generation runID d =
     on_error (\<lambda>_. ErrOther)
       (exec (\<lambda>d. d\<lparr>acme_accounts := upd_where
          (\<lambda>a. acc_key a = (binding, scope, generation) \<and> acc_RunID a = Some runID \<and>
               acc_Status a = ACMEAccountProvisioning)
          (\<lambda>a. a\<lparr>acc_RunID := None, acc_UpdatedAt := env_now E 0\<rparr>) (acme_accounts d)\<rparr>) d)"

text \<open>The loop over the generations that were active before: retire each and record it.\<close>

definition retired_event :: "audit_event \<Rightarrow> string \<Rightarrow> string \<Rightarrow> int \<Rightarrow> int \<Rightarrow> audit_event" where
  "retired_event ev binding scope g generation =
     (new_event (ev_Actor ev) (ev_ActorAuthority ev) AuditACMEAccountRetired
        (''acme account retired: '' @ accountDetail binding scope @ '' generation='' @ itoa g
          @ '' (superseded by generation='' @ itoa generation @ '')''))\<lparr>ev_RunID := ev_RunID ev\<rparr>"

fun retire_previous ::
  "op_env \<Rightarrow> nat \<Rightarrow> string \<Rightarrow> string \<Rightarrow> int \<Rightarrow> audit_event \<Rightarrow> int list \<Rightarrow> db \<Rightarrow> reg_error + db" where
  "retire_previous E k binding scope generation ev [] d = Inr d"
| "retire_previous E k binding scope generation ev (g # gs) d =
     and_then (on_error (\<lambda>_. ErrOther) (exec (\<lambda>d. d\<lparr>acme_accounts := upd_where
                 (\<lambda>a. acc_key a = (binding, scope, g))
                 (\<lambda>a. a\<lparr>acc_Status := ACMEAccountRetired, acc_UpdatedAt := env_now E 0\<rparr>)
                 (acme_accounts d)\<rparr>) d))
       (\<lambda>d. and_then (insertAudit E k (Some (retired_event ev binding scope g generation)) d)
         (\<lambda>d. retire_previous E (Suc k) binding scope generation ev gs d))"

definition previous_active :: "string \<Rightarrow> string \<Rightarrow> int \<Rightarrow> db \<Rightarrow> int list" where
  "previous_active binding scope generation d =
     map acc_Generation (filter (\<lambda>a. acc_Binding a = binding \<and> acc_Scope a = scope \<and>
       acc_Status a = ACMEAccountActive \<and> acc_Generation a \<noteq> generation) (acme_accounts d))"

definition settle :: "op_env \<Rightarrow> bool \<Rightarrow> acme_account \<Rightarrow> acme_account" where
  "settle E registered a =
     (if registered
      then a\<lparr>acc_Status := ACMEAccountActive, acc_sealed_payload := None, acc_RunID := None,
             acc_UpdatedAt := env_now E 0, acc_ActivatedAt := Some (env_now E 0)\<rparr>
      else a\<lparr>acc_Status := ACMEAccountFailed, acc_sealed_payload := None, acc_RunID := None,
             acc_UpdatedAt := env_now E 0\<rparr>)"

text \<open>The callers always pass an event; a nil one would be dereferenced by the loop above.\<close>

definition CompleteACMEAccountProvisioning ::
  "op_env \<Rightarrow> string \<Rightarrow> string \<Rightarrow> int \<Rightarrow> string \<Rightarrow> bool \<Rightarrow> audit_event \<Rightarrow> db \<Rightarrow> reg_error + db" where
  "CompleteACMEAccountProvisioning E binding scope generation runID registered ev d =
     (let previous = (if registered then previous_active binding scope generation d else []);
          sel = (\<lambda>a. acc_key a = (binding, scope, generation) \<and> acc_RunID a = Some runID \<and>
                     acc_Status a = ACMEAccountProvisioning) in
      and_then (retire_previous E 1 binding scope generation ev previous d)
        (\<lambda>d. and_then (on_error (\<lambda>_. ErrOther) (exec (\<lambda>d. d\<lparr>acme_accounts :=
                         upd_where sel (settle E registered) (acme_accounts d)\<rparr>) d))
           (\<lambda>d'. if affected sel (acme_accounts d) = 0 then Inl ErrConflict
                 else insertAudit E (Suc (length previous)) (Some ev) d')))"

definition CancelACMEAccountProvisioning ::
  "op_env \<Rightarrow> string \<Rightarrow> string \<Rightarrow> int \<Rightarrow> audit_event option \<Rightarrow> db \<Rightarrow> reg_error + db" where
  "CancelACMEAccountProvisioning E binding scope generation ev d =
     (let sel = (\<lambda>a. acc_key a = (binding, scope, generation) \<and>
                     acc_Status a = ACMEAccountProvisioning \<and> acc_RunID a = None) in
      and_then (on_error (\<lambda>_. ErrOther) (exec (\<lambda>d. d\<lparr>acme_accounts := upd_where sel
                 (\<lambda>a. a\<lparr>acc_Status := ACMEAccountCancelled, acc_sealed_payload := None,
                        acc_UpdatedAt := env_now E 0\<rparr>) (acme_accounts d)\<rparr>) d))
        (\<lambda>d'. if affected sel (acme_accounts d) = 0
              then (if affected (\<lambda>a. acc_key a = (binding, scope, generation)) (acme_accounts d') = 0
                    then Inl ErrNotFound else Inl ErrConflict)
              else insertAudit E 1 ev d'))"

end
