(* ===== verification/TargetStore.thy ===== *)
theory TargetStore
  imports AccountStore
begin

text \<open>
  Targets, their names, their consumer ledger and their retirement
  (\<^verbatim>\<open>internal/conductor/sqlite/sqlite.go\<close>). The name table has one row for every name of every
  target in service, which is what makes a name belong to one target.
\<close>

definition target_names_of :: "target \<Rightarrow> string list" where
  "target_names_of t = tgt_FQDN t # tgt_AdditionalNames t"

subsection \<open>Names\<close>

text \<open>The owner of a name, through the join of the name table with the targets.\<close>

definition name_owner :: "string \<Rightarrow> db \<Rightarrow> string option" where
  "name_owner n d =
     map_option snd (find (\<lambda>(m, i). m = n \<and> i \<in> tgt_ID ` set (targets d)) (target_names d))"

fun insert_names :: "string \<Rightarrow> string list \<Rightarrow> db \<Rightarrow> reg_error + db" where
  "insert_names i [] d = Inr d"
| "insert_names i (n # ns) d =
     and_then (on_error (\<lambda>e. if e = UniqueViolation then ErrConflict else ErrOther)
                 (exec (\<lambda>d. d\<lparr>target_names := target_names d @ [(n, i)]\<rparr>) d))
       (\<lambda>d. insert_names i ns d)"

definition claimNames :: "string \<Rightarrow> string list \<Rightarrow> db \<Rightarrow> reg_error + db" where
  "claimNames i names d =
     (let taken = filter (\<lambda>n. name_owner n d \<noteq> None \<and> name_owner n d \<noteq> Some i) names;
          free = filter (\<lambda>n. name_owner n d = None) names in
      if taken \<noteq> [] then Inl ErrConflict else insert_names i free d)"

subsection \<open>Creating, reading and updating targets\<close>

definition CreateTarget :: "op_env \<Rightarrow> target \<Rightarrow> audit_event option \<Rightarrow> db \<Rightarrow> reg_error + (target \<times> db)" where
  "CreateTarget E t ev d =
     (let t = (if tgt_ID t = [] then t\<lparr>tgt_ID := env_id E 0\<rparr> else t);
          t = (if tgt_CreatedAt t = 0 then t\<lparr>tgt_CreatedAt := env_now E 0\<rparr> else t);
          t = t\<lparr>tgt_UpdatedAt := tgt_CreatedAt t, tgt_Revision := 1\<rparr>;
          row = t\<lparr>tgt_RetiredAt := None, tgt_RetiredBy := [], tgt_RetiredByAuthority := []\<rparr>;
          ev = map_option (\<lambda>e. e\<lparr>ev_TargetID := tgt_ID t\<rparr>) ev in
      and_then (on_error (\<lambda>e. if e = UniqueViolation then ErrConflict
                               else if e = ForeignKeyViolation then ErrNotFound else ErrOther)
                  (exec (\<lambda>d. d\<lparr>targets := targets d @ [row]\<rparr>) d))
        (\<lambda>d. and_then (claimNames (tgt_ID t) (target_names_of t) d)
          (\<lambda>d. and_then (insertAudit E 1 ev d) (\<lambda>d. Inr (t, d)))))"

definition GetTarget :: "string \<Rightarrow> db \<Rightarrow> reg_error + target" where
  "GetTarget i d = (case lookup tgt_ID i (targets d) of None \<Rightarrow> Inl ErrNotFound | Some t \<Rightarrow> Inr t)"

definition ListTargets :: "list_targets_options \<Rightarrow> db \<Rightarrow> target list" where
  "ListTargets opts d = sort_key tgt_ID (filter (\<lambda>t.
     (\<not> lto_IncludeRetired opts \<longrightarrow> \<not> Retired t) \<and>
     (case lto_Enabled opts of None \<Rightarrow> True | Some b \<Rightarrow> tgt_Enabled t = b) \<and>
     (lto_PolicyRef opts \<noteq> [] \<longrightarrow> tgt_PolicyRef t = lto_PolicyRef opts)) (targets d))"

definition set_target :: "target \<Rightarrow> target \<Rightarrow> target" where
  "set_target t s = s\<lparr>tgt_Enabled := tgt_Enabled t, tgt_Owner := tgt_Owner t,
     tgt_PolicyRef := tgt_PolicyRef t, tgt_ExecutionBinding := tgt_ExecutionBinding t,
     tgt_DNSBinding := tgt_DNSBinding t, tgt_StoreBinding := tgt_StoreBinding t,
     tgt_AdditionalNames := tgt_AdditionalNames t, tgt_UpdatedAt := tgt_UpdatedAt t,
     tgt_Revision := tgt_Revision s + 1\<rparr>"

definition UpdateTarget ::
  "op_env \<Rightarrow> target \<Rightarrow> int \<Rightarrow> audit_event option \<Rightarrow> db \<Rightarrow> reg_error + (target \<times> db)" where
  "UpdateTarget E t expectedRevision ev d =
     (let t = t\<lparr>tgt_UpdatedAt := env_now E 0\<rparr>;
          ev = map_option (\<lambda>e. e\<lparr>ev_TargetID := tgt_ID t\<rparr>) ev;
          sel = (\<lambda>s. tgt_ID s = tgt_ID t \<and> tgt_Revision s = expectedRevision \<and> \<not> Retired s) in
      and_then (on_error (\<lambda>e. if e = ForeignKeyViolation then ErrNotFound else ErrOther)
                  (exec (\<lambda>d. d\<lparr>targets := upd_where sel (set_target t) (targets d)\<rparr>) d))
        (\<lambda>d'. if affected sel (targets d) = 0 then
                (case lookup tgt_ID (tgt_ID t) (targets d') of
                   None \<Rightarrow> Inl ErrNotFound
                 | Some s \<Rightarrow> if Retired s then Inl ErrRetired else Inl ErrStaleRevision)
              else
                (case lookup tgt_ID (tgt_ID t) (targets d') of
                   None \<Rightarrow> Inl ErrOther
                 | Some s \<Rightarrow>
                     and_then (on_error (\<lambda>_. ErrOther) (exec (\<lambda>d. d\<lparr>target_names :=
                                 filter (\<lambda>(n, i). \<not> (i = tgt_ID t \<and> n \<noteq> tgt_FQDN s)) (target_names d)\<rparr>) d'))
                       (\<lambda>d. and_then (claimNames (tgt_ID t) (tgt_FQDN s # tgt_AdditionalNames t) d)
                         (\<lambda>d. and_then (insertAudit E 1 ev d)
                           (\<lambda>d. Inr (t\<lparr>tgt_Revision := expectedRevision + 1\<rparr>, d)))))))"

subsection \<open>Consumer ledger\<close>

definition GetTargetConsumers :: "string \<Rightarrow> db \<Rightarrow> reg_error + consumers" where
  "GetTargetConsumers i d =
     (case lookup tgt_ID i (targets d) of
        None \<Rightarrow> Inl ErrNotFound
      | Some _ \<Rightarrow>
          (case lookup cs_TargetID i (target_consumers d) of
             None \<Rightarrow> Inr \<lparr>cs_TargetID = i, cs_Version = 0, cs_Items = [], cs_UpdatedAt = None,
                          cs_UpdatedBy = [], cs_UpdatedByAuthority = []\<rparr>
           | Some c \<Rightarrow> Inr c))"

definition SetTargetConsumers ::
  "op_env \<Rightarrow> consumers \<Rightarrow> int \<Rightarrow> audit_event option \<Rightarrow> db \<Rightarrow> reg_error + (consumers \<times> db)" where
  "SetTargetConsumers E c expectedVersion ev d =
     (let now = env_now E 0;
          ev = map_option (\<lambda>e. e\<lparr>ev_TargetID := cs_TargetID c\<rparr>) ev in
      case lookup tgt_ID (cs_TargetID c) (targets d) of
        None \<Rightarrow> Inl ErrNotFound
      | Some t \<Rightarrow>
          if Retired t then Inl ErrRetired
          else
            let current = (case lookup cs_TargetID (cs_TargetID c) (target_consumers d) of
                             None \<Rightarrow> 0 | Some r \<Rightarrow> cs_Version r) in
            if current \<noteq> expectedVersion then Inl ErrStaleConsumers
            else
              and_then (on_error (\<lambda>_. ErrOther)
                (if current = 0
                 then exec (\<lambda>d. d\<lparr>target_consumers := target_consumers d
                              @ [c\<lparr>cs_Version := 1, cs_UpdatedAt := Some now\<rparr>]\<rparr>) d
                 else exec (\<lambda>d. d\<lparr>target_consumers := upd_where
                              (\<lambda>r. cs_TargetID r = cs_TargetID c \<and> cs_Version r = current)
                              (\<lambda>r. r\<lparr>cs_Version := cs_Version r + 1, cs_Items := cs_Items c,
                                     cs_UpdatedAt := Some now, cs_UpdatedBy := cs_UpdatedBy c,
                                     cs_UpdatedByAuthority := cs_UpdatedByAuthority c\<rparr>)
                              (target_consumers d)\<rparr>) d))
                (\<lambda>d. and_then (insertAudit E 1 ev d)
                   (\<lambda>d. Inr (c\<lparr>cs_Version := current + 1, cs_UpdatedAt := Some now\<rparr>, d))))"

subsection \<open>Retirement\<close>

definition cancelled_event :: "string \<Rightarrow> string \<Rightarrow> string \<Rightarrow> acme_account \<Rightarrow> audit_event" where
  "cancelled_event i by authority p =
     (new_event by authority AuditACMEAccountProvisioningCancelled
        (''acme account provisioning cancelled: '' @ accountDetail (acc_Binding p) i
          @ '' generation='' @ itoa (acc_Generation p) @ '' (target retired)''))\<lparr>ev_TargetID := i\<rparr>"

fun cancel_pending ::
  "op_env \<Rightarrow> nat \<Rightarrow> string \<Rightarrow> string \<Rightarrow> string \<Rightarrow> acme_account list \<Rightarrow> db \<Rightarrow> reg_error + db" where
  "cancel_pending E k i by authority [] d = Inr d"
| "cancel_pending E k i by authority (p # ps) d =
     and_then (on_error (\<lambda>_. ErrOther) (exec (\<lambda>d. d\<lparr>acme_accounts := upd_where
                 (\<lambda>a. acc_key a = (acc_Binding p, i, acc_Generation p) \<and>
                      acc_Status a = ACMEAccountProvisioning)
                 (\<lambda>a. a\<lparr>acc_Status := ACMEAccountCancelled, acc_sealed_payload := None,
                        acc_RunID := None, acc_UpdatedAt := env_now E 0\<rparr>) (acme_accounts d)\<rparr>) d))
       (\<lambda>d. and_then (insertAudit E k (Some (cancelled_event i by authority p)) d)
         (\<lambda>d. cancel_pending E (Suc k) i by authority ps d))"

definition pending_of :: "string \<Rightarrow> db \<Rightarrow> acme_account list" where
  "pending_of i d = sort_key acc_Binding (sort_key acc_Generation
     (filter (\<lambda>a. acc_Scope a = i \<and> acc_Status a = ACMEAccountProvisioning) (acme_accounts d)))"

definition retire_row :: "gotime \<Rightarrow> string \<Rightarrow> string \<Rightarrow> target \<Rightarrow> target" where
  "retire_row now by authority t = t\<lparr>tgt_RetiredAt := Some now, tgt_RetiredBy := by,
     tgt_RetiredByAuthority := authority, tgt_UpdatedAt := now, tgt_Revision := tgt_Revision t + 1\<rparr>"

definition RetireTarget ::
  "op_env \<Rightarrow> string \<Rightarrow> string \<Rightarrow> string \<Rightarrow> audit_event option \<Rightarrow> db \<Rightarrow> reg_error + (target \<times> db)" where
  "RetireTarget E i by authority ev d =
     (let now = env_now E 0;
          ev = map_option (\<lambda>e. e\<lparr>ev_TargetID := i\<rparr>) ev in
      case lookup tgt_ID i (targets d) of
        None \<Rightarrow> Inl ErrNotFound
      | Some t \<Rightarrow>
          if Retired t then Inl ErrRetired
          else if tgt_Enabled t then Inl ErrTargetEnabled
          else if 0 < affected (\<lambda>r. run_TargetID r = i \<and> Active (run_Status r)) (runs d)
          then Inl ErrRunActive
          else
            and_then (on_error (\<lambda>_. ErrOther) (exec (\<lambda>d. d\<lparr>targets :=
                        upd_where (\<lambda>t. tgt_ID t = i) (retire_row now by authority) (targets d)\<rparr>) d))
              (\<lambda>d. and_then (on_error (\<lambda>_. ErrOther) (exec (\<lambda>d. d\<lparr>target_names :=
                              filter (\<lambda>(n, j). j \<noteq> i) (target_names d)\<rparr>) d))
                (\<lambda>d. and_then (cancel_pending E 1 i by authority (pending_of i d) d)
                  (\<lambda>d'. and_then (insertAudit E (Suc (length (pending_of i d))) ev d')
                    (\<lambda>d. and_then (GetTarget i d) (\<lambda>t. Inr (t, d)))))))"

end
