(* ===== verification/RunStore.thy ===== *)
theory RunStore
  imports TargetStore
begin

text \<open>
  Runs of \<^verbatim>\<open>internal/conductor/sqlite/sqlite.go\<close>: the queue the scheduler works on and the summary
  its back-off reads.
\<close>

definition queued_row :: "run \<Rightarrow> run" where
  "queued_row r = \<lparr>run_ID = run_ID r, run_TargetID = run_TargetID r,
     run_TargetRevision = run_TargetRevision r, run_Status = RunQueued,
     run_RequestedBy = run_RequestedBy r, run_RequestedByAuthority = run_RequestedByAuthority r,
     run_RequestedAt = run_RequestedAt r, run_StartedAt = None, run_FinishedAt = None,
     run_Action = [], run_ExpiresAt = None, run_FingerprintSha256 = [], run_StoreObjectRef = [],
     run_ErrorCode = [], run_ErrorSummary = [], run_ExternalExecutionID = []\<rparr>"

definition CreateRun :: "op_env \<Rightarrow> run \<Rightarrow> audit_event option \<Rightarrow> db \<Rightarrow> reg_error + (run \<times> db)" where
  "CreateRun E r ev d =
     (let r = (if run_ID r = [] then r\<lparr>run_ID := env_id E 0\<rparr> else r);
          r = (if run_RequestedAt r = 0 then r\<lparr>run_RequestedAt := env_now E 0\<rparr> else r);
          r = r\<lparr>run_Status := RunQueued\<rparr>;
          ev = map_option (\<lambda>e. e\<lparr>ev_RunID := run_ID r, ev_TargetID := run_TargetID r\<rparr>) ev in
      if target_retired (run_TargetID r) d then Inl ErrRetired
      else
        and_then (on_error (\<lambda>e. if e = UniqueViolation then ErrRunActive
                                 else if e = ForeignKeyViolation then ErrNotFound else ErrOther)
                    (exec (\<lambda>d. d\<lparr>runs := runs d @ [queued_row r]\<rparr>) d))
          (\<lambda>d. and_then (insertAudit E 1 ev d) (\<lambda>d. Inr (r, d))))"

definition GetRun :: "string \<Rightarrow> db \<Rightarrow> reg_error + run" where
  "GetRun i d = (case lookup run_ID i (runs d) of None \<Rightarrow> Inl ErrNotFound | Some r \<Rightarrow> Inr r)"

definition ListRuns :: "list_runs_options \<Rightarrow> db \<Rightarrow> run list" where
  "ListRuns opts d = take (limit (lro_Limit opts)) (rev (sort_key run_ID (filter (\<lambda>r.
     (lro_TargetID opts \<noteq> [] \<longrightarrow> run_TargetID r = lro_TargetID opts) \<and>
     (lro_Statuses opts \<noteq> [] \<longrightarrow> run_Status r \<in> set (lro_Statuses opts)) \<and>
     (lro_Before opts \<noteq> [] \<longrightarrow> run_ID r < lro_Before opts)) (runs d))))"

definition ListActiveRuns :: "db \<Rightarrow> run list" where
  "ListActiveRuns d = sort_key run_ID (filter (\<lambda>r. Active (run_Status r)) (runs d))"

definition ClaimQueuedRun :: "db \<Rightarrow> reg_error + (run \<times> db)" where
  "ClaimQueuedRun d =
     (case first_row (sort_key run_ID (filter (\<lambda>r. run_Status r = RunQueued) (runs d))) of
        None \<Rightarrow> Inl ErrNotFound
      | Some q \<Rightarrow>
          and_then (on_error (\<lambda>_. ErrOther) (exec (\<lambda>d. d\<lparr>runs := upd_where
                      (\<lambda>r. run_ID r = run_ID q) (\<lambda>r. r\<lparr>run_Status := RunStarting\<rparr>) (runs d)\<rparr>) d))
            (\<lambda>d. and_then (GetRun (run_ID q) d) (\<lambda>r. Inr (r, d))))"

definition set_run :: "run \<Rightarrow> run \<Rightarrow> run" where
  "set_run r s = s\<lparr>run_Status := run_Status r, run_StartedAt := run_StartedAt r,
     run_FinishedAt := run_FinishedAt r, run_Action := run_Action r, run_ExpiresAt := run_ExpiresAt r,
     run_FingerprintSha256 := run_FingerprintSha256 r, run_StoreObjectRef := run_StoreObjectRef r,
     run_ErrorCode := run_ErrorCode r, run_ErrorSummary := run_ErrorSummary r,
     run_ExternalExecutionID := run_ExternalExecutionID r\<rparr>"

definition UpdateRun ::
  "op_env \<Rightarrow> run \<Rightarrow> run_status \<Rightarrow> audit_event option \<Rightarrow> db \<Rightarrow> reg_error + db" where
  "UpdateRun E r expectedStatus ev d =
     (if \<not> RunStatus_Valid (run_Status r) then Inl ErrOther
      else
        let ev = map_option (\<lambda>e. e\<lparr>ev_RunID := run_ID r, ev_TargetID := run_TargetID r\<rparr>) ev;
            sel = (\<lambda>s. run_ID s = run_ID r \<and> run_Status s = expectedStatus) in
        and_then (on_error (\<lambda>_. ErrOther)
                    (exec (\<lambda>d. d\<lparr>runs := upd_where sel (set_run r) (runs d)\<rparr>) d))
          (\<lambda>d'. if affected sel (runs d) = 0
                then (case lookup run_ID (run_ID r) (runs d') of
                        None \<Rightarrow> Inl ErrNotFound | Some _ \<Rightarrow> Inl ErrConflict)
                else insertAudit E 1 ev d'))"

definition RunSummary :: "string \<Rightarrow> db \<Rightarrow> run_summary" where
  "RunSummary i d =
     (let mine = filter (\<lambda>r. run_TargetID r = i) (runs d);
          ok = first_row (rev (sort_key run_ID (filter (\<lambda>r. run_Status r = RunSucceeded) mine)));
          since = (case ok of None \<Rightarrow> [] | Some r \<Rightarrow> run_ID r) in
      \<lparr>LastRun = first_row (rev (sort_key run_ID mine)), LastSucceeded = ok,
       ConsecutiveFailures = affected (\<lambda>r. since < run_ID r \<and>
         (run_Status r = RunFailed \<or> run_Status r = RunCancelled)) mine\<rparr>)"

end
