(* ===== verification/Transition.thy ===== *)
theory Transition
  imports Main
begin

text \<open>
  The interface between a state machine and what is proved of its executions: an invariant every
  step keeps, and a relation between earlier and later states every step respects. The clients
  are the registry's operations and the procedures built from them.
\<close>

locale guarded_steps =
  fixes step :: "'s \<Rightarrow> 's \<Rightarrow> bool"
    and inv :: "'s \<Rightarrow> bool"
    and rel :: "'s \<Rightarrow> 's \<Rightarrow> bool"
  assumes step_inv: "inv s \<Longrightarrow> step s t \<Longrightarrow> inv t"
    and step_rel: "inv s \<Longrightarrow> step s t \<Longrightarrow> rel s t"
    and rel_refl: "rel s s"
    and rel_trans: "rel s t \<Longrightarrow> rel t u \<Longrightarrow> rel s u"
begin

lemma steps_inv: "step\<^sup>*\<^sup>* s t \<Longrightarrow> inv s \<Longrightarrow> inv t"
  by (induction rule: rtranclp_induct) (auto intro: step_inv)

lemma steps_rel: "step\<^sup>*\<^sup>* s t \<Longrightarrow> inv s \<Longrightarrow> rel s t"
proof (induction rule: rtranclp_induct)
  case base
  show ?case by (rule rel_refl)
next
  case (step t u)
  then show ?case using steps_inv step_rel rel_trans by meson
qed

text \<open>Between two states of one execution the relation holds as well.\<close>

lemma later_rel: "step\<^sup>*\<^sup>* s t \<Longrightarrow> step\<^sup>*\<^sup>* t u \<Longrightarrow> inv s \<Longrightarrow> rel t u"
  using steps_inv steps_rel by blast

end

end
