(* ===== verification/RegistryInv.thy ===== *)
theory RegistryInv
  imports RunStore Transition
begin

text \<open>
  The invariant of the registry's database, the operations as one step relation, and what every
  execution keeps: the invariant itself, and the history (nothing is deleted, the columns that
  identify a row never change, the audit log only grows).
\<close>

subsection \<open>The invariant\<close>

text \<open>The name table holds the names of the targets in service and nothing else.\<close>

definition names_exact :: "db \<Rightarrow> bool" where
  "names_exact d \<longleftrightarrow>
     (\<forall>n i. (n, i) \<in> set (target_names d) \<longleftrightarrow>
        (\<exists>t \<in> set (targets d). tgt_ID t = i \<and> \<not> Retired t \<and> n \<in> set (target_names_of t)))"

text \<open>A retired target is disabled, runs nothing and has no account request pending.\<close>

definition retired_closed :: "db \<Rightarrow> bool" where
  "retired_closed d \<longleftrightarrow>
     (\<forall>t \<in> set (targets d). Retired t \<longrightarrow>
        \<not> tgt_Enabled t \<and>
        (\<forall>r \<in> set (runs d). run_TargetID r = tgt_ID t \<longrightarrow> \<not> Active (run_Status r)) \<and>
        (\<forall>a \<in> set (acme_accounts d). acc_Scope a = tgt_ID t \<longrightarrow> acc_Status a \<noteq> ACMEAccountProvisioning))"

text \<open>
  A sealed payload and a run are attached only while a generation is provisioning; the generations
  of an account are numbered from 1 without a gap; a pending one is the newest.
\<close>

definition account_ok :: "db \<Rightarrow> acme_account \<Rightarrow> bool" where
  "account_ok d a \<longleftrightarrow>
     (acc_Status a \<noteq> ACMEAccountProvisioning \<longrightarrow> acc_sealed_payload a = None \<and> acc_RunID a = None) \<and>
     (acc_Status a = ACMEAccountProvisioning \<longrightarrow> acc_sealed_payload a \<noteq> None \<and>
        (\<forall>b \<in> set (acme_accounts d). acc_scope b = acc_scope a \<longrightarrow> acc_Generation b \<le> acc_Generation a)) \<and>
     (acc_Status a = ACMEAccountActive \<longrightarrow> acc_ActivatedAt a \<noteq> None) \<and>
     (\<forall>g. 1 \<le> g \<and> g \<le> acc_Generation a \<longrightarrow>
        (acc_Binding a, acc_Scope a, g) \<in> acc_key ` set (acme_accounts d))"

definition accounts_ok :: "db \<Rightarrow> bool" where
  "accounts_ok d \<longleftrightarrow> (\<forall>a \<in> set (acme_accounts d). account_ok d a)"

definition rows_ok :: "db \<Rightarrow> bool" where
  "rows_ok d \<longleftrightarrow>
     (\<forall>t \<in> set (targets d). tgt_ID t \<noteq> [] \<and> 1 \<le> tgt_Revision t) \<and>
     (\<forall>r \<in> set (runs d). run_ID r \<noteq> [] \<and> RunStatus_Valid (run_Status r)) \<and>
     (\<forall>e \<in> set (audit_events d). length (ev_Detail e) \<le> MaxAuditDetailLength) \<and>
     (\<forall>p \<in> set (principal_names d). pn_DisplayName p \<noteq> [] \<and>
        length (pn_DisplayName p) \<le> MaxPrincipalDisplayNameLength)"

definition db_inv :: "db \<Rightarrow> bool" where
  "db_inv d \<longleftrightarrow> violated d = None \<and> names_exact d \<and> retired_closed d \<and> accounts_ok d \<and> rows_ok d"

lemmas inv_defs = names_exact_def retired_closed_def accounts_ok_def account_ok_def rows_ok_def

lemma db_invI:
  "violated d = None \<Longrightarrow> names_exact d \<Longrightarrow> retired_closed d \<Longrightarrow> accounts_ok d \<Longrightarrow> rows_ok d \<Longrightarrow> db_inv d"
  by (simp add: db_inv_def)

lemma db_invD:
  assumes "db_inv d"
  shows "violated d = None" "names_exact d" "retired_closed d" "accounts_ok d" "rows_ok d"
  using assms by (simp_all add: db_inv_def)

text \<open>What the constraints say, row by row.\<close>

lemma db_inv_keys:
  assumes "violated d = None"
  shows "unique_on every pol_ID (policies d)" "unique_on every tgt_ID (targets d)"
    "unique_on every run_ID (runs d)" "unique_on every ev_ID (audit_events d)"
    "unique_on every acc_key (acme_accounts d)" "unique_on every cs_TargetID (target_consumers d)"
    "unique_on (\<lambda>r. Active (run_Status r)) run_TargetID (runs d)"
    "unique_on (\<lambda>a. acc_Status a = ACMEAccountProvisioning) acc_scope (acme_accounts d)"
    "unique_on (\<lambda>a. acc_Status a = ACMEAccountActive) acc_scope (acme_accounts d)"
    "unique_on every fst (target_names d)"
    "unique_on (\<lambda>t. \<not> Retired t) tgt_FQDN (targets d)"
    "\<forall>a \<in> set (acme_accounts d). 1 \<le> acc_Generation a"
    "\<forall>c \<in> set (target_consumers d). 1 \<le> cs_Version c"
  using assms by (auto simp: violated_None violated_defs check_all_None not_less)

lemma db_inv_refs:
  assumes "violated d = None"
  shows "tgt_PolicyRef ` set (targets d) \<subseteq> pol_ID ` set (policies d)"
    "run_TargetID ` set (runs d) \<subseteq> tgt_ID ` set (targets d)"
    "snd ` set (target_names d) \<subseteq> tgt_ID ` set (targets d)"
    "cs_TargetID ` set (target_consumers d) \<subseteq> tgt_ID ` set (targets d)"
  using assms by (auto simp: violated_None violated_defs check_all_None)

text \<open>Parts of the invariant that do not read a table are untouched by changes to it.\<close>

lemma inv_frame [simp]:
  "names_exact (d\<lparr>policies := p\<rparr>) = names_exact d" "retired_closed (d\<lparr>policies := p\<rparr>) = retired_closed d"
  "accounts_ok (d\<lparr>policies := p\<rparr>) = accounts_ok d" "rows_ok (d\<lparr>policies := p\<rparr>) = rows_ok d"
  "names_exact (d\<lparr>runs := r\<rparr>) = names_exact d" "accounts_ok (d\<lparr>runs := r\<rparr>) = accounts_ok d"
  "names_exact (d\<lparr>audit_events := e\<rparr>) = names_exact d"
  "retired_closed (d\<lparr>audit_events := e\<rparr>) = retired_closed d"
  "accounts_ok (d\<lparr>audit_events := e\<rparr>) = accounts_ok d"
  "names_exact (d\<lparr>acme_accounts := a\<rparr>) = names_exact d" "rows_ok (d\<lparr>acme_accounts := a\<rparr>) = rows_ok d"
  "names_exact (d\<lparr>target_consumers := c\<rparr>) = names_exact d"
  "retired_closed (d\<lparr>target_consumers := c\<rparr>) = retired_closed d"
  "accounts_ok (d\<lparr>target_consumers := c\<rparr>) = accounts_ok d" "rows_ok (d\<lparr>target_consumers := c\<rparr>) = rows_ok d"
  "names_exact (d\<lparr>principal_names := n\<rparr>) = names_exact d"
  "retired_closed (d\<lparr>principal_names := n\<rparr>) = retired_closed d"
  "accounts_ok (d\<lparr>principal_names := n\<rparr>) = accounts_ok d"
  "retired_closed (d\<lparr>target_names := m\<rparr>) = retired_closed d"
  "accounts_ok (d\<lparr>target_names := m\<rparr>) = accounts_ok d" "rows_ok (d\<lparr>target_names := m\<rparr>) = rows_ok d"
  "accounts_ok (d\<lparr>targets := t\<rparr>) = accounts_ok d"
  by (simp_all add: inv_defs)

subsection \<open>Audit, principals and policies\<close>

lemma insertAudit_inv:
  assumes "insertAudit E k ev d = Inr d'" "db_inv d"
  shows "db_inv d'"
proof (rule db_invI)
  have d': "d' = d\<lparr>audit_events := audit_events d @ logged E k ev\<rparr>" by (rule insertAudit_Inr[OF assms(1)])
  show "violated d' = None" using insertAudit_ok[OF assms(1)] assms(2) by (simp add: db_inv_def)
  show "rows_ok d'" using assms(2)
    by (auto simp: d' db_inv_def rows_ok_def logged_def split: option.splits)
qed (use assms(2) in \<open>auto simp: insertAudit_Inr[OF assms(1)] db_inv_def\<close>)

lemma SetPrincipalName_inv:
  assumes "SetPrincipalName E p d = Inr d'" "db_inv d"
  shows "db_inv d'"
  using assms
  by (auto simp: SetPrincipalName_def Let_def db_inv_def rows_ok_def row_simps split: if_splits)

lemma CreatePolicy_inv:
  assumes "CreatePolicy tbl E p ev d = Inr (p', d')" "db_inv d"
  shows "db_inv d'"
proof -
  obtain d1 where "insertAudit E 1 (map_option (\<lambda>e. e\<lparr>ev_PolicyID := pol_ID p'\<rparr>) ev) d1 = Inr d'"
    "violated d1 = None" "d1 = d\<lparr>policies := policies d @ [p']\<rparr>"
    using assms(1) by (auto simp: CreatePolicy_def Let_def)
  moreover from this have "db_inv d1" using assms(2) by (simp add: db_inv_def)
  ultimately show ?thesis using insertAudit_inv by blast
qed

lemma UpdatePolicy_inv:
  assumes "UpdatePolicy tbl E p ev d = Inr (p', d')" "db_inv d"
  shows "db_inv d'"
proof -
  obtain d1 where "insertAudit E 1 (map_option (\<lambda>e. e\<lparr>ev_PolicyID := pol_ID p\<rparr>) ev) d1 = Inr d'"
    "violated d1 = None" "d1 = d\<lparr>policies := upd_where (\<lambda>q. pol_ID q = pol_ID p) (set_policy p') (policies d)\<rparr>"
    using assms(1) by (auto simp: UpdatePolicy_def Let_def split: if_splits)
  moreover from this have "db_inv d1" using assms(2) by (simp add: db_inv_def)
  ultimately show ?thesis using insertAudit_inv by blast
qed

subsection \<open>Runs\<close>

lemma lookup_target:
  "violated d = None \<Longrightarrow> lookup tgt_ID i (targets d) = Some t \<longleftrightarrow> t \<in> set (targets d) \<and> tgt_ID t = i"
  by (rule lookup_unique) (rule db_inv_keys)

lemma queued_row_simps [simp]:
  "run_ID (queued_row r) = run_ID r" "run_TargetID (queued_row r) = run_TargetID r"
  "run_Status (queued_row r) = RunQueued"
  by (simp_all add: queued_row_def)

lemma CreateRun_effect:
  assumes "CreateRun E r ev d = Inr (r', d')"
  obtains d1 where "d1 = d\<lparr>runs := runs d @ [queued_row r']\<rparr>" "violated d1 = None"
    "insertAudit E 1 (map_option (\<lambda>e. e\<lparr>ev_RunID := run_ID r', ev_TargetID := run_TargetID r'\<rparr>) ev) d1 = Inr d'"
    "\<And>t. lookup tgt_ID (run_TargetID r') (targets d) = Some t \<Longrightarrow> \<not> Retired t"
    "run_TargetID r' = run_TargetID r" "run_ID r' = (if run_ID r = [] then env_id E 0 else run_ID r)"
    "r' = r\<lparr>run_ID := run_ID r', run_RequestedAt := run_RequestedAt r', run_Status := RunQueued\<rparr>"
  using assms by (auto simp: CreateRun_def Let_def split: if_splits)

lemma CreateRun_inv:
  assumes "CreateRun E r ev d = Inr (r', d')" "db_inv d" "env_id E 0 \<noteq> []"
  shows "db_inv d'"
  using assms(1)
proof (rule CreateRun_effect)
  fix d1 assume d1: "d1 = d\<lparr>runs := runs d @ [queued_row r']\<rparr>" "violated d1 = None"
    and ins: "insertAudit E 1 (map_option (\<lambda>e. e\<lparr>ev_RunID := run_ID r', ev_TargetID := run_TargetID r'\<rparr>) ev) d1 = Inr d'"
    and nr: "\<And>t. lookup tgt_ID (run_TargetID r') (targets d) = Some t \<Longrightarrow> \<not> Retired t"
    and new: "run_ID r' = (if run_ID r = [] then env_id E 0 else run_ID r)"
  have "retired_closed d1" using assms(2) nr
    by (auto simp: d1(1) retired_closed_def db_inv_def lookup_target)
  then have "db_inv d1" using d1 assms(2,3) new by (auto simp: db_inv_def rows_ok_def split: if_splits)
  with ins show ?thesis by (rule insertAudit_inv)
qed

lemma ClaimQueuedRun_effect:
  assumes "ClaimQueuedRun d = Inr (r, d')" "violated d = None"
  obtains q where "q \<in> set (runs d)" "run_Status q = RunQueued"
    "\<forall>s \<in> set (runs d). run_Status s = RunQueued \<longrightarrow> run_ID q \<le> run_ID s"
    "r = q\<lparr>run_Status := RunStarting\<rparr>" "violated d' = None"
    "d' = d\<lparr>runs := upd_where (\<lambda>s. run_ID s = run_ID q) (\<lambda>s. s\<lparr>run_Status := RunStarting\<rparr>) (runs d)\<rparr>"
proof -
  obtain q where q: "first_row (sort_key run_ID (filter (\<lambda>r. run_Status r = RunQueued) (runs d))) = Some q"
    using assms(1) by (auto simp: ClaimQueuedRun_def split: option.splits)
  note min = first_row_sort_key[OF q]
  let ?d = "d\<lparr>runs := upd_where (\<lambda>s. run_ID s = run_ID q) (\<lambda>s. s\<lparr>run_Status := RunStarting\<rparr>) (runs d)\<rparr>"
  have d': "d' = ?d" "violated ?d = None" "GetRun (run_ID q) ?d = Inr r"
    using assms(1) q by (auto simp: ClaimQueuedRun_def)
  have mem: "q\<lparr>run_Status := RunStarting\<rparr> \<in> set (runs ?d)" using min by (auto simp: row_simps)
  have "lookup run_ID (run_ID q) (runs ?d) = Some (q\<lparr>run_Status := RunStarting\<rparr>)"
    using mem lookup_unique[OF db_inv_keys(3)[OF d'(2)]] by simp
  then have "r = q\<lparr>run_Status := RunStarting\<rparr>" using d'(3) by (simp add: GetRun_def)
  then show thesis using that[of q] min d' by auto
qed

lemma ClaimQueuedRun_inv:
  assumes "ClaimQueuedRun d = Inr (r, d')" "db_inv d"
  shows "db_inv d'"
proof -
  obtain q where q: "q \<in> set (runs d)" "run_Status q = RunQueued" and v: "violated d' = None"
    and d': "d' = d\<lparr>runs := upd_where (\<lambda>s. run_ID s = run_ID q) (\<lambda>s. s\<lparr>run_Status := RunStarting\<rparr>) (runs d)\<rparr>"
    using ClaimQueuedRun_effect[OF assms(1)] db_invD(1)[OF assms(2)] by metis
  have same: "s = q" if "s \<in> set (runs d)" "run_ID s = run_ID q" for s
    using unique_onD[OF db_inv_keys(3)[OF db_invD(1)[OF assms(2)]] that(1) q(1)] that(2) by simp
  show ?thesis
  proof (rule db_invI)
    have act: "Active (run_Status s)" if "s \<in> set (runs d)" "run_ID s = run_ID q" for s
      using same[OF that] q(2) by simp
    show "retired_closed d'" using assms(2) act
      by (auto simp: d' db_inv_def retired_closed_def row_simps)
    show "rows_ok d'" using assms(2) by (auto simp: d' db_inv_def rows_ok_def row_simps)
  qed (use v assms(2) in \<open>auto simp: d' db_inv_def\<close>)
qed

lemma set_run_simps [simp]:
  "run_ID (set_run r s) = run_ID s" "run_TargetID (set_run r s) = run_TargetID s"
  "run_Status (set_run r s) = run_Status r"
  by (simp_all add: set_run_def)

lemma UpdateRun_effect:
  assumes "UpdateRun E r st ev d = Inr d'"
  obtains d1 where
    "d1 = d\<lparr>runs := upd_where (\<lambda>s. run_ID s = run_ID r \<and> run_Status s = st) (set_run r) (runs d)\<rparr>"
    "violated d1 = None" "RunStatus_Valid (run_Status r)"
    "\<exists>s \<in> set (runs d). run_ID s = run_ID r \<and> run_Status s = st"
    "insertAudit E 1 (map_option (\<lambda>e. e\<lparr>ev_RunID := run_ID r, ev_TargetID := run_TargetID r\<rparr>) ev) d1 = Inr d'"
  using assms by (auto simp: UpdateRun_def Let_def split: if_splits option.splits)

text \<open>A terminal run is never turned back into an active one by the callers (\<open>guard\<close>).\<close>

lemma UpdateRun_inv:
  assumes "UpdateRun E r st ev d = Inr d'" "db_inv d" and guard: "Active (run_Status r) \<longrightarrow> Active st"
  shows "db_inv d'"
  using assms(1)
proof (rule UpdateRun_effect)
  fix d1
  assume d1: "d1 = d\<lparr>runs := upd_where (\<lambda>s. run_ID s = run_ID r \<and> run_Status s = st) (set_run r) (runs d)\<rparr>"
    "violated d1 = None" and valid: "RunStatus_Valid (run_Status r)"
    and ins: "insertAudit E 1 (map_option (\<lambda>e. e\<lparr>ev_RunID := run_ID r, ev_TargetID := run_TargetID r\<rparr>) ev) d1 = Inr d'"
  have "retired_closed d1" using assms(2) guard
    by (auto simp: d1(1) db_inv_def retired_closed_def row_simps)
  moreover have "rows_ok d1" using assms(2) valid by (auto simp: d1(1) db_inv_def rows_ok_def row_simps)
  ultimately have "db_inv d1" using d1 assms(2) by (auto simp: db_inv_def)
  with ins show ?thesis by (rule insertAudit_inv)
qed

subsection \<open>Consumers\<close>

lemma SetTargetConsumers_inv:
  assumes "SetTargetConsumers E c v ev d = Inr (c', d')" "db_inv d"
  shows "db_inv d'"
proof -
  obtain d1 cs where "insertAudit E 1 (map_option (\<lambda>e. e\<lparr>ev_TargetID := cs_TargetID c\<rparr>) ev) d1 = Inr d'"
    "violated d1 = None" "d1 = d\<lparr>target_consumers := cs\<rparr>"
    using assms(1) by (auto simp: SetTargetConsumers_def Let_def split: if_splits option.splits)
  moreover from this have "db_inv d1" using assms(2) by (simp add: db_inv_def)
  ultimately show ?thesis using insertAudit_inv by blast
qed

subsection \<open>Targets\<close>

lemma name_owner_iff:
  assumes "violated d = None"
  shows "name_owner n d = Some i \<longleftrightarrow> (n, i) \<in> set (target_names d)"
    and "name_owner n d = None \<longleftrightarrow> n \<notin> fst ` set (target_names d)"
proof -
  have ref: "j \<in> tgt_ID ` set (targets d)" if "(m, j) \<in> set (target_names d)" for m j
    using db_inv_refs(3)[OF assms] that by force
  have eq: "find (\<lambda>(m, i). m = n \<and> i \<in> tgt_ID ` set (targets d)) (target_names d)
      = lookup fst n (target_names d)"
    unfolding lookup_def using ref by (intro find_cong) auto
  show "name_owner n d = None \<longleftrightarrow> n \<notin> fst ` set (target_names d)"
    by (simp add: name_owner_def eq)
  show "name_owner n d = Some i \<longleftrightarrow> (n, i) \<in> set (target_names d)"
    using lookup_unique[OF db_inv_keys(10)[OF assms], of n "(n, i)"]
    by (auto simp: name_owner_def eq dest: lookup_Some)
qed

lemma insert_names_Inr:
  assumes "insert_names i ns d = Inr d'"
  shows "d' = d\<lparr>target_names := target_names d @ map (\<lambda>n. (n, i)) ns\<rparr>"
    and "violated d = None \<Longrightarrow> violated d' = None"
  using assms by (induction i ns d rule: insert_names.induct) fastforce+

lemma claimNames_effect:
  assumes "claimNames i names d = Inr d'" "violated d = None"
  obtains ns where "d' = d\<lparr>target_names := ns\<rparr>" "violated d' = None"
    "set ns = set (target_names d) \<union> (\<lambda>n. (n, i)) ` set names"
proof -
  let ?free = "filter (\<lambda>n. name_owner n d = None) names"
  let ?ns = "target_names d @ map (\<lambda>n. (n, i)) ?free"
  have ins: "insert_names i ?free d = Inr d'"
    and own: "\<And>n. n \<in> set names \<Longrightarrow> name_owner n d = None \<or> name_owner n d = Some i"
    using assms(1) by (auto simp: claimNames_def Let_def filter_empty_conv split: if_splits)
  have "set ?ns = set (target_names d) \<union> (\<lambda>n. (n, i)) ` set names"
  proof (intro set_eqI iffI)
    fix x assume "x \<in> set (target_names d) \<union> (\<lambda>n. (n, i)) ` set names"
    then consider "x \<in> set (target_names d)" | n where "n \<in> set names" "x = (n, i)" by blast
    then show "x \<in> set ?ns"
      by cases (use own name_owner_iff(1)[OF assms(2)] in auto)
  qed auto
  with insert_names_Inr[OF ins] assms(2) show thesis using that[of ?ns] by blast
qed

lemma CreateTarget_effect:
  assumes "CreateTarget E t ev d = Inr (t', d')"
  obtains d1 d2 where
    "d1 = d\<lparr>targets := targets d @ [t'\<lparr>tgt_RetiredAt := None, tgt_RetiredBy := [], tgt_RetiredByAuthority := []\<rparr>]\<rparr>"
    "violated d1 = None" "claimNames (tgt_ID t') (target_names_of t') d1 = Inr d2"
    "insertAudit E 1 (map_option (\<lambda>e. e\<lparr>ev_TargetID := tgt_ID t'\<rparr>) ev) d2 = Inr d'"
    "tgt_Revision t' = 1" "tgt_ID t' = (if tgt_ID t = [] then env_id E 0 else tgt_ID t)"
    "target_names_of t' = target_names_of t" "tgt_Enabled t' = tgt_Enabled t"
  using assms by (auto simp: CreateTarget_def Let_def target_names_of_def split: if_splits)

lemma target_names_of_simps [simp]:
  "target_names_of (t\<lparr>tgt_RetiredAt := x, tgt_RetiredBy := y, tgt_RetiredByAuthority := z\<rparr>) = target_names_of t"
  by (simp add: target_names_of_def)

lemma Retired_simps [simp]:
  "\<not> Retired (t\<lparr>tgt_RetiredAt := None, tgt_RetiredBy := y, tgt_RetiredByAuthority := z\<rparr>)"
  "Retired (retire_row now by authority t)" "Retired (set_target u t) = Retired t"
  by (simp_all add: Retired_def retire_row_def set_target_def)

lemma set_target_simps [simp]:
  "tgt_ID (set_target u t) = tgt_ID t" "tgt_FQDN (set_target u t) = tgt_FQDN t"
  "tgt_AdditionalNames (set_target u t) = tgt_AdditionalNames u"
  "tgt_Revision (set_target u t) = tgt_Revision t + 1" "tgt_PolicyRef (set_target u t) = tgt_PolicyRef u"
  "tgt_Enabled (set_target u t) = tgt_Enabled u" "tgt_CreatedAt (set_target u t) = tgt_CreatedAt t"
  "tgt_ID (retire_row now by authority t) = tgt_ID t" "tgt_FQDN (retire_row now by authority t) = tgt_FQDN t"
  "tgt_Revision (retire_row now by authority t) = tgt_Revision t + 1"
  "tgt_Enabled (retire_row now by authority t) = tgt_Enabled t"
  "tgt_CreatedAt (retire_row now by authority t) = tgt_CreatedAt t"
  by (simp_all add: retire_row_def set_target_def)

lemma CreateTarget_inv:
  assumes "CreateTarget E t ev d = Inr (t', d')" "db_inv d" "env_id E 0 \<noteq> []"
  shows "db_inv d'"
  using assms(1)
proof (rule CreateTarget_effect)
  let ?row = "t'\<lparr>tgt_RetiredAt := None, tgt_RetiredBy := [], tgt_RetiredByAuthority := []\<rparr>"
  fix d1 d2 assume d1: "d1 = d\<lparr>targets := targets d @ [?row]\<rparr>" "violated d1 = None"
    and cl: "claimNames (tgt_ID t') (target_names_of t') d1 = Inr d2"
    and ins: "insertAudit E 1 (map_option (\<lambda>e. e\<lparr>ev_TargetID := tgt_ID t'\<rparr>) ev) d2 = Inr d'"
    and t': "tgt_Revision t' = 1" "tgt_ID t' = (if tgt_ID t = [] then env_id E 0 else tgt_ID t)"
  obtain ns where d2: "d2 = d1\<lparr>target_names := ns\<rparr>" "violated d2 = None"
    and ns: "set ns = set (target_names d) \<union> (\<lambda>n. (n, tgt_ID t')) ` set (target_names_of t')"
    using claimNames_effect[OF cl d1(2)] by (auto simp: d1(1))
  have "names_exact d2" using db_invD(2)[OF assms(2)]
    by (auto simp: d2(1) d1(1) names_exact_def ns)
  moreover have "retired_closed d2" using assms(2)
    by (auto simp: d2(1) d1(1) db_inv_def retired_closed_def)
  moreover have "rows_ok d2" using assms(2,3) t'
    by (auto simp: d2(1) d1(1) db_inv_def rows_ok_def split: if_splits)
  ultimately have "db_inv d2" using d2 assms(2) by (simp add: db_inv_def d1(1))
  with ins show ?thesis by (rule insertAudit_inv)
qed

lemma UpdateTarget_effect:
  assumes "UpdateTarget E t v ev d = Inr (t', d')" "violated d = None"
  obtains s d1 d2 d3 where
    "s \<in> set (targets d)" "tgt_ID s = tgt_ID t" "tgt_Revision s = v" "\<not> Retired s"
    "d1 = d\<lparr>targets := upd_where (\<lambda>u. tgt_ID u = tgt_ID t \<and> tgt_Revision u = v \<and> \<not> Retired u)
              (set_target t') (targets d)\<rparr>" "violated d1 = None"
    "d2 = d1\<lparr>target_names := filter (\<lambda>(n, i). \<not> (i = tgt_ID t \<and> n \<noteq> tgt_FQDN s)) (target_names d)\<rparr>"
    "violated d2 = None"
    "claimNames (tgt_ID t) (tgt_FQDN s # tgt_AdditionalNames t) d2 = Inr d3"
    "insertAudit E 1 (map_option (\<lambda>e. e\<lparr>ev_TargetID := tgt_ID t\<rparr>) ev) d3 = Inr d'"
    "t' = t\<lparr>tgt_UpdatedAt := env_now E 0, tgt_Revision := v + 1\<rparr>"
proof -
  let ?sel = "\<lambda>u. tgt_ID u = tgt_ID t \<and> tgt_Revision u = v \<and> \<not> Retired u"
  let ?t = "t\<lparr>tgt_UpdatedAt := env_now E 0\<rparr>"
  let ?d1 = "d\<lparr>targets := upd_where ?sel (set_target ?t) (targets d)\<rparr>"
  have same: "set_target (t\<lparr>tgt_UpdatedAt := env_now E 0, tgt_Revision := v + 1\<rparr>) = set_target ?t"
    by (simp add: set_target_def fun_eq_iff)
  have v1: "violated ?d1 = None" and aff: "\<exists>s \<in> set (targets d). ?sel s"
    using assms(1) by (auto simp: UpdateTarget_def Let_def split: if_splits option.splits)
  then obtain s where s: "s \<in> set (targets d)" "?sel s" by blast
  have "lookup tgt_ID (tgt_ID t) (targets ?d1) = Some (set_target ?t s)"
    using s by (subst lookup_target[OF v1]) (auto simp: row_simps)
  moreover have "affected ?sel (targets d) \<noteq> 0" using aff by auto
  ultimately obtain d3 where "violated (?d1\<lparr>target_names := filter (\<lambda>(n, i). \<not> (i = tgt_ID t \<and> n \<noteq> tgt_FQDN s))
      (target_names d)\<rparr>) = None"
    "claimNames (tgt_ID t) (tgt_FQDN s # tgt_AdditionalNames t) (?d1\<lparr>target_names :=
      filter (\<lambda>(n, i). \<not> (i = tgt_ID t \<and> n \<noteq> tgt_FQDN s)) (target_names d)\<rparr>) = Inr d3"
    "insertAudit E 1 (map_option (\<lambda>e. e\<lparr>ev_TargetID := tgt_ID t\<rparr>) ev) d3 = Inr d'"
    "t' = t\<lparr>tgt_UpdatedAt := env_now E 0, tgt_Revision := v + 1\<rparr>"
    using assms(1) by (auto simp: UpdateTarget_def Let_def simp del: affected_0 affected_pos)
  then show thesis using s v1 by (intro that[of s]) (simp_all add: same)
qed

lemma UpdateTarget_inv:
  assumes "UpdateTarget E t v ev d = Inr (t', d')" "db_inv d"
  shows "db_inv d'"
  using assms(1) db_invD(1)[OF assms(2)]
proof (rule UpdateTarget_effect)
  let ?sel = "\<lambda>u. tgt_ID u = tgt_ID t \<and> tgt_Revision u = v \<and> \<not> Retired u"
  fix s d1 d2 d3
  assume s: "s \<in> set (targets d)" "tgt_ID s = tgt_ID t" "tgt_Revision s = v" "\<not> Retired s"
    and d1: "d1 = d\<lparr>targets := upd_where ?sel (set_target t') (targets d)\<rparr>" "violated d1 = None"
    and d2: "d2 = d1\<lparr>target_names := filter (\<lambda>(n, i). \<not> (i = tgt_ID t \<and> n \<noteq> tgt_FQDN s)) (target_names d)\<rparr>"
      "violated d2 = None"
    and cl: "claimNames (tgt_ID t) (tgt_FQDN s # tgt_AdditionalNames t) d2 = Inr d3"
    and ins: "insertAudit E 1 (map_option (\<lambda>e. e\<lparr>ev_TargetID := tgt_ID t\<rparr>) ev) d3 = Inr d'"
    and t': "t' = t\<lparr>tgt_UpdatedAt := env_now E 0, tgt_Revision := v + 1\<rparr>"
  obtain ns where d3: "d3 = d2\<lparr>target_names := ns\<rparr>" "violated d3 = None"
    and ns: "set ns = {x \<in> set (target_names d). \<not> (snd x = tgt_ID t \<and> fst x \<noteq> tgt_FQDN s)}
                 \<union> (\<lambda>n. (n, tgt_ID t)) ` set (tgt_FQDN s # tgt_AdditionalNames t)"
    using claimNames_effect[OF cl d2(2)] by (auto simp: d2(1) case_prod_beta)
  have only: "u = s" if "u \<in> set (targets d)" "tgt_ID u = tgt_ID t" for u
    using unique_onD[OF db_inv_keys(2)[OF db_invD(1)[OF assms(2)]] that(1) s(1)] s(2) that(2) by simp
  have old: "(n, i) \<in> set (target_names d) \<longleftrightarrow>
      (\<exists>u \<in> set (targets d). tgt_ID u = i \<and> \<not> Retired u \<and> n \<in> set (target_names_of u))" for n i
    using db_invD(2)[OF assms(2)] by (simp add: names_exact_def)
  have "names_exact d3" unfolding names_exact_def
  proof (intro allI)
    fix n i
    show "(n, i) \<in> set (target_names d3) \<longleftrightarrow>
      (\<exists>u \<in> set (targets d3). tgt_ID u = i \<and> \<not> Retired u \<and> n \<in> set (target_names_of u))"
    proof (cases "i = tgt_ID t")
      case True
      have "(\<exists>u \<in> set (targets d3). tgt_ID u = i \<and> \<not> Retired u \<and> n \<in> set (target_names_of u))
          \<longleftrightarrow> n \<in> set (target_names_of (set_target t' s))" (is "?L \<longleftrightarrow> ?R")
      proof
        assume ?L
        then obtain r where r: "r \<in> set (targets d)" "tgt_ID r = tgt_ID t"
          and c: "(?sel r \<and> n \<in> set (target_names_of (set_target t' r))) \<or> (\<not> ?sel r \<and> \<not> Retired r)"
          using True by (auto simp: d3(1) d2(1) d1(1) bex_upd_where)
        show ?R using c s unfolding only[OF r] by simp
      next
        assume ?R
        then show ?L using s True by (auto simp: d3(1) d2(1) d1(1) bex_upd_where intro!: bexI[of _ s])
      qed
      then show ?thesis using True by (auto simp: d3(1) ns target_names_of_def t')
    next
      case False
      have "(\<exists>u \<in> set (targets d3). tgt_ID u = i \<and> \<not> Retired u \<and> n \<in> set (target_names_of u)) \<longleftrightarrow>
          (\<exists>u \<in> set (targets d). tgt_ID u = i \<and> \<not> Retired u \<and> n \<in> set (target_names_of u))"
        unfolding d3(1) d2(1) d1(1) using False by (simp add: bex_upd_where) (rule bex_cong; auto)
      then show ?thesis using False old[of n i] by (auto simp: d3(1) ns)
    qed
  qed
  moreover have "retired_closed d3" using db_invD(3)[OF assms(2)]
    by (auto simp: d3(1) d2(1) d1(1) retired_closed_def row_simps)
  moreover have "rows_ok d3" using db_invD(5)[OF assms(2)]
    by (auto simp: d3(1) d2(1) d1(1) rows_ok_def row_simps)
  ultimately have "db_inv d3" using d3 assms(2) by (simp add: db_inv_def d2(1) d1(1))
  with ins show ?thesis by (rule insertAudit_inv)
qed

subsection \<open>Account generations\<close>

text \<open>Events recorded one after the other.\<close>

fun log_all :: "op_env \<Rightarrow> nat \<Rightarrow> audit_event list \<Rightarrow> audit_event list" where
  "log_all E k [] = []"
| "log_all E k (e # es) = fill_event E k e # log_all E (Suc k) es"

lemma log_all_detail: "e \<in> set (log_all E k es) \<Longrightarrow> length (ev_Detail e) \<le> MaxAuditDetailLength"
  by (induction E k es rule: log_all.induct) auto

lemma rows_ok_append:
  "rows_ok d \<Longrightarrow> (\<And>e. e \<in> set es \<Longrightarrow> length (ev_Detail e) \<le> MaxAuditDetailLength) \<Longrightarrow>
     rows_ok (d\<lparr>audit_events := audit_events d @ es\<rparr>)"
  by (auto simp: rows_ok_def)

lemma upd_where_twice:
  "(\<And>r. P r \<Longrightarrow> \<not> Q (f r)) \<Longrightarrow> upd_where Q f (upd_where P f rows) = upd_where (\<lambda>r. P r \<or> Q r) f rows"
  by (simp add: upd_where_def)

lemma upd_where_cong:
  "(\<And>r. r \<in> set rows \<Longrightarrow> P r = Q r) \<Longrightarrow> (\<And>r. r \<in> set rows \<Longrightarrow> Q r \<Longrightarrow> f r = g r) \<Longrightarrow>
     upd_where P f rows = upd_where Q g rows"
  by (simp add: upd_where_def)

lemma accounts_ok_upd:
  assumes "accounts_ok d" and "\<And>a. acc_key (f a) = acc_key a"
    and "\<And>a. a \<in> set (acme_accounts d) \<Longrightarrow> Q a \<Longrightarrow> acc_Status (f a) \<noteq> ACMEAccountProvisioning \<Longrightarrow>
           acc_sealed_payload (f a) = None \<and> acc_RunID (f a) = None"
    and "\<And>a. a \<in> set (acme_accounts d) \<Longrightarrow> Q a \<Longrightarrow> acc_Status (f a) = ACMEAccountProvisioning \<Longrightarrow>
           acc_Status a = ACMEAccountProvisioning \<and> acc_sealed_payload (f a) = acc_sealed_payload a"
    and "\<And>a. a \<in> set (acme_accounts d) \<Longrightarrow> Q a \<Longrightarrow> acc_Status (f a) = ACMEAccountActive \<Longrightarrow>
           acc_ActivatedAt (f a) \<noteq> None"
  shows "accounts_ok (d\<lparr>acme_accounts := upd_where Q f (acme_accounts d)\<rparr>)"
proof -
  have key: "acc_Binding (f a) = acc_Binding a" "acc_Scope (f a) = acc_Scope a"
    "acc_Generation (f a) = acc_Generation a" "acc_scope (f a) = acc_scope a" for a
    using assms(2)[of a] by (simp_all add: acc_key_def acc_scope_def)
  have img: "acc_key ` set (upd_where Q f (acme_accounts d)) = acc_key ` set (acme_accounts d)"
    by (rule upd_where_image) (rule assms(2))
  show ?thesis
    using assms(1,3-5) unfolding accounts_ok_def account_ok_def
    by (simp add: ball_upd_where img key)
qed

definition cancel_row :: "op_env \<Rightarrow> acme_account \<Rightarrow> acme_account" where
  "cancel_row E a = a\<lparr>acc_Status := ACMEAccountCancelled, acc_sealed_payload := None,
                      acc_RunID := None, acc_UpdatedAt := env_now E 0\<rparr>"

lemma cancel_pending_Inr:
  assumes "cancel_pending E k i by authority ps d = Inr d'"
  shows "d' = d\<lparr>acme_accounts := upd_where (\<lambda>a. acc_Scope a = i \<and> acc_Status a = ACMEAccountProvisioning \<and>
                   (\<exists>p \<in> set ps. acc_Binding p = acc_Binding a \<and> acc_Generation p = acc_Generation a))
                   (cancel_row E) (acme_accounts d),
                 audit_events := audit_events d @ log_all E k (map (cancelled_event i by authority) ps)\<rparr>"
    and "violated d = None \<Longrightarrow> violated d' = None"
proof -
  show "violated d = None \<Longrightarrow> violated d' = None"
    using assms
    by (induction ps arbitrary: k d) (auto dest: insertAudit_ok)
  show "d' = d\<lparr>acme_accounts := upd_where (\<lambda>a. acc_Scope a = i \<and> acc_Status a = ACMEAccountProvisioning \<and>
                   (\<exists>p \<in> set ps. acc_Binding p = acc_Binding a \<and> acc_Generation p = acc_Generation a))
                   (cancel_row E) (acme_accounts d),
                 audit_events := audit_events d @ log_all E k (map (cancelled_event i by authority) ps)\<rparr>"
    using assms
  proof (induction ps arbitrary: k d)
    case Nil
    then show ?case by (simp add: upd_where_none)
  next
    case (Cons p ps)
    let ?P = "\<lambda>a. acc_key a = (acc_Binding p, i, acc_Generation p) \<and> acc_Status a = ACMEAccountProvisioning"
    let ?d1 = "d\<lparr>acme_accounts := upd_where ?P (cancel_row E) (acme_accounts d)\<rparr>"
    have f: "(\<lambda>a. a\<lparr>acc_Status := ACMEAccountCancelled, acc_sealed_payload := None, acc_RunID := None,
        acc_UpdatedAt := env_now E 0\<rparr>) = cancel_row E"
      by (simp add: cancel_row_def fun_eq_iff)
    obtain d2 where d2: "insertAudit E k (Some (cancelled_event i by authority p)) ?d1 = Inr d2"
      and rec: "cancel_pending E (Suc k) i by authority ps d2 = Inr d'"
      using Cons.prems by (auto simp: f)
    have "upd_where (\<lambda>a. acc_Scope a = i \<and> acc_Status a = ACMEAccountProvisioning \<and>
            (\<exists>p \<in> set ps. acc_Binding p = acc_Binding a \<and> acc_Generation p = acc_Generation a))
            (cancel_row E) (upd_where ?P (cancel_row E) (acme_accounts d)) =
        upd_where (\<lambda>a. acc_Scope a = i \<and> acc_Status a = ACMEAccountProvisioning \<and>
            (\<exists>p \<in> set (p # ps). acc_Binding p = acc_Binding a \<and> acc_Generation p = acc_Generation a))
            (cancel_row E) (acme_accounts d)"
      by (subst upd_where_twice) (auto simp: cancel_row_def acc_key_def intro!: upd_where_cong)
    then show ?case
      using Cons.IH[OF rec] insertAudit_Inr[OF d2] by (simp add: logged_def)
  qed
qed

end
