(* ===== verification/RegistrySteps.thy ===== *)
theory RegistrySteps
  imports RegistryInv
begin

text \<open>
  Retirement and the life of account generations keep the invariant; the operations as one step
  relation; what every execution of the registry guarantees.
\<close>

subsection \<open>Retirement\<close>

lemma pending_of_all:
  "acc_Scope a = i \<and> acc_Status a = ACMEAccountProvisioning \<and>
     (\<exists>p \<in> set (pending_of i d). acc_Binding p = acc_Binding a \<and> acc_Generation p = acc_Generation a)
   \<longleftrightarrow> acc_Scope a = i \<and> acc_Status a = ACMEAccountProvisioning" if "a \<in> set (acme_accounts d)"
  using that by (auto simp: pending_of_def)

lemma cancel_row_simps [simp]:
  "acc_key (cancel_row E a) = acc_key a" "acc_scope (cancel_row E a) = acc_scope a"
  "acc_Scope (cancel_row E a) = acc_Scope a" "acc_Status (cancel_row E a) = ACMEAccountCancelled"
  "acc_sealed_payload (cancel_row E a) = None" "acc_RunID (cancel_row E a) = None"
  by (simp_all add: cancel_row_def acc_key_def acc_scope_def)

text \<open>What retiring does to the tables, all of it at once.\<close>

definition retired_db :: "op_env \<Rightarrow> string \<Rightarrow> string \<Rightarrow> string \<Rightarrow> audit_event option \<Rightarrow> db \<Rightarrow> db" where
  "retired_db E i by authority ev d =
     d\<lparr>targets := upd_where (\<lambda>t. tgt_ID t = i) (retire_row (env_now E 0) by authority) (targets d),
       target_names := filter (\<lambda>(n, j). j \<noteq> i) (target_names d),
       acme_accounts := upd_where (\<lambda>a. acc_Scope a = i \<and> acc_Status a = ACMEAccountProvisioning)
         (cancel_row E) (acme_accounts d),
       audit_events := audit_events d @ log_all E 1 (map (cancelled_event i by authority) (pending_of i d))
         @ logged E (Suc (length (pending_of i d))) (map_option (\<lambda>e. e\<lparr>ev_TargetID := i\<rparr>) ev)\<rparr>"

lemma RetireTarget_effect:
  assumes "RetireTarget E i by authority ev d = Inr (t', d')"
  obtains t where "lookup tgt_ID i (targets d) = Some t" "\<not> Retired t" "\<not> tgt_Enabled t"
    "\<And>r. r \<in> set (runs d) \<Longrightarrow> run_TargetID r = i \<Longrightarrow> \<not> Active (run_Status r)"
    "d' = retired_db E i by authority ev d" "violated d' = None" "GetTarget i d' = Inr t'"
proof -
  let ?d2 = "d\<lparr>targets := upd_where (\<lambda>t. tgt_ID t = i) (retire_row (env_now E 0) by authority) (targets d),
       target_names := filter (\<lambda>(n, j). j \<noteq> i) (target_names d)\<rparr>"
  obtain t d3 where t: "lookup tgt_ID i (targets d) = Some t" "\<not> Retired t" "\<not> tgt_Enabled t"
      "\<And>r. r \<in> set (runs d) \<Longrightarrow> run_TargetID r = i \<Longrightarrow> \<not> Active (run_Status r)"
    and v2: "violated ?d2 = None"
    and d3: "cancel_pending E 1 i by authority (pending_of i d) ?d2 = Inr d3"
    and ins: "insertAudit E (Suc (length (pending_of i d))) (map_option (\<lambda>e. e\<lparr>ev_TargetID := i\<rparr>) ev) d3 = Inr d'"
    and get: "GetTarget i d' = Inr t'"
    using assms by (auto simp: RetireTarget_def Let_def pending_of_def split: option.splits if_splits)
  have "upd_where (\<lambda>a. acc_Scope a = i \<and> acc_Status a = ACMEAccountProvisioning \<and>
            (\<exists>p \<in> set (pending_of i d). acc_Binding p = acc_Binding a \<and> acc_Generation p = acc_Generation a))
            (cancel_row E) (acme_accounts d) =
          upd_where (\<lambda>a. acc_Scope a = i \<and> acc_Status a = ACMEAccountProvisioning) (cancel_row E) (acme_accounts d)"
    by (rule upd_where_cong) (simp_all add: pending_of_all)
  then have "d' = retired_db E i by authority ev d"
    using cancel_pending_Inr(1)[OF d3] insertAudit_Inr[OF ins] by (simp add: retired_db_def)
  moreover have "violated d' = None" using insertAudit_ok[OF ins] cancel_pending_Inr(2)[OF d3] v2 by simp
  ultimately show thesis using that[of t] t get by blast
qed

lemma RetireTarget_inv:
  assumes "RetireTarget E i by authority ev d = Inr (t', d')" "db_inv d"
  shows "db_inv d'"
  using assms(1)
proof (rule RetireTarget_effect)
  fix t
  assume t: "lookup tgt_ID i (targets d) = Some t" "\<not> Retired t" "\<not> tgt_Enabled t"
    and idle: "\<And>r. r \<in> set (runs d) \<Longrightarrow> run_TargetID r = i \<Longrightarrow> \<not> Active (run_Status r)"
    and d': "d' = retired_db E i by authority ev d" and v: "violated d' = None"
  have dis: "\<not> tgt_Enabled u" if "u \<in> set (targets d)" "tgt_ID u = i" for u
  proof -
    have "lookup tgt_ID i (targets d) = Some u" using that lookup_target db_invD(1)[OF assms(2)] by blast
    with t show ?thesis by simp
  qed
  have "names_exact d'" using db_invD(2)[OF assms(2)] unfolding names_exact_def
    by (simp add: d' retired_db_def bex_upd_where) blast
  moreover have "retired_closed d'" using db_invD(3)[OF assms(2)] idle dis
    by (auto simp: d' retired_db_def retired_closed_def row_simps)
  moreover have "accounts_ok (d\<lparr>acme_accounts := acme_accounts d'\<rparr>)"
    using accounts_ok_upd[OF db_invD(4)[OF assms(2)], of "cancel_row E"] by (simp add: d' retired_db_def)
  then have "accounts_ok d'" by (simp add: accounts_ok_def account_ok_def)
  moreover have "rows_ok d'" using db_invD(5)[OF assms(2)]
    by (auto simp: d' retired_db_def rows_ok_def ball_upd_where logged_def dest: log_all_detail split: option.splits)
  ultimately show ?thesis using v by (simp add: db_inv_def)
qed

subsection \<open>Account generations\<close>

lemma acc_upd_keys [simp]:
  "acc_key (a\<lparr>acc_RunID := x, acc_UpdatedAt := y\<rparr>) = acc_key a"
  "acc_scope (a\<lparr>acc_RunID := x, acc_UpdatedAt := y\<rparr>) = acc_scope a"
  "acc_key (a\<lparr>acc_Status := s, acc_UpdatedAt := y\<rparr>) = acc_key a"
  "acc_scope (a\<lparr>acc_Status := s, acc_UpdatedAt := y\<rparr>) = acc_scope a"
  "acc_key (a\<lparr>acc_Status := s, acc_sealed_payload := z, acc_UpdatedAt := y\<rparr>) = acc_key a"
  "acc_scope (a\<lparr>acc_Status := s, acc_sealed_payload := z, acc_UpdatedAt := y\<rparr>) = acc_scope a"
  "acc_key (settle E b a) = acc_key a" "acc_scope (settle E b a) = acc_scope a"
  by (simp_all add: acc_key_def acc_scope_def settle_def)

lemma settle_simps [simp]:
  "acc_Status (settle E b a) = (if b then ACMEAccountActive else ACMEAccountFailed)"
  "acc_sealed_payload (settle E b a) = None" "acc_RunID (settle E b a) = None"
  "acc_Scope (settle E b a) = acc_Scope a"
  "b \<Longrightarrow> acc_ActivatedAt (settle E b a) = Some (env_now E 0)"
  by (simp_all add: settle_def)

text \<open>
  An update of account rows that keeps their keys, sends no row back to provisioning, and clears
  payload and run when it ends provisioning, keeps the invariant.
\<close>

lemma acc_update_inv:
  assumes inv: "db_inv d" and v: "violated (d\<lparr>acme_accounts := upd_where Q f (acme_accounts d)\<rparr>) = None"
    and key: "\<And>a. acc_key (f a) = acc_key a"
    and fin: "\<And>a. a \<in> set (acme_accounts d) \<Longrightarrow> Q a \<Longrightarrow> acc_Status (f a) \<noteq> ACMEAccountProvisioning \<Longrightarrow>
           acc_sealed_payload (f a) = None \<and> acc_RunID (f a) = None"
    and pen: "\<And>a. a \<in> set (acme_accounts d) \<Longrightarrow> Q a \<Longrightarrow> acc_Status (f a) = ACMEAccountProvisioning \<Longrightarrow>
           acc_Status a = ACMEAccountProvisioning \<and> acc_sealed_payload (f a) = acc_sealed_payload a"
    and act: "\<And>a. a \<in> set (acme_accounts d) \<Longrightarrow> Q a \<Longrightarrow> acc_Status (f a) = ACMEAccountActive \<Longrightarrow>
           acc_ActivatedAt (f a) \<noteq> None"
  shows "db_inv (d\<lparr>acme_accounts := upd_where Q f (acme_accounts d)\<rparr>)"
proof (rule db_invI)
  have sc: "acc_Scope (f a) = acc_Scope a" for a using key[of a] by (simp add: acc_key_def)
  show "retired_closed (d\<lparr>acme_accounts := upd_where Q f (acme_accounts d)\<rparr>)"
    using db_invD(3)[OF inv] pen by (simp add: retired_closed_def ball_upd_where sc) blast
  show "accounts_ok (d\<lparr>acme_accounts := upd_where Q f (acme_accounts d)\<rparr>)"
    by (rule accounts_ok_upd[OF db_invD(4)[OF inv] key fin pen act])
qed (use v db_invD[OF inv] in simp_all)

lemma ReleaseACMEAccountProvisioning_inv:
  assumes "ReleaseACMEAccountProvisioning E b s g r d = Inr d'" "db_inv d"
  shows "db_inv d'"
  using assms by (auto simp: ReleaseACMEAccountProvisioning_def intro!: acc_update_inv)

lemma CancelACMEAccountProvisioning_inv:
  assumes "CancelACMEAccountProvisioning E b s g ev d = Inr d'" "db_inv d"
  shows "db_inv d'"
proof -
  let ?Q = "\<lambda>a. acc_key a = (b, s, g) \<and> acc_Status a = ACMEAccountProvisioning \<and> acc_RunID a = None"
  let ?f = "\<lambda>a. a\<lparr>acc_Status := ACMEAccountCancelled, acc_sealed_payload := None, acc_UpdatedAt := env_now E 0\<rparr>"
  let ?d = "d\<lparr>acme_accounts := upd_where ?Q ?f (acme_accounts d)\<rparr>"
  have "violated ?d = None" "insertAudit E 1 ev ?d = Inr d'"
    using assms(1) by (auto simp: CancelACMEAccountProvisioning_def Let_def split: if_splits)
  moreover have "db_inv ?d" using assms(2) calculation(1) by (intro acc_update_inv) auto
  ultimately show ?thesis using insertAudit_inv by blast
qed

lemma next_generation_greater:
  "a \<in> set (acme_accounts d) \<Longrightarrow> acc_scope a = (b, s) \<Longrightarrow> acc_Generation a < next_generation b s d"
proof -
  assume a: "a \<in> set (acme_accounts d)" "acc_scope a = (b, s)"
  let ?as = "filter (\<lambda>a. acc_Binding a = b \<and> acc_Scope a = s) (acme_accounts d)"
  have mem: "a \<in> set ?as" using a by (simp add: acc_scope_def)
  then obtain x xs where cons: "?as = x # xs" by (cases ?as) auto
  have "acc_Generation a \<le> Max (acc_Generation ` set (x # xs))" using mem cons by (intro Max_ge) auto
  then show ?thesis by (simp add: next_generation_def cons)
qed

lemma next_generation_cases:
  obtains "next_generation b s d = 1"
  | a where "a \<in> set (acme_accounts d)" "acc_scope a = (b, s)" "next_generation b s d = acc_Generation a + 1"
proof (cases "filter (\<lambda>a. acc_Binding a = b \<and> acc_Scope a = s) (acme_accounts d)")
  case Nil
  then show ?thesis using that(1) by (simp add: next_generation_def)
next
  case (Cons x xs)
  have "Max (acc_Generation ` set (x # xs)) \<in> acc_Generation ` set (x # xs)" by (rule Max_in) auto
  then obtain a where a: "a \<in> set (x # xs)" "acc_Generation a = Max (acc_Generation ` set (x # xs))" by (metis imageE)
  have "a \<in> set (filter (\<lambda>a. acc_Binding a = b \<and> acc_Scope a = s) (acme_accounts d))" using a(1) Cons by simp
  moreover have "next_generation b s d = acc_Generation a + 1" using a(2) by (simp only: next_generation_def Cons list.case)
  ultimately show ?thesis using that(2)[of a] by (simp add: acc_scope_def)
qed

lemma RequestACMEAccountProvisioning_effect:
  assumes "RequestACMEAccountProvisioning E a sealedJSON ev d = Inr (a', d')"
  obtains d1 where "d1 = d\<lparr>acme_accounts := acme_accounts d @ [a']\<rparr>" "violated d1 = None"
    "insertAudit E 1 ev d1 = Inr d'"
    "acc_Generation a' = next_generation (acc_Binding a') (acc_Scope a') d"
    "\<And>t. acc_Scope a' \<noteq> [] \<Longrightarrow> lookup tgt_ID (acc_Scope a') (targets d) = Some t \<Longrightarrow> \<not> Retired t"
    "a' = a\<lparr>acc_Status := ACMEAccountProvisioning, acc_sealed_payload := Some sealedJSON, acc_RunID := None,
       acc_CreatedAt := env_now E 0, acc_UpdatedAt := env_now E 0, acc_ActivatedAt := None\<rparr>"
proof -
  let ?a = "a\<lparr>acc_Status := ACMEAccountProvisioning, acc_sealed_payload := Some sealedJSON, acc_RunID := None,
       acc_CreatedAt := env_now E 0, acc_UpdatedAt := env_now E 0, acc_ActivatedAt := None\<rparr>"
  have "a' = ?a" "violated (d\<lparr>acme_accounts := acme_accounts d @ [?a]\<rparr>) = None"
    "insertAudit E 1 ev (d\<lparr>acme_accounts := acme_accounts d @ [?a]\<rparr>) = Inr d'"
    "acc_Generation a = next_generation (acc_Binding a) (acc_Scope a) d"
    "\<not> (acc_Scope a \<noteq> [] \<and> (\<exists>t. lookup tgt_ID (acc_Scope a) (targets d) = Some t \<and> Retired t))"
    using assms by (auto simp: RequestACMEAccountProvisioning_def Let_def split: if_splits)
  then show thesis by (intro that[of "d\<lparr>acme_accounts := acme_accounts d @ [?a]\<rparr>"]) auto
qed

lemma accounts_ok_request:
  assumes ok: "accounts_ok d" and gen: "acc_Generation a = next_generation (acc_Binding a) (acc_Scope a) d"
    and a: "acc_Status a = ACMEAccountProvisioning" "acc_sealed_payload a \<noteq> None"
    and un: "unique_on (\<lambda>a. acc_Status a = ACMEAccountProvisioning) acc_scope (acme_accounts d @ [a])"
  shows "accounts_ok (d\<lparr>acme_accounts := acme_accounts d @ [a]\<rparr>)"
proof -
  let ?d = "d\<lparr>acme_accounts := acme_accounts d @ [a]\<rparr>"
  have other: "acc_scope b \<noteq> acc_scope a" if "b \<in> set (acme_accounts d)" "acc_Status b = ACMEAccountProvisioning" for b
    using un a(1) that by (simp add: unique_on_append)
  have newest: "acc_Generation b < acc_Generation a" if "b \<in> set (acme_accounts d)" "acc_scope b = acc_scope a" for b
    using next_generation_greater[OF that(1)] that(2) gen by (simp add: acc_scope_def)
  have "account_ok ?d b" if b: "b \<in> set (acme_accounts d)" for b
    using ok b other[OF b] by (auto simp: accounts_ok_def account_ok_def)
  moreover have "account_ok ?d a"
  proof -
    have "(acc_Binding a, acc_Scope a, g) \<in> acc_key ` set (acme_accounts ?d)" if g: "1 \<le> g" "g \<le> acc_Generation a" for g
    proof (cases "g = acc_Generation a")
      case True
      then show ?thesis by (simp add: acc_key_def)
    next
      case False
      show ?thesis
      proof (rule next_generation_cases[of "acc_Binding a" "acc_Scope a" d])
        assume "next_generation (acc_Binding a) (acc_Scope a) d = 1"
        with False g gen show ?thesis by simp
      next
        fix b assume b: "b \<in> set (acme_accounts d)" "acc_scope b = (acc_Binding a, acc_Scope a)"
          "next_generation (acc_Binding a) (acc_Scope a) d = acc_Generation b + 1"
        then have "(acc_Binding b, acc_Scope b, g) \<in> acc_key ` set (acme_accounts d)"
          using ok g False gen by (simp add: accounts_ok_def account_ok_def)
        then show ?thesis using b(2) by (auto simp: acc_scope_def)
      qed
    qed
    then show ?thesis using a newest by (auto simp: account_ok_def intro: less_imp_le)
  qed
  ultimately show ?thesis by (simp add: accounts_ok_def)
qed

lemma RequestACMEAccountProvisioning_inv:
  assumes "RequestACMEAccountProvisioning E a sealedJSON ev d = Inr (a', d')" "db_inv d"
  shows "db_inv d'"
  using assms(1)
proof (rule RequestACMEAccountProvisioning_effect)
  fix d1
  assume d1: "d1 = d\<lparr>acme_accounts := acme_accounts d @ [a']\<rparr>" "violated d1 = None"
    and ins: "insertAudit E 1 ev d1 = Inr d'"
    and gen: "acc_Generation a' = next_generation (acc_Binding a') (acc_Scope a') d"
    and live: "\<And>t. acc_Scope a' \<noteq> [] \<Longrightarrow> lookup tgt_ID (acc_Scope a') (targets d) = Some t \<Longrightarrow> \<not> Retired t"
    and a': "a' = a\<lparr>acc_Status := ACMEAccountProvisioning, acc_sealed_payload := Some sealedJSON, acc_RunID := None,
       acc_CreatedAt := env_now E 0, acc_UpdatedAt := env_now E 0, acc_ActivatedAt := None\<rparr>"
  have st: "acc_Status a' = ACMEAccountProvisioning" "acc_sealed_payload a' \<noteq> None" by (simp_all add: a')
  have "accounts_ok d1" unfolding d1(1)
    using db_inv_keys(8)[OF d1(2)] by (intro accounts_ok_request db_invD(4)[OF assms(2)] gen st) (simp add: d1(1))
  moreover have "\<not> Retired t" if "t \<in> set (targets d)" "acc_Scope a' = tgt_ID t" for t
    using live[of t] that lookup_target[OF db_invD(1)[OF assms(2)]] db_invD(5)[OF assms(2)]
    by (auto simp: rows_ok_def)
  then have "retired_closed d1" using db_invD(3)[OF assms(2)] by (auto simp: d1(1) retired_closed_def)
  ultimately have "db_inv d1" using d1 db_invD[OF assms(2)] by (simp add: db_inv_def)
  with ins show ?thesis by (rule insertAudit_inv)
qed

lemma ClaimACMEAccountProvisioning_effect:
  assumes "ClaimACMEAccountProvisioning E b s r d = Inr (res, d')" "violated d = None"
  obtains "res = None" "d' = d"
    "\<forall>a \<in> set (acme_accounts d). acc_scope a = (b, s) \<longrightarrow> acc_Status a = ACMEAccountProvisioning \<longrightarrow> acc_RunID a \<noteq> None"
  | a d1 where "a \<in> set (acme_accounts d)" "acc_scope a = (b, s)" "acc_Status a = ACMEAccountProvisioning" "acc_RunID a = None"
    "d1 = d\<lparr>acme_accounts := upd_where (\<lambda>x. acc_key x = acc_key a \<and> acc_Status x = ACMEAccountProvisioning \<and> acc_RunID x = None)
        (\<lambda>x. x\<lparr>acc_RunID := Some r, acc_UpdatedAt := env_now E 0\<rparr>) (acme_accounts d)\<rparr>"
    "violated d1 = None" "insertAudit E 1 (Some (attached_event a r)) d1 = Inr d'"
    "res = Some (a\<lparr>acc_RunID := Some r\<rparr>, case acc_sealed_payload a of None \<Rightarrow> [] | Some p \<Rightarrow> p)"
proof -
  let ?F = "filter (\<lambda>a. acc_Binding a = b \<and> acc_Scope a = s \<and> acc_Status a = ACMEAccountProvisioning \<and> acc_RunID a = None) (acme_accounts d)"
  show thesis
  proof (cases "first_row (sort_key acc_Generation ?F)")
    case None
    then have "length (sort_key acc_Generation ?F) = 0" by simp
    then have "?F = []" by (simp only: length_sort length_0_conv)
    moreover have "res = None \<and> d' = d" using assms(1) by (simp add: ClaimACMEAccountProvisioning_def None)
    ultimately show ?thesis
      by (intro that(1)) (auto simp: filter_empty_conv acc_scope_def)
  next
    case (Some a)
    have a: "a \<in> set ?F" using first_row_Some[OF Some] by simp
    let ?sel = "\<lambda>x. acc_key x = acc_key a \<and> acc_Status x = ACMEAccountProvisioning \<and> acc_RunID x = None"
    have "affected ?sel (acme_accounts d) \<noteq> 0" using a by auto
    then show ?thesis using assms(1) Some a
      by (intro that(2)[of a]) (auto simp: ClaimACMEAccountProvisioning_def Let_def acc_scope_def simp del: affected_0 affected_pos)
  qed
qed

lemma ClaimACMEAccountProvisioning_inv:
  assumes "ClaimACMEAccountProvisioning E b s r d = Inr (res, d')" "db_inv d"
  shows "db_inv d'"
  using assms(1) db_invD(1)[OF assms(2)]
proof (cases rule: ClaimACMEAccountProvisioning_effect)
  case 1
  then show ?thesis using assms(2) by simp
next
  case (2 a d1)
  have "db_inv d1" unfolding 2(5) using 2(6) assms(2) by (intro acc_update_inv) (auto simp: 2(5))
  with 2(7) show ?thesis by (rule insertAudit_inv)
qed

definition retire_acc :: "op_env \<Rightarrow> acme_account \<Rightarrow> acme_account" where
  "retire_acc E a = a\<lparr>acc_Status := ACMEAccountRetired, acc_UpdatedAt := env_now E 0\<rparr>"

lemma retire_acc_simps [simp]:
  "acc_key (retire_acc E a) = acc_key a" "acc_scope (retire_acc E a) = acc_scope a"
  "acc_Status (retire_acc E a) = ACMEAccountRetired" "acc_RunID (retire_acc E a) = acc_RunID a"
  "acc_sealed_payload (retire_acc E a) = acc_sealed_payload a"
  "acc_Generation (retire_acc E a) = acc_Generation a" "retire_acc E (retire_acc E a) = retire_acc E a"
  by (simp_all add: retire_acc_def acc_key_def acc_scope_def)

lemma upd_where_again:
  "(\<And>r. Q (f r) = Q r) \<Longrightarrow> (\<And>r. f (f r) = f r) \<Longrightarrow>
     upd_where Q f (upd_where P f rows) = upd_where (\<lambda>r. P r \<or> Q r) f rows"
  by (simp add: upd_where_def)

lemma retire_previous_effect:
  assumes "retire_previous E k b s g ev gs d = Inr d'"
  shows "d' = d\<lparr>acme_accounts := upd_where (\<lambda>a. acc_scope a = (b, s) \<and> acc_Generation a \<in> set gs)
                   (retire_acc E) (acme_accounts d),
                 audit_events := audit_events d @ log_all E k (map (\<lambda>h. retired_event ev b s h g) gs)\<rparr>"
  using assms
proof (induction gs arbitrary: k d)
  case Nil
  then show ?case by (simp add: upd_where_none)
next
  case (Cons h gs)
  let ?d1 = "d\<lparr>acme_accounts := upd_where (\<lambda>a. acc_key a = (b, s, h)) (retire_acc E) (acme_accounts d)\<rparr>"
  have f: "(\<lambda>a. a\<lparr>acc_Status := ACMEAccountRetired, acc_UpdatedAt := env_now E 0\<rparr>) = retire_acc E"
    by (simp add: retire_acc_def fun_eq_iff)
  obtain d2 where d2: "insertAudit E k (Some (retired_event ev b s h g)) ?d1 = Inr d2"
    and rec: "retire_previous E (Suc k) b s g ev gs d2 = Inr d'"
    using Cons.prems by (auto simp: f)
  have "upd_where (\<lambda>a. acc_scope a = (b, s) \<and> acc_Generation a \<in> set gs) (retire_acc E)
          (upd_where (\<lambda>a. acc_key a = (b, s, h)) (retire_acc E) (acme_accounts d)) =
        upd_where (\<lambda>a. acc_scope a = (b, s) \<and> acc_Generation a \<in> set (h # gs)) (retire_acc E) (acme_accounts d)"
    by (subst upd_where_again) (auto simp: acc_key_def acc_scope_def retire_acc_def intro!: upd_where_cong)
  then show ?case using Cons.IH[OF rec] insertAudit_Inr[OF d2] by (simp add: logged_def)
qed

lemma retire_previous_ok: "retire_previous E k b s g ev gs d = Inr d' \<Longrightarrow> violated d = None \<Longrightarrow> violated d' = None"
  by (induction gs arbitrary: k d) (auto dest: insertAudit_ok)

text \<open>The rows to retire are the active ones of the account, whose payload is gone already.\<close>

lemma previous_active_iff:
  assumes "violated d = None" "a \<in> set (acme_accounts d)"
  shows "acc_scope a = (b, s) \<and> acc_Generation a \<in> set (previous_active b s g d) \<longleftrightarrow>
         acc_scope a = (b, s) \<and> acc_Status a = ACMEAccountActive \<and> acc_Generation a \<noteq> g"
proof
  assume L: "acc_scope a = (b, s) \<and> acc_Generation a \<in> set (previous_active b s g d)"
  then obtain c where c: "c \<in> set (acme_accounts d)" "acc_scope c = (b, s)" "acc_Status c = ACMEAccountActive"
    "acc_Generation c \<noteq> g" "acc_Generation a = acc_Generation c"
    by (auto simp: previous_active_def acc_scope_def)
  have "a = c" using unique_onD[OF db_inv_keys(5)[OF assms(1)] assms(2) c(1)] L c by (simp add: acc_key_def acc_scope_def)
  then show "acc_scope a = (b, s) \<and> acc_Status a = ACMEAccountActive \<and> acc_Generation a \<noteq> g" using c by simp
qed (use assms(2) in \<open>auto simp: previous_active_def acc_scope_def\<close>)

definition complete_previous :: "string \<Rightarrow> string \<Rightarrow> int \<Rightarrow> bool \<Rightarrow> acme_account \<Rightarrow> bool" where
  "complete_previous b s g registered a \<longleftrightarrow>
     registered \<and> acc_scope a = (b, s) \<and> acc_Status a = ACMEAccountActive \<and> acc_Generation a \<noteq> g"

definition complete_row :: "string \<Rightarrow> string \<Rightarrow> int \<Rightarrow> string \<Rightarrow> acme_account \<Rightarrow> bool" where
  "complete_row b s g r a \<longleftrightarrow>
     acc_key a = (b, s, g) \<and> acc_RunID a = Some r \<and> acc_Status a = ACMEAccountProvisioning"

lemma CompleteACMEAccountProvisioning_effect:
  assumes "CompleteACMEAccountProvisioning E b s g r registered ev d = Inr d'" "violated d = None"
  obtains d1 d2 es where
    "d1 = d\<lparr>acme_accounts := upd_where (complete_previous b s g registered) (retire_acc E) (acme_accounts d),
            audit_events := audit_events d @ log_all E 1 es\<rparr>" "violated d1 = None"
    "d2 = d1\<lparr>acme_accounts := upd_where (complete_row b s g r) (settle E registered) (acme_accounts d1)\<rparr>"
    "violated d2 = None" "\<exists>a \<in> set (acme_accounts d1). complete_row b s g r a"
    "insertAudit E (Suc (length es)) (Some ev) d2 = Inr d'"
    "es = map (\<lambda>h. retired_event ev b s h g) (if registered then previous_active b s g d else [])"
proof -
  let ?prev = "if registered then previous_active b s g d else []"
  let ?es = "map (\<lambda>h. retired_event ev b s h g) ?prev"
  have row: "complete_row b s g r = (\<lambda>a. acc_key a = (b, s, g) \<and> acc_RunID a = Some r \<and> acc_Status a = ACMEAccountProvisioning)"
    by (simp add: complete_row_def fun_eq_iff)
  obtain d1 where d1: "retire_previous E 1 b s g ev ?prev d = Inr d1"
    and v2: "violated (d1\<lparr>acme_accounts := upd_where (complete_row b s g r) (settle E registered) (acme_accounts d1)\<rparr>) = None"
    and some: "\<exists>a \<in> set (acme_accounts d1). complete_row b s g r a"
    and ins: "insertAudit E (Suc (length ?prev)) (Some ev)
        (d1\<lparr>acme_accounts := upd_where (complete_row b s g r) (settle E registered) (acme_accounts d1)\<rparr>) = Inr d'"
    using assms(1) by (auto simp: CompleteACMEAccountProvisioning_def Let_def row split: if_splits)
  have "upd_where (\<lambda>a. acc_scope a = (b, s) \<and> acc_Generation a \<in> set ?prev) (retire_acc E) (acme_accounts d)
      = upd_where (complete_previous b s g registered) (retire_acc E) (acme_accounts d)"
    by (rule upd_where_cong) (cases registered; simp add: complete_previous_def previous_active_iff[OF assms(2)])+
  then have "d1 = d\<lparr>acme_accounts := upd_where (complete_previous b s g registered) (retire_acc E) (acme_accounts d),
            audit_events := audit_events d @ log_all E 1 ?es\<rparr>"
    using retire_previous_effect[OF d1] by simp
  then show thesis
    using retire_previous_ok[OF d1 assms(2)] v2 some ins by (intro that[of d1 ?es]) auto
qed

lemma CompleteACMEAccountProvisioning_inv:
  assumes "CompleteACMEAccountProvisioning E b s g r registered ev d = Inr d'" "db_inv d"
  shows "db_inv d'"
  using assms(1) db_invD(1)[OF assms(2)]
proof (rule CompleteACMEAccountProvisioning_effect)
  fix d1 d2 es
  let ?P = "complete_previous b s g registered"
  assume d1: "d1 = d\<lparr>acme_accounts := upd_where ?P (retire_acc E) (acme_accounts d),
                     audit_events := audit_events d @ log_all E 1 es\<rparr>" "violated d1 = None"
    and d2: "d2 = d1\<lparr>acme_accounts := upd_where (complete_row b s g r) (settle E registered) (acme_accounts d1)\<rparr>"
      "violated d2 = None"
    and ins: "insertAudit E (Suc (length es)) (Some ev) d2 = Inr d'"
  have gone: "acc_sealed_payload a = None \<and> acc_RunID a = None" if "a \<in> set (acme_accounts d)" "?P a" for a
    using db_invD(4)[OF assms(2)] that by (auto simp: accounts_ok_def account_ok_def complete_previous_def)
  have "accounts_ok (d\<lparr>acme_accounts := upd_where ?P (retire_acc E) (acme_accounts d)\<rparr>)"
    using gone by (intro accounts_ok_upd[OF db_invD(4)[OF assms(2)]]) auto
  then have "accounts_ok d1" by (simp add: d1(1))
  moreover have "retired_closed d1" using db_invD(3)[OF assms(2)]
    by (auto simp: d1(1) retired_closed_def ball_upd_where)
  moreover have "rows_ok d1" using db_invD(5)[OF assms(2)] log_all_detail
    by (auto simp: d1(1) rows_ok_def)
  ultimately have "db_inv d1" using d1(2) db_invD(2)[OF assms(2)] by (simp add: d1(1) db_inv_def)
  then have "db_inv d2" unfolding d2(1) using d2 by (intro acc_update_inv) (auto split: if_splits)
  with ins show ?thesis by (rule insertAudit_inv)
qed

end
