(* ===== verification/RegistryHistory.thy ===== *)
theory RegistryHistory
  imports RegistrySteps
begin

text \<open>
  Executions of the registry: the operations as a step relation, the history relation between an
  earlier and a later database, and the guarantees that follow for every reachable database.
\<close>

subsection \<open>How a table grows\<close>

text \<open>
  A table keeps its rows in place and only appends; each old row is related to what became of it.
  The laws a row relation needs are those of a preorder that keeps the row's key.
\<close>

definition grows :: "('r \<Rightarrow> 'r \<Rightarrow> bool) \<Rightarrow> 'r list \<Rightarrow> 'r list \<Rightarrow> bool" where
  "grows R rows rows' \<longleftrightarrow> length rows \<le> length rows' \<and> (\<forall>i < length rows. R (rows ! i) (rows' ! i))"

locale row_history =
  fixes next_row :: "'r \<Rightarrow> 'r \<Rightarrow> bool"
    and key :: "'r \<Rightarrow> 'k"
  assumes next_refl: "next_row r r"
    and next_trans: "next_row r s \<Longrightarrow> next_row s t \<Longrightarrow> next_row r t"
    and next_key: "next_row r s \<Longrightarrow> key s = key r"
begin

lemma grows_refl: "grows next_row rows rows"
  by (simp add: grows_def next_refl)

lemma grows_trans:
  assumes "grows next_row r s" "grows next_row s t"
  shows "grows next_row r t"
proof -
  have "next_row (r ! i) (t ! i)" if "i < length r" for i
    using assms that by (auto simp: grows_def intro: next_trans[of _ "s ! i"])
  then show ?thesis using assms by (simp add: grows_def)
qed

lemma grows_append: "grows next_row rows (rows @ new)"
  by (simp add: grows_def nth_append next_refl)

lemma grows_upd: "(\<And>r. r \<in> set rows \<Longrightarrow> P r \<Longrightarrow> next_row r (f r)) \<Longrightarrow> grows next_row rows (upd_where P f rows)"
  by (simp add: grows_def upd_where_def next_refl)

text \<open>With a unique key the row found later under a key is what became of the earlier one.\<close>

lemma grows_row:
  assumes "grows next_row rows rows'" "unique_on every key rows'" "r \<in> set rows" "r' \<in> set rows'" "key r' = key r"
  shows "next_row r r'"
proof -
  obtain i where i: "i < length rows" "r = rows ! i" using assms(3) by (auto simp: in_set_conv_nth)
  then have n: "next_row r (rows' ! i)" "rows' ! i \<in> set rows'" using assms(1) by (auto simp: grows_def)
  have "rows' ! i = r'" using unique_onD[OF assms(2) n(2) assms(4)] next_key[OF n(1)] assms(5) by simp
  with n(1) show ?thesis by simp
qed

lemma grows_survives: "grows next_row rows rows' \<Longrightarrow> r \<in> set rows \<Longrightarrow> \<exists>r' \<in> set rows'. next_row r r'"
  by (auto simp: grows_def in_set_conv_nth) (metis nth_mem order_less_le_trans)

lemma grows_keys: "grows next_row rows rows' \<Longrightarrow> key ` set rows \<subseteq> key ` set rows'"
  using grows_survives next_key by (metis image_eqI image_subsetI)

end

text \<open>Policies: identity and creation time. Consumers: a change raises the version.\<close>

definition pol_next :: "reg_policy \<Rightarrow> reg_policy \<Rightarrow> bool" where
  "pol_next p q \<longleftrightarrow> pol_ID q = pol_ID p \<and> pol_CreatedAt q = pol_CreatedAt p"

definition con_next :: "consumers \<Rightarrow> consumers \<Rightarrow> bool" where
  "con_next c e \<longleftrightarrow> cs_TargetID e = cs_TargetID c \<and> (e = c \<or> cs_Version c < cs_Version e)"

text \<open>Targets: a change raises the revision, and a retired row does not change at all.\<close>

definition tgt_next :: "target \<Rightarrow> target \<Rightarrow> bool" where
  "tgt_next t u \<longleftrightarrow> tgt_ID u = tgt_ID t \<and> tgt_FQDN u = tgt_FQDN t \<and> tgt_CreatedAt u = tgt_CreatedAt t \<and>
     (u = t \<or> (\<not> Retired t \<and> tgt_Revision t < tgt_Revision u))"

text \<open>Runs: who asked for what and when is fixed, and a terminal run stays terminal.\<close>

definition run_next :: "run \<Rightarrow> run \<Rightarrow> bool" where
  "run_next r s \<longleftrightarrow> run_ID s = run_ID r \<and> run_TargetID s = run_TargetID r \<and>
     run_TargetRevision s = run_TargetRevision r \<and> run_RequestedBy s = run_RequestedBy r \<and>
     run_RequestedByAuthority s = run_RequestedByAuthority r \<and> run_RequestedAt s = run_RequestedAt r \<and>
     (Active (run_Status s) \<longrightarrow> Active (run_Status r))"

text \<open>Account generations: only provisioning can be left for any state, active only for retired.\<close>

definition status_le :: "account_status \<Rightarrow> account_status \<Rightarrow> bool" where
  "status_le s t \<longleftrightarrow> s = t \<or> s = ACMEAccountProvisioning \<or> (s = ACMEAccountActive \<and> t = ACMEAccountRetired)"

definition acc_next :: "acme_account \<Rightarrow> acme_account \<Rightarrow> bool" where
  "acc_next a b \<longleftrightarrow> acc_key b = acc_key a \<and> acc_KeyID b = acc_KeyID a \<and>
     acc_RequestedBy b = acc_RequestedBy a \<and> acc_RequestedByAuthority b = acc_RequestedByAuthority a \<and>
     acc_CreatedAt b = acc_CreatedAt a \<and> status_le (acc_Status a) (acc_Status b)"

interpretation pol_hist: row_history pol_next pol_ID
  by unfold_locales (auto simp: pol_next_def)

interpretation con_hist: row_history con_next cs_TargetID
  by unfold_locales (auto simp: con_next_def)

interpretation tgt_hist: row_history tgt_next tgt_ID
  by unfold_locales (auto simp: tgt_next_def)

interpretation run_hist: row_history run_next run_ID
  by unfold_locales (auto simp: run_next_def)

interpretation acc_hist: row_history acc_next acc_key
  by unfold_locales (auto simp: acc_next_def status_le_def)

subsection \<open>History\<close>

definition frozen :: "string \<Rightarrow> db \<Rightarrow> db \<Rightarrow> bool" where
  "frozen i d d' \<longleftrightarrow>
     filter (\<lambda>c. cs_TargetID c = i) (target_consumers d') = filter (\<lambda>c. cs_TargetID c = i) (target_consumers d) \<and>
     map run_ID (filter (\<lambda>r. run_TargetID r = i) (runs d')) = map run_ID (filter (\<lambda>r. run_TargetID r = i) (runs d))"

definition follows :: "db \<Rightarrow> db \<Rightarrow> bool" where
  "follows d d' \<longleftrightarrow>
     prefix (audit_events d) (audit_events d') \<and>
     grows pol_next (policies d) (policies d') \<and> grows tgt_next (targets d) (targets d') \<and>
     grows run_next (runs d) (runs d') \<and> grows acc_next (acme_accounts d) (acme_accounts d') \<and>
     grows con_next (target_consumers d) (target_consumers d') \<and>
     (\<forall>t \<in> set (targets d). Retired t \<longrightarrow> frozen (tgt_ID t) d d')"

lemmas grows_intros [intro] =
  pol_hist.grows_refl tgt_hist.grows_refl run_hist.grows_refl acc_hist.grows_refl con_hist.grows_refl
  pol_hist.grows_append tgt_hist.grows_append run_hist.grows_append acc_hist.grows_append
  con_hist.grows_append pol_hist.grows_upd tgt_hist.grows_upd run_hist.grows_upd acc_hist.grows_upd
  con_hist.grows_upd

lemma follows_refl: "follows d d"
  by (auto simp: follows_def frozen_def)

lemma retired_stays: "grows tgt_next ts ts' \<Longrightarrow> t \<in> set ts \<Longrightarrow> Retired t \<Longrightarrow> t \<in> set ts'"
  using tgt_hist.grows_survives[of ts ts' t] by (auto simp: tgt_next_def)

lemma follows_trans:
  assumes "follows d e" "follows e f"
  shows "follows d f"
proof -
  have "frozen (tgt_ID t) d f" if "t \<in> set (targets d)" "Retired t" for t
  proof -
    have "t \<in> set (targets e)" using assms(1) that retired_stays by (auto simp: follows_def)
    then show ?thesis using assms that by (simp add: follows_def frozen_def)
  qed
  then show ?thesis using assms unfolding follows_def
    by (meson acc_hist.grows_trans con_hist.grows_trans pol_hist.grows_trans prefix_order.trans
        run_hist.grows_trans tgt_hist.grows_trans)
qed

subsection \<open>The operations as steps\<close>

text \<open>
  One rule per operation that changes state. An operation that fails changes nothing and is no
  step. Identifiers \<^verbatim>\<open>NewID\<close> makes are not empty; a run's status is updated from active, or to
  terminal (every call in \<^verbatim>\<open>scheduler.go\<close> is of this form).
\<close>

inductive reg_step :: "(nat \<Rightarrow> nat) \<Rightarrow> db \<Rightarrow> db \<Rightarrow> bool" for tbl where
  step_audit: "AppendAudit E ev d = Inr d' \<Longrightarrow> reg_step tbl d d'"
| step_principal: "SetPrincipalName E p d = Inr d' \<Longrightarrow> reg_step tbl d d'"
| step_create_policy: "CreatePolicy tbl E p ev d = Inr (p', d') \<Longrightarrow> reg_step tbl d d'"
| step_update_policy: "UpdatePolicy tbl E p ev d = Inr (p', d') \<Longrightarrow> reg_step tbl d d'"
| step_create_target: "CreateTarget E t ev d = Inr (t', d') \<Longrightarrow> env_id E 0 \<noteq> [] \<Longrightarrow> reg_step tbl d d'"
| step_update_target: "UpdateTarget E t v ev d = Inr (t', d') \<Longrightarrow> reg_step tbl d d'"
| step_consumers: "SetTargetConsumers E c v ev d = Inr (c', d') \<Longrightarrow> reg_step tbl d d'"
| step_retire: "RetireTarget E i by authority ev d = Inr (t', d') \<Longrightarrow> reg_step tbl d d'"
| step_create_run: "CreateRun E r ev d = Inr (r', d') \<Longrightarrow> env_id E 0 \<noteq> [] \<Longrightarrow> reg_step tbl d d'"
| step_claim_run: "ClaimQueuedRun d = Inr (r', d') \<Longrightarrow> reg_step tbl d d'"
| step_update_run: "UpdateRun E r st ev d = Inr d' \<Longrightarrow> (Active (run_Status r) \<longrightarrow> Active st) \<Longrightarrow> reg_step tbl d d'"
| step_request: "RequestACMEAccountProvisioning E a sealed ev d = Inr (a', d') \<Longrightarrow> reg_step tbl d d'"
| step_claim: "ClaimACMEAccountProvisioning E b s r d = Inr (res, d') \<Longrightarrow> reg_step tbl d d'"
| step_release: "ReleaseACMEAccountProvisioning E b s g r d = Inr d' \<Longrightarrow> reg_step tbl d d'"
| step_complete: "CompleteACMEAccountProvisioning E b s g r registered ev' d = Inr d' \<Longrightarrow> reg_step tbl d d'"
| step_cancel: "CancelACMEAccountProvisioning E b s g ev d = Inr d' \<Longrightarrow> reg_step tbl d d'"

lemma reg_step_inv: "db_inv d \<Longrightarrow> reg_step tbl d d' \<Longrightarrow> db_inv d'"
  by (erule reg_step.cases)
    (simp_all add: AppendAudit_def insertAudit_inv SetPrincipalName_inv CreatePolicy_inv
      UpdatePolicy_inv CreateTarget_inv UpdateTarget_inv SetTargetConsumers_inv RetireTarget_inv
      CreateRun_inv ClaimQueuedRun_inv UpdateRun_inv RequestACMEAccountProvisioning_inv
      ClaimACMEAccountProvisioning_inv ReleaseACMEAccountProvisioning_inv
      CompleteACMEAccountProvisioning_inv CancelACMEAccountProvisioning_inv)

subsection \<open>Every step follows\<close>

lemma follows_audit: "insertAudit E k ev d = Inr d' \<Longrightarrow> follows d d'"
  by (auto dest!: insertAudit_Inr simp: follows_def frozen_def)

lemma follows_then_audit: "follows d d1 \<Longrightarrow> insertAudit E k ev d1 = Inr d' \<Longrightarrow> follows d d'"
  using follows_audit follows_trans by blast

lemma follows_policies: "grows pol_next (policies d) ps \<Longrightarrow> follows d (d\<lparr>policies := ps\<rparr>)"
  by (auto simp: follows_def frozen_def)

lemma follows_targets: "grows tgt_next (targets d) ts \<Longrightarrow> follows d (d\<lparr>targets := ts, target_names := ns\<rparr>)"
  by (auto simp: follows_def frozen_def)

lemma follows_accounts: "grows acc_next (acme_accounts d) as \<Longrightarrow> follows d (d\<lparr>acme_accounts := as\<rparr>)"
  by (auto simp: follows_def frozen_def)

lemma follows_runs:
  "grows run_next (runs d) rs \<Longrightarrow>
   (\<And>t. t \<in> set (targets d) \<Longrightarrow> Retired t \<Longrightarrow> map run_ID (filter (\<lambda>r. run_TargetID r = tgt_ID t) rs)
       = map run_ID (filter (\<lambda>r. run_TargetID r = tgt_ID t) (runs d))) \<Longrightarrow>
   follows d (d\<lparr>runs := rs\<rparr>)"
  by (auto simp: follows_def frozen_def)

lemma follows_run_update:
  assumes "\<And>r. r \<in> set (runs d) \<Longrightarrow> P r \<Longrightarrow> run_next r (f r)"
  shows "follows d (d\<lparr>runs := upd_where P f (runs d)\<rparr>)"
proof (rule follows_runs)
  have "map run_ID (filter (\<lambda>r. run_TargetID r = i) (upd_where P f rs)) = map run_ID (filter (\<lambda>r. run_TargetID r = i) rs)"
    if "set rs \<subseteq> set (runs d)" for i rs
    using that assms by (induction rs) (auto simp: upd_where_def run_next_def)
  then show "map run_ID (filter (\<lambda>r. run_TargetID r = tgt_ID t) (upd_where P f (runs d))) =
      map run_ID (filter (\<lambda>r. run_TargetID r = tgt_ID t) (runs d))" for t by blast
qed (use assms in blast)

lemma CreatePolicy_follows: "CreatePolicy tbl E p ev d = Inr (p', d') \<Longrightarrow> follows d d'"
  by (auto simp: CreatePolicy_def Let_def intro!: follows_then_audit[OF follows_policies])

lemma UpdatePolicy_follows:
  assumes "UpdatePolicy tbl E p ev d = Inr (p', d')"
  shows "follows d d'"
proof -
  let ?ps = "upd_where (\<lambda>q. pol_ID q = pol_ID p) (set_policy p') (policies d)"
  have "insertAudit E 1 (map_option (\<lambda>e. e\<lparr>ev_PolicyID := pol_ID p\<rparr>) ev) (d\<lparr>policies := ?ps\<rparr>) = Inr d'"
    using assms by (auto simp: UpdatePolicy_def Let_def split: if_splits)
  moreover have "grows pol_next (policies d) ?ps"
    by (rule pol_hist.grows_upd) (simp add: pol_next_def set_policy_def)
  ultimately show ?thesis using follows_then_audit follows_policies by blast
qed

lemma SetPrincipalName_follows: "SetPrincipalName E p d = Inr d' \<Longrightarrow> follows d d'"
  by (auto simp: SetPrincipalName_def Let_def follows_def frozen_def split: if_splits)

lemma CreateTarget_follows:
  assumes "CreateTarget E t ev d = Inr (t', d')"
  shows "follows d d'"
  using assms
proof (rule CreateTarget_effect)
  let ?ts = "targets d @ [t'\<lparr>tgt_RetiredAt := None, tgt_RetiredBy := [], tgt_RetiredByAuthority := []\<rparr>]"
  fix d1 d2 assume d1: "d1 = d\<lparr>targets := ?ts\<rparr>" "violated d1 = None"
    and cl: "claimNames (tgt_ID t') (target_names_of t') d1 = Inr d2"
    and ins: "insertAudit E 1 (map_option (\<lambda>e. e\<lparr>ev_TargetID := tgt_ID t'\<rparr>) ev) d2 = Inr d'"
  obtain ns where "d2 = d1\<lparr>target_names := ns\<rparr>" using claimNames_effect[OF cl d1(2)] by metis
  then have "follows d d2" unfolding d1(1) by (auto intro: follows_targets)
  then show ?thesis using ins by (rule follows_then_audit)
qed

lemma UpdateTarget_follows:
  assumes "UpdateTarget E t v ev d = Inr (t', d')" "violated d = None"
  shows "follows d d'"
  using assms
proof (rule UpdateTarget_effect)
  let ?ts = "upd_where (\<lambda>u. tgt_ID u = tgt_ID t \<and> tgt_Revision u = v \<and> \<not> Retired u) (set_target t') (targets d)"
  fix s d1 d2 d3
  assume d1: "d1 = d\<lparr>targets := ?ts\<rparr>"
    and d2: "d2 = d1\<lparr>target_names := filter (\<lambda>(n, i). \<not> (i = tgt_ID t \<and> n \<noteq> tgt_FQDN s)) (target_names d)\<rparr>" "violated d2 = None"
    and cl: "claimNames (tgt_ID t) (tgt_FQDN s # tgt_AdditionalNames t) d2 = Inr d3"
    and ins: "insertAudit E 1 (map_option (\<lambda>e. e\<lparr>ev_TargetID := tgt_ID t\<rparr>) ev) d3 = Inr d'"
  obtain ns where "d3 = d2\<lparr>target_names := ns\<rparr>" using claimNames_effect[OF cl d2(2)] by metis
  then have "d3 = d\<lparr>targets := ?ts, target_names := ns\<rparr>" by (simp add: d1 d2(1))
  moreover have "grows tgt_next (targets d) ?ts" by (rule tgt_hist.grows_upd) (auto simp: tgt_next_def)
  ultimately have "follows d d3" by (simp add: follows_targets)
  then show ?thesis using ins by (rule follows_then_audit)
qed

lemma RetireTarget_follows:
  assumes "RetireTarget E i by authority ev d = Inr (t', d')" "violated d = None"
  shows "follows d d'"
  using assms(1)
proof (rule RetireTarget_effect)
  fix t assume t: "lookup tgt_ID i (targets d) = Some t" "\<not> Retired t"
    and d': "d' = retired_db E i by authority ev d"
  have live: "\<not> Retired u" if "u \<in> set (targets d)" "tgt_ID u = i" for u
  proof -
    have "lookup tgt_ID i (targets d) = Some u" using that lookup_target assms(2) by blast
    with t show ?thesis by simp
  qed
  have "grows tgt_next (targets d) (targets d')"
    using live by (auto simp: d' retired_db_def tgt_next_def intro!: tgt_hist.grows_upd)
  moreover have "grows acc_next (acme_accounts d) (acme_accounts d')"
    by (auto simp: d' retired_db_def acc_next_def status_le_def cancel_row_def acc_key_def intro!: acc_hist.grows_upd)
  ultimately show ?thesis by (auto simp: follows_def frozen_def d' retired_db_def)
qed

lemma SetTargetConsumers_follows:
  assumes "SetTargetConsumers E c v ev d = Inr (c', d')" "violated d = None"
  shows "follows d d'"
proof -
  let ?now = "env_now E 0"
  obtain t where t: "lookup tgt_ID (cs_TargetID c) (targets d) = Some t" "\<not> Retired t"
    using assms(1) by (auto simp: SetTargetConsumers_def Let_def split: option.splits if_splits)
  obtain cs where ins: "insertAudit E 1 (map_option (\<lambda>e. e\<lparr>ev_TargetID := cs_TargetID c\<rparr>) ev) (d\<lparr>target_consumers := cs\<rparr>) = Inr d'"
    and cs: "cs = target_consumers d @ [c\<lparr>cs_Version := 1, cs_UpdatedAt := Some ?now\<rparr>] \<or>
       cs = upd_where (\<lambda>r. cs_TargetID r = cs_TargetID c \<and> cs_Version r = v)
         (\<lambda>r. r\<lparr>cs_Version := cs_Version r + 1, cs_Items := cs_Items c, cs_UpdatedAt := Some ?now,
                cs_UpdatedBy := cs_UpdatedBy c, cs_UpdatedByAuthority := cs_UpdatedByAuthority c\<rparr>) (target_consumers d)"
    using assms(1) by (auto simp: SetTargetConsumers_def Let_def split: option.splits if_splits)
  have other: "tgt_ID u \<noteq> cs_TargetID c" if "u \<in> set (targets d)" "Retired u" for u
    using t that lookup_target[OF assms(2), of "cs_TargetID c" u] by auto
  have keep: "filter (\<lambda>c. cs_TargetID c = i) (upd_where (\<lambda>r. cs_TargetID r = j \<and> Q r) f xs) =
      filter (\<lambda>c. cs_TargetID c = i) xs" if "i \<noteq> j" "\<And>r. cs_TargetID (f r) = cs_TargetID r" for i j Q f xs
    using that by (induction xs) (auto simp: upd_where_def)
  have "grows con_next (target_consumers d) cs"
    using cs by (auto simp: con_next_def intro!: con_hist.grows_upd)
  moreover have "filter (\<lambda>c. cs_TargetID c = tgt_ID u) cs = filter (\<lambda>c. cs_TargetID c = tgt_ID u) (target_consumers d)"
    if "u \<in> set (targets d)" "Retired u" for u
    using cs other[OF that] by (auto simp: keep)
  ultimately have "follows d (d\<lparr>target_consumers := cs\<rparr>)" by (auto simp: follows_def frozen_def)
  then show ?thesis using ins by (rule follows_then_audit)
qed

lemma lookup_self: "violated d = None \<Longrightarrow> t \<in> set (targets d) \<Longrightarrow> lookup tgt_ID (tgt_ID t) (targets d) = Some t"
  by (simp add: lookup_target)

lemma CreateRun_follows:
  assumes "CreateRun E r ev d = Inr (r', d')" "violated d = None"
  shows "follows d d'"
  using assms(1)
proof (rule CreateRun_effect)
  fix d1
  assume d1: "d1 = d\<lparr>runs := runs d @ [queued_row r']\<rparr>"
    and ins: "insertAudit E 1 (map_option (\<lambda>e. e\<lparr>ev_RunID := run_ID r', ev_TargetID := run_TargetID r'\<rparr>) ev) d1 = Inr d'"
    and live: "\<And>t. lookup tgt_ID (run_TargetID r') (targets d) = Some t \<Longrightarrow> \<not> Retired t"
  have "run_TargetID r' \<noteq> tgt_ID t" if "t \<in> set (targets d)" "Retired t" for t
    using live[of t] that lookup_self[OF assms(2) that(1)] by auto
  then have "follows d d1" unfolding d1
    by (intro follows_runs run_hist.grows_append) (simp add: eq_commute[of "run_TargetID r'"])
  then show ?thesis using ins by (rule follows_then_audit)
qed

lemma ClaimQueuedRun_follows:
  assumes "ClaimQueuedRun d = Inr (r, d')" "violated d = None"
  shows "follows d d'"
  using assms
proof (rule ClaimQueuedRun_effect)
  fix q
  assume q: "q \<in> set (runs d)" "run_Status q = RunQueued"
    and d': "d' = d\<lparr>runs := upd_where (\<lambda>s. run_ID s = run_ID q) (\<lambda>s. s\<lparr>run_Status := RunStarting\<rparr>) (runs d)\<rparr>"
  have "Active (run_Status s)" if "s \<in> set (runs d)" "run_ID s = run_ID q" for s
    using unique_onD[OF db_inv_keys(3)[OF assms(2)] that(1) q(1)] that(2) q(2) by simp
  then show ?thesis unfolding d' by (intro follows_run_update) (auto simp: run_next_def)
qed

lemma UpdateRun_follows:
  assumes "UpdateRun E r st ev d = Inr d'" "Active (run_Status r) \<longrightarrow> Active st"
  shows "follows d d'"
  using assms(1)
proof (rule UpdateRun_effect)
  fix d1
  assume d1: "d1 = d\<lparr>runs := upd_where (\<lambda>s. run_ID s = run_ID r \<and> run_Status s = st) (set_run r) (runs d)\<rparr>"
    and ins: "insertAudit E 1 (map_option (\<lambda>e. e\<lparr>ev_RunID := run_ID r, ev_TargetID := run_TargetID r\<rparr>) ev) d1 = Inr d'"
  have "follows d d1" unfolding d1 using assms(2)
    by (intro follows_run_update) (auto simp: run_next_def set_run_def)
  then show ?thesis using ins by (rule follows_then_audit)
qed

lemma follows_account_update:
  "(\<And>a. a \<in> set (acme_accounts d) \<Longrightarrow> P a \<Longrightarrow> acc_next a (f a)) \<Longrightarrow>
     follows d (d\<lparr>acme_accounts := upd_where P f (acme_accounts d)\<rparr>)"
  by (rule follows_accounts) (rule acc_hist.grows_upd)

lemma acc_next_rows [simp]:
  "acc_next a (a\<lparr>acc_RunID := x, acc_UpdatedAt := y\<rparr>)"
  "acc_Status a = ACMEAccountProvisioning \<Longrightarrow>
     acc_next a (a\<lparr>acc_Status := ACMEAccountCancelled, acc_sealed_payload := z, acc_UpdatedAt := y\<rparr>)"
  "acc_Status a = ACMEAccountProvisioning \<Longrightarrow> acc_next a (settle E b a)"
  "acc_Status a = ACMEAccountActive \<Longrightarrow> acc_next a (retire_acc E a)"
  by (simp_all add: acc_next_def status_le_def acc_key_def settle_def retire_acc_def)

lemma RequestACMEAccountProvisioning_follows:
  assumes "RequestACMEAccountProvisioning E a sealedJSON ev d = Inr (a', d')"
  shows "follows d d'"
  using assms
proof (rule RequestACMEAccountProvisioning_effect)
  fix d1 assume "d1 = d\<lparr>acme_accounts := acme_accounts d @ [a']\<rparr>" "insertAudit E 1 ev d1 = Inr d'"
  then show ?thesis using follows_then_audit[OF follows_accounts] by blast
qed

lemma ClaimACMEAccountProvisioning_follows:
  assumes "ClaimACMEAccountProvisioning E b s r d = Inr (res, d')" "violated d = None"
  shows "follows d d'"
  using assms
proof (cases rule: ClaimACMEAccountProvisioning_effect)
  case 1
  then show ?thesis by (simp add: follows_refl)
next
  case (2 a d1)
  have "follows d d1" unfolding 2(5) by (rule follows_account_update) simp
  then show ?thesis using 2(7) by (rule follows_then_audit)
qed

lemma ReleaseACMEAccountProvisioning_follows:
  "ReleaseACMEAccountProvisioning E b s g r d = Inr d' \<Longrightarrow> follows d d'"
  by (auto simp: ReleaseACMEAccountProvisioning_def intro!: follows_account_update)

lemma CancelACMEAccountProvisioning_follows:
  assumes "CancelACMEAccountProvisioning E b s g ev d = Inr d'"
  shows "follows d d'"
proof -
  let ?Q = "\<lambda>a. acc_key a = (b, s, g) \<and> acc_Status a = ACMEAccountProvisioning \<and> acc_RunID a = None"
  let ?f = "\<lambda>a. a\<lparr>acc_Status := ACMEAccountCancelled, acc_sealed_payload := None, acc_UpdatedAt := env_now E 0\<rparr>"
  let ?d = "d\<lparr>acme_accounts := upd_where ?Q ?f (acme_accounts d)\<rparr>"
  have "insertAudit E 1 ev ?d = Inr d'"
    using assms by (auto simp: CancelACMEAccountProvisioning_def Let_def split: if_splits)
  moreover have "follows d ?d" by (rule follows_account_update) simp
  ultimately show ?thesis using follows_then_audit by blast
qed

lemma follows_log: "follows d d1 \<Longrightarrow> follows d (d1\<lparr>audit_events := audit_events d1 @ es\<rparr>)"
  by (auto simp: follows_def frozen_def)

lemma CompleteACMEAccountProvisioning_follows:
  assumes "CompleteACMEAccountProvisioning E b s g r registered ev d = Inr d'" "violated d = None"
  shows "follows d d'"
  using assms
proof (rule CompleteACMEAccountProvisioning_effect)
  fix d1 d2 es
  let ?P = "complete_previous b s g registered"
  assume d1: "d1 = d\<lparr>acme_accounts := upd_where ?P (retire_acc E) (acme_accounts d),
                     audit_events := audit_events d @ log_all E 1 es\<rparr>"
    and d2: "d2 = d1\<lparr>acme_accounts := upd_where (complete_row b s g r) (settle E registered) (acme_accounts d1)\<rparr>"
    and ins: "insertAudit E (Suc (length es)) (Some ev) d2 = Inr d'"
  have "follows d (d\<lparr>acme_accounts := upd_where ?P (retire_acc E) (acme_accounts d)\<rparr>)"
    by (rule follows_account_update) (simp add: complete_previous_def)
  from follows_log[OF this, of "log_all E 1 es"] have "follows d d1" by (simp add: d1)
  moreover have "follows d1 d2" unfolding d2 by (rule follows_account_update) (simp add: complete_row_def)
  ultimately show ?thesis using ins follows_trans follows_then_audit by blast
qed

lemma reg_step_follows: "db_inv d \<Longrightarrow> reg_step tbl d d' \<Longrightarrow> follows d d'"
  by (erule reg_step.cases)
    (simp_all add: AppendAudit_def follows_audit SetPrincipalName_follows CreatePolicy_follows
      UpdatePolicy_follows CreateTarget_follows UpdateTarget_follows SetTargetConsumers_follows
      RetireTarget_follows CreateRun_follows ClaimQueuedRun_follows UpdateRun_follows
      RequestACMEAccountProvisioning_follows ClaimACMEAccountProvisioning_follows
      ReleaseACMEAccountProvisioning_follows CompleteACMEAccountProvisioning_follows
      CancelACMEAccountProvisioning_follows db_invD)

text \<open>The registry is a machine with guarded steps: its invariant and its history.\<close>

interpretation registry: guarded_steps "reg_step tbl" db_inv follows for tbl
  by unfold_locales (auto intro: reg_step_inv reg_step_follows follows_refl follows_trans)

lemma empty_db_inv: "db_inv empty_db"
  by (auto simp: db_inv_def violated_None violated_defs check_all_None inv_defs empty_db_def)

lemma reachable_inv: "(reg_step tbl)\<^sup>*\<^sup>* empty_db d \<Longrightarrow> db_inv d"
  using registry.steps_inv empty_db_inv by blast

end
