(* ===== verification/RegistryProps.thy ===== *)
theory RegistryProps
  imports RegistryHistory
begin

text \<open>
  The properties of the registry: what holds of every reachable database, and what each operation
  does, errors included.
\<close>

subsection \<open>A sample registry\<close>

definition sample_env :: "char \<Rightarrow> op_env" where
  "sample_env c = \<lparr>env_now = (\<lambda>_. 1000), env_id = (\<lambda>k. c # replicate k (CHR ''+''))\<rparr>"

definition sample_reg_policy :: reg_policy where
  "sample_reg_policy = \<lparr>pol_ID = ''p1'', pol_Name = ''Web'', pol_AllowedDnsSuffixes = [''example.org''],
     pol_AllowWildcard = False, pol_ACMEBinding = ''acme'', pol_RenewBeforeDays = 30,
     pol_KeyType = ''ec256'', pol_MaxSANs = 5, pol_Enabled = True, pol_CreatedAt = 0, pol_UpdatedAt = 0\<rparr>"

definition sample_reg_target :: "string \<Rightarrow> string \<Rightarrow> target" where
  "sample_reg_target i n = \<lparr>tgt_ID = i, tgt_FQDN = n, tgt_AdditionalNames = [], tgt_Enabled = False,
     tgt_Owner = ''ops'', tgt_PolicyRef = ''p1'', tgt_ExecutionBinding = ''x'', tgt_DNSBinding = ''d'',
     tgt_StoreBinding = ''s'', tgt_CreatedAt = 0, tgt_UpdatedAt = 0, tgt_Revision = 0,
     tgt_RetiredAt = None, tgt_RetiredBy = [], tgt_RetiredByAuthority = []\<rparr>"

definition no_fold :: "nat \<Rightarrow> nat" where "no_fold r = r"

definition result_db :: "'e + ('a \<times> db) \<Rightarrow> db" where
  "result_db r = (case r of Inl _ \<Rightarrow> empty_db | Inr (_, d) \<Rightarrow> d)"

definition sample_db1 :: db where
  "sample_db1 = result_db (CreatePolicy no_fold (sample_env CHR ''a'') sample_reg_policy None empty_db)"

definition sample_db2 :: db where
  "sample_db2 = result_db (CreateTarget (sample_env CHR ''b'') (sample_reg_target ''t1'' ''a.example.org'') None sample_db1)"

lemma sample_step1: "reg_step no_fold empty_db sample_db1"
proof (rule step_create_policy)
  have "isl (CreatePolicy no_fold (sample_env CHR ''a'') sample_reg_policy None empty_db) = False" by code_simp
  then show "CreatePolicy no_fold (sample_env CHR ''a'') sample_reg_policy None empty_db =
      Inr (fst (projr (CreatePolicy no_fold (sample_env CHR ''a'') sample_reg_policy None empty_db)), sample_db1)"
    by (auto simp: sample_db1_def result_db_def split: sum.splits)
qed

lemma sample_step2: "reg_step no_fold sample_db1 sample_db2"
proof (rule step_create_target)
  let ?r = "CreateTarget (sample_env CHR ''b'') (sample_reg_target ''t1'' ''a.example.org'') None sample_db1"
  have "isl ?r = False" by code_simp
  then show "?r = Inr (fst (projr ?r), sample_db2)"
    by (auto simp: sample_db2_def result_db_def split: sum.splits)
qed (simp add: sample_env_def)

lemma sample_reachable: "(reg_step no_fold)\<^sup>*\<^sup>* empty_db sample_db2"
  using sample_step1 sample_step2 by (rule converse_rtranclp_into_rtranclp[OF _ r_into_rtranclp])

subsection \<open>Every execution\<close>

text \<open>
  Property C1: every database the operations can produce from an empty one satisfies the invariant:
  the constraints hold, the name table is exactly the names of the targets in service, a retired
  target is disabled and idle, payloads and runs are attached to provisioning generations only,
  generations are numbered without a gap, audit details are bounded.
\<close>

theorem registry_invariant: "(reg_step tbl)\<^sup>*\<^sup>* empty_db d \<Longrightarrow> db_inv d"
  using registry.steps_inv empty_db_inv by blast

theorem registry_invariant_witness: "db_inv sample_db2 \<and> length (targets sample_db2) = 1"
proof -
  have "length (targets sample_db2) = 1" by code_simp
  then show ?thesis using registry_invariant[OF sample_reachable] by simp
qed

text \<open>
  Property C2: history is never rewritten. Between any two databases of an execution the audit log
  only grew; no policy, target, run, account generation or ledger was deleted; the columns that
  say what a row is and who asked for it are as they were; a target or ledger that changed has a
  higher revision or version; a terminal run stayed terminal; an account generation only moved
  from provisioning, or from active to retired; the runs and ledger of a retired target are as
  they were.
\<close>

theorem registry_history:
  "(reg_step tbl)\<^sup>*\<^sup>* empty_db d \<Longrightarrow> (reg_step tbl)\<^sup>*\<^sup>* d d' \<Longrightarrow> follows d d'"
  using registry.later_rel empty_db_inv by blast

theorem registry_history_witness: "follows sample_db1 sample_db2 \<and> targets sample_db1 \<noteq> targets sample_db2"
proof -
  have "length (targets sample_db1) = 0 \<and> length (targets sample_db2) = 1" by code_simp
  then have "targets sample_db1 \<noteq> targets sample_db2" by auto
  then show ?thesis
    using registry_history[OF r_into_rtranclp[of "reg_step no_fold", OF sample_step1] r_into_rtranclp[of "reg_step no_fold", OF sample_step2]]
    by simp
qed

text \<open>
  Property C21: a DNS name, be it the FQDN or an additional name, belongs to at most one target in
  service.
\<close>

theorem name_of_one_target:
  assumes "(reg_step tbl)\<^sup>*\<^sup>* empty_db d"
    and "t \<in> set (targets d)" "\<not> Retired t" "n \<in> set (target_names_of t)"
    and "u \<in> set (targets d)" "\<not> Retired u" "n \<in> set (target_names_of u)"
  shows "t = u"
proof -
  have inv: "db_inv d" using assms(1) by (rule reachable_inv)
  have "(n, tgt_ID t) \<in> set (target_names d)" "(n, tgt_ID u) \<in> set (target_names d)"
    using db_invD(2)[OF inv] assms(2-7) by (auto simp: names_exact_def)
  then have "tgt_ID t = tgt_ID u"
    using unique_onD[OF db_inv_keys(10)[OF db_invD(1)[OF inv]], of "(n, tgt_ID t)" "(n, tgt_ID u)"] by simp
  then show ?thesis using unique_onD[OF db_inv_keys(2)[OF db_invD(1)[OF inv]] assms(2,5)] by simp
qed

theorem name_of_one_target_witness: "hd (targets sample_db2) = last (targets sample_db2)"
proof -
  let ?t = "hd (targets sample_db2)" and ?u = "last (targets sample_db2)"
  have ne: "targets sample_db2 \<noteq> []" by code_simp
  have t: "\<not> Retired ?t" "''a.example.org'' \<in> set (target_names_of ?t)" by code_simp+
  have u: "\<not> Retired ?u" "''a.example.org'' \<in> set (target_names_of ?u)" by code_simp+
  show ?thesis
    using name_of_one_target[OF sample_reachable hd_in_set[OF ne] t last_in_set[OF ne] u] .
qed

subsection \<open>Optimistic locking and retirement\<close>

text \<open>An update that selects no row reports why, and changes nothing.\<close>

lemma UpdateTarget_refused:
  assumes v: "violated d = None" and w: "w \<in> set (targets d)" "tgt_ID w = tgt_ID t"
    and no: "Retired w \<or> tgt_Revision w \<noteq> rv"
  shows "UpdateTarget E t rv ev d = Inl (if Retired w then ErrRetired else ErrStaleRevision)"
proof -
  let ?sel = "\<lambda>s. tgt_ID s = tgt_ID t \<and> tgt_Revision s = rv \<and> \<not> Retired s"
  have none: "\<not> ?sel s" if "s \<in> set (targets d)" for s
  proof
    assume s: "?sel s"
    then have "s = w" using unique_onD[OF db_inv_keys(2)[OF v] that w(1)] w(2) by simp
    with s no show False by simp
  qed
  then have "upd_where ?sel f (targets d) = targets d" for f by (rule upd_where_none)
  moreover have "affected ?sel (targets d) = 0" using none by simp
  moreover have "lookup tgt_ID (tgt_ID t) (targets d) = Some w" using lookup_self[OF v w(1)] w(2) by simp
  ultimately show ?thesis using v
    by (simp add: UpdateTarget_def Let_def exec_def del: affected_0)
qed

text \<open>The row an update leaves: the fields of the request on the row it found at that revision.\<close>

lemma UpdateTarget_row:
  assumes "UpdateTarget E t rv ev d = Inr (t', d')" "violated d = None"
  shows "\<exists>s \<in> set (targets d). tgt_ID s = tgt_ID t \<and> tgt_Revision s = rv \<and> \<not> Retired s \<and>
           set_target t' s \<in> set (targets d')"
  using assms
proof (rule UpdateTarget_effect)
  fix s d1 d2 d3
  assume s: "s \<in> set (targets d)" "tgt_ID s = tgt_ID t" "tgt_Revision s = rv" "\<not> Retired s"
    and d: "d1 = d\<lparr>targets := upd_where (\<lambda>u. tgt_ID u = tgt_ID t \<and> tgt_Revision u = rv \<and> \<not> Retired u)
            (set_target t') (targets d)\<rparr>"
      "d2 = d1\<lparr>target_names := filter (\<lambda>(n, i). \<not> (i = tgt_ID t \<and> n \<noteq> tgt_FQDN s)) (target_names d)\<rparr>"
    and v2: "violated d2 = None"
    and cl: "claimNames (tgt_ID t) (tgt_FQDN s # tgt_AdditionalNames t) d2 = Inr d3"
    and ins: "insertAudit E 1 (map_option (\<lambda>e. e\<lparr>ev_TargetID := tgt_ID t\<rparr>) ev) d3 = Inr d'"
  obtain ns where "d3 = d2\<lparr>target_names := ns\<rparr>" using claimNames_effect[OF cl v2] by metis
  then have "targets d' = targets d1" using insertAudit_Inr[OF ins] by (simp add: d(2))
  then have "set_target t' s \<in> set (targets d')" using s by (auto simp: d(1) row_simps)
  then show ?thesis using s by blast
qed

text \<open>
  Property C20: no lost update. Once an update of a target succeeded against revision \<open>rv\<close>, every
  later update that still expects \<open>rv\<close> is refused, whatever happened in between.
\<close>

theorem no_lost_update:
  assumes reach: "(reg_step tbl)\<^sup>*\<^sup>* empty_db d" and upd: "UpdateTarget E t rv ev d = Inr (t', d')"
    and later: "(reg_step tbl)\<^sup>*\<^sup>* d' d''" and same: "tgt_ID u = tgt_ID t"
  shows "UpdateTarget E2 u rv ev2 d'' = Inl ErrStaleRevision \<or> UpdateTarget E2 u rv ev2 d'' = Inl ErrRetired"
proof -
  have inv: "db_inv d" using reach by (rule reachable_inv)
  have inv': "db_inv d'" using UpdateTarget_inv[OF upd inv] .
  have inv'': "db_inv d''" using registry.steps_inv[OF later inv'] .
  obtain w where w: "w \<in> set (targets d')" "tgt_ID w = tgt_ID t" "tgt_Revision w = rv + 1"
    using UpdateTarget_row[OF upd db_invD(1)[OF inv]] by (metis set_target_simps(1,4))
  have fol: "grows tgt_next (targets d') (targets d'')"
    using registry.steps_rel[OF later inv'] by (simp add: follows_def)
  then obtain x where x: "x \<in> set (targets d'')" "tgt_next w x" using w(1) tgt_hist.grows_survives by blast
  then have "tgt_ID x = tgt_ID u" "tgt_Revision x \<noteq> rv" using w same by (auto simp: tgt_next_def)
  then show ?thesis using UpdateTarget_refused[OF db_invD(1)[OF inv''] x(1)] by auto
qed

theorem no_lost_update_witness:
  "\<exists>d'. UpdateTarget (sample_env CHR ''c'') (sample_reg_target ''t1'' []) 1 None sample_db2
           = Inr ((sample_reg_target ''t1'' [])\<lparr>tgt_UpdatedAt := 1000, tgt_Revision := 2\<rparr>, d') \<and>
        (UpdateTarget (sample_env CHR ''d'') (sample_reg_target ''t1'' []) 1 None d' = Inl ErrStaleRevision \<or>
         UpdateTarget (sample_env CHR ''d'') (sample_reg_target ''t1'' []) 1 None d' = Inl ErrRetired)"
proof -
  let ?r = "UpdateTarget (sample_env CHR ''c'') (sample_reg_target ''t1'' []) 1 None sample_db2"
  have "case ?r of Inl _ \<Rightarrow> False | Inr (t, _) \<Rightarrow> t = (sample_reg_target ''t1'' [])\<lparr>tgt_UpdatedAt := 1000, tgt_Revision := 2\<rparr>"
    by code_simp
  then obtain d' where d': "?r = Inr ((sample_reg_target ''t1'' [])\<lparr>tgt_UpdatedAt := 1000, tgt_Revision := 2\<rparr>, d')"
    by (auto split: sum.splits)
  from no_lost_update[OF sample_reachable d' rtranclp.rtrancl_refl refl] d' show ?thesis by blast
qed

text \<open>
  Property C5: retirement is final. After a target is retired, in every later database the target
  reads back exactly as it was retired, none of its runs is active and no run was added, none of
  its names is claimed, its ledger is as it was, and requesting a run, updating it or retiring it
  again is refused as retired.
\<close>

theorem retirement_final:
  assumes reach: "(reg_step tbl)\<^sup>*\<^sup>* empty_db d" and ret: "RetireTarget E i by authority ev d = Inr (t, d')"
    and later: "(reg_step tbl)\<^sup>*\<^sup>* d' d''"
  shows "GetTarget i d'' = Inr t \<and> Retired t \<and>
    (\<forall>r \<in> set (runs d''). run_TargetID r = i \<longrightarrow> \<not> Active (run_Status r)) \<and> frozen i d' d'' \<and>
    (\<forall>n. (n, i) \<notin> set (target_names d'')) \<and>
    (\<forall>E r ev. run_TargetID r = i \<longrightarrow> CreateRun E r ev d'' = Inl ErrRetired) \<and>
    (\<forall>E u rv ev. tgt_ID u = i \<longrightarrow> UpdateTarget E u rv ev d'' = Inl ErrRetired) \<and>
    (\<forall>E b a ev. RetireTarget E i b a ev d'' = Inl ErrRetired)"
proof -
  have inv: "db_inv d" using reach by (rule reachable_inv)
  have inv': "db_inv d'" using RetireTarget_inv[OF ret inv] .
  have inv'': "db_inv d''" using registry.steps_inv[OF later inv'] .
  note v' = db_invD(1)[OF inv'] and v'' = db_invD(1)[OF inv'']
  have fol: "follows d' d''" using registry.steps_rel[OF later inv'] .
  have t0: "d' = retired_db E i by authority ev d" "GetTarget i d' = Inr t"
    using ret by (rule RetireTarget_effect, simp)+
  have t: "t \<in> set (targets d')" "tgt_ID t = i"
    using t0(2) lookup_target[OF v'] by (auto simp: GetTarget_def split: option.splits)
  have "t \<in> set (upd_where (\<lambda>u. tgt_ID u = i) (retire_row (env_now E 0) by authority) (targets d))"
    using t(1) unfolding t0(1) by (simp add: retired_db_def)
  then have r: "Retired t" using t(2) Retired_simps(2) unfolding in_upd_where by blast
  have t'': "t \<in> set (targets d'')" using r fol t retired_stays by (auto simp: follows_def)
  have look: "lookup tgt_ID i (targets d'') = Some t" using lookup_self[OF v'' t''] t(2) by simp
  have idle: "\<forall>r \<in> set (runs d''). run_TargetID r = i \<longrightarrow> \<not> Active (run_Status r)"
    using db_invD(3)[OF inv''] t'' r t(2) by (auto simp: retired_closed_def)
  have names: "(n, i) \<notin> set (target_names d'')" for n
  proof
    assume "(n, i) \<in> set (target_names d'')"
    then obtain u where u: "u \<in> set (targets d'')" "tgt_ID u = i" "\<not> Retired u"
      using db_invD(2)[OF inv''] by (auto simp: names_exact_def)
    then have "u = t" using unique_onD[OF db_inv_keys(2)[OF v''] u(1) t''] t(2) by simp
    with u r show False by simp
  qed
  have "CreateRun E r ev d'' = Inl ErrRetired" if "run_TargetID r = i" for E r ev
    using that look r by (simp add: CreateRun_def Let_def)
  moreover have "UpdateTarget E u rv ev d'' = Inl ErrRetired" if "tgt_ID u = i" for E u rv ev
    using UpdateTarget_refused[OF v'' t''] r t(2) that by simp
  moreover have "RetireTarget E i b a ev d'' = Inl ErrRetired" for E b a ev
    using look r by (simp add: RetireTarget_def Let_def)
  moreover have "GetTarget i d'' = Inr t" using look by (simp add: GetTarget_def)
  moreover have "frozen i d' d''" using fol t r by (auto simp: follows_def)
  ultimately show ?thesis using r idle names by blast
qed

theorem retirement_final_witness:
  "\<exists>t d'. RetireTarget (sample_env CHR ''c'') ''t1'' ''alice'' ''local'' None sample_db2 = Inr (t, d') \<and>
     GetTarget ''t1'' d' = Inr t \<and> Retired t"
proof -
  let ?r = "RetireTarget (sample_env CHR ''c'') ''t1'' ''alice'' ''local'' None sample_db2"
  have "isl ?r = False" by code_simp
  then obtain t d' where r: "?r = Inr (t, d')" by (cases ?r) auto
  from retirement_final[OF sample_reachable r rtranclp.rtrancl_refl] r show ?thesis by blast
qed

end
