(* ===== verification/RegistryOps.thy ===== *)
theory RegistryOps
  imports RegistryProps
begin

text \<open>
  What the operations the scheduler and the API rely on do, case by case: requesting and claiming
  a run, the summary the back-off reads, and the life of an account generation.
\<close>

subsection \<open>Requesting a run\<close>

definition filled_run :: "op_env \<Rightarrow> run \<Rightarrow> run" where
  "filled_run E r =
     (let r = (if run_ID r = [] then r\<lparr>run_ID := env_id E 0\<rparr> else r);
          r = (if run_RequestedAt r = 0 then r\<lparr>run_RequestedAt := env_now E 0\<rparr> else r)
      in r\<lparr>run_Status := RunQueued\<rparr>)"

definition run_event :: "run \<Rightarrow> audit_event option \<Rightarrow> audit_event option" where
  "run_event r ev = map_option (\<lambda>e. e\<lparr>ev_RunID := run_ID r, ev_TargetID := run_TargetID r\<rparr>) ev"

definition fresh_event :: "op_env \<Rightarrow> nat \<Rightarrow> audit_event option \<Rightarrow> db \<Rightarrow> bool" where
  "fresh_event E k ev d \<longleftrightarrow> (\<forall>e. ev = Some e \<longrightarrow> ev_ID (fill_event E k e) \<notin> ev_ID ` set (audit_events d))"

definition active_run_of :: "string \<Rightarrow> db \<Rightarrow> bool" where
  "active_run_of i d \<longleftrightarrow> (\<exists>s \<in> set (runs d). run_TargetID s = i \<and> Active (run_Status s))"

lemma insert_run_violated:
  assumes v: "violated d = None" and fresh: "run_ID q \<notin> run_ID ` set (runs d)" and q: "Active (run_Status q)"
  shows "violated (d\<lparr>runs := runs d @ [q]\<rparr>) =
    (if active_run_of (run_TargetID q) d then Some UniqueViolation
     else if run_TargetID q \<notin> tgt_ID ` set (targets d) then Some ForeignKeyViolation else None)"
proof -
  let ?d = "d\<lparr>runs := runs d @ [q]\<rparr>"
  have "policies_violated ?d = None \<and> targets_violated ?d = None \<and> names_violated ?d = None \<and>
      audit_violated ?d = None \<and> accounts_violated ?d = None \<and> consumers_violated ?d = None \<and> principals_violated ?d = None"
    using v by (simp add: violated_None violated_defs check_all_None)
  then have "violated ?d = runs_violated ?d"
    by (simp add: violated_def) (cases "runs_violated ?d"; simp)
  moreover have "unique_on (\<lambda>r. Active (run_Status r)) run_TargetID (runs ?d) \<longleftrightarrow> \<not> active_run_of (run_TargetID q) d"
    using q db_inv_keys(7)[OF v] by (auto simp: unique_on_append active_run_of_def)
  moreover have "unique_on every run_ID (runs ?d)"
    using fresh db_inv_keys(3)[OF v] by (auto simp: unique_on_append image_iff)
  moreover have "run_TargetID ` set (runs ?d) \<subseteq> tgt_ID ` set (targets ?d) \<longleftrightarrow> run_TargetID q \<in> tgt_ID ` set (targets d)"
    using db_inv_refs(2)[OF v] by auto
  ultimately show ?thesis using db_inv_refs(2)[OF v] by (simp add: runs_violated_def reject_if_def)
qed

lemma active_run_has_target: "violated d = None \<Longrightarrow> active_run_of i d \<Longrightarrow> i \<in> tgt_ID ` set (targets d)"
  by (drule db_inv_refs(2)) (auto simp: active_run_of_def)

text \<open>
  Requesting a run is refused when there is no such target, the target is retired or it
  already has an active run, and otherwise queues exactly one run and records its event.
\<close>

theorem create_run_exact:
  assumes inv: "db_inv d" and fresh: "run_ID (filled_run E r) \<notin> run_ID ` set (runs d)"
    and ev: "fresh_event E 1 (run_event (filled_run E r) ev) d"
  shows "CreateRun E r ev d =
    (case lookup tgt_ID (run_TargetID r) (targets d) of
       None \<Rightarrow> Inl ErrNotFound
     | Some t \<Rightarrow>
         if Retired t then Inl ErrRetired
         else if active_run_of (run_TargetID r) d then Inl ErrRunActive
         else Inr (filled_run E r,
                   d\<lparr>runs := runs d @ [queued_row (filled_run E r)],
                     audit_events := audit_events d @ logged E 1 (run_event (filled_run E r) ev)\<rparr>))"
proof -
  note v = db_invD(1)[OF inv]
  let ?r = "filled_run E r" and ?d1 = "d\<lparr>runs := runs d @ [queued_row (filled_run E r)]\<rparr>"
  have unf: "CreateRun E r ev d =
    (if \<exists>t. lookup tgt_ID (run_TargetID ?r) (targets d) = Some t \<and> Retired t then Inl ErrRetired
     else and_then (on_error (\<lambda>e. if e = UniqueViolation then ErrRunActive
                              else if e = ForeignKeyViolation then ErrNotFound else ErrOther)
            (exec (\<lambda>d. d\<lparr>runs := runs d @ [queued_row ?r]\<rparr>) d))
          (\<lambda>d. and_then (insertAudit E 1 (run_event ?r ev) d) (\<lambda>d. Inr (?r, d))))"
    by (simp only: CreateRun_def Let_def filled_run_def run_event_def target_retired_iff)
  have tid [simp]: "run_TargetID ?r = run_TargetID r" by (simp add: filled_run_def Let_def)
  have vio: "violated ?d1 = (if active_run_of (run_TargetID r) d then Some UniqueViolation
     else if run_TargetID r \<notin> tgt_ID ` set (targets d) then Some ForeignKeyViolation else None)"
    using insert_run_violated[OF v, of "queued_row ?r"] fresh by simp
  show ?thesis
  proof (cases "lookup tgt_ID (run_TargetID r) (targets d)")
    case None
    then have "run_TargetID r \<notin> tgt_ID ` set (targets d)" by simp
    moreover from this have "\<not> active_run_of (run_TargetID r) d" using active_run_has_target[OF v] by blast
    ultimately show ?thesis using vio by (simp add: unf exec_def None)
  next
    case (Some t)
    have mem: "run_TargetID r \<in> tgt_ID ` set (targets d)" using lookup_Some[OF Some] by force
    have "insertAudit E 1 (run_event ?r ev) ?d1 = Inr (?d1\<lparr>audit_events := audit_events ?d1 @ logged E 1 (run_event ?r ev)\<rparr>)"
      if "violated ?d1 = None" using that ev by (intro insertAudit_fresh) (auto simp: fresh_event_def)
    then show ?thesis using vio mem Some by (simp add: unf exec_def)
  qed
qed

definition sample_run :: run where
  "sample_run = \<lparr>run_ID = ''r1'', run_TargetID = ''t1'', run_TargetRevision = 1, run_Status = RunQueued,
     run_RequestedBy = ''alice'', run_RequestedByAuthority = ''local'', run_RequestedAt = 7,
     run_StartedAt = None, run_FinishedAt = None, run_Action = [], run_ExpiresAt = None,
     run_FingerprintSha256 = [], run_StoreObjectRef = [], run_ErrorCode = [], run_ErrorSummary = [],
     run_ExternalExecutionID = []\<rparr>"

theorem create_run_exact_witness:
  "\<exists>d'. CreateRun (sample_env CHR ''e'') sample_run None sample_db2 = Inr (sample_run, d') \<and> runs d' = [sample_run]"
proof -
  have "filled_run (sample_env CHR ''e'') sample_run = sample_run" "queued_row sample_run = sample_run"
    "runs sample_db2 = []" by code_simp+
  moreover have "lookup tgt_ID ''t1'' (targets sample_db2) = Some (hd (targets sample_db2))"
    "\<not> Retired (hd (targets sample_db2))" by code_simp+
  ultimately show ?thesis
    using create_run_exact[OF reachable_inv[OF sample_reachable], of "sample_env CHR ''e''" sample_run None]
    by (simp add: fresh_event_def run_event_def active_run_of_def sample_run_def)
qed

subsection \<open>Claiming the oldest run\<close>

text \<open>
  Claiming takes the oldest queued run and only that one, marks it starting and changes
  nothing else; it reports not found exactly when no run is queued.
\<close>

theorem claim_oldest_run:
  assumes inv: "db_inv d"
  shows "(\<forall>r \<in> set (runs d). run_Status r \<noteq> RunQueued) \<and> ClaimQueuedRun d = Inl ErrNotFound \<or>
    (\<exists>q \<in> set (runs d). run_Status q = RunQueued \<and>
       (\<forall>r \<in> set (runs d). run_Status r = RunQueued \<longrightarrow> run_ID q \<le> run_ID r) \<and>
       ClaimQueuedRun d = Inr (q\<lparr>run_Status := RunStarting\<rparr>,
         d\<lparr>runs := map (\<lambda>r. if r = q then q\<lparr>run_Status := RunStarting\<rparr> else r) (runs d)\<rparr>))"
proof (cases "first_row (sort_key run_ID (filter (\<lambda>r. run_Status r = RunQueued) (runs d)))")
  case None
  then have "length (sort_key run_ID (filter (\<lambda>r. run_Status r = RunQueued) (runs d))) = 0" by simp
  then have "filter (\<lambda>r. run_Status r = RunQueued) (runs d) = []" by (simp only: length_sort length_0_conv)
  moreover have "ClaimQueuedRun d = Inl ErrNotFound" by (simp add: ClaimQueuedRun_def None)
  ultimately show ?thesis by (simp add: filter_empty_conv)
next
  case (Some q)
  note v = db_invD(1)[OF inv] and min = first_row_sort_key[OF Some]
  have same: "r = q" if "r \<in> set (runs d)" "run_ID r = run_ID q" for r
    using unique_onD[OF db_inv_keys(3)[OF v] that(1)] min that(2) by simp
  let ?rs = "upd_where (\<lambda>r. run_ID r = run_ID q) (\<lambda>r. r\<lparr>run_Status := RunStarting\<rparr>) (runs d)"
  let ?d = "d\<lparr>runs := ?rs\<rparr>"
  have eq: "?rs = map (\<lambda>r. if r = q then q\<lparr>run_Status := RunStarting\<rparr> else r) (runs d)"
    unfolding upd_where_def using same by (intro map_cong) auto
  have act: "Active (run_Status r)" if "r \<in> set (runs d)" "run_ID r = run_ID q" for r
    using same[OF that] min by simp
  have "unique_on (\<lambda>r. Active (run_Status r)) run_TargetID ?rs" "unique_on every run_ID ?rs"
    using act by (auto intro!: unique_on_shrink db_inv_keys[OF v])
  moreover have "run_TargetID ` set ?rs \<subseteq> tgt_ID ` set (targets d)"
    using db_inv_refs(2)[OF v] by (subst upd_where_image) auto
  ultimately have ok: "violated ?d = None"
    using v by (simp add: violated_None violated_defs check_all_None)
  have "q\<lparr>run_Status := RunStarting\<rparr> \<in> set ?rs" using min by (auto simp: row_simps)
  then have "lookup run_ID (run_ID q) ?rs = Some (q\<lparr>run_Status := RunStarting\<rparr>)"
    using lookup_unique[OF \<open>unique_on every run_ID ?rs\<close>] by simp
  then have "ClaimQueuedRun d = Inr (q\<lparr>run_Status := RunStarting\<rparr>, ?d)"
    using Some ok by (simp add: ClaimQueuedRun_def exec_def GetRun_def)
  then show ?thesis using min eq by auto
qed

theorem claim_oldest_run_witness: "ClaimQueuedRun sample_db2 = Inl ErrNotFound"
proof -
  have "runs sample_db2 = []" by code_simp
  then show ?thesis using claim_oldest_run[OF reachable_inv[OF sample_reachable]] by auto
qed

subsection \<open>The summary of a target's runs\<close>

text \<open>The runs of a target, newest first.\<close>

definition newest_first :: "string \<Rightarrow> db \<Rightarrow> run list" where
  "newest_first i d = rev (sort_key run_ID (filter (\<lambda>r. run_TargetID r = i) (runs d)))"

definition unsuccessful :: "run \<Rightarrow> bool" where
  "unsuccessful r \<longleftrightarrow> run_Status r = RunFailed \<or> run_Status r = RunCancelled"

lemma first_row_filter: "first_row (filter P xs) = find P xs"
  by (induction xs) (simp_all add: first_row_def)

lemma newest_first_decreasing:
  assumes "violated d = None"
  shows "sorted_wrt (\<lambda>r s. run_ID s < run_ID r) (newest_first i d)"
proof -
  let ?s = "sort_key run_ID (filter (\<lambda>r. run_TargetID r = i) (runs d))"
  have "distinct (map run_ID (filter (\<lambda>r. run_TargetID r = i) (runs d)))"
    using db_inv_keys(3)[OF assms] by (simp add: unique_on_every distinct_map_filter)
  then have "distinct (map run_ID ?s)" by (simp add: distinct_map)
  moreover have "sorted (map run_ID ?s)" by simp
  ultimately have "sorted_wrt (<) (map run_ID ?s)" by (simp add: strict_sorted_iff)
  then show ?thesis by (simp add: newest_first_def sorted_wrt_rev sorted_wrt_map)
qed

lemma count_since_success:
  assumes "sorted_wrt (\<lambda>r s. run_ID s < run_ID r) rs" "find (\<lambda>r. run_Status r = RunSucceeded) rs = Some q"
  shows "filter (\<lambda>r. run_ID q < run_ID r \<and> unsuccessful r) rs =
         filter unsuccessful (takeWhile (\<lambda>r. run_Status r \<noteq> RunSucceeded) rs)"
  using assms
proof (induction rs)
  case (Cons r rs)
  show ?case
  proof (cases "run_Status r = RunSucceeded")
    case True
    then have "q = r" using Cons.prems by simp
    then have "filter (\<lambda>s. run_ID q < run_ID s \<and> unsuccessful s) rs = []"
      using Cons.prems(1) by (auto simp: filter_empty_conv)
    then show ?thesis using True \<open>q = r\<close> by simp
  next
    case False
    then have q: "find (\<lambda>r. run_Status r = RunSucceeded) rs = Some q" using Cons.prems by simp
    then have "q \<in> set rs" by (auto simp: find_Some_iff)
    then have "run_ID q < run_ID r" using Cons.prems(1) by simp
    then show ?thesis using False Cons.IH[OF _ q] Cons.prems(1) by simp
  qed
qed simp

lemma affected_sorted: "affected P (filter Q xs) = length (filter P (rev (sort_key k (filter Q xs))))"
  by (simp add: affected_def rev_filter[symmetric] filter_sort)

text \<open>
  The summary the scheduler's back-off reads is the newest run of the target, its
  newest successful run, and the number of failed or cancelled runs newer than that success.
\<close>

theorem run_summary_exact:
  assumes inv: "db_inv d"
  shows "RunSummary i d =
    \<lparr>LastRun = first_row (newest_first i d),
     LastSucceeded = find (\<lambda>r. run_Status r = RunSucceeded) (newest_first i d),
     ConsecutiveFailures =
       length (filter unsuccessful (takeWhile (\<lambda>r. run_Status r \<noteq> RunSucceeded) (newest_first i d)))\<rparr>"
proof -
  let ?mine = "filter (\<lambda>r. run_TargetID r = i) (runs d)" and ?rs = "newest_first i d"
  let ?ok = "find (\<lambda>r. run_Status r = RunSucceeded) ?rs"
  let ?since = "case ?ok of None \<Rightarrow> [] | Some r \<Rightarrow> run_ID r"
  have ok: "first_row (rev (sort_key run_ID (filter (\<lambda>r. run_Status r = RunSucceeded) ?mine))) = ?ok"
    by (simp add: newest_first_def first_row_filter[symmetric] rev_filter[symmetric] filter_sort)
  have "length (filter (\<lambda>r. ?since < run_ID r \<and> unsuccessful r) ?rs) =
      length (filter unsuccessful (takeWhile (\<lambda>r. run_Status r \<noteq> RunSucceeded) ?rs))"
  proof (cases ?ok)
    case None
    then have all: "takeWhile (\<lambda>r. run_Status r \<noteq> RunSucceeded) ?rs = ?rs"
      by (auto simp: find_None_iff)
    have "[] < run_ID r" if "r \<in> set ?rs" for r
      using db_invD(5)[OF inv] that by (auto simp: rows_ok_def newest_first_def neq_Nil_conv)
    then have "filter (\<lambda>r. ?since < run_ID r \<and> unsuccessful r) ?rs = filter unsuccessful ?rs"
      using None by (intro filter_cong) auto
    then show ?thesis by (simp only: all)
  next
    case (Some q)
    then show ?thesis using count_since_success[OF newest_first_decreasing[OF db_invD(1)[OF inv]] Some] by simp
  qed
  then show ?thesis
    by (simp add: RunSummary_def Let_def ok affected_sorted[where k = run_ID] newest_first_def[symmetric] unsuccessful_def
        del: filter_filter)
qed

theorem run_summary_exact_witness: "ConsecutiveFailures (RunSummary ''t1'' sample_db2) = 0"
proof -
  have "runs sample_db2 = []" by code_simp
  then show ?thesis using run_summary_exact[OF reachable_inv[OF sample_reachable], of "''t1''"]
    by (simp add: newest_first_def)
qed

subsection \<open>Account generations\<close>

text \<open>
  A request that is accepted gets a generation no request for the account ever had, one
  above the number of generations so far, and it is the account's only pending one.
\<close>

theorem request_generation_fresh:
  assumes inv: "db_inv d" and req: "RequestACMEAccountProvisioning E a sealed ev d = Inr (a', d')"
  shows "acc_Generation a' = int (length (filter (\<lambda>b. acc_scope b = acc_scope a') (acme_accounts d))) + 1 \<and>
    acc_key a' \<notin> acc_key ` set (acme_accounts d) \<and>
    filter (\<lambda>b. acc_scope b = acc_scope a' \<and> acc_Status b = ACMEAccountProvisioning) (acme_accounts d') = [a']"
  using req
proof (rule RequestACMEAccountProvisioning_effect)
  fix d1
  assume d1: "d1 = d\<lparr>acme_accounts := acme_accounts d @ [a']\<rparr>" "violated d1 = None" "insertAudit E 1 ev d1 = Inr d'"
    and gen: "acc_Generation a' = next_generation (acc_Binding a') (acc_Scope a') d"
    and a': "a' = a\<lparr>acc_Status := ACMEAccountProvisioning, acc_sealed_payload := Some sealed, acc_RunID := None,
       acc_CreatedAt := env_now E 0, acc_UpdatedAt := env_now E 0, acc_ActivatedAt := None\<rparr>"
  note v = db_invD(1)[OF inv]
  let ?F = "filter (\<lambda>b. acc_scope b = acc_scope a') (acme_accounts d)"
  have below: "1 \<le> acc_Generation b \<and> acc_Generation b < acc_Generation a'" if "b \<in> set ?F" for b
    using that db_inv_keys(12)[OF v] next_generation_greater[of b d] gen by (auto simp: acc_scope_def)
  have "g \<in> acc_Generation ` set ?F" if g: "1 \<le> g" "g < acc_Generation a'" for g
  proof (rule next_generation_cases[of "acc_Binding a'" "acc_Scope a'" d])
    assume "next_generation (acc_Binding a') (acc_Scope a') d = 1"
    then show ?thesis using g gen by simp
  next
    fix b assume b: "b \<in> set (acme_accounts d)" "acc_scope b = (acc_Binding a', acc_Scope a')"
      "next_generation (acc_Binding a') (acc_Scope a') d = acc_Generation b + 1"
    then have "(acc_Binding b, acc_Scope b, g) \<in> acc_key ` set (acme_accounts d)"
      using db_invD(4)[OF inv] g gen by (simp add: accounts_ok_def account_ok_def)
    then show ?thesis using b(2) by (auto simp: acc_key_def acc_scope_def)
  qed
  then have img: "acc_Generation ` set ?F = {1..<acc_Generation a'}" using below by fastforce
  have dist: "distinct (map acc_Generation ?F)"
  proof (rule distinct_map[THEN iffD2], intro conjI)
    show "distinct ?F" using db_inv_keys(5)[OF v] by (simp add: unique_on_every distinct_map)
    show "inj_on acc_Generation (set ?F)"
      using unique_onD[OF db_inv_keys(5)[OF v]] by (auto simp: inj_on_def acc_key_def acc_scope_def)
  qed
  then have "length ?F = card (acc_Generation ` set ?F)" by (metis distinct_card length_map list.set_map)
  then have len: "int (length ?F) = acc_Generation a' - 1"
    using img db_inv_keys(12)[OF d1(2)] by (simp add: d1(1))
  show ?thesis
  proof (intro conjI)
    show "acc_Generation a' = int (length ?F) + 1" using len by simp
    show "acc_key a' \<notin> acc_key ` set (acme_accounts d)"
      using db_inv_keys(5)[OF d1(2)] by (auto simp: d1(1) unique_on_append)
    have st: "acc_Status a' = ACMEAccountProvisioning" by (simp add: a')
    have "acc_scope b \<noteq> acc_scope a'" if "b \<in> set (acme_accounts d)" "acc_Status b = ACMEAccountProvisioning" for b
      using db_inv_keys(8)[OF d1(2)] st that by (simp add: d1(1) unique_on_append)
    then show "filter (\<lambda>b. acc_scope b = acc_scope a' \<and> acc_Status b = ACMEAccountProvisioning) (acme_accounts d') = [a']"
      using insertAudit_Inr[OF d1(3)] st by (auto simp: d1(1) filter_empty_conv)
  qed
qed

definition sample_account :: acme_account where
  "sample_account = \<lparr>acc_Binding = ''acme'', acc_Scope = [], acc_Generation = 1,
     acc_Status = ACMEAccountProvisioning, acc_KeyID = ''k'', acc_sealed_payload = None, acc_RunID = None,
     acc_RequestedBy = ''alice'', acc_RequestedByAuthority = ''local'', acc_CreatedAt = 0, acc_UpdatedAt = 0,
     acc_ActivatedAt = None\<rparr>"

definition sample_db3 :: db where
  "sample_db3 = result_db (RequestACMEAccountProvisioning (sample_env CHR ''f'') sample_account ''sealed'' None sample_db2)"

lemma sample_request:
  "RequestACMEAccountProvisioning (sample_env CHR ''f'') sample_account ''sealed'' None sample_db2 =
     Inr (hd (acme_accounts sample_db3), sample_db3)"
proof -
  let ?r = "RequestACMEAccountProvisioning (sample_env CHR ''f'') sample_account ''sealed'' None sample_db2"
  have "case ?r of Inl _ \<Rightarrow> False | Inr (a, d) \<Rightarrow> a = hd (acme_accounts d)" by code_simp
  then show ?thesis by (auto simp: sample_db3_def result_db_def split: sum.splits)
qed

theorem request_generation_fresh_witness: "acc_Generation (hd (acme_accounts sample_db3)) = 1"
proof -
  have "acme_accounts sample_db2 = []" by code_simp
  then show ?thesis
    using request_generation_fresh[OF reachable_inv[OF sample_reachable] sample_request] by simp
qed

text \<open>An update of account rows that keeps the keys and both partial indexes is never refused.\<close>

lemma acc_update_ok:
  assumes v: "violated d = None" and key: "\<And>a. acc_key (f a) = acc_key a"
    and "unique_on (\<lambda>a. acc_Status a = ACMEAccountProvisioning) acc_scope (upd_where Q f (acme_accounts d))"
    and "unique_on (\<lambda>a. acc_Status a = ACMEAccountActive) acc_scope (upd_where Q f (acme_accounts d))"
  shows "violated (d\<lparr>acme_accounts := upd_where Q f (acme_accounts d)\<rparr>) = None"
proof -
  have "acc_Generation (f a) = acc_Generation a" for a using key[of a] by (simp add: acc_key_def)
  then have "\<forall>a \<in> set (upd_where Q f (acme_accounts d)). \<not> acc_Generation a < 1"
    using db_inv_keys(12)[OF v] by (auto simp: ball_upd_where)
  moreover have "unique_on every acc_key (upd_where Q f (acme_accounts d))"
    by (rule unique_on_keep[OF db_inv_keys(5)[OF v]]) (simp add: key)
  ultimately show ?thesis using v assms(3,4)
    by (simp add: violated_None violated_defs check_all_None)
qed

text \<open>Identifiers for audit events that are new and all different.\<close>

definition fresh_ids :: "op_env \<Rightarrow> db \<Rightarrow> bool" where
  "fresh_ids E d \<longleftrightarrow> inj (env_id E) \<and> (\<forall>k. env_id E k \<noteq> [] \<and> env_id E k \<notin> ev_ID ` set (audit_events d))"

lemma at_most_one:
  assumes "distinct xs" "\<And>x y. x \<in> set xs \<Longrightarrow> y \<in> set xs \<Longrightarrow> x = y"
  shows "xs = [] \<or> (\<exists>x. xs = [x])"
proof (cases xs)
  case (Cons a ys)
  have "y \<notin> set ys" for y
  proof
    assume y: "y \<in> set ys"
    then have "a = y" using assms(2)[of a y] Cons by simp
    then show False using assms(1) Cons y by simp
  qed
  then have "ys = []" by (cases ys) auto
  then show ?thesis using Cons by simp
qed simp

lemma previous_active_at_most_one:
  assumes "violated d = None"
  shows "previous_active b s g d = [] \<or> (\<exists>h. previous_active b s g d = [h])"
proof -
  let ?F = "filter (\<lambda>a. acc_Binding a = b \<and> acc_Scope a = s \<and> acc_Status a = ACMEAccountActive \<and> acc_Generation a \<noteq> g) (acme_accounts d)"
  have "distinct ?F" using db_inv_keys(5)[OF assms] by (simp add: unique_on_every distinct_map)
  moreover have "x = y" if "x \<in> set ?F" "y \<in> set ?F" for x y
    using unique_onD[OF db_inv_keys(9)[OF assms], of x y] that by (simp add: acc_scope_def)
  ultimately have "?F = [] \<or> (\<exists>x. ?F = [x])"
    by (rule at_most_one)
  then show ?thesis by (auto simp: previous_active_def)
qed

lemma fill_event_ID [simp]: "ev_ID (fill_event E k e) = (if ev_ID e = [] then env_id E k else ev_ID e)"
  by (simp add: fill_event_def Let_def)

lemma retired_event_ID [simp]: "ev_ID (retired_event ev b s g h) = []"
  by (simp add: retired_event_def new_event_def)

text \<open>Retiring what was active before never fails.\<close>

lemma retire_previous_total:
  assumes v: "violated d = None" and ids: "fresh_ids E d"
  shows "\<exists>d'. retire_previous E 1 b s g ev (previous_active b s g d) d = Inr d'"
  using previous_active_at_most_one[OF v, of b s g]
proof
  assume "\<exists>h. previous_active b s g d = [h]"
  then obtain h where h: "previous_active b s g d = [h]" by blast
  have f: "(\<lambda>a. a\<lparr>acc_Status := ACMEAccountRetired, acc_UpdatedAt := env_now E 0\<rparr>) = retire_acc E"
    by (simp add: retire_acc_def fun_eq_iff)
  let ?d = "d\<lparr>acme_accounts := upd_where (\<lambda>a. acc_key a = (b, s, h)) (retire_acc E) (acme_accounts d)\<rparr>"
  have ok: "violated ?d = None"
    by (intro acc_update_ok v unique_on_shrink db_inv_keys[OF v]) auto
  have "insertAudit E 1 (Some (retired_event ev b s h g)) ?d =
      Inr (?d\<lparr>audit_events := audit_events ?d @ logged E 1 (Some (retired_event ev b s h g))\<rparr>)"
    using ids by (intro insertAudit_fresh ok) (auto simp: fresh_ids_def)
  then show ?thesis using ok by (simp add: h f exec_def)
qed simp

definition completed :: "op_env \<Rightarrow> bool \<Rightarrow> acme_account \<Rightarrow> acme_account \<Rightarrow> acme_account" where
  "completed E registered a c =
     (if c = a then settle E registered a
      else if registered \<and> acc_scope c = acc_scope a \<and> acc_Status c = ACMEAccountActive then retire_acc E c
      else c)"

lemma settle_update:
  assumes v: "violated d = None" and a: "a \<in> set (acme_accounts d)" "complete_row b s g r a"
    and none: "registered \<Longrightarrow> \<forall>c \<in> set (acme_accounts d). acc_scope c = (b, s) \<longrightarrow> acc_Status c \<noteq> ACMEAccountActive"
  shows "violated (d\<lparr>acme_accounts := upd_where (complete_row b s g r) (settle E registered) (acme_accounts d)\<rparr>) = None"
proof (rule acc_update_ok[OF v])
  show "unique_on (\<lambda>a. acc_Status a = ACMEAccountProvisioning) acc_scope
      (upd_where (complete_row b s g r) (settle E registered) (acme_accounts d))"
    by (rule unique_on_shrink[OF db_inv_keys(8)[OF v]]) (auto split: if_splits)
  have one: "x = y" if "x \<in> set (acme_accounts d)" "y \<in> set (acme_accounts d)"
      "complete_row b s g r x" "complete_row b s g r y" for x y
    using unique_onD[OF db_inv_keys(5)[OF v] that(1,2)] that(3,4) by (simp add: complete_row_def)
  show "unique_on (\<lambda>a. acc_Status a = ACMEAccountActive) acc_scope
      (upd_where (complete_row b s g r) (settle E registered) (acme_accounts d))"
  proof (rule unique_on_enter[OF db_inv_keys(9)[OF v] one])
    show "distinct (acme_accounts d)" using db_inv_keys(5)[OF v] by (simp add: unique_on_every distinct_map)
  qed (use none in \<open>auto simp: complete_row_def acc_key_def acc_scope_def settle_def split: if_splits\<close>)
qed simp

text \<open>The two updates of a completion, row by row.\<close>

lemma complete_rows:
  assumes v: "violated d = None" and a: "a \<in> set (acme_accounts d)" "acc_key a = (b, s, g)"
    "acc_Status a = ACMEAccountProvisioning" "acc_RunID a = Some r"
  shows "upd_where (complete_row b s g r) (settle E registered)
           (upd_where (complete_previous b s g registered) (retire_acc E) (acme_accounts d)) =
         map (completed E registered a) (acme_accounts d)"
proof -
  have "(let c = (if complete_previous b s g registered c then retire_acc E c else c) in
        if complete_row b s g r c then settle E registered c else c) = completed E registered a c"
    if c: "c \<in> set (acme_accounts d)" for c
  proof (cases "c = a")
    case True
    then show ?thesis using a by (simp add: completed_def complete_previous_def complete_row_def)
  next
    case False
    then have "acc_key c \<noteq> (b, s, g)" using unique_onD[OF db_inv_keys(5)[OF v] c a(1)] a(2) by auto
    moreover from this have "complete_previous b s g registered c \<longleftrightarrow>
        registered \<and> acc_scope c = acc_scope a \<and> acc_Status c = ACMEAccountActive"
      using a(2) by (auto simp: complete_previous_def acc_scope_def acc_key_def)
    ultimately show ?thesis using False by (simp add: completed_def complete_row_def)
  qed
  then show ?thesis by (simp add: upd_where_def Let_def)
qed

lemma active_generation:
  assumes v: "violated d = None" and a: "a \<in> set (acme_accounts d)" "acc_key a = (b, s, g)" "acc_Status a = ACMEAccountActive"
  shows "ActiveACMEAccountGeneration b s d = g"
proof -
  let ?sel = "\<lambda>a. acc_Binding a = b \<and> acc_Scope a = s \<and> acc_Status a = ACMEAccountActive"
  have "find ?sel (acme_accounts d) \<noteq> None" using a by (auto simp: find_None_iff acc_key_def)
  then obtain c where c: "find ?sel (acme_accounts d) = Some c" by blast
  then have "c \<in> set (acme_accounts d)" "?sel c" by (auto simp: find_Some_iff)
  then have "c = a" using unique_onD[OF db_inv_keys(9)[OF v] _ a(1)] a(2,3) by (simp add: acc_scope_def acc_key_def)
  then show ?thesis using c a(2) by (simp add: ActiveACMEAccountGeneration_def acc_key_def)
qed

text \<open>A completion with fresh event identifiers goes through.\<close>

lemma complete_total:
  assumes v: "violated d = None" and a: "a \<in> set (acme_accounts d)" "acc_key a = (b, s, g)"
    "acc_Status a = ACMEAccountProvisioning" "acc_RunID a = Some r"
    and ids: "fresh_ids E d" and ev: "ev_ID ev = []"
  shows "\<exists>d'. CompleteACMEAccountProvisioning E b s g r registered ev d = Inr d' \<and>
    acme_accounts d' = map (completed E registered a) (acme_accounts d)"
proof -
  let ?prev = "if registered then previous_active b s g d else []"
  let ?es = "map (\<lambda>h. retired_event ev b s h g) ?prev"
  let ?P = "complete_previous b s g registered"
  obtain d1 where d1: "retire_previous E 1 b s g ev ?prev d = Inr d1"
    using retire_previous_total[OF v ids, of b s g ev] by (cases registered) auto
  have "upd_where (\<lambda>a. acc_scope a = (b, s) \<and> acc_Generation a \<in> set ?prev) (retire_acc E) (acme_accounts d)
      = upd_where ?P (retire_acc E) (acme_accounts d)"
    by (rule upd_where_cong) (cases registered; simp add: complete_previous_def previous_active_iff[OF v])+
  then have accs: "acme_accounts d1 = upd_where ?P (retire_acc E) (acme_accounts d)"
    and aud: "audit_events d1 = audit_events d @ log_all E 1 ?es"
    using retire_previous_effect[OF d1] by simp_all
  have row: "complete_row b s g r a" using a by (simp add: complete_row_def)
  have "\<not> ?P a" using a by (simp add: complete_previous_def)
  then have a1: "a \<in> set (acme_accounts d1)" using a(1) by (auto simp: accs row_simps)
  have ne: "acc_Generation c \<noteq> g" if "c \<in> set (acme_accounts d)" "acc_scope c = (b, s)" "acc_Status c = ACMEAccountActive" for c
  proof
    assume "acc_Generation c = g"
    then have "acc_key c = acc_key a" using that(2) a(2) by (simp add: acc_key_def acc_scope_def)
    then have "c = a" using unique_onD[OF db_inv_keys(5)[OF v] that(1) a(1)] by simp
    then show False using that(3) a(3) by simp
  qed
  have gone: "registered \<Longrightarrow> \<forall>c \<in> set (acme_accounts d1). acc_scope c = (b, s) \<longrightarrow> acc_Status c \<noteq> ACMEAccountActive"
    using ne by (auto simp: accs ball_upd_where complete_previous_def)
  let ?d2 = "d1\<lparr>acme_accounts := upd_where (complete_row b s g r) (settle E registered) (acme_accounts d1)\<rparr>"
  have v2: "violated ?d2 = None" by (rule settle_update[OF retire_previous_ok[OF d1 v] a1 row gone])
  have "env_id E (Suc (length ?es)) \<notin> ev_ID ` set (audit_events ?d2)"
    using ids previous_active_at_most_one[OF v, of b s g]
    by (auto simp: aud fresh_ids_def dest: injD)
  then have ins: "insertAudit E (Suc (length ?es)) (Some ev) ?d2 =
      Inr (?d2\<lparr>audit_events := audit_events ?d2 @ logged E (Suc (length ?es)) (Some ev)\<rparr>)"
    using ev by (intro insertAudit_fresh v2) auto
  have sel: "complete_row b s g r = (\<lambda>a. acc_key a = (b, s, g) \<and> acc_RunID a = Some r \<and> acc_Status a = ACMEAccountProvisioning)"
    by (simp add: complete_row_def fun_eq_iff)
  have "affected (complete_row b s g r) (acme_accounts d1) \<noteq> 0" using a1 row by auto
  then have "CompleteACMEAccountProvisioning E b s g r registered ev d =
      Inr (?d2\<lparr>audit_events := audit_events ?d2 @ logged E (Suc (length ?es)) (Some ev)\<rparr>)"
    using d1 v2 ins by (simp add: CompleteACMEAccountProvisioning_def Let_def exec_def sel del: affected_0 affected_pos)
  then show ?thesis using complete_rows[OF v a] by (simp add: accs)
qed

text \<open>
  Property C32: reporting the outcome for a generation that is attached to the run always succeeds.
  On success it becomes the account's active generation and the one that was active before is
  retired, on failure it is marked failed; either way its sealed payload is gone, and no other
  generation is touched.
\<close>

theorem complete_exact:
  assumes inv: "db_inv d" and a: "a \<in> set (acme_accounts d)" "acc_key a = (b, s, g)"
    "acc_Status a = ACMEAccountProvisioning" "acc_RunID a = Some r"
    and ids: "fresh_ids E d" and ev: "ev_ID ev = []"
  shows "\<exists>d'. CompleteACMEAccountProvisioning E b s g r registered ev d = Inr d' \<and>
    acme_accounts d' = map (completed E registered a) (acme_accounts d) \<and>
    (registered \<longrightarrow> ActiveACMEAccountGeneration b s d' = g) \<and>
    (\<forall>c \<in> set (acme_accounts d'). acc_key c = (b, s, g) \<longrightarrow> acc_sealed_payload c = None \<and>
       acc_Status c = (if registered then ACMEAccountActive else ACMEAccountFailed))"
proof -
  obtain d' where d': "CompleteACMEAccountProvisioning E b s g r registered ev d = Inr d'"
    and accs: "acme_accounts d' = map (completed E registered a) (acme_accounts d)"
    using complete_total[OF db_invD(1)[OF inv] a ids ev] by blast
  note v' = db_invD(1)[OF CompleteACMEAccountProvisioning_inv[OF d' inv]]
  have mem: "settle E registered a \<in> set (acme_accounts d')" using a(1) by (force simp: accs completed_def)
  have "acc_sealed_payload c = None \<and> acc_Status c = (if registered then ACMEAccountActive else ACMEAccountFailed)"
    if "c \<in> set (acme_accounts d')" "acc_key c = (b, s, g)" for c
    using unique_onD[OF db_inv_keys(5)[OF v'] that(1) mem] that(2) a(2) by simp
  moreover have "registered \<longrightarrow> ActiveACMEAccountGeneration b s d' = g"
    using active_generation[OF v' mem] a(2) by simp
  ultimately show ?thesis using d' accs by blast
qed

definition sample_db4 :: db where
  "sample_db4 = result_db (ClaimACMEAccountProvisioning (sample_env CHR ''g'') ''acme'' [] ''r1'' sample_db3)"

lemma sample_claim:
  "\<exists>res. ClaimACMEAccountProvisioning (sample_env CHR ''g'') ''acme'' [] ''r1'' sample_db3 = Inr (res, sample_db4)"
proof -
  have "isl (ClaimACMEAccountProvisioning (sample_env CHR ''g'') ''acme'' [] ''r1'' sample_db3) = False" by code_simp
  then show ?thesis by (auto simp: sample_db4_def result_db_def split: sum.splits)
qed

lemma sample_db4_inv: "db_inv sample_db4"
proof -
  have "db_inv sample_db3"
    using RequestACMEAccountProvisioning_inv[OF sample_request reachable_inv[OF sample_reachable]] .
  then show ?thesis using sample_claim ClaimACMEAccountProvisioning_inv by blast
qed

theorem complete_exact_witness:
  "\<exists>d'. CompleteACMEAccountProvisioning (sample_env CHR ''h'') ''acme'' [] 1 ''r1'' True
          (new_event ''scheduler'' ''scheduler'' AuditACMEAccountActivated []) sample_db4 = Inr d' \<and>
        ActiveACMEAccountGeneration ''acme'' [] d' = 1"
proof -
  let ?a = "hd (acme_accounts sample_db4)"
  have "acme_accounts sample_db4 \<noteq> []" by code_simp
  then have mem: "?a \<in> set (acme_accounts sample_db4)" by simp
  have a: "acc_key ?a = (''acme'', [], 1)" "acc_Status ?a = ACMEAccountProvisioning" "acc_RunID ?a = Some ''r1''"
    by code_simp+
  have "map ev_ID (audit_events sample_db4) = [''g+'']" by code_simp
  then have "set (map ev_ID (audit_events sample_db4)) = {''g+''}" by simp
  then have ids: "fresh_ids (sample_env CHR ''h'') sample_db4"
    by (auto simp: fresh_ids_def sample_env_def inj_def)
  show ?thesis
    using complete_exact[OF sample_db4_inv mem a ids, of "new_event ''scheduler'' ''scheduler'' AuditACMEAccountActivated []" True]
    by (auto simp: new_event_def)
qed

end
