(* ===== verification/SchedPolicy.thy ===== *)
theory SchedPolicy
  imports RegistryOps
begin

text \<open>
  The decisions of \<^verbatim>\<open>internal/conductor/scheduler/scheduler.go\<close> that need no registry call: when a
  target is due, how long a failure holds it back, which job a run becomes, and the clean-up of a
  summary. A reason is the value the Go function formats; \<open>reason_text\<close> formats it, with the time
  layout as a parameter.
\<close>

subsection \<open>Retry back-off\<close>

fun backoff_loop :: "nat \<Rightarrow> duration \<Rightarrow> duration \<Rightarrow> duration" where
  "backoff_loop 0 wait mx = (if mx < wait then mx else wait)"
| "backoff_loop (Suc i) wait mx = (if mx div 2 \<le> wait then mx else backoff_loop i (int64 (wait * 2)) mx)"

definition Backoff :: "nat \<Rightarrow> duration \<Rightarrow> duration \<Rightarrow> duration" where
  "Backoff n base mx = backoff_loop (max 1 n - 1) base mx"

subsection \<open>Due\<close>

datatype due_reason =
    TargetRetired | Disabled | RunIsActive | RetryBackoffUntil gotime nat | RetryAfterFailure
  | NeverReconciled | RevisionDiffers int int | NoExpiry | ExpiresWithin gotime | CurrentUntil gotime

definition ended_badly :: "run \<Rightarrow> bool" where
  "ended_badly r \<longleftrightarrow> run_Status r = RunFailed \<or> run_Status r = RunCancelled"

text \<open>The moment a failed run is counted from, and the first moment it no longer holds back.\<close>

definition failure_ref :: "run \<Rightarrow> gotime" where
  "failure_ref r = (case run_FinishedAt r of None \<Rightarrow> run_RequestedAt r | Some t \<Rightarrow> t)"

definition Due ::
  "target \<Rightarrow> reg_policy \<Rightarrow> run_summary \<Rightarrow> gotime \<Rightarrow> duration \<Rightarrow> duration \<Rightarrow> bool \<times> due_reason" where
  "Due t p sm now backoff maxBackoff =
     (if Retired t then (False, TargetRetired)
      else if \<not> tgt_Enabled t \<or> \<not> pol_Enabled p then (False, Disabled)
      else if (case LastRun sm of None \<Rightarrow> False | Some r \<Rightarrow> Active (run_Status r)) then (False, RunIsActive)
      else
        let held = (case LastRun sm of
                      None \<Rightarrow> None
                    | Some r \<Rightarrow>
                        if ended_badly r then
                          (let nxt = failure_ref r + Backoff (ConsecutiveFailures sm) backoff maxBackoff in
                           if now < nxt then Some (False, RetryBackoffUntil nxt (ConsecutiveFailures sm))
                           else if LastSucceeded sm = None then Some (True, RetryAfterFailure)
                           else None)
                        else None) in
        (case held of
           Some d \<Rightarrow> d
         | None \<Rightarrow>
             (case LastSucceeded sm of
                None \<Rightarrow> (True, NeverReconciled)
              | Some ok \<Rightarrow>
                  if run_TargetRevision ok \<noteq> tgt_Revision t
                  then (True, RevisionDiffers (tgt_Revision t) (run_TargetRevision ok))
                  else
                    (case run_ExpiresAt ok of
                       None \<Rightarrow> (True, NoExpiry)
                     | Some e \<Rightarrow>
                         if \<not> now < e + int64 (int64 (int64 (- pol_RenewBeforeDays p) * 24) * hour)
                         then (True, ExpiresWithin e) else (False, CurrentUntil e)))))"

definition reason_text :: "(gotime \<Rightarrow> string) \<Rightarrow> due_reason \<Rightarrow> string" where
  "reason_text rfc3339 why =
     (case why of
        TargetRetired \<Rightarrow> ''target retired''
      | Disabled \<Rightarrow> ''target or policy disabled''
      | RunIsActive \<Rightarrow> ''a run is active''
      | RetryBackoffUntil t n \<Rightarrow>
          ''retry backoff until '' @ rfc3339 t @ '' after '' @ itoa (int n) @ '' consecutive failures''
      | RetryAfterFailure \<Rightarrow> ''retry after failure; never reconciled successfully''
      | NeverReconciled \<Rightarrow> ''never reconciled''
      | RevisionDiffers a b \<Rightarrow>
          ''target revision '' @ itoa a @ '' differs from last successful run (revision '' @ itoa b @ '')''
      | NoExpiry \<Rightarrow> ''last successful run recorded no expiry''
      | ExpiresWithin t \<Rightarrow> ''certificate expires at '' @ rfc3339 t @ '', within renewBeforeDays''
      | CurrentUntil t \<Rightarrow> ''certificate current until '' @ rfc3339 t)"

subsection \<open>Pending provisioning\<close>

definition pendingProvisioning :: "string \<Rightarrow> string \<Rightarrow> db \<Rightarrow> acme_account option" where
  "pendingProvisioning binding scope d =
     find (\<lambda>a. acc_Status a = ACMEAccountProvisioning \<and> (acc_RunID a = None \<or> acc_RunID a = Some []))
       (ListACMEAccounts binding scope d)"

definition provisioningDue ::
  "acme_account option \<Rightarrow> run_summary \<Rightarrow> gotime \<Rightarrow> duration \<Rightarrow> duration \<Rightarrow> bool" where
  "provisioningDue acct sm now backoff maxBackoff =
     (case acct of
        None \<Rightarrow> False
      | Some a \<Rightarrow>
          (case LastRun sm of
             None \<Rightarrow> True
           | Some r \<Rightarrow>
               \<not> (ended_badly r \<and> \<not> run_RequestedAt r < acc_CreatedAt a \<and>
                  now < failure_ref r + Backoff (ConsecutiveFailures sm) backoff maxBackoff)))"

definition provisioning_text :: "string \<Rightarrow> acme_account \<Rightarrow> string" where
  "provisioning_text binding a =
     ''acme account provisioning pending: binding='' @ binding @ '' generation='' @ itoa (acc_Generation a)"

subsection \<open>The job of a run\<close>

definition BuildJobSpec :: "run \<Rightarrow> target \<Rightarrow> reg_policy \<Rightarrow> account_ref option \<Rightarrow> job_spec" where
  "BuildJobSpec r t p account =
     \<lparr>js_APIVersion = APIVersion, js_Kind = KindCertificateReconcileJob, js_RunID = run_ID r,
      js_Target = \<lparr>tr_ID = tgt_ID t, tr_FQDN = tgt_FQDN t,
        tr_AdditionalNames = (if tgt_AdditionalNames t = [] then None else Some (tgt_AdditionalNames t)),
        tr_Revision = tgt_Revision t\<rparr>,
      js_Policy = \<lparr>ps_AllowedDnsSuffixes = pol_AllowedDnsSuffixes p, ps_AllowWildcard = pol_AllowWildcard p,
        ps_RenewBeforeDays = pol_RenewBeforeDays p, ps_KeyType = pol_KeyType p,
        ps_MaxSANs = (if tgt_AdditionalNames t = [] then None else Some (pol_MaxSANs p))\<rparr>,
      js_ACMEBinding = pol_ACMEBinding p, js_ACMEAccount = account,
      js_DNSBinding = tgt_DNSBinding t, js_StoreBinding = tgt_StoreBinding t\<rparr>"

subsection \<open>Bounds of the back-off\<close>

lemma backoff_loop_closed:
  assumes "0 < wait" "wait \<le> mx" "mx < 2 ^ 63"
  shows "backoff_loop i wait mx =
    (if i = 0 then wait else if mx div 2 \<le> wait * 2 ^ (i - 1) then mx else wait * 2 ^ i)"
  using assms
proof (induction i arbitrary: wait)
  case (Suc i)
  show ?case
  proof (cases "mx div 2 \<le> wait")
    case True
    have "wait \<le> wait * 2 ^ i" using Suc.prems by simp
    with True show ?thesis by simp
  next
    case False
    then have dbl: "wait * 2 \<le> mx" "int64 (wait * 2) = wait * 2" using Suc.prems by simp_all
    have "backoff_loop (Suc i) wait mx = backoff_loop i (wait * 2) mx" using False dbl by simp
    also have "\<dots> = (if i = 0 then wait * 2 else if mx div 2 \<le> wait * 2 * 2 ^ (i - 1) then mx else wait * 2 * 2 ^ i)"
      using Suc.IH[of "wait * 2"] Suc.prems dbl by simp
    also have "\<dots> = (if mx div 2 \<le> wait * 2 ^ i then mx else wait * 2 ^ Suc i)"
      using False by (cases i) (simp_all add: mult.assoc)
    finally show ?thesis by simp
  qed
qed simp

lemma Backoff_closed:
  assumes "0 < base" "base \<le> mx" "mx < 2 ^ 63"
  shows "Backoff n base mx =
    (if n \<le> 1 then base else if mx div 2 \<le> base * 2 ^ (n - 2) then mx else base * 2 ^ (n - 1))"
  using backoff_loop_closed[OF assms, of "n - 1"]
  by (auto simp: Backoff_def max_def numeral_2_eq_2 split: if_splits)

lemma Backoff_range:
  assumes "0 < base" "base \<le> mx" "mx < 2 ^ 63"
  shows "base \<le> Backoff n base mx" "Backoff n base mx \<le> mx"
proof -
  have ge: "base \<le> base * 2 ^ k" for k :: nat using assms(1) by simp
  have "base * 2 ^ (n - 1) \<le> mx" if "1 < n" "\<not> mx div 2 \<le> base * 2 ^ (n - 2)"
  proof -
    have "2 * (base * 2 ^ (n - 2)) = base * 2 ^ (n - 1)"
      using that(1) by (cases n; cases "n - 1") auto
    then show ?thesis using that(2) by linarith
  qed
  then show "base \<le> Backoff n base mx" "Backoff n base mx \<le> mx"
    using Backoff_closed[OF assms, of n] ge[of "n - 1"] assms(2) by auto
qed

text \<open>
  Property C31: the back-off after \<open>n\<close> failures. The first failure waits the base; each further one
  doubles it until half the maximum is reached, from where it is the maximum. No intermediate
  value overflows 64 bits, the result never leaves the interval from base to maximum, and it
  never falls as failures accumulate.
\<close>

theorem backoff_exact:
  assumes "0 < base" "base \<le> mx" "mx < 2 ^ 63"
  shows "Backoff n base mx =
      (if n \<le> 1 then base else if mx div 2 \<le> base * 2 ^ (n - 2) then mx else base * 2 ^ (n - 1)) \<and>
    base \<le> Backoff n base mx \<and> Backoff n base mx \<le> mx \<and> Backoff n base mx \<le> Backoff (Suc n) base mx"
proof -
  note closed = Backoff_closed[OF assms] and range = Backoff_range[OF assms]
  have mono: "Backoff n base mx \<le> Backoff (Suc n) base mx"
  proof (cases "n \<le> 1 \<or> mx div 2 \<le> base * 2 ^ (n - 1)")
    case True
    then show ?thesis
      using closed[of n] closed[of "Suc n"] range(1)[of "Suc n"] range(2)[of n] by (auto split: if_splits)
  next
    case False
    have "base * 2 ^ (n - 2) \<le> base * 2 ^ (n - 1)" using assms(1) by simp
    then have "\<not> mx div 2 \<le> base * 2 ^ (n - 2)" using False by linarith
    then have "Backoff n base mx = base * 2 ^ (n - 1)" "Backoff (Suc n) base mx = base * 2 ^ n"
      using closed[of n] closed[of "Suc n"] False by (auto simp: numeral_2_eq_2)
    then show ?thesis using assms(1) by simp
  qed
  show ?thesis using closed[of n] range[of n] mono by blast
qed

theorem backoff_exact_witness: "Backoff 3 (5 * minute) hour = 20 * minute"
  using backoff_exact[of "5 * minute" hour 3] by simp

subsection \<open>When a target is due\<close>

text \<open>The certificate part of the decision: nothing to keep, or what there is must be replaced.\<close>

definition needs_certificate :: "target \<Rightarrow> reg_policy \<Rightarrow> run_summary \<Rightarrow> gotime \<Rightarrow> bool" where
  "needs_certificate t p sm now \<longleftrightarrow>
     (case LastSucceeded sm of
        None \<Rightarrow> True
      | Some ok \<Rightarrow> run_TargetRevision ok \<noteq> tgt_Revision t \<or>
          (case run_ExpiresAt ok of None \<Rightarrow> True
           | Some e \<Rightarrow> e - pol_RenewBeforeDays p * 24 * hour \<le> now))"

definition held_back :: "run_summary \<Rightarrow> gotime \<Rightarrow> duration \<Rightarrow> duration \<Rightarrow> bool" where
  "held_back sm now backoff maxBackoff \<longleftrightarrow>
     (case LastRun sm of None \<Rightarrow> False
      | Some r \<Rightarrow> ended_badly r \<and> now < failure_ref r + Backoff (ConsecutiveFailures sm) backoff maxBackoff)"

lemma renew_no_wrap:
  "0 \<le> d \<Longrightarrow> d \<le> MaxRenewBeforeDays \<Longrightarrow> int64 (int64 (int64 (- d) * 24) * hour) = - (d * 24 * hour)"
  by (simp add: MaxRenewBeforeDays_def)

lemma Due_iff:
  assumes "0 \<le> pol_RenewBeforeDays p" "pol_RenewBeforeDays p \<le> MaxRenewBeforeDays"
  shows "fst (Due t p sm now backoff maxBackoff) \<longleftrightarrow>
    \<not> Retired t \<and> tgt_Enabled t \<and> pol_Enabled p \<and>
    \<not> (\<exists>r. LastRun sm = Some r \<and> Active (run_Status r)) \<and>
    \<not> held_back sm now backoff maxBackoff \<and> needs_certificate t p sm now"
  unfolding Due_def held_back_def needs_certificate_def renew_no_wrap[OF assms]
  by (auto simp: Let_def split: option.splits if_splits)

definition sample_summary :: run_summary where
  "sample_summary = \<lparr>LastRun = Some (sample_run\<lparr>run_Status := RunFailed, run_FinishedAt := Some 0\<rparr>),
     LastSucceeded = Some (sample_run\<lparr>run_Status := RunSucceeded, run_TargetRevision := 0,
       run_ExpiresAt := Some (40 * 24 * hour)\<rparr>), ConsecutiveFailures = 3\<rparr>"

text \<open>
  Property C29: a target is due exactly when it is in service and enabled under an enabled policy, no
  run is active, no recent failure holds it back, and it has no certificate for its current
  revision or the one it has is within the renewal window.
\<close>

theorem due_exact:
  assumes "0 \<le> pol_RenewBeforeDays p" "pol_RenewBeforeDays p \<le> MaxRenewBeforeDays"
  shows "fst (Due t p sm now backoff maxBackoff) \<longleftrightarrow>
    \<not> Retired t \<and> tgt_Enabled t \<and> pol_Enabled p \<and>
    \<not> (\<exists>r. LastRun sm = Some r \<and> Active (run_Status r)) \<and>
    \<not> held_back sm now backoff maxBackoff \<and> needs_certificate t p sm now"
  using assms by (rule Due_iff)

theorem due_exact_witness:
  "fst (Due ((sample_reg_target ''t1'' ''a.example.org'')\<lparr>tgt_Enabled := True\<rparr>) sample_reg_policy sample_summary
     (10 * 24 * hour) (5 * minute) hour)"
proof -
  let ?t = "(sample_reg_target ''t1'' ''a.example.org'')\<lparr>tgt_Enabled := True\<rparr>"
  have "\<not> held_back sample_summary (10 * 24 * hour) (5 * minute) hour" "needs_certificate ?t sample_reg_policy sample_summary (10 * 24 * hour)"
    by code_simp+
  then show ?thesis
    using due_exact[of sample_reg_policy ?t sample_summary "10 * 24 * hour" "5 * minute" hour]
    by (simp add: sample_reg_policy_def sample_reg_target_def sample_summary_def MaxRenewBeforeDays_def Retired_def Active_def)
qed

text \<open>
  Property C30: no history of failures holds a target back for ever. Whatever ran before, once the
  maximum back-off has passed since the last run ended, a target in service and enabled under an
  enabled policy is due again as soon as it has no certificate for its revision, or the one it
  has has expired.
\<close>

theorem due_eventually:
  assumes pol: "0 \<le> pol_RenewBeforeDays p" "pol_RenewBeforeDays p \<le> MaxRenewBeforeDays"
    and conf: "0 < backoff" "backoff \<le> maxBackoff" "maxBackoff < 2 ^ 63"
    and on: "\<not> Retired t" "tgt_Enabled t" "pol_Enabled p"
    and idle: "\<And>r. LastRun sm = Some r \<Longrightarrow> \<not> Active (run_Status r) \<and> failure_ref r + maxBackoff \<le> now"
    and cert: "\<And>ok e. LastSucceeded sm = Some ok \<Longrightarrow> run_TargetRevision ok = tgt_Revision t \<Longrightarrow> run_ExpiresAt ok = Some e \<Longrightarrow> e \<le> now"
  shows "fst (Due t p sm now backoff maxBackoff)"
proof -
  have "\<not> held_back sm now backoff maxBackoff"
    using idle Backoff_range(2)[OF conf, of "ConsecutiveFailures sm"] by (force simp: held_back_def split: option.splits)
  moreover have "needs_certificate t p sm now"
  proof (cases "LastSucceeded sm")
    case (Some ok)
    have "e - pol_RenewBeforeDays p * 24 * hour \<le> e" for e using pol(1) by simp
    then show ?thesis using cert[OF Some] Some by (auto simp: needs_certificate_def intro: order_trans split: option.splits)
  qed (simp add: needs_certificate_def)
  ultimately show ?thesis using on idle by (auto simp: Due_iff[OF pol])
qed

theorem due_eventually_witness:
  "fst (Due ((sample_reg_target ''t1'' ''a.example.org'')\<lparr>tgt_Enabled := True\<rparr>) sample_reg_policy sample_summary
     (40 * 24 * hour) (5 * minute) hour)"
  by (rule due_eventually)
    (auto simp: sample_reg_policy_def sample_reg_target_def sample_summary_def MaxRenewBeforeDays_def Retired_def
      Active_def failure_ref_def)

end
