(* ===== verification/Sched.thy ===== *)
theory Sched
  imports SchedPolicy "HOL-Library.State_Monad"
begin

text \<open>
  The procedures of \<^verbatim>\<open>internal/conductor/scheduler/scheduler.go\<close> over the registry. A procedure is
  a program in the state monad over the number of registry calls made so far and the database. The
  world decides, call by call, what other writers do to the database just before it
  (\<open>w_interfere\<close>), whether the call fails, before or after committing (\<open>w_fault\<close>), what clock
  and identifiers it sees, whether the time for retries is over (\<open>w_late\<close>) and whether the
  caller's context is done (\<open>w_stop\<close>).
\<close>

subsection \<open>Registry calls\<close>

datatype call_kind = KRead | KCreateRun | KClaimRun | KUpdateRun | KGetRun | KClaim | KRelease | KComplete | KAudit

datatype fault = NoFault | FailBefore | FailAfter

record world =
  w_fault :: "call_kind \<Rightarrow> nat \<Rightarrow> fault"
  w_interfere :: "nat \<Rightarrow> db \<Rightarrow> db"
  w_env :: "nat \<Rightarrow> op_env"
  w_now :: "nat \<Rightarrow> gotime"
  w_late :: "nat \<Rightarrow> bool"
  w_stop :: "nat \<Rightarrow> bool"

type_synonym 'a sched = "(nat \<times> db, 'a) state"

definition call :: "world \<Rightarrow> call_kind \<Rightarrow> (op_env \<Rightarrow> db \<Rightarrow> reg_error + ('a \<times> db)) \<Rightarrow> (reg_error + 'a) sched" where
  "call W k op = State (\<lambda>(n, d).
     let d = w_interfere W n d in
     case (w_fault W k n, op (w_env W n) d) of
       (FailBefore, _) \<Rightarrow> (Inl ErrOther, (Suc n, d))
     | (_, Inl e) \<Rightarrow> (Inl e, (Suc n, d))
     | (NoFault, Inr (a, d')) \<Rightarrow> (Inr a, (Suc n, d'))
     | (FailAfter, Inr (a, d')) \<Rightarrow> (Inl ErrOther, (Suc n, d')))"

definition read :: "(db \<Rightarrow> reg_error + 'a) \<Rightarrow> op_env \<Rightarrow> db \<Rightarrow> reg_error + ('a \<times> db)" where
  "read q E d = (case q d of Inl e \<Rightarrow> Inl e | Inr a \<Rightarrow> Inr (a, d))"

definition mutate :: "(op_env \<Rightarrow> db \<Rightarrow> reg_error + db) \<Rightarrow> op_env \<Rightarrow> db \<Rightarrow> reg_error + (unit \<times> db)" where
  "mutate f E d = (case f E d of Inl e \<Rightarrow> Inl e | Inr d' \<Rightarrow> Inr ((), d'))"

definition clock :: "world \<Rightarrow> gotime sched" where
  "clock W = State (\<lambda>(n, d). (w_now W n, (n, d)))"

definition too_late :: "world \<Rightarrow> bool sched" where
  "too_late W = State (\<lambda>(n, d). (w_late W n, (n, d)))"

definition stopped :: "world \<Rightarrow> bool sched" where
  "stopped W = State (\<lambda>(n, d). (w_stop W n, (n, d)))"

abbreviation ret :: "'a \<Rightarrow> 'a sched" where "ret \<equiv> State_Monad.return"

definition sched_event :: "audit_action \<Rightarrow> string \<Rightarrow> audit_event" where
  "sched_event action detail = new_event schedulerActor schedulerAuthority action detail"

subsection \<open>record\<close>

definition maxConflictRereads :: nat where "maxConflictRereads = 2"

text \<open>
  One transition of a run, attempted until it is known to be in the registry or given up. The
  result is the error and the status the registry is then known to hold; \<open>None\<close> means the fuel
  did not last. \<open>zero\<close> is a zero window.
\<close>

fun record_run :: "world \<Rightarrow> nat \<Rightarrow> bool \<Rightarrow> run \<Rightarrow> audit_event \<Rightarrow> nat \<Rightarrow> run_status \<Rightarrow>
    (reg_error option \<times> run_status) option sched" where
  "record_run W 0 zero r ev rereads recorded = ret None"
| "record_run W (Suc fuel) zero r ev rereads recorded =
     do {
       res \<leftarrow> call W KUpdateRun (mutate (\<lambda>E. UpdateRun E r recorded (Some ev)));
       case res of
         Inr _ \<Rightarrow> ret (Some (None, run_Status r))
       | Inl ErrNotFound \<Rightarrow> ret (Some (Some ErrNotFound, recorded))
       | Inl e \<Rightarrow>
           do {
             actual \<leftarrow> (if e = ErrConflict then call W KGetRun (read (GetRun (run_ID r))) else ret (Inl e));
             case actual of
               Inr a \<Rightarrow>
                 if run_Status a = run_Status r then ret (Some (None, run_Status r))
                 else if \<not> Active (run_Status a) then ret (Some (Some e, run_Status a))
                 else if run_Status a \<noteq> recorded \<and> rereads < maxConflictRereads
                 then record_run W fuel zero r ev (Suc rereads) (run_Status a)
                 else do {
                   late \<leftarrow> too_late W;
                   if zero \<or> late then ret (Some (Some e, recorded))
                   else record_run W fuel zero r ev rereads recorded }
             | Inl _ \<Rightarrow>
                 do {
                   late \<leftarrow> too_late W;
                   if zero \<or> late then ret (Some (Some e, recorded))
                   else record_run W fuel zero r ev rereads recorded }
           }
     }"

subsection \<open>sweep and Recover\<close>

definition strand :: "gotime \<Rightarrow> string \<Rightarrow> run \<Rightarrow> run" where
  "strand now summary r = r\<lparr>run_Status := RunFailed, run_FinishedAt := Some now,
     run_Action := ActionFailed, run_ErrorCode := ErrorCodeInternal, run_ErrorSummary := summary\<rparr>"

fun sweep_runs :: "world \<Rightarrow> string set \<Rightarrow> string \<Rightarrow> string \<Rightarrow> nat \<Rightarrow> run list \<Rightarrow> (nat \<times> reg_error option) sched" where
  "sweep_runs W inflight summary pre n [] = ret (n, None)"
| "sweep_runs W inflight summary pre n (r # rs) =
     (if run_Status r = RunQueued \<or> run_ID r \<in> inflight then sweep_runs W inflight summary pre n rs
      else do {
        now \<leftarrow> clock W;
        res \<leftarrow> call W KUpdateRun (mutate (\<lambda>E. UpdateRun E (strand now summary r) (run_Status r)
                 (Some (sched_event AuditRunFailed (pre @ summary)))));
        case res of
          Inr _ \<Rightarrow> sweep_runs W inflight summary pre (Suc n) rs
        | Inl e \<Rightarrow> if e = ErrConflict then sweep_runs W inflight summary pre n rs else ret (n, Some e) })"

definition sweep :: "world \<Rightarrow> string set \<Rightarrow> string \<Rightarrow> string \<Rightarrow> (nat \<times> reg_error option) sched" where
  "sweep W inflight summary pre =
     do {
       res \<leftarrow> call W KRead (read (\<lambda>d. Inr (ListActiveRuns d)));
       case res of Inl e \<Rightarrow> ret (0, Some e) | Inr active \<Rightarrow> sweep_runs W inflight summary pre 0 active
     }"

definition recoveredSummary :: string where
  "recoveredSummary = ''conductor stopped while the run was in flight; outcome unknown''"

definition Recover :: "world \<Rightarrow> string set \<Rightarrow> (nat \<times> reg_error option) sched" where
  "Recover W inflight = sweep W inflight recoveredSummary ''run marked failed at startup: ''"

subsection \<open>Plan\<close>

record sched_cfg =
  c_eab :: "string set"
  c_scoped :: "string set"
  c_backoff :: duration
  c_maxBack :: duration
  c_maxRuns :: nat
  c_rfc3339 :: "gotime \<Rightarrow> string"

definition new_run :: "target \<Rightarrow> run" where
  "new_run t = \<lparr>run_ID = [], run_TargetID = tgt_ID t, run_TargetRevision = tgt_Revision t,
     run_Status = RunQueued, run_RequestedBy = schedulerActor, run_RequestedByAuthority = schedulerAuthority,
     run_RequestedAt = 0, run_StartedAt = None, run_FinishedAt = None, run_Action = [],
     run_ExpiresAt = None, run_FingerprintSha256 = [], run_StoreObjectRef = [], run_ErrorCode = [],
     run_ErrorSummary = [], run_ExternalExecutionID = []\<rparr>"

definition request_run :: "world \<Rightarrow> target \<Rightarrow> string \<Rightarrow> (reg_error + run) sched" where
  "request_run W t why = call W KCreateRun (\<lambda>E. CreateRun E (new_run t)
     (Some (sched_event AuditRunRequested (''run requested by scheduler: '' @ why))))"

record candidate =
  cand_t :: target
  cand_sum :: run_summary
  cand_queued :: bool

definition last_active :: "run_summary \<Rightarrow> bool" where
  "last_active sm = (case LastRun sm of None \<Rightarrow> False | Some r \<Rightarrow> Active (run_Status r))"

definition cand_expiry :: "candidate \<Rightarrow> int" where
  "cand_expiry c =
     (case LastSucceeded (cand_sum c) of
        None \<Rightarrow> 0
      | Some ok \<Rightarrow> (case run_ExpiresAt ok of None \<Rightarrow> 0 | Some e \<Rightarrow> unix_of e))"

fun carry_provisioning ::
  "world \<Rightarrow> sched_cfg \<Rightarrow> string \<Rightarrow> acme_account \<Rightarrow> candidate list \<Rightarrow> (nat \<times> reg_error option) sched" where
  "carry_provisioning W C binding acct [] = ret (0, None)"
| "carry_provisioning W C binding acct (c # cs) =
     (if last_active (cand_sum c) then carry_provisioning W C binding acct cs
      else do {
        now \<leftarrow> clock W;
        if \<not> provisioningDue (Some acct) (cand_sum c) now (c_backoff C) (c_maxBack C)
        then carry_provisioning W C binding acct cs
        else do {
          res \<leftarrow> request_run W (cand_t c) (provisioning_text binding acct);
          case res of
            Inr _ \<Rightarrow> ret (1, None)
          | Inl e \<Rightarrow> if e = ErrRunActive then carry_provisioning W C binding acct cs else ret (0, Some e) } })"

definition planBindingProvisioning ::
  "world \<Rightarrow> sched_cfg \<Rightarrow> string \<Rightarrow> candidate list \<Rightarrow> (nat \<times> reg_error option) sched" where
  "planBindingProvisioning W C binding cands =
     do {
       res \<leftarrow> call W KRead (read (\<lambda>d. Inr (pendingProvisioning binding [] d)));
       case res of
         Inl e \<Rightarrow> ret (0, Some e)
       | Inr None \<Rightarrow> ret (0, None)
       | Inr (Some acct) \<Rightarrow>
           if list_ex (\<lambda>c. cand_queued c \<or>
                (case LastRun (cand_sum c) of None \<Rightarrow> False | Some r \<Rightarrow> run_Status r = RunQueued)) cands
           then ret (0, None)
           else carry_provisioning W C binding acct
                  (sort_key cand_expiry (sort_key (\<lambda>c. tgt_ID (cand_t c)) cands))
     }"

text \<open>
  The loop over the enabled targets. The accumulator holds the runs created, the policies loaded
  so far and, per binding in the order first met, the candidates for its provisioning request
  (Go's map iteration visits the bindings in some order).
\<close>

record plan_acc =
  pa_created :: nat
  pa_policies :: "(string \<times> reg_policy) list"
  pa_cands :: "(string \<times> candidate list) list"

definition add_cand :: "string \<Rightarrow> candidate \<Rightarrow> (string \<times> candidate list) list \<Rightarrow> (string \<times> candidate list) list" where
  "add_cand b c m =
     (if b \<in> fst ` set m then map (\<lambda>(k, cs). if k = b then (k, cs @ [c]) else (k, cs)) m
      else m @ [(b, [c])])"

definition mark_queued :: "string \<Rightarrow> (string \<times> candidate list) list \<Rightarrow> (string \<times> candidate list) list" where
  "mark_queued b m = map (\<lambda>(k, cs). if k = b \<and> cs \<noteq> []
     then (k, butlast cs @ [(last cs)\<lparr>cand_queued := True\<rparr>]) else (k, cs)) m"

definition plan_policy :: "world \<Rightarrow> (string \<times> reg_policy) list \<Rightarrow> string \<Rightarrow> (reg_error + reg_policy) sched" where
  "plan_policy W cache ref =
     (case map_of cache ref of
        Some p \<Rightarrow> ret (Inr p)
      | None \<Rightarrow> call W KRead (read (GetPolicy ref)))"

text \<open>Whether target \<open>t\<close> is to run now, and why; an error ends the pass.\<close>

definition plan_due ::
  "world \<Rightarrow> sched_cfg \<Rightarrow> target \<Rightarrow> reg_policy \<Rightarrow> run_summary \<Rightarrow> (reg_error + string option) sched" where
  "plan_due W C t p sm =
     do {
       now \<leftarrow> clock W;
       let (due, why) = Due t p sm now (c_backoff C) (c_maxBack C);
       if due then ret (Inr (Some (reason_text (c_rfc3339 C) why)))
       else if pol_ACMEBinding p \<in> c_eab C \<and> pol_ACMEBinding p \<in> c_scoped C then
         do {
           res \<leftarrow> call W KRead (read (\<lambda>d. Inr (pendingProvisioning (pol_ACMEBinding p) (tgt_ID t) d)));
           now' \<leftarrow> clock W;
           case res of
             Inl e \<Rightarrow> ret (Inl e)
           | Inr acct \<Rightarrow>
               ret (Inr (if provisioningDue acct sm now' (c_backoff C) (c_maxBack C)
                         then map_option (provisioning_text (pol_ACMEBinding p)) acct else None))
         }
       else ret (Inr None)
     }"

fun plan_targets ::
  "world \<Rightarrow> sched_cfg \<Rightarrow> plan_acc \<Rightarrow> target list \<Rightarrow> (plan_acc \<times> reg_error option) sched" where
  "plan_targets W C acc [] = ret (acc, None)"
| "plan_targets W C acc (t # ts) =
     do {
       stop \<leftarrow> stopped W;
       if stop then ret (acc, Some ErrOther)
       else do {
         pol \<leftarrow> plan_policy W (pa_policies acc) (tgt_PolicyRef t);
         case pol of
           Inl _ \<Rightarrow> plan_targets W C acc ts
         | Inr p \<Rightarrow>
             let acc = (if map_of (pa_policies acc) (tgt_PolicyRef t) = None
                        then acc\<lparr>pa_policies := (tgt_PolicyRef t, p) # pa_policies acc\<rparr> else acc) in
             if \<not> pol_Enabled p then plan_targets W C acc ts
             else do {
               res \<leftarrow> call W KRead (read (\<lambda>d. Inr (RunSummary (tgt_ID t) d)));
               case res of
                 Inl e \<Rightarrow> ret (acc, Some e)
               | Inr sm \<Rightarrow>
                   let wide = pol_ACMEBinding p \<in> c_eab C \<and> pol_ACMEBinding p \<notin> c_scoped C;
                       acc = (if wide then acc\<lparr>pa_cands := add_cand (pol_ACMEBinding p)
                                \<lparr>cand_t = t, cand_sum = sm, cand_queued = False\<rparr> (pa_cands acc)\<rparr> else acc) in
                   if last_active sm then plan_targets W C acc ts
                   else do {
                     due \<leftarrow> plan_due W C t p sm;
                     case due of
                       Inl e \<Rightarrow> ret (acc, Some e)
                     | Inr None \<Rightarrow> plan_targets W C acc ts
                     | Inr (Some why) \<Rightarrow>
                         do {
                           created \<leftarrow> request_run W t why;
                           case created of
                             Inl e \<Rightarrow> if e = ErrRunActive then plan_targets W C acc ts else ret (acc, Some e)
                           | Inr _ \<Rightarrow>
                               plan_targets W C
                                 (acc\<lparr>pa_created := Suc (pa_created acc),
                                      pa_cands := (if wide then mark_queued (pol_ACMEBinding p) (pa_cands acc)
                                                   else pa_cands acc)\<rparr>) ts
                         }
                   }
             }
       }
     }"

fun plan_bindings :: "world \<Rightarrow> sched_cfg \<Rightarrow> nat \<Rightarrow> (string \<times> candidate list) list \<Rightarrow> (nat \<times> reg_error option) sched" where
  "plan_bindings W C created [] = ret (created, None)"
| "plan_bindings W C created ((b, cs) # m) =
     do {
       (n, err) \<leftarrow> planBindingProvisioning W C b cs;
       if err \<noteq> None then ret (created + n, err) else plan_bindings W C (created + n) m
     }"

definition Plan :: "world \<Rightarrow> sched_cfg \<Rightarrow> (nat \<times> reg_error option) sched" where
  "Plan W C =
     do {
       res \<leftarrow> call W KRead (read (\<lambda>d. Inr (ListTargets
                \<lparr>lto_Enabled = Some True, lto_PolicyRef = [], lto_IncludeRetired = False\<rparr> d)));
       case res of
         Inl e \<Rightarrow> ret (0, Some e)
       | Inr ts \<Rightarrow>
           do {
             (acc, err) \<leftarrow> plan_targets W C \<lparr>pa_created = 0, pa_policies = [], pa_cands = []\<rparr> ts;
             if err \<noteq> None then ret (pa_created acc, err) else plan_bindings W C (pa_created acc) (pa_cands acc)
           }
     }"

subsection \<open>Dispatch\<close>

text \<open>
  The runs claimed in one pass, each of which then executes on its own. Executions end while the
  loop runs: \<open>ended n\<close> are the runs whose execution has ended by call \<open>n\<close>. The fuel bounds the
  number of claims.
\<close>

fun Dispatch :: "world \<Rightarrow> sched_cfg \<Rightarrow> (nat \<Rightarrow> string set) \<Rightarrow> nat \<Rightarrow> string set \<Rightarrow> run list \<Rightarrow>
    (string set \<times> run list \<times> reg_error option) option sched" where
  "Dispatch W C ended 0 inflight started = ret None"
| "Dispatch W C ended (Suc fuel) inflight started =
     do {
       stop \<leftarrow> stopped W;
       (n, d) \<leftarrow> State_Monad.get;
       let inflight = inflight - ended n;
       if stop \<or> c_maxRuns C \<le> card inflight then ret (Some (inflight, started, None))
       else do {
         res \<leftarrow> call W KClaimRun (\<lambda>E. ClaimQueuedRun);
         case res of
           Inl e \<Rightarrow> ret (Some (inflight, started, if e = ErrNotFound then None else Some e))
         | Inr r \<Rightarrow> Dispatch W C ended fuel (insert (run_ID r) inflight) (started @ [r])
       }
     }"

end
