(* ===== verification/SchedExec.thy ===== *)
theory SchedExec
  imports Sched
begin

text \<open>
  \<^verbatim>\<open>execute\<close> of \<^verbatim>\<open>internal/conductor/scheduler/scheduler.go\<close>: one claimed run driven to a terminal
  status. The launcher, the decoding of the stored payload and the text of a validation error are
  parameters; the run is passed along with the fields the Go code sets on it.
\<close>

datatype launch_reason = ReasonTimeout | ReasonCancelled | ReasonMismatch | ReasonOther

record launcher =
  l_Type :: string
  l_Start :: "job_spec \<Rightarrow> launch_reason + string"
  l_Wait :: "job_spec \<Rightarrow> launch_reason + result_doc"

record exec_cfg = sched_cfg +
  x_launchers :: "string \<Rightarrow> launcher option"
  x_unmarshal :: "string \<Rightarrow> sealed_provisioning option"
  x_error_text :: "validation_error \<Rightarrow> string"
  x_cancelled :: bool
  x_fuel :: nat

subsection \<open>sanitize\<close>

definition clean_rune :: "nat \<Rightarrow> nat option" where
  "clean_rune r =
     (if r = 9 \<or> r = 10 \<or> r = 13 then Some 32
      else if r < 0x20 \<or> r = 0x7F \<or> r = 0x2028 \<or> r = 0x2029 then None else Some r)"

definition sanitize :: "string \<Rightarrow> string" where
  "sanitize s =
     (let s = strings_Map clean_rune s in
      if MaxAuditDetailLength < length s then strip_continuation (take MaxAuditDetailLength s) else s)"

subsection \<open>Endings\<close>

definition finish :: "world \<Rightarrow> 'z exec_cfg_scheme \<Rightarrow> run \<Rightarrow> run_status \<Rightarrow> run_status \<Rightarrow> audit_action \<Rightarrow> string \<Rightarrow>
    (reg_error option \<times> run_status) option sched" where
  "finish W C r recorded status action detail =
     do {
       now \<leftarrow> clock W;
       record_run W (x_fuel C) False (r\<lparr>run_Status := status, run_FinishedAt := Some now\<rparr>)
         (sched_event action detail) 0 recorded
     }"

definition failed :: "world \<Rightarrow> 'z exec_cfg_scheme \<Rightarrow> run \<Rightarrow> run_status \<Rightarrow> string \<Rightarrow> string \<Rightarrow>
    (reg_error option \<times> run_status) option sched" where
  "failed W C r recorded code summary =
     finish W C (r\<lparr>run_Action := ActionFailed, run_ErrorCode := code, run_ErrorSummary := summary\<rparr>)
       recorded RunFailed AuditRunFailed (''run failed: '' @ code @ '': '' @ summary)"

definition cancelled :: "world \<Rightarrow> 'z exec_cfg_scheme \<Rightarrow> run \<Rightarrow> run_status \<Rightarrow> string \<Rightarrow>
    (reg_error option \<times> run_status) option sched" where
  "cancelled W C r recorded summary =
     finish W C (r\<lparr>run_Action := ActionFailed, run_ErrorCode := ErrorCodeCancelled, run_ErrorSummary := summary\<rparr>)
       recorded RunCancelled AuditRunCancelled (''run cancelled: '' @ summary)"

subsection \<open>finishProvisioning\<close>

definition release :: "world \<Rightarrow> string \<Rightarrow> string \<Rightarrow> int \<Rightarrow> string \<Rightarrow> unit sched" where
  "release W binding scope generation runID =
     do {
       call W KRelease (mutate (\<lambda>E. ReleaseACMEAccountProvisioning E binding scope generation runID));
       ret ()
     }"

definition complete_event :: "string \<Rightarrow> string \<Rightarrow> int \<Rightarrow> string \<Rightarrow> bool \<Rightarrow> audit_event" where
  "complete_event binding scope generation runID registered =
     (sched_event (if registered then AuditACMEAccountActivated else AuditACMEAccountProvisioningFailed)
        (''acme account provisioning '' @ (if registered then ''activated'' else ''failed'') @ '': ''
          @ accountDetail binding scope @ '' generation='' @ itoa generation @ '' runId='' @ runID))
     \<lparr>ev_RunID := runID\<rparr>"

definition complete :: "world \<Rightarrow> string \<Rightarrow> string \<Rightarrow> int \<Rightarrow> string \<Rightarrow> bool \<Rightarrow> unit sched" where
  "complete W binding scope generation runID registered =
     do {
       call W KComplete (mutate (\<lambda>E. CompleteACMEAccountProvisioning E binding scope generation runID registered
         (complete_event binding scope generation runID registered)));
       ret ()
     }"

text \<open>\<open>claim\<close> is the generation this run carries, if any; \<open>res\<close> the Runner's result or \<open>Inl\<close> of none.\<close>

definition finishProvisioning ::
  "world \<Rightarrow> string \<Rightarrow> string \<Rightarrow> int option \<Rightarrow> string \<Rightarrow> launch_reason + result_doc \<Rightarrow> unit sched" where
  "finishProvisioning W binding scope claim runID res =
     (case claim of
        None \<Rightarrow> ret ()
      | Some g \<Rightarrow>
          (case res of
             Inl _ \<Rightarrow> complete W binding scope g runID False
           | Inr r \<Rightarrow>
               (case rs_AccountProvisioning r of
                  None \<Rightarrow> release W binding scope g runID
                | Some a \<Rightarrow>
                    if ap_Binding a = binding \<and> ap_Scope a = scope \<and> ap_Generation a = g
                    then complete W binding scope g runID (ap_Status a = AccountProvisioningRegistered)
                    else complete W binding scope g runID False)))"

subsection \<open>From the result to the recorded outcome\<close>

text \<open>A result that failed has an error: the launcher only hands on validated results.\<close>

definition settle_run :: "run \<Rightarrow> result_doc \<Rightarrow> run" where
  "settle_run r res = r\<lparr>run_Action := rs_Action res, run_ExpiresAt := rs_ExpiresAt res,
     run_FingerprintSha256 := rs_FingerprintSha256 res, run_StoreObjectRef := rs_StoreObjectRef res\<rparr>"

definition report ::
  "world \<Rightarrow> 'z exec_cfg_scheme \<Rightarrow> run \<Rightarrow> run_status \<Rightarrow> launch_reason + result_doc \<Rightarrow>
   (reg_error option \<times> run_status) option sched" where
  "report W C r recorded res =
     (case res of
        Inl ReasonTimeout \<Rightarrow> failed W C r recorded ErrorCodeTimeout
          ''runner did not report a result before the launcher timeout''
      | Inl ReasonCancelled \<Rightarrow> cancelled W C r recorded ''run was cancelled before the runner reported a result''
      | Inl ReasonMismatch \<Rightarrow> failed W C r recorded ErrorCodeInternal ''runner reported a result for another run''
      | Inl ReasonOther \<Rightarrow> failed W C r recorded ErrorCodeInternal ''runner ended without reporting a result''
      | Inr res \<Rightarrow>
          let r = settle_run r res in
          if rs_Status res = StatusSucceeded then
            finish W C (r\<lparr>run_ErrorCode := [], run_ErrorSummary := []\<rparr>) recorded RunSucceeded AuditRunSucceeded
              (''run succeeded: '' @ rs_Action res)
          else
            (let e = (case rs_Error res of None \<Rightarrow> \<lparr>re_Code = [], re_Summary = []\<rparr> | Some e \<Rightarrow> e);
                 r = r\<lparr>run_ErrorCode := re_Code e, run_ErrorSummary := re_Summary e\<rparr> in
             if re_Code e = ErrorCodeCancelled
             then finish W C r recorded RunCancelled AuditRunCancelled (''run cancelled: '' @ re_Summary e)
             else finish W C r recorded RunFailed AuditRunFailed
                    (''run failed: '' @ re_Code e @ '': '' @ re_Summary e)))"

text \<open>After the Runner started: record it, wait, settle the account, record the outcome.\<close>

definition known :: "run_status \<Rightarrow> (reg_error option \<times> run_status) option \<Rightarrow> run_status" where
  "known old res = (case res of None \<Rightarrow> old | Some (_, st) \<Rightarrow> st)"

definition run_started ::
  "world \<Rightarrow> 'z exec_cfg_scheme \<Rightarrow> run \<Rightarrow> launcher \<Rightarrow> job_spec \<Rightarrow> string \<Rightarrow> string \<Rightarrow> string \<Rightarrow> int option \<Rightarrow>
   (reg_error option \<times> run_status) option sched" where
  "run_started W C r l spec execID binding scope claim =
     do {
       now \<leftarrow> clock W;
       let r = r\<lparr>run_Status := RunRunning, run_StartedAt := Some now, run_ExternalExecutionID := execID\<rparr>;
       let started = sched_event AuditRunStarted (''runner started via '' @ l_Type l @ '' ('' @ execID @ '')'');
       rec1 \<leftarrow> record_run W (x_fuel C) True r started 0 RunStarting;
       let recorded = known RunStarting rec1;
       let res = l_Wait l spec;
       rec2 \<leftarrow> (if recorded = RunStarting then record_run W (x_fuel C) True r started 0 recorded
               else ret rec1);
       let recorded = known recorded rec2;
       finishProvisioning W binding scope claim (run_ID r) res;
       report W C r recorded res
     }"

definition execute_job ::
  "world \<Rightarrow> 'z exec_cfg_scheme \<Rightarrow> run \<Rightarrow> target \<Rightarrow> reg_policy \<Rightarrow> string \<Rightarrow> int option \<Rightarrow> account_ref option \<Rightarrow>
   (reg_error option \<times> run_status) option sched" where
  "execute_job W C r t p scope claim account =
     (let spec = BuildJobSpec r t p account;
          binding = pol_ACMEBinding p;
          unclaim = (case claim of None \<Rightarrow> ret () | Some g \<Rightarrow> release W binding scope g (run_ID r)) in
      case JobSpec_Validate spec of
        Some e \<Rightarrow>
          do {
            unclaim;
            let summary = sanitize (''job spec rejected: '' @ x_error_text C e);
            call W KAudit (mutate (\<lambda>E. AppendAudit E (Some ((sched_event AuditPolicyRejected summary)
              \<lparr>ev_TargetID := tgt_ID t, ev_RunID := run_ID r, ev_PolicyID := pol_ID p\<rparr>))));
            failed W C r RunStarting ErrorCodePolicyViolation summary
          }
      | None \<Rightarrow>
          (case x_launchers C (tgt_ExecutionBinding t) of
             None \<Rightarrow>
               do {
                 unclaim;
                 failed W C r RunStarting ErrorCodeBindingNotFound
                   (''execution binding '' @ quoted (tgt_ExecutionBinding t) @ '' is not configured'')
               }
           | Some l \<Rightarrow>
               if x_cancelled C then
                 do { unclaim; cancelled W C r RunStarting ''run was cancelled before the runner started'' }
               else
                 (case l_Start l spec of
                    Inl ReasonCancelled \<Rightarrow>
                      do { unclaim; cancelled W C r RunStarting ''run was cancelled before the runner started'' }
                  | Inl _ \<Rightarrow>
                      do { unclaim; failed W C r RunStarting ErrorCodeInternal ''runner could not be started'' }
                  | Inr execID \<Rightarrow> run_started W C r l spec execID binding scope claim)))"

subsection \<open>execute\<close>

definition execute_account ::
  "world \<Rightarrow> 'z exec_cfg_scheme \<Rightarrow> run \<Rightarrow> target \<Rightarrow> reg_policy \<Rightarrow>
   (reg_error option \<times> run_status) option sched" where
  "execute_account W C r t p =
     (let binding = pol_ACMEBinding p;
          scope = (if binding \<in> c_scoped C then tgt_ID t else []) in
      do {
        claimed \<leftarrow> (if binding \<in> c_eab C
                   then call W KClaim (\<lambda>E. ClaimACMEAccountProvisioning E binding scope (run_ID r))
                   else ret (Inr None));
        case claimed of
          Inl _ \<Rightarrow> failed W C r RunStarting ErrorCodeInternal ''acme account provisioning could not be claimed''
        | Inr (Some (acct, sealedJSON)) \<Rightarrow>
            (case x_unmarshal C sealedJSON of
               None \<Rightarrow>
                 do {
                   finishProvisioning W binding scope (Some (acc_Generation acct)) (run_ID r) (Inl ReasonOther);
                   failed W C r RunStarting ErrorCodeInternal ''acme account provisioning payload is corrupt''
                 }
             | Some sealed \<Rightarrow>
                 execute_job W C r t p scope (Some (acc_Generation acct))
                   (Some \<lparr>ar_Scope = scope, ar_Generation = acc_Generation acct, ar_Provisioning = Some sealed\<rparr>))
        | Inr None \<Rightarrow>
            do {
              active \<leftarrow> call W KRead (read (\<lambda>d. Inr (ActiveACMEAccountGeneration binding scope d)));
              case active of
                Inl _ \<Rightarrow> failed W C r RunStarting ErrorCodeInternal ''acme account active generation could not be loaded''
              | Inr g \<Rightarrow>
                  if 0 < g then
                    execute_job W C r t p scope None
                      (Some \<lparr>ar_Scope = scope, ar_Generation = g, ar_Provisioning = None\<rparr>)
                  else if scope \<noteq> [] then
                    failed W C r RunStarting ErrorCodeACMEFailure
                      (''acme binding '' @ quoted binding @ '' keeps one account per target and this target has none yet: provision one with an EAB'')
                  else execute_job W C r t p scope None None
            }
      })"

definition execute ::
  "world \<Rightarrow> 'z exec_cfg_scheme \<Rightarrow> run \<Rightarrow> (reg_error option \<times> run_status) option sched" where
  "execute W C r =
     do {
       tgt \<leftarrow> call W KRead (read (GetTarget (run_TargetID r)));
       case tgt of
         Inl _ \<Rightarrow> failed W C r RunStarting ErrorCodeInternal ''target could not be loaded''
       | Inr t \<Rightarrow>
           if Retired t then cancelled W C r RunStarting ''target was retired before the run started''
           else if \<not> tgt_Enabled t then cancelled W C r RunStarting ''target was disabled before the run started''
           else if tgt_Revision t \<noteq> run_TargetRevision r then
             cancelled W C r RunStarting (''target revision changed from '' @ itoa (run_TargetRevision r)
               @ '' to '' @ itoa (tgt_Revision t) @ '' before the run started'')
           else
             do {
               pol \<leftarrow> call W KRead (read (GetPolicy (tgt_PolicyRef t)));
               case pol of
                 Inl _ \<Rightarrow> failed W C r RunStarting ErrorCodeInternal ''target policy could not be loaded''
               | Inr p \<Rightarrow>
                   if \<not> pol_Enabled p then cancelled W C r RunStarting ''policy was disabled before the run started''
                   else execute_account W C r t p
             }
     }"

end
