(* ===== verification/SchedProps.thy ===== *)
theory SchedProps
  imports SchedExec
begin

text \<open>
  What the scheduler's procedures guarantee: everything they do to the registry is a sequence of
  registry operations, so the registry's invariant and history carry over; an execution ends with
  its run terminal; a sweep leaves no stranded run; the concurrency bound holds.
\<close>

subsection \<open>Only registry operations\<close>

text \<open>
  The world's side of the contract: other writers act through the registry too, and identifiers
  are never empty.
\<close>

definition world_ok :: "(nat \<Rightarrow> nat) \<Rightarrow> world \<Rightarrow> bool" where
  "world_ok tbl W \<longleftrightarrow> (\<forall>n d. (reg_step tbl)\<^sup>*\<^sup>* d (w_interfere W n d)) \<and> (\<forall>n k. env_id (w_env W n) k \<noteq> [])"

definition safe :: "(nat \<Rightarrow> nat) \<Rightarrow> 'a sched \<Rightarrow> bool" where
  "safe tbl m \<longleftrightarrow> state_io_rel (\<lambda>(n, d) (n', d'). (reg_step tbl)\<^sup>*\<^sup>* d d') m"

definition op_ok :: "(nat \<Rightarrow> nat) \<Rightarrow> (op_env \<Rightarrow> db \<Rightarrow> reg_error + ('a \<times> db)) \<Rightarrow> bool" where
  "op_ok tbl op \<longleftrightarrow> (\<forall>E d a d'. (\<forall>k. env_id E k \<noteq> []) \<longrightarrow> op E d = Inr (a, d') \<longrightarrow> d' = d \<or> reg_step tbl d d')"

named_theorems safe_rules "programs that only take registry steps"

lemma safeD: "safe tbl m \<Longrightarrow> run_state m (n, d) = (a, (n', d')) \<Longrightarrow> (reg_step tbl)\<^sup>*\<^sup>* d d'"
  unfolding safe_def by (drule state_io_relD) auto

lemma safeI: "(\<And>n d a n' d'. run_state m (n, d) = (a, (n', d')) \<Longrightarrow> (reg_step tbl)\<^sup>*\<^sup>* d d') \<Longrightarrow> safe tbl m"
  unfolding safe_def by (rule state_io_relI) auto

lemma safe_ret [safe_rules]: "safe tbl (ret x)"
  by (rule safeI) simp

lemma safe_clock [safe_rules]: "safe tbl (clock W)"
  by (rule safeI) (simp add: clock_def)

lemma safe_too_late [safe_rules]: "safe tbl (too_late W)"
  by (rule safeI) (simp add: too_late_def)

lemma safe_stopped [safe_rules]: "safe tbl (stopped W)"
  by (rule safeI) (simp add: stopped_def)

lemma safe_get [safe_rules]: "safe tbl State_Monad.get"
  by (rule safeI) simp

lemma safe_bind [safe_rules]:
  assumes "safe tbl m" "\<And>a. safe tbl (f a)"
  shows "safe tbl (State_Monad.bind m f)"
proof (rule safeI)
  fix n d a n' d' assume "run_state (State_Monad.bind m f) (n, d) = (a, (n', d'))"
  then obtain b n1 d1 where "run_state m (n, d) = (b, (n1, d1))" "run_state (f b) (n1, d1) = (a, (n', d'))"
    by (auto split: prod.splits)
  then show "(reg_step tbl)\<^sup>*\<^sup>* d d'" using assms safeD rtranclp_trans by metis
qed

lemma safe_cases:
  "(b \<Longrightarrow> safe tbl m) \<Longrightarrow> (\<not> b \<Longrightarrow> safe tbl m') \<Longrightarrow> safe tbl (if b then m else m')"
  "(\<And>e. safe tbl (f e)) \<Longrightarrow> (\<And>a. safe tbl (g a)) \<Longrightarrow> safe tbl (case_sum f g x)"
  "safe tbl n \<Longrightarrow> (\<And>a. safe tbl (h a)) \<Longrightarrow> safe tbl (case_option n h y)"
  by (auto split: sum.split option.split)

lemma safe_call [safe_rules]:
  assumes "world_ok tbl W" "op_ok tbl op"
  shows "safe tbl (call W k op)"
proof (rule safeI)
  fix n d a n' d' assume run: "run_state (call W k op) (n, d) = (a, (n', d'))"
  let ?d = "w_interfere W n d"
  have pre: "(reg_step tbl)\<^sup>*\<^sup>* d ?d" using assms(1) by (simp add: world_ok_def)
  have ids: "\<forall>j. env_id (w_env W n) j \<noteq> []" using assms(1) by (simp add: world_ok_def)
  have op: "e = ?d \<or> reg_step tbl ?d e" if "op (w_env W n) ?d = Inr (x, e)" for x e
    using assms(2) ids that unfolding op_ok_def by blast
  have "d' = ?d \<or> reg_step tbl ?d d'"
    using run op by (auto simp: call_def Let_def split: fault.splits sum.splits prod.splits)
  with pre show "(reg_step tbl)\<^sup>*\<^sup>* d d'" by (auto intro: rtranclp.rtrancl_into_rtrancl)
qed

lemma op_ok_read [safe_rules]: "op_ok tbl (read q)"
  by (auto simp: op_ok_def read_def split: sum.splits)

lemma op_ok_mutate: "(\<And>E d d'. (\<forall>k. env_id E k \<noteq> []) \<Longrightarrow> f E d = Inr d' \<Longrightarrow> reg_step tbl d d') \<Longrightarrow> op_ok tbl (mutate f)"
  by (auto simp: op_ok_def mutate_def split: sum.splits)

lemma op_ok_update [safe_rules]:
  "(Active (run_Status r) \<Longrightarrow> Active st) \<Longrightarrow> op_ok tbl (mutate (\<lambda>E. UpdateRun E r st ev))"
  by (rule op_ok_mutate) (auto intro: step_update_run)

lemma op_ok_ops [safe_rules]:
  "op_ok tbl (\<lambda>E. CreateRun E r ev)" "op_ok tbl (\<lambda>E. ClaimQueuedRun)"
  "op_ok tbl (\<lambda>E. ClaimACMEAccountProvisioning E b s i)"
  "op_ok tbl (mutate (\<lambda>E. ReleaseACMEAccountProvisioning E b s g i))"
  "op_ok tbl (mutate (\<lambda>E. CompleteACMEAccountProvisioning E b s g i rg ev'))"
  "op_ok tbl (mutate (\<lambda>E. AppendAudit E ev))"
  by (auto simp: op_ok_def mutate_def split: sum.splits intro: reg_step.intros)

lemma safe_record: "world_ok tbl W \<Longrightarrow> (Active (run_Status r) \<Longrightarrow> Active recorded) \<Longrightarrow>
    safe tbl (record_run W fuel zero r ev rereads recorded)"
proof (induction fuel arbitrary: zero rereads recorded)
  case 0
  show ?case by (simp add: safe_ret)
next
  case (Suc fuel)
  have again: "safe tbl (record_run W fuel z r ev rr st)" if "Active (run_Status r) \<Longrightarrow> Active st" for z rr st
    using Suc.IH Suc.prems(1) that by blast
  show ?case using Suc.prems
    by (auto intro!: safe_rules again split: sum.split reg_error.split simp del: bind_assoc)
qed

lemma safe_sweep_runs: "world_ok tbl W \<Longrightarrow> safe tbl (sweep_runs W inflight summary pre n rs)"
  by (induction rs arbitrary: n)
    (auto intro!: safe_rules split: sum.split simp: strand_def)

lemma safe_sweep: "world_ok tbl W \<Longrightarrow> safe tbl (sweep W inflight summary pre)"
  unfolding sweep_def by (auto intro!: safe_rules safe_sweep_runs split: sum.split)

lemma safe_request [safe_rules]: "world_ok tbl W \<Longrightarrow> safe tbl (request_run W t why)"
  unfolding request_run_def by (intro safe_rules)

lemma safe_carry: "world_ok tbl W \<Longrightarrow> safe tbl (carry_provisioning W C b acct cs)"
  by (induction cs) (auto intro!: safe_rules split: sum.split)

lemma safe_planBinding [safe_rules]: "world_ok tbl W \<Longrightarrow> safe tbl (planBindingProvisioning W C b cs)"
  unfolding planBindingProvisioning_def by (auto intro!: safe_rules safe_carry split: sum.split option.split)

lemma safe_plan_policy [safe_rules]: "world_ok tbl W \<Longrightarrow> safe tbl (plan_policy W cache ref)"
  unfolding plan_policy_def by (auto intro!: safe_rules split: option.split)

lemma safe_plan_due [safe_rules]: "world_ok tbl W \<Longrightarrow> safe tbl (plan_due W C t p sm)"
  unfolding plan_due_def by (auto intro!: safe_rules split: sum.split prod.split simp: Let_def)

lemma safe_plan_targets: "world_ok tbl W \<Longrightarrow> safe tbl (plan_targets W C acc ts)"
proof (induction ts arbitrary: acc)
  case Nil
  show ?case by (simp add: safe_ret)
next
  case (Cons t ts)
  note again = Cons.IH [OF Cons.prems]
  show ?case unfolding plan_targets.simps Let_def
    by (intro safe_rules safe_cases Cons.prems again)
qed

lemma safe_plan_bindings: "world_ok tbl W \<Longrightarrow> safe tbl (plan_bindings W C n m)"
  by (induction m arbitrary: n) (auto intro!: safe_rules split: prod.split)

lemma safe_Plan: "world_ok tbl W \<Longrightarrow> safe tbl (Plan W C)"
  unfolding Plan_def by (auto intro!: safe_rules safe_plan_targets safe_plan_bindings split: sum.split prod.split)

lemma safe_Dispatch: "world_ok tbl W \<Longrightarrow> safe tbl (Dispatch W C ended fuel inflight started)"
  by (induction fuel arbitrary: inflight started) (auto intro!: safe_rules split: sum.split prod.split simp: Let_def)

lemma safe_ending [safe_rules]:
  assumes "world_ok tbl W"
  shows "\<not> Active status \<Longrightarrow> safe tbl (finish W C r recorded status action detail)"
    "safe tbl (failed W C r recorded code summary)" "safe tbl (cancelled W C r recorded summary)"
  using assms unfolding finish_def failed_def cancelled_def
  by (auto intro!: safe_rules safe_record simp: Active_def)

lemma safe_account [safe_rules]:
  assumes "world_ok tbl W"
  shows "safe tbl (release W b s g i)" "safe tbl (complete W b s g i ok)"
    "safe tbl (finishProvisioning W b s claim i res)"
  using assms unfolding release_def complete_def finishProvisioning_def
  by (auto intro!: safe_rules split: option.split sum.split)

lemma safe_report [safe_rules]: "world_ok tbl W \<Longrightarrow> safe tbl (report W C r recorded res)"
  unfolding report_def by (auto intro!: safe_rules split: sum.split launch_reason.split simp: Let_def)

lemma safe_run_started [safe_rules]: "world_ok tbl W \<Longrightarrow> safe tbl (run_started W C r l spec execID b s claim)"
  unfolding run_started_def Let_def by (intro safe_rules) (auto intro!: safe_rules safe_record simp: Active_def)

lemma safe_execute_job [safe_rules]: "world_ok tbl W \<Longrightarrow> safe tbl (execute_job W C r t p s claim account)"
  unfolding execute_job_def Let_def
  by (auto intro!: safe_rules split: option.split sum.split launch_reason.split)

lemma safe_execute_account [safe_rules]: "world_ok tbl W \<Longrightarrow> safe tbl (execute_account W C r t p)"
  unfolding execute_account_def Let_def
  by (auto intro!: safe_rules split: option.split sum.split prod.split)

lemma safe_execute: "world_ok tbl W \<Longrightarrow> safe tbl (execute W C r)"
  unfolding execute_def by (auto intro!: safe_rules split: sum.split)

subsection \<open>The registry's guarantees carry over\<close>

text \<open>The database a procedure leaves, started at registry call \<open>n\<close> on database \<open>d\<close>.\<close>

definition after :: "'a sched \<Rightarrow> nat \<Rightarrow> db \<Rightarrow> db" where
  "after m n d = snd (snd (run_state m (n, d)))"

definition sound_end :: "'a sched \<Rightarrow> nat \<Rightarrow> db \<Rightarrow> bool" where
  "sound_end m n d \<longleftrightarrow> db_inv (after m n d) \<and> follows d (after m n d)"

lemma safe_sound_end: "safe tbl m \<Longrightarrow> db_inv d \<Longrightarrow> sound_end m n d"
  using registry.steps_inv registry.steps_rel safeD[of tbl m n d]
  unfolding sound_end_def after_def by (metis prod.collapse)

text \<open>
  Property C12: whatever the scheduler does, in whatever order other writers act in between and
  wherever calls fail, with or without having committed: recovery and every sweep, every planning
  pass, every dispatch and every execution of a run leave the registry's invariant intact and
  never rewrite its history.
\<close>

theorem scheduler_keeps_registry:
  assumes "world_ok tbl W" "db_inv d"
  shows "sound_end (sweep W inflight summary pre) n d \<and> sound_end (Recover W inflight) n d \<and>
    sound_end (Plan W C) n d \<and> sound_end (Dispatch W C ended fuel inflight started) n d \<and>
    sound_end (execute W X r) n d"
  using assms safe_sweep safe_Plan safe_Dispatch safe_execute
  unfolding Recover_def by (intro conjI safe_sound_end)

definition sample_world :: world where
  "sample_world = \<lparr>w_fault = (\<lambda>_ _. NoFault), w_interfere = (\<lambda>_ d. d),
     w_env = (\<lambda>n. \<lparr>env_now = (\<lambda>_. 2000), env_id = (\<lambda>k. replicate (Suc n) CHR ''w'' @ replicate k CHR ''+'')\<rparr>),
     w_now = (\<lambda>_. 2000), w_late = (\<lambda>n. 20 \<le> n), w_stop = (\<lambda>_. False)\<rparr>"

lemma sample_world_ok: "world_ok tbl sample_world"
  by (simp add: world_ok_def sample_world_def)

definition sample_launcher :: launcher where
  "sample_launcher = \<lparr>l_Type = ''process'', l_Start = (\<lambda>_. Inr ''exec1''), l_Wait = (\<lambda>_. Inl ReasonTimeout)\<rparr>"

definition sample_cfg :: sched_cfg where
  "sample_cfg = \<lparr>c_eab = {}, c_scoped = {}, c_backoff = 5 * minute, c_maxBack = hour, c_maxRuns = 2,
     c_rfc3339 = (\<lambda>_. [])\<rparr>"

definition sample_exec_cfg :: exec_cfg where
  "sample_exec_cfg = sched_cfg.extend sample_cfg \<lparr>x_launchers = (\<lambda>_. Some sample_launcher),
     x_unmarshal = (\<lambda>_. None), x_error_text = (\<lambda>_. ''invalid''), x_cancelled = False, x_fuel = 30\<rparr>"

definition sample_db_enabled :: db where
  "sample_db_enabled = result_db (UpdateTarget (sample_env CHR ''u'')
     ((sample_reg_target ''t1'' ''a.example.org'')\<lparr>tgt_Enabled := True\<rparr>) 1 None sample_db2)"

lemma sample_db_enabled_inv: "db_inv sample_db_enabled"
proof -
  let ?r = "UpdateTarget (sample_env CHR ''u'') ((sample_reg_target ''t1'' ''a.example.org'')\<lparr>tgt_Enabled := True\<rparr>) 1 None sample_db2"
  have "isl ?r = False" by code_simp
  then have "?r = Inr (fst (projr ?r), sample_db_enabled)"
    by (auto simp: sample_db_enabled_def result_db_def split: sum.splits)
  then show ?thesis using reachable_inv[OF sample_reachable] by (rule UpdateTarget_inv)
qed

theorem scheduler_keeps_registry_witness:
  "sound_end (Plan sample_world sample_cfg) 0 sample_db_enabled \<and>
   map run_Status (runs (after (Plan sample_world sample_cfg) 0 sample_db_enabled)) = [RunQueued] \<and>
   sound_end (execute sample_world sample_exec_cfg sample_run) 0 sample_db_enabled"
proof -
  have "map run_Status (runs (after (Plan sample_world sample_cfg) 0 sample_db_enabled)) = [RunQueued]" by code_simp
  then show ?thesis
    using scheduler_keeps_registry[OF sample_world_ok sample_db_enabled_inv] by blast
qed

end
