(* ===== verification/SchedLive.thy ===== *)
theory SchedLive
  imports SchedProps
begin

text \<open>
  What an execution achieves: it always returns, and unless another writer interferes with its run
  it ends with that run recorded as terminal, whatever transient faults the registry shows.
  Reasoning is by triples over the state monad: the number of registry calls made and the database.
\<close>

subsection \<open>Triples\<close>

definition sched_triple :: "(nat \<Rightarrow> db \<Rightarrow> bool) \<Rightarrow> 'a sched \<Rightarrow> ('a \<Rightarrow> nat \<Rightarrow> db \<Rightarrow> bool) \<Rightarrow> bool" where
  "sched_triple P m Q \<longleftrightarrow> (\<forall>n d a n' d'. P n d \<longrightarrow> run_state m (n, d) = (a, (n', d')) \<longrightarrow> Q a n' d')"

named_theorems sched_triple_rules "triples of the procedures the scheduler calls"

lemma sched_tripleD: "sched_triple P m Q \<Longrightarrow> P n d \<Longrightarrow> run_state m (n, d) = (a, (n', d')) \<Longrightarrow> Q a n' d'"
  unfolding sched_triple_def by blast

lemma sched_triple_ret: "(\<And>n d. P n d \<Longrightarrow> Q x n d) \<Longrightarrow> sched_triple P (ret x) Q"
  by (simp add: sched_triple_def)

lemma sched_triple_bind:
  assumes "sched_triple P m R" "\<And>a. sched_triple (R a) (f a) Q"
  shows "sched_triple P (State_Monad.bind m f) Q"
  unfolding sched_triple_def
proof (intro allI impI)
  fix n d a n' d' assume P: "P n d" and "run_state (State_Monad.bind m f) (n, d) = (a, (n', d'))"
  then obtain b n1 d1 where "run_state m (n, d) = (b, (n1, d1))" "run_state (f b) (n1, d1) = (a, (n', d'))"
    by (auto split: prod.splits)
  then show "Q a n' d'" using assms P sched_tripleD by metis
qed

lemma sched_triple_conseq: "sched_triple P m Q \<Longrightarrow> (\<And>n d. P' n d \<Longrightarrow> P n d) \<Longrightarrow> (\<And>a n d. Q a n d \<Longrightarrow> Q' a n d) \<Longrightarrow> sched_triple P' m Q'"
  unfolding sched_triple_def by blast

lemma sched_triple_cases:
  "(b \<Longrightarrow> sched_triple P m Q) \<Longrightarrow> (\<not> b \<Longrightarrow> sched_triple P m' Q) \<Longrightarrow> sched_triple P (if b then m else m') Q"
  "(\<And>e. x = Inl e \<Longrightarrow> sched_triple P (f e) Q) \<Longrightarrow> (\<And>a. x = Inr a \<Longrightarrow> sched_triple P (g a) Q) \<Longrightarrow> sched_triple P (case_sum f g x) Q"
  "(y = None \<Longrightarrow> sched_triple P n Q) \<Longrightarrow> (\<And>a. y = Some a \<Longrightarrow> sched_triple P (h a) Q) \<Longrightarrow> sched_triple P (case_option n h y) Q"
  by (simp_all split: sum.split option.split)

lemma sched_triple_ask:
  "sched_triple P (clock W) (\<lambda>_. P)" "sched_triple P (too_late W) (\<lambda>late n d. P n d \<and> late = w_late W n)"
  by (simp_all add: sched_triple_def clock_def too_late_def)

lemma sched_triple_ignore: "sched_triple P m (\<lambda>_. P) \<Longrightarrow> (\<And>a. sched_triple P (f a) Q) \<Longrightarrow> sched_triple P (State_Monad.bind m f) Q"
  by (rule sched_triple_bind)

subsection \<open>Every loop ends\<close>

text \<open>From call \<open>N\<close> on the time for retries is over.\<close>

definition ends_by :: "world \<Rightarrow> nat \<Rightarrow> bool" where
  "ends_by W N \<longleftrightarrow> (\<forall>m \<ge> N. w_late W m)"

lemma call_counts: "run_state (call W k op) (n, d) = (a, (n', d')) \<Longrightarrow> n' = Suc n"
  by (auto simp: call_def Let_def split: fault.splits sum.splits prod.splits)

lemma call_count: "fst (snd (run_state (call W k op) (n, d))) = Suc n"
  by (metis call_counts prod.collapse)

lemma sched_triple_call_count: "sched_triple (\<lambda>n d. k \<le> Suc n) (call W c op) (\<lambda>_ n d. k \<le> n)"
  unfolding sched_triple_def using call_counts by blast

text \<open>Giving up or going on: the choice at the end of a failed attempt.\<close>

definition retry :: "world \<Rightarrow> bool \<Rightarrow> 'a option sched \<Rightarrow> 'a \<Rightarrow> 'a option sched" where
  "retry W zero again x = do { late \<leftarrow> too_late W; if zero \<or> late then ret (Some x) else again }"

lemma run_retry: "run_state (retry W zero again x) (n, d) =
    (if zero \<or> w_late W n then (Some x, (n, d)) else run_state again (n, d))"
  by (simp add: retry_def too_late_def)

lemma record_step:
  "record_run W (Suc fuel) zero r ev rereads recorded =
     do {
       res \<leftarrow> call W KUpdateRun (mutate (\<lambda>E. UpdateRun E r recorded (Some ev)));
       case res of
         Inr _ \<Rightarrow> ret (Some (None, run_Status r))
       | Inl e \<Rightarrow>
           if e = ErrNotFound then ret (Some (Some e, recorded))
           else do {
             actual \<leftarrow> (if e = ErrConflict then call W KGetRun (read (GetRun (run_ID r))) else ret (Inl e));
             case actual of
               Inl _ \<Rightarrow> retry W zero (record_run W fuel zero r ev rereads recorded) (Some e, recorded)
             | Inr a \<Rightarrow>
                 if run_Status a = run_Status r then ret (Some (None, run_Status r))
                 else if \<not> Active (run_Status a) then ret (Some (Some e, run_Status a))
                 else if run_Status a \<noteq> recorded \<and> rereads < maxConflictRereads
                 then record_run W fuel zero r ev (Suc rereads) (run_Status a)
                 else retry W zero (record_run W fuel zero r ev rereads recorded) (Some e, recorded) } }"
  unfolding record_run.simps retry_def
proof (rule arg_cong[where f = "State_Monad.bind (call W KUpdateRun (mutate (\<lambda>E. UpdateRun E r recorded (Some ev))))"], rule ext, goal_cases)
  case (1 res)
  show ?case
  proof (cases res)
    case (Inl e)
    then show ?thesis by (cases e) simp_all
  qed simp
qed

lemma record_returns:
  assumes late: "ends_by W N"
  shows "N - n + (maxConflictRereads - rereads) < fuel \<Longrightarrow>
    fst (run_state (record_run W fuel zero r ev rereads recorded) (n, d)) \<noteq> None"
proof (induction fuel arbitrary: n d rereads recorded)
  case (Suc fuel)
  obtain res n1 d1 where c1: "run_state (call W KUpdateRun (mutate (\<lambda>E. UpdateRun E r recorded (Some ev)))) (n, d) = (res, (n1, d1))"
    by (metis prod.collapse)
  let ?get = "\<lambda>e. if e = ErrConflict then call W KGetRun (read (GetRun (run_ID r))) else ret (Inl e)"
  have n1: "n1 = Suc n" using call_counts[OF c1] .
  have go: "fst (run_state (retry W zero (record_run W fuel zero r ev rereads recorded) x) (m, d2)) \<noteq> None"
    if "n < m" for m d2 x
  proof (cases "zero \<or> w_late W m")
    case False
    then have "m < N" "\<not> zero" using late by (auto simp: ends_by_def not_le[symmetric])
    then show ?thesis using Suc.IH[of m rereads recorded d2] Suc.prems that by (simp add: run_retry)
  qed (simp add: run_retry)
  have reread: "fst (run_state (record_run W fuel zero r ev (Suc rereads) st) (m, d2)) \<noteq> None"
    if "n < m" "rereads < maxConflictRereads" for m d2 st
    using Suc.IH[of m "Suc rereads" st d2] Suc.prems that by simp
  have get: "n < fst (snd (run_state (?get e) (n1, d1)))" for e
    using call_count[of W KGetRun "read (GetRun (run_ID r))" n1 d1] n1 by simp
  show ?case
  proof (cases res)
    case (Inl e)
    obtain actual m d2 where c2: "run_state (?get e) (n1, d1) = (actual, (m, d2))" by (metis prod.collapse)
    then have "n < m" using get[of e] by simp
    then show ?thesis using go reread
      by (simp add: record_step c1 c2 Inl del: record_run.simps split: sum.split)
  qed (simp add: record_step c1 del: record_run.simps)
qed simp

definition returns :: "'a option sched \<Rightarrow> bool" where
  "returns m \<longleftrightarrow> (\<forall>s. fst (run_state m s) \<noteq> None)"

lemma returns_ret: "returns (ret (Some x))"
  by (simp add: returns_def)

lemma returns_bind: "(\<And>a. returns (f a)) \<Longrightarrow> returns (State_Monad.bind m f)"
  by (auto simp: returns_def split: prod.split)

lemma returns_ending:
  assumes "ends_by W N" "N + maxConflictRereads < x_fuel C"
  shows "returns (finish W C r recorded status action detail)" "returns (failed W C r recorded code summary)"
    "returns (cancelled W C r recorded summary)"
proof -
  have "returns (record_run W (x_fuel C) False q ev 0 recorded)" for q ev
    unfolding returns_def using record_returns[OF assms(1)] assms(2) by (auto simp del: not_None_eq)
  then show "returns (finish W C r recorded status action detail)" for r status action detail
    unfolding finish_def by (intro returns_bind)
  then show "returns (failed W C r recorded code summary)" "returns (cancelled W C r recorded summary)"
    unfolding failed_def cancelled_def by blast+
qed

lemmas returns_rules = returns_bind returns_ending

lemma returns_execute_job:
  assumes "ends_by W N" "N + maxConflictRereads < x_fuel C"
  shows "returns (execute_job W C r t p s claim account)"
  unfolding execute_job_def Let_def run_started_def report_def
  using returns_ending[OF assms]
  by (auto intro!: returns_bind split: option.split sum.split launch_reason.split simp: Let_def)

text \<open>
  Property C22: the execution of a run always returns: the loop that records an outcome ends once the
  time for retries is over, whatever the registry answers, after at most two re-reads of a
  conflicting row. The fuel needed is the number of registry calls that fit in that time, plus two.
\<close>

theorem execute_returns:
  assumes "ends_by W N" "N + maxConflictRereads < x_fuel C"
  shows "fst (run_state (execute W C r) (n, d)) \<noteq> None"
proof -
  have "returns (execute_account W C r t p)" for t p
    unfolding execute_account_def Let_def using returns_ending[OF assms] returns_execute_job[OF assms]
    by (auto intro!: returns_bind split: option.split sum.split prod.split)
  then have "returns (execute W C r)"
    unfolding execute_def using returns_ending[OF assms] by (auto intro!: returns_bind split: sum.split)
  then show ?thesis unfolding returns_def by blast
qed

theorem execute_returns_witness: "fst (run_state (execute sample_world sample_exec_cfg sample_run) (0, sample_db2)) \<noteq> None"
  by (rule execute_returns[of _ 20])
    (simp_all add: ends_by_def sample_world_def sample_exec_cfg_def sched_cfg.extend_def sample_cfg_def maxConflictRereads_def)

subsection \<open>What an update of a run does\<close>

lemma violated_set_run:
  assumes v: "violated d = None" and guard: "Active (run_Status r) \<longrightarrow> Active st"
  shows "violated (d\<lparr>runs := upd_where (\<lambda>s. run_ID s = run_ID r \<and> run_Status s = st) (set_run r) (runs d)\<rparr>) = None"
    (is "violated ?d = None")
proof -
  let ?sel = "\<lambda>s. run_ID s = run_ID r \<and> run_Status s = st"
  have "unique_on (\<lambda>r. Active (run_Status r)) run_TargetID (runs ?d)"
    using unique_on_shrink[OF db_inv_keys(7)[OF v], of ?sel "set_run r"] guard by simp
  moreover have "unique_on every run_ID (runs ?d)"
    using unique_on_keep[OF db_inv_keys(3)[OF v], of ?sel "set_run r"] by simp
  moreover have "run_TargetID ` set (runs ?d) = run_TargetID ` set (runs d)"
    using upd_where_image[of "runs d" ?sel run_TargetID "set_run r"] by simp
  ultimately show ?thesis using v
    by (simp add: violated_None violated_defs check_all_None)
qed

lemma UpdateRun_cases:
  assumes inv: "db_inv d" and valid: "RunStatus_Valid (run_Status r)"
    and guard: "Active (run_Status r) \<longrightarrow> Active st"
    and fresh: "env_id E 1 \<notin> ev_ID ` set (audit_events d)" and ev: "ev_ID ev = []"
    and s: "s \<in> set (runs d)" "run_ID s = run_ID r"
  shows "run_Status s \<noteq> st \<Longrightarrow> UpdateRun E r st (Some ev) d = Inl ErrConflict"
    "run_Status s = st \<Longrightarrow> \<exists>d'. UpdateRun E r st (Some ev) d = Inr d' \<and> db_inv d' \<and>
       set_run r s \<in> set (runs d') \<and>
       (\<exists>e. audit_events d' = audit_events d @ [e] \<and> ev_ID e = env_id E 1)"
proof -
  note v = db_invD(1)[OF inv]
  let ?sel = "\<lambda>s. run_ID s = run_ID r \<and> run_Status s = st"
  let ?d1 = "d\<lparr>runs := upd_where ?sel (set_run r) (runs d)\<rparr>"
  let ?ev = "ev\<lparr>ev_RunID := run_ID r, ev_TargetID := run_TargetID r\<rparr>"
  have v1: "violated ?d1 = None" by (rule violated_set_run[OF v guard])
  have same: "q = s" if "q \<in> set (runs d)" "run_ID q = run_ID r" for q
    using unique_onD[OF db_inv_keys(3)[OF v] that(1) s(1)] that(2) s(2) by simp
  {
    assume "run_Status s \<noteq> st"
    then have "\<not> ?sel q" if "q \<in> set (runs d)" for q using same[OF that] by auto
    then have "affected ?sel (runs d) = 0" "upd_where ?sel (set_run r) (runs d) = runs d"
      by (simp_all add: upd_where_none)
    then show "UpdateRun E r st (Some ev) d = Inl ErrConflict"
      using valid v imageI[OF s(1), of run_ID] s(2)
      by (auto simp: UpdateRun_def Let_def exec_def simp del: affected_0 split: option.splits)
  }
  assume st: "run_Status s = st"
  then have "affected ?sel (runs d) \<noteq> 0" using s by auto
  moreover have id: "ev_ID (fill_event E 1 ?ev) = env_id E 1" using ev by (simp add: fill_event_def Let_def)
  then have ins: "insertAudit E 1 (Some ?ev) ?d1 = Inr (?d1\<lparr>audit_events := audit_events d @ [fill_event E 1 ?ev]\<rparr>)"
    using insertAudit_fresh[OF v1, of "Some ?ev" E 1] fresh by (simp add: logged_def)
  ultimately have up: "UpdateRun E r st (Some ev) d = Inr (?d1\<lparr>audit_events := audit_events d @ [fill_event E 1 ?ev]\<rparr>)"
    using valid v1 by (auto simp: UpdateRun_def Let_def exec_def)
  moreover have "set_run r s \<in> set (upd_where ?sel (set_run r) (runs d))"
    using s st by (auto simp: in_upd_where)
  ultimately show "\<exists>d'. UpdateRun E r st (Some ev) d = Inr d' \<and> db_inv d' \<and>
       set_run r s \<in> set (runs d') \<and> (\<exists>e. audit_events d' = audit_events d @ [e] \<and> ev_ID e = env_id E 1)"
    using UpdateRun_inv[OF up inv guard] id by auto
qed

subsection \<open>A run nobody else touches\<close>

text \<open>Identifiers are drawn once: no call sees one of another call or of the audit log.\<close>

definition unused :: "world \<Rightarrow> nat \<Rightarrow> db \<Rightarrow> bool" where
  "unused W n d \<longleftrightarrow> (\<forall>m \<ge> n. \<forall>k. env_id (w_env W m) k \<notin> ev_ID ` set (audit_events d))"

definition rows :: "string \<Rightarrow> db \<Rightarrow> run list" where
  "rows i d = filter (\<lambda>s. run_ID s = i) (runs d)"

text \<open>Other writers draw other identifiers and leave the rows of run \<open>i\<close> alone.\<close>

definition alone :: "world \<Rightarrow> string \<Rightarrow> bool" where
  "alone W i \<longleftrightarrow>
     (\<forall>m n j k. m \<noteq> n \<longrightarrow> env_id (w_env W m) j \<noteq> env_id (w_env W n) k) \<and>
     (\<forall>n d. unused W n d \<longrightarrow> unused W n (w_interfere W n d) \<and> rows i (w_interfere W n d) = rows i d)"

definition holds_run :: "world \<Rightarrow> string \<Rightarrow> run_status set \<Rightarrow> nat \<Rightarrow> db \<Rightarrow> bool" where
  "holds_run W i ss n d \<longleftrightarrow> db_inv d \<and> unused W n d \<and> (\<exists>s \<in> set (rows i d). run_Status s \<in> ss)"

lemma holds_interfere:
  assumes "world_ok tbl W" "alone W i" "holds_run W i ss n d"
  shows "holds_run W i ss n (w_interfere W n d)"
  using assms registry.steps_inv[of tbl d "w_interfere W n d"]
  unfolding holds_run_def alone_def world_ok_def by simp

lemma unused_grows:
  assumes "alone W i" "unused W n d" "ev_ID ` set (audit_events d') \<subseteq> ev_ID ` set (audit_events d) \<union> range (env_id (w_env W n))"
  shows "unused W (Suc n) d'"
  unfolding unused_def
proof (intro allI impI notI)
  fix m k assume m: "Suc n \<le> m" and "env_id (w_env W m) k \<in> ev_ID ` set (audit_events d')"
  then have "env_id (w_env W m) k \<in> ev_ID ` set (audit_events d) \<union> range (env_id (w_env W n))" using assms(3) by blast
  moreover have "env_id (w_env W m) k \<notin> ev_ID ` set (audit_events d)" using assms(2) m by (simp add: unused_def)
  moreover have "env_id (w_env W m) k \<notin> range (env_id (w_env W n))" using assms(1) m by (force simp: alone_def)
  ultimately show False by blast
qed

text \<open>Operations that leave the rows of a run alone and log only under the call's identifiers.\<close>

definition quiet :: "string \<Rightarrow> (op_env \<Rightarrow> db \<Rightarrow> reg_error + ('a \<times> db)) \<Rightarrow> bool" where
  "quiet i op \<longleftrightarrow> (\<forall>E d a d'. db_inv d \<longrightarrow> op E d = Inr (a, d') \<longrightarrow>
     db_inv d' \<and> rows i d' = rows i d \<and>
     ev_ID ` set (audit_events d') \<subseteq> ev_ID ` set (audit_events d) \<union> range (env_id E))"

lemma holds_call:
  assumes "world_ok tbl W" "alone W i" "quiet i op"
  shows "sched_triple (holds_run W i ss) (call W k op) (\<lambda>_. holds_run W i ss)"
  unfolding sched_triple_def
proof (intro allI impI)
  fix n d a n' d'
  assume "holds_run W i ss n d" and run: "run_state (call W k op) (n, d) = (a, (n', d'))"
  let ?d = "w_interfere W n d"
  have h: "holds_run W i ss n ?d" using holds_interfere assms \<open>holds_run W i ss n d\<close> by blast
  then have un: "unused W (Suc n) ?d" by (simp add: holds_run_def unused_def)
  have op: "holds_run W i ss (Suc n) e" if "op (w_env W n) ?d = Inr (x, e)" for x e
  proof -
    have "db_inv e \<and> rows i e = rows i ?d \<and>
        ev_ID ` set (audit_events e) \<subseteq> ev_ID ` set (audit_events ?d) \<union> range (env_id (w_env W n))"
      using assms(3) that h unfolding quiet_def holds_run_def by blast
    moreover from this have "unused W (Suc n) e" using h
      by (intro unused_grows[OF assms(2), of n ?d]) (auto simp: holds_run_def)
    ultimately show ?thesis using h by (simp add: holds_run_def)
  qed
  have "(n' = Suc n \<and> d' = ?d) \<or> (n' = Suc n \<and> (\<exists>x. op (w_env W n) ?d = Inr (x, d')))"
    using run by (auto simp: call_def Let_def split: fault.splits sum.splits prod.splits)
  then show "holds_run W i ss n' d'" using op h un by (auto simp: holds_run_def)
qed

lemma quiet_read: "quiet i (read q)"
  by (auto simp: quiet_def read_def split: sum.splits)

lemma quiet_mutate:
  "(\<And>E d d'. db_inv d \<Longrightarrow> f E d = Inr d' \<Longrightarrow> db_inv d' \<and> rows i d' = rows i d \<and>
     ev_ID ` set (audit_events d') \<subseteq> ev_ID ` set (audit_events d) \<union> range (env_id E)) \<Longrightarrow> quiet i (mutate f)"
  by (auto simp: quiet_def mutate_def split: sum.splits)

lemma fill_event_id: "ev_ID e = [] \<Longrightarrow> ev_ID (fill_event E k e) = env_id E k"
  by (simp add: fill_event_def Let_def)

lemma insertAudit_quiet:
  assumes "insertAudit E k (Some e) d = Inr d'" "ev_ID e = []"
  shows "rows i d' = rows i d \<and> ev_ID ` set (audit_events d') \<subseteq> ev_ID ` set (audit_events d) \<union> range (env_id E)"
  using insertAudit_Inr[OF assms(1)] fill_event_id[OF assms(2)] by (auto simp: logged_def rows_def)

lemma log_all_ids: "(\<And>e. e \<in> set es \<Longrightarrow> ev_ID e = []) \<Longrightarrow> ev_ID ` set (log_all E k es) \<subseteq> range (env_id E)"
proof (induction es arbitrary: k)
  case (Cons e es)
  have "ev_ID ` set (log_all E (Suc k) es) \<subseteq> range (env_id E)"
    by (rule Cons.IH) (rule Cons.prems, rule list.set_intros(2))
  then show ?case using fill_event_id[of e E k] Cons.prems[of e] by simp
qed simp

lemma quiet_release: "quiet i (mutate (\<lambda>E. ReleaseACMEAccountProvisioning E b s g r))"
  by (rule quiet_mutate)
    (auto intro: ReleaseACMEAccountProvisioning_inv simp: ReleaseACMEAccountProvisioning_def rows_def)

lemma quiet_audit: "ev_ID e = [] \<Longrightarrow> quiet i (mutate (\<lambda>E. AppendAudit E (Some e)))"
  by (rule quiet_mutate) (simp add: AppendAudit_def insertAudit_inv insertAudit_quiet)

lemma quiet_claim: "quiet i (\<lambda>E. ClaimACMEAccountProvisioning E b s r)"
  unfolding quiet_def
proof (intro allI impI)
  fix E d a d' assume inv: "db_inv d" and c: "ClaimACMEAccountProvisioning E b s r d = Inr (a, d')"
  from c db_invD(1)[OF inv]
  show "db_inv d' \<and> rows i d' = rows i d \<and>
     ev_ID ` set (audit_events d') \<subseteq> ev_ID ` set (audit_events d) \<union> range (env_id E)"
  proof (cases rule: ClaimACMEAccountProvisioning_effect)
    case 1
    then show ?thesis using inv by simp
  next
    case (2 x d1)
    have id: "ev_ID (attached_event x r) = []" by (simp add: attached_event_def new_event_def)
    show ?thesis using ClaimACMEAccountProvisioning_inv[OF c inv] insertAudit_quiet[OF 2(7) id, of i]
      by (simp add: 2(5) rows_def)
  qed
qed

lemma quiet_complete:
  assumes "ev_ID ev = []"
  shows "quiet i (mutate (\<lambda>E. CompleteACMEAccountProvisioning E b s g r registered ev))"
proof (rule quiet_mutate)
  fix E d d' assume inv: "db_inv d" and c: "CompleteACMEAccountProvisioning E b s g r registered ev d = Inr d'"
  from c db_invD(1)[OF inv]
  show "db_inv d' \<and> rows i d' = rows i d \<and>
     ev_ID ` set (audit_events d') \<subseteq> ev_ID ` set (audit_events d) \<union> range (env_id E)"
  proof (rule CompleteACMEAccountProvisioning_effect)
    fix d1 d2 es
    assume d1: "d1 = d\<lparr>acme_accounts := upd_where (complete_previous b s g registered) (retire_acc E) (acme_accounts d),
            audit_events := audit_events d @ log_all E 1 es\<rparr>"
      and d2: "d2 = d1\<lparr>acme_accounts := upd_where (complete_row b s g r) (settle E registered) (acme_accounts d1)\<rparr>"
      and ins: "insertAudit E (Suc (length es)) (Some ev) d2 = Inr d'"
      and es: "es = map (\<lambda>h. retired_event ev b s h g) (if registered then previous_active b s g d else [])"
    have "ev_ID e = []" if "e \<in> set es" for e using that by (auto simp: es retired_event_def new_event_def)
    then have "ev_ID ` set (log_all E 1 es) \<subseteq> range (env_id E)" by (rule log_all_ids)
    then show ?thesis
      using CompleteACMEAccountProvisioning_inv[OF c inv] insertAudit_quiet[OF ins assms, of i]
      by (simp add: d1 d2 rows_def image_Un) blast
  qed
qed

lemmas quiet_ops = quiet_read quiet_release quiet_audit quiet_claim quiet_complete

subsection \<open>Recording a transition of the run\<close>

abbreviation update_call :: "world \<Rightarrow> run \<Rightarrow> run_status \<Rightarrow> audit_event \<Rightarrow> (reg_error + unit) sched" where
  "update_call W r recorded ev \<equiv> call W KUpdateRun (mutate (\<lambda>E. UpdateRun E r recorded (Some ev)))"

lemma call_update:
  assumes W: "world_ok tbl W" "alone W (run_ID r)" and valid: "RunStatus_Valid (run_Status r)"
    and guard: "Active (run_Status r) \<longrightarrow> Active recorded" and ev: "ev_ID ev = []"
    and h: "holds_run W (run_ID r) {st} n d"
    and run: "run_state (update_call W r recorded ev) (n, d) = (res, (n', d'))"
  shows "n' = Suc n \<and>
    (res = Inr () \<and> holds_run W (run_ID r) {run_Status r} n' d' \<or>
     res = Inl ErrConflict \<and> st \<noteq> recorded \<and> holds_run W (run_ID r) {st} n' d' \<or>
     res = Inl ErrOther \<and> w_fault W KUpdateRun n \<noteq> NoFault \<and>
       (holds_run W (run_ID r) {st} n' d' \<or> holds_run W (run_ID r) {run_Status r} n' d'))"
proof -
  let ?i = "run_ID r" and ?d = "w_interfere W n d"
  let ?up = "UpdateRun (w_env W n) r recorded (Some ev) ?d"
  have h': "holds_run W ?i {st} n ?d" by (rule holds_interfere[OF W h])
  then obtain s where s: "s \<in> set (runs ?d)" "run_ID s = ?i" "run_Status s = st"
    by (auto simp: holds_run_def rows_def)
  have inv: "db_inv ?d" and fresh: "env_id (w_env W n) 1 \<notin> ev_ID ` set (audit_events ?d)"
    using h' by (auto simp: holds_run_def unused_def)
  note cases = UpdateRun_cases[OF inv valid guard fresh ev s(1,2)]
  have stay: "holds_run W ?i {st} (Suc n) ?d" using h' by (simp add: holds_run_def unused_def)
  have move: "holds_run W ?i {run_Status r} (Suc n) e" if "?up = Inr e" for e
  proof -
    have "st = recorded" using cases(1) that s(3) by auto
    then have "run_Status s = recorded" using s(3) by simp
    from cases(2)[OF this] that obtain l where l: "db_inv e" "set_run r s \<in> set (runs e)"
      "audit_events e = audit_events ?d @ [l]" "ev_ID l = env_id (w_env W n) 1"
      by (metis Inr_inject)
    have "unused W (Suc n) e" using h' l(3,4)
      by (intro unused_grows[OF W(2), of n ?d]) (auto simp: holds_run_def)
    then show ?thesis using l(1,2) s(2) by (auto simp: holds_run_def rows_def)
  qed
  have "?up = Inl ErrConflict \<and> st \<noteq> recorded \<or> (\<exists>e. ?up = Inr e)"
    using cases s(3) by blast
  then show ?thesis using run stay move
    by (auto simp: call_def mutate_def Let_def split: fault.splits)
qed

lemma call_get:
  assumes W: "world_ok tbl W" "alone W i" and h: "holds_run W i {st} n d"
    and run: "run_state (call W KGetRun (read (GetRun i))) (n, d) = (res, (n', d'))"
  shows "n' = Suc n \<and> holds_run W i {st} n' d' \<and>
    ((\<exists>a. res = Inr a \<and> run_Status a = st) \<or> (\<exists>e. res = Inl e) \<and> w_fault W KGetRun n \<noteq> NoFault)"
proof -
  let ?d = "w_interfere W n d"
  have h': "holds_run W i {st} n ?d" by (rule holds_interfere[OF W h])
  then obtain s where s: "s \<in> set (runs ?d)" "run_ID s = i" "run_Status s = st" and v: "violated ?d = None"
    by (auto simp: holds_run_def rows_def db_inv_def)
  have "lookup run_ID i (runs ?d) = Some s"
    using lookup_unique[OF db_inv_keys(3)[OF v]] s(1,2) by simp
  then have got: "GetRun i ?d = Inr s" by (simp add: GetRun_def)
  have "n' = Suc n \<and> d' = ?d \<and> (res = Inr s \<or> (\<exists>e. res = Inl e) \<and> w_fault W KGetRun n \<noteq> NoFault)"
    using run by (auto simp: call_def read_def Let_def got split: fault.splits)
  moreover have "holds_run W i {st} (Suc n) ?d" using h' by (simp add: holds_run_def unused_def)
  ultimately show ?thesis using s(3) by blast
qed

text \<open>The registry works from call \<open>N\<close> on, and the time for retries lasts that long.\<close>

definition calm :: "world \<Rightarrow> nat \<Rightarrow> bool" where
  "calm W N \<longleftrightarrow> (\<forall>m \<ge> N. w_fault W KUpdateRun m = NoFault \<and> w_fault W KGetRun m = NoFault) \<and>
     (\<forall>m \<le> N. \<not> w_late W m)"

lemma calm_early:
  assumes "calm W N" "w_fault W k m \<noteq> NoFault" "k \<in> {KUpdateRun, KGetRun}"
  shows "m < N" "\<not> w_late W (Suc m)"
proof -
  show "m < N" using assms by (auto simp: calm_def not_le[symmetric])
  then show "\<not> w_late W (Suc m)" using assms(1) by (simp add: calm_def)
qed

text \<open>One attempt records the outcome, goes on after a fault, or learns the row's status.\<close>

lemma record_attempt:
  assumes W: "world_ok tbl W" "alone W (run_ID r)" and calm: "calm W N"
    and valid: "RunStatus_Valid (run_Status r)" and terminal: "\<not> Active (run_Status r)" and ev: "ev_ID ev = []"
    and h: "holds_run W (run_ID r) {st} n d"
    and st: "st = recorded \<or> st = run_Status r \<or> rereads < maxConflictRereads \<and> Active st"
    and run: "run_state (record_run W (Suc fuel) False r ev rereads recorded) (n, d) = res"
  obtains (recorded) m e where "holds_run W (run_ID r) {run_Status r} m e" "res = (Some (None, run_Status r), (m, e))"
  | (again) m e st' where "n < m" "n < N" "holds_run W (run_ID r) {st'} m e" "st' = st \<or> st' = run_Status r"
      "run_state (record_run W fuel False r ev rereads recorded) (m, e) = res"
  | (reread) m e where "n < m" "rereads < maxConflictRereads" "holds_run W (run_ID r) {st} m e"
      "run_state (record_run W fuel False r ev (Suc rereads) st) (m, e) = res"
proof -
  let ?i = "run_ID r"
  obtain r1 d1 where c1: "run_state (update_call W r recorded ev) (n, d) = (r1, (Suc n, d1))"
    by (metis call_counts prod.collapse)
  have "Active (run_Status r) \<longrightarrow> Active recorded" using terminal by simp
  note up = call_update[OF W valid this ev h c1]
  note step = record_step c1 run_retry
  consider "r1 = Inr ()" "holds_run W ?i {run_Status r} (Suc n) d1"
    | (conflict) "r1 = Inl ErrConflict" "st \<noteq> recorded" "holds_run W ?i {st} (Suc n) d1"
    | (fault) st' where "r1 = Inl ErrOther" "w_fault W KUpdateRun n \<noteq> NoFault" "holds_run W ?i {st'} (Suc n) d1"
        "st' = st \<or> st' = run_Status r"
    using up by blast
  then show thesis
  proof cases
    case 1
    then show ?thesis using run by (intro recorded[of "Suc n" d1]) (simp_all add: step del: record_run.simps)
  next
    case fault
    then show ?thesis using run up calm_early[OF calm fault(2)]
      by (intro again[of "Suc n" st' d1]) (simp_all add: step del: record_run.simps)
  next
    case conflict
    obtain r2 d2 where c2: "run_state (call W KGetRun (read (GetRun ?i))) (Suc n, d1) = (r2, (Suc (Suc n), d2))"
      by (metis call_counts prod.collapse)
    note get = call_get[OF W conflict(3) c2]
    show ?thesis
    proof (cases r2)
      case (Inl e)
      then have flt: "w_fault W KGetRun (Suc n) \<noteq> NoFault" using get by auto
      show ?thesis using run get up calm_early[OF calm flt] Inl
        by (intro again[of "Suc (Suc n)" st d2]) (simp_all add: step c2 conflict(1) del: record_run.simps)
    next
      case (Inr q)
      then have q: "run_Status q = st" using get by auto
      show ?thesis
      proof (cases "st = run_Status r")
        case True
        then show ?thesis using run get q Inr
          by (intro recorded[of "Suc (Suc n)" d2]) (simp_all add: step c2 conflict(1) del: record_run.simps)
      next
        case False
        then show ?thesis using run get up q Inr st conflict(2)
          by (intro reread[of "Suc (Suc n)" d2]) (simp_all add: step c2 conflict(1) del: record_run.simps)
      qed
    qed
  qed
qed

lemma record_settles:
  assumes "world_ok tbl W" "alone W (run_ID r)" "calm W N"
    "RunStatus_Valid (run_Status r)" "\<not> Active (run_Status r)" "ev_ID ev = []"
  shows "holds_run W (run_ID r) {st} n d \<Longrightarrow>
    st = recorded \<or> st = run_Status r \<or> rereads < maxConflictRereads \<and> Active st \<Longrightarrow>
    N - n + (maxConflictRereads - rereads) < fuel \<Longrightarrow>
    run_state (record_run W fuel False r ev rereads recorded) (n, d) = (a, (n', d')) \<Longrightarrow>
    a = Some (None, run_Status r) \<and> holds_run W (run_ID r) {run_Status r} n' d'"
proof (induction fuel arbitrary: st n d rereads recorded)
  case (Suc fuel)
  show ?case
  proof (cases rule: record_attempt[OF assms Suc.prems(1,2,4)])
    case (1 m e)
    then show ?thesis by simp
  next
    case (2 m e st')
    have "N - m + (maxConflictRereads - rereads) < fuel" using 2(1,2) Suc.prems(3) by linarith
    moreover have "st' = recorded \<or> st' = run_Status r \<or> rereads < maxConflictRereads \<and> Active st'"
      using 2(4) Suc.prems(2) by blast
    ultimately show ?thesis using Suc.IH 2(3,5) by blast
  next
    case (3 m e)
    have "N - m + (maxConflictRereads - Suc rereads) < fuel" using 3(1,2) Suc.prems(3) by linarith
    then show ?thesis using Suc.IH 3(3,4) by blast
  qed
qed simp

abbreviation in_flight :: "run_status set" where "in_flight \<equiv> {RunStarting, RunRunning}"

lemma holds_in: "holds_run W i {st} n d \<Longrightarrow> st \<in> ss \<Longrightarrow> holds_run W i ss n d"
  by (auto simp: holds_run_def)

lemma holds_split:
  assumes "holds_run W i ss n d"
  obtains st where "st \<in> ss" "holds_run W i {st} n d"
  using assms by (auto simp: holds_run_def)

definition flying :: "world \<Rightarrow> string \<Rightarrow> ('e \<times> run_status) option \<Rightarrow> nat \<Rightarrow> db \<Rightarrow> bool" where
  "flying W i a n d \<longleftrightarrow> holds_run W i in_flight n d \<and> (\<forall>e st. a = Some (e, st) \<longrightarrow> st \<in> in_flight)"

lemma sched_triple_flying: "st \<in> in_flight \<Longrightarrow> sched_triple (holds_run W i in_flight) (ret (Some (x, st))) (flying W i)"
  by (auto simp: sched_triple_def flying_def)

lemma update_flying:
  assumes "world_ok tbl W" "alone W (run_ID r)" "run_Status r = RunRunning" "ev_ID ev = []" "recorded \<in> in_flight"
  shows "sched_triple (holds_run W (run_ID r) in_flight) (update_call W r recorded ev) (\<lambda>_. holds_run W (run_ID r) in_flight)"
  unfolding sched_triple_def
proof (intro allI impI)
  fix n d a n' d'
  assume "holds_run W (run_ID r) in_flight n d" and run: "run_state (update_call W r recorded ev) (n, d) = (a, (n', d'))"
  from this(1) obtain st where st: "st \<in> in_flight" "holds_run W (run_ID r) {st} n d" by (rule holds_split)
  have "RunStatus_Valid (run_Status r)" "Active (run_Status r) \<longrightarrow> Active recorded"
    using assms(3,5) by (auto simp: Active_def)
  from call_update[OF assms(1,2) this assms(4) st(2) run] assms(3)
  have "holds_run W (run_ID r) {st} n' d' \<or> holds_run W (run_ID r) {RunRunning} n' d'" by auto
  then show "holds_run W (run_ID r) in_flight n' d'" using st(1) by (auto intro: holds_in)
qed

lemma get_flying:
  assumes "world_ok tbl W" "alone W i"
  shows "sched_triple (holds_run W i in_flight) (call W KGetRun (read (GetRun i)))
    (\<lambda>a n d. holds_run W i in_flight n d \<and> (\<forall>q. a = Inr q \<longrightarrow> run_Status q \<in> in_flight))"
  unfolding sched_triple_def
proof (intro allI impI)
  fix n d a n' d'
  assume "holds_run W i in_flight n d" and run: "run_state (call W KGetRun (read (GetRun i))) (n, d) = (a, (n', d'))"
  from this(1) obtain st where st: "st \<in> in_flight" "holds_run W i {st} n d" by (rule holds_split)
  with call_get[OF assms st(2) run]
  show "holds_run W i in_flight n' d' \<and> (\<forall>q. a = Inr q \<longrightarrow> run_Status q \<in> in_flight)"
    by (auto intro: holds_in[of W i st])
qed

lemma sched_triple_pre: "(b \<Longrightarrow> sched_triple P m Q) \<Longrightarrow> sched_triple (\<lambda>n d. P n d \<and> b) m Q"
  by (auto simp: sched_triple_def)

lemma record_running:
  assumes W: "world_ok tbl W" "alone W (run_ID r)" and r: "run_Status r = RunRunning" and ev: "ev_ID ev = []"
  shows "recorded \<in> in_flight \<Longrightarrow>
    sched_triple (holds_run W (run_ID r) in_flight) (record_run W fuel zero r ev rereads recorded) (flying W (run_ID r))"
proof (induction fuel arbitrary: rereads recorded)
  case 0
  show ?case by (simp add: sched_triple_def flying_def)
next
  case (Suc fuel)
  have fin: "run_Status r \<in> in_flight" using r by simp
  have again: "sched_triple (holds_run W (run_ID r) in_flight)
      (retry W zero (record_run W fuel zero r ev rereads recorded) (x, recorded)) (flying W (run_ID r))" for x
    using Suc.IH[OF Suc.prems, of rereads] Suc.prems by (auto simp: sched_triple_def run_retry flying_def)
  have skip: "sched_triple (holds_run W (run_ID r) in_flight) (ret (Inl e))
      (\<lambda>a n d. holds_run W (run_ID r) in_flight n d \<and> (\<forall>q. a = Inr q \<longrightarrow> run_Status q \<in> in_flight))" for e
    by (simp add: sched_triple_def)
  have actual: "sched_triple (\<lambda>n d. holds_run W (run_ID r) in_flight n d \<and> (\<forall>q. a = Inr q \<longrightarrow> run_Status q \<in> in_flight))
    (case a of Inl _ \<Rightarrow> retry W zero (record_run W fuel zero r ev rereads recorded) (Some e, recorded)
     | Inr q \<Rightarrow>
         if run_Status q = run_Status r then ret (Some (None, run_Status r))
         else if \<not> Active (run_Status q) then ret (Some (Some e, run_Status q))
         else if run_Status q \<noteq> recorded \<and> rereads < maxConflictRereads
         then record_run W fuel zero r ev (Suc rereads) (run_Status q)
         else retry W zero (record_run W fuel zero r ev rereads recorded) (Some e, recorded)) (flying W (run_ID r))" for a e
    by (rule sched_triple_pre, intro sched_triple_cases sched_triple_flying fin Suc.prems again Suc.IH) auto
  note look = sched_triple_bind[OF sched_triple_cases(1)[OF get_flying[OF W] skip] actual]
  show ?case unfolding record_step
    by (rule sched_triple_bind[OF update_flying[OF W r ev Suc.prems]]) (intro sched_triple_cases sched_triple_flying fin Suc.prems look)
qed

subsection \<open>An execution ends its run\<close>

definition ended_run :: "world \<Rightarrow> string \<Rightarrow> (reg_error option \<times> run_status) option \<Rightarrow> nat \<Rightarrow> db \<Rightarrow> bool" where
  "ended_run W i a n d \<longleftrightarrow> (\<exists>st. a = Some (None, st) \<and> \<not> Active st \<and> holds_run W i {st} n d)"

definition settles :: "world \<Rightarrow> string \<Rightarrow> (reg_error option \<times> run_status) option sched \<Rightarrow> bool" where
  "settles W i m \<longleftrightarrow> sched_triple (holds_run W i in_flight) m (ended_run W i)"

text \<open>The execution's side: run \<open>i\<close> is its own, the registry recovers in time, the fuel lasts.\<close>

definition can_settle :: "world \<Rightarrow> 'z exec_cfg_scheme \<Rightarrow> string \<Rightarrow> bool" where
  "can_settle W C i \<longleftrightarrow> (\<exists>tbl N. world_ok tbl W \<and> alone W i \<and> calm W N \<and> N + maxConflictRereads < x_fuel C)"

lemma settles_bind:
  "sched_triple (holds_run W i in_flight) m (\<lambda>_. holds_run W i in_flight) \<Longrightarrow> (\<And>a. settles W i (f a)) \<Longrightarrow> settles W i (State_Monad.bind m f)"
  unfolding settles_def by (rule sched_triple_bind)

lemma settles_cases:
  "(b \<Longrightarrow> settles W i m) \<Longrightarrow> (\<not> b \<Longrightarrow> settles W i m') \<Longrightarrow> settles W i (if b then m else m')"
  "(\<And>e. x = Inl e \<Longrightarrow> settles W i (f e)) \<Longrightarrow> (\<And>a. x = Inr a \<Longrightarrow> settles W i (g a)) \<Longrightarrow> settles W i (case_sum f g x)"
  "(y = None \<Longrightarrow> settles W i n) \<Longrightarrow> (\<And>a. y = Some a \<Longrightarrow> settles W i (h a)) \<Longrightarrow> settles W i (case_option n h y)"
  unfolding settles_def by (rule sched_triple_cases; assumption)+

lemma settles_finish:
  assumes "can_settle W C (run_ID r)" "\<not> Active status" "RunStatus_Valid status"
  shows "settles W (run_ID r) (finish W C r recorded status action detail)"
  unfolding settles_def finish_def
proof (rule sched_triple_bind[OF sched_triple_ask(1)], unfold sched_triple_def, intro allI impI)
  fix now n d a n' d'
  let ?r = "r\<lparr>run_Status := status, run_FinishedAt := Some now\<rparr>"
  assume "holds_run W (run_ID r) in_flight n d"
    and run: "run_state (record_run W (x_fuel C) False ?r (sched_event action detail) 0 recorded) (n, d) = (a, (n', d'))"
  from this(1) obtain st where st: "st \<in> in_flight" "holds_run W (run_ID r) {st} n d" by (rule holds_split)
  obtain tbl N where W: "world_ok tbl W" "alone W (run_ID ?r)" "calm W N" and fuel: "N + maxConflictRereads < x_fuel C"
    using assms(1) by (auto simp: can_settle_def)
  have ev: "ev_ID (sched_event action detail) = []" by (simp add: sched_event_def new_event_def)
  have "a = Some (None, run_Status ?r) \<and> holds_run W (run_ID ?r) {run_Status ?r} n' d'"
    by (rule record_settles[OF W _ _ ev _ _ _ run])
      (use assms(2,3) st fuel in \<open>auto simp: Active_def maxConflictRereads_def\<close>)
  then show "ended_run W (run_ID r) a n' d'" using assms(2) by (simp add: ended_run_def)
qed

lemma settles_endings:
  assumes "can_settle W C (run_ID r)"
  shows "settles W (run_ID r) (failed W C r recorded code summary)" "settles W (run_ID r) (cancelled W C r recorded summary)"
  unfolding failed_def cancelled_def
  using settles_finish[of W C "r\<lparr>run_Action := _, run_ErrorCode := _, run_ErrorSummary := _\<rparr>"] assms by (simp_all add: Active_def)

lemma settles_report: "can_settle W C (run_ID r) \<Longrightarrow> settles W (run_ID r) (report W C r recorded res)"
proof -
  assume can: "can_settle W C (run_ID r)"
  have fin: "settles W (run_ID r) (finish W C q recorded st action detail)"
    if "run_ID q = run_ID r" "st \<in> {RunSucceeded, RunFailed, RunCancelled}" for q st action detail
    using settles_finish[of W C q st] can that by (auto simp: Active_def)
  show ?thesis unfolding report_def Let_def
    by (auto intro!: settles_endings[OF can] fin split: sum.split launch_reason.split simp: settle_run_def)
qed

text \<open>Calls that leave the run in flight.\<close>

lemma can_settle_call:
  "can_settle W C i \<Longrightarrow> quiet i op \<Longrightarrow>
     sched_triple (holds_run W i in_flight) (call W k op) (\<lambda>_. holds_run W i in_flight)"
  using holds_call unfolding can_settle_def by blast

lemma keep_account:
  assumes can: "can_settle W C i"
  shows "sched_triple (holds_run W i in_flight) (release W b s g j) (\<lambda>_. holds_run W i in_flight)"
    "sched_triple (holds_run W i in_flight) (finishProvisioning W b s claim j res) (\<lambda>_. holds_run W i in_flight)"
proof -
  let ?P = "holds_run W i in_flight"
  have skip: "sched_triple ?P (ret x) (\<lambda>_. ?P)" for x by (rule sched_triple_ret)
  show rel: "sched_triple ?P (release W b s g j) (\<lambda>_. ?P)" for g
    unfolding release_def by (rule sched_triple_bind[OF can_settle_call[OF can quiet_release] skip])
  have id: "ev_ID (complete_event b s g j ok) = []" for g ok
    by (simp add: complete_event_def sched_event_def new_event_def)
  have "sched_triple ?P (complete W b s g j ok) (\<lambda>_. ?P)" for g ok
    unfolding complete_def by (rule sched_triple_bind[OF can_settle_call[OF can quiet_complete[OF id]] skip])
  then show "sched_triple ?P (finishProvisioning W b s claim j res) (\<lambda>_. ?P)"
    unfolding finishProvisioning_def using rel skip by (intro sched_triple_cases)
qed

lemma settles_run_started:
  assumes can: "can_settle W C (run_ID r)"
  shows "settles W (run_ID r) (run_started W C r l spec execID b s claim)"
proof -
  let ?i = "run_ID r"
  let ?r = "\<lambda>now. r\<lparr>run_Status := RunRunning, run_StartedAt := Some now, run_ExternalExecutionID := execID\<rparr>"
  let ?ev = "sched_event AuditRunStarted (''runner started via '' @ l_Type l @ '' ('' @ execID @ '')'')"
  obtain tbl where W: "world_ok tbl W" "alone W ?i" using can by (auto simp: can_settle_def)
  have ev: "ev_ID ?ev = []" by (simp add: sched_event_def new_event_def)
  have rec: "sched_triple (holds_run W ?i in_flight) (record_run W (x_fuel C) True (?r now) ?ev 0 RunStarting) (flying W ?i)" for now
    using record_running[OF W(1), of "?r now" ?ev RunStarting "x_fuel C" True 0] W(2) ev by simp
  have rec2: "sched_triple (flying W ?i a) (if known RunStarting a = RunStarting
        then record_run W (x_fuel C) True (?r now) ?ev 0 (known RunStarting a) else ret a) (flying W ?i)" for now a
  proof (intro sched_triple_cases sched_triple_ret)
    assume "known RunStarting a = RunStarting"
    then show "sched_triple (flying W ?i a) (record_run W (x_fuel C) True (?r now) ?ev 0 (known RunStarting a)) (flying W ?i)"
      by (simp only:) (rule sched_triple_conseq[OF rec], simp_all add: flying_def)
  qed
  have rest: "settles W ?i (do { finishProvisioning W b s claim (run_ID (?r now)) res; report W C (?r now) recorded res })" for now recorded res
    using settles_report[of W C "?r now"] can by (intro settles_bind keep_account(2)) auto
  show ?thesis unfolding run_started_def Let_def settles_def
    by (rule sched_triple_bind[OF sched_triple_ask(1)], rule sched_triple_bind[OF rec], rule sched_triple_bind[OF rec2],
        rule sched_triple_conseq[OF rest[unfolded settles_def]]) (simp_all add: flying_def)
qed

lemma settles_execute_job:
  assumes can: "can_settle W C (run_ID r)"
  shows "settles W (run_ID r) (execute_job W C r t p s claim account)"
proof -
  let ?P = "holds_run W (run_ID r) in_flight"
  have log: "sched_triple ?P (call W KAudit (mutate (\<lambda>E. AppendAudit E (Some e)))) (\<lambda>_. ?P)" if "ev_ID e = []" for e
    by (rule can_settle_call[OF can quiet_audit[OF that]])
  show ?thesis unfolding execute_job_def Let_def
    by (auto split: option.split sum.split launch_reason.split simp: sched_event_def new_event_def
        intro!: settles_bind[OF keep_account(1)[OF can]] settles_bind[OF log] settles_endings[OF can] settles_run_started[OF can])
qed

lemma keep_read:
  "can_settle W C i \<Longrightarrow> sched_triple (holds_run W i in_flight) (call W KRead (read q)) (\<lambda>_. holds_run W i in_flight)"
  by (rule can_settle_call[OF _ quiet_read])

lemma settles_execute_account:
  assumes can: "can_settle W C (run_ID r)"
  shows "settles W (run_ID r) (execute_account W C r t p)"
proof -
  let ?P = "holds_run W (run_ID r) in_flight"
  have claim: "sched_triple ?P (if b \<in> c_eab C then call W KClaim (\<lambda>E. ClaimACMEAccountProvisioning E b s i) else ret (Inr None)) (\<lambda>_. ?P)" for b s i
    by (intro sched_triple_cases sched_triple_ret can_settle_call[OF can quiet_claim])
  show ?thesis unfolding execute_account_def Let_def
    by (rule settles_bind[OF claim])
      (auto split: option.split sum.split prod.split
        intro!: settles_bind[OF keep_read[OF can]] settles_bind[OF keep_account(2)[OF can]]
          settles_endings[OF can] settles_execute_job[OF can])
qed

lemma settles_execute: "can_settle W C (run_ID r) \<Longrightarrow> settles W (run_ID r) (execute W C r)"
  unfolding execute_def
  by (auto split: sum.split intro!: settles_bind[OF keep_read] settles_endings settles_execute_account)

text \<open>
  Property C6: an execution ends its run. If nobody else touches the run's row, identifiers are not
  drawn twice and the registry answers again before the time for retries is over, then, whatever
  the calls before that did (failing before or after committing), whatever the launcher and the
  Runner report and whatever other writers do to the rest of the database, the run is recorded as
  succeeded, failed or cancelled, and that status is the one returned, without error.
\<close>

theorem execute_ends_run:
  assumes can: "can_settle W C (run_ID r)" and start: "holds_run W (run_ID r) {RunStarting} n d"
  shows "\<exists>st n' d'. run_state (execute W C r) (n, d) = (Some (None, st), (n', d')) \<and>
    \<not> Active st \<and> holds_run W (run_ID r) {st} n' d'"
proof -
  have "holds_run W (run_ID r) in_flight n d" using holds_in[OF start] by simp
  then have "ended_run W (run_ID r) (fst (run_state (execute W C r) (n, d)))
      (fst (snd (run_state (execute W C r) (n, d)))) (snd (snd (run_state (execute W C r) (n, d))))"
    using sched_tripleD[OF settles_execute[OF can, unfolded settles_def]] by (metis prod.collapse)
  then show ?thesis unfolding ended_run_def by (metis prod.collapse)
qed

text \<open>A registry that fails the first update after committing it, and works again thereafter.\<close>

definition sample_faulty :: world where
  "sample_faulty = sample_world\<lparr>w_fault := (\<lambda>k n. if k = KUpdateRun \<and> n < 8 then FailAfter else NoFault)\<rparr>"

definition sample_claimed :: db where
  "sample_claimed = result_db (ClaimQueuedRun (after (Plan sample_world sample_cfg) 0 sample_db_enabled))"

definition sample_claimed_run :: run where "sample_claimed_run = hd (runs sample_claimed)"

lemma sample_env_count: "length (filter ((=) CHR ''w'') (env_id (w_env sample_world n) k)) = Suc n"
  by (simp add: sample_world_def)

lemma sample_faulty_alone: "alone sample_faulty i"
proof -
  have "env_id (w_env sample_world m) j \<noteq> env_id (w_env sample_world n) k" if "m \<noteq> n" for m n j k
    using that sample_env_count[of m j] sample_env_count[of n k] by auto
  moreover have "w_env sample_faulty = w_env sample_world" by (simp add: sample_faulty_def)
  ultimately show ?thesis by (simp add: alone_def) (simp add: sample_faulty_def sample_world_def)
qed

lemma sample_faulty_ok: "world_ok no_fold sample_faulty"
  using sample_world_ok[of no_fold] by (simp add: world_ok_def sample_faulty_def)

lemma sample_can_settle: "can_settle sample_faulty sample_exec_cfg i"
  unfolding can_settle_def
proof (intro exI[of _ no_fold] exI[of _ 8] conjI sample_faulty_ok sample_faulty_alone)
  show "calm sample_faulty 8" by (simp add: calm_def sample_faulty_def sample_world_def)
  show "8 + maxConflictRereads < x_fuel sample_exec_cfg"
    by (simp add: sample_exec_cfg_def sched_cfg.extend_def sample_cfg_def maxConflictRereads_def)
qed

lemma sample_claimed_start: "holds_run sample_faulty (run_ID sample_claimed_run) {RunStarting} 4 sample_claimed"
proof -
  let ?d = "after (Plan sample_world sample_cfg) 0 sample_db_enabled"
  have "isl (ClaimQueuedRun ?d) = False" by code_simp
  then have "ClaimQueuedRun ?d = Inr (fst (projr (ClaimQueuedRun ?d)), sample_claimed)"
    by (auto simp: sample_claimed_def result_db_def split: sum.splits)
  moreover have "db_inv ?d"
    using safe_sound_end[OF safe_Plan[OF sample_world_ok] sample_db_enabled_inv] by (simp add: sound_end_def)
  ultimately have inv: "db_inv sample_claimed" by (rule ClaimQueuedRun_inv)
  have "map ev_ID (audit_events sample_claimed) = [''wwww+'']" by code_simp
  then have "set (map ev_ID (audit_events sample_claimed)) = {''wwww+''}" by simp
  moreover have "env_id (w_env sample_world m) k \<noteq> ''wwww+''" if "4 \<le> m" for m k
    using that sample_env_count[of m k] by auto
  ultimately have "unused sample_faulty 4 sample_claimed"
    by (auto simp: unused_def sample_faulty_def)
  moreover have "rows (run_ID sample_claimed_run) sample_claimed = [sample_claimed_run]" by code_simp
  moreover have "run_Status sample_claimed_run = RunStarting" by code_simp
  ultimately show ?thesis using inv by (simp add: holds_run_def)
qed

theorem execute_ends_run_witness:
  "\<exists>st n' d'. run_state (execute sample_faulty sample_exec_cfg sample_claimed_run) (4, sample_claimed) = (Some (None, st), (n', d')) \<and>
    \<not> Active st \<and> holds_run sample_faulty (run_ID sample_claimed_run) {st} n' d'"
  by (rule execute_ends_run[OF sample_can_settle sample_claimed_start])

end
