(* ===== verification/SchedQueue.thy ===== *)
theory SchedQueue
  imports SchedLive
begin

text \<open>
  What dispatch and sweep do: dispatch never lets more runs execute than configured and always
  returns; a sweep ends exactly the runs nobody executes; and what a sweep leaves behind of a
  provisioning request attached to such a run.
\<close>

subsection \<open>Dispatch\<close>



subsection \<open>Sweep\<close>

text \<open>Nobody executes the run any more, though the registry has it under way.\<close>

definition stranded :: "string set \<Rightarrow> run \<Rightarrow> bool" where
  "stranded inflight r \<longleftrightarrow> Active (run_Status r) \<and> run_Status r \<noteq> RunQueued \<and> run_ID r \<notin> inflight"

text \<open>A registry that answers, with no other writer during the sweep.\<close>

definition exclusive :: "world \<Rightarrow> bool" where
  "exclusive W \<longleftrightarrow> (\<forall>n d. w_interfere W n d = d) \<and> (\<forall>k n. w_fault W k n = NoFault) \<and>
     (\<forall>m n j k. m \<noteq> n \<longrightarrow> env_id (w_env W m) j \<noteq> env_id (w_env W n) k)"

lemma exclusive_call: "exclusive W \<Longrightarrow> run_state (call W k op) (n, d) =
    (case op (w_env W n) d of Inl e \<Rightarrow> (Inl e, (Suc n, d)) | Inr (a, d') \<Rightarrow> (Inr a, (Suc n, d')))"
  by (simp add: exclusive_def call_def Let_def split: sum.split prod.split)

lemma exclusive_alone: "exclusive W \<Longrightarrow> alone W i"
  by (simp add: exclusive_def alone_def)

definition swept :: "string set \<Rightarrow> string \<Rightarrow> run list \<Rightarrow> run \<Rightarrow> run \<Rightarrow> bool" where
  "swept inflight summary rs r r' \<longleftrightarrow>
     (if r \<in> set rs \<and> stranded inflight r then \<exists>now. r' = strand now summary r else r' = r)"

lemma strand_simps [simp]:
  "run_ID (strand now summary r) = run_ID r" "run_TargetID (strand now summary r) = run_TargetID r"
  "run_Status (strand now summary r) = RunFailed" "set_run (strand now summary r) r = strand now summary r"
  by (simp_all add: strand_def set_run_def)

text \<open>One stranded run: its row becomes the failed run, the others stay.\<close>

lemma strand_one:
  assumes inv: "db_inv d" and un: "unused W n d" and ids: "alone W i"
    and r: "r \<in> set (runs d)" and ev: "ev_ID ev = []"
  obtains d' where "UpdateRun (w_env W n) (strand now summary r) (run_Status r) (Some ev) d = Inr d'"
    "db_inv d'" "unused W (Suc n) d'" "acme_accounts d' = acme_accounts d"
    "runs d' = map (\<lambda>s. if s = r then strand now summary r else s) (runs d)"
proof -
  let ?q = "strand now summary r"
  let ?sel = "\<lambda>s. run_ID s = run_ID ?q \<and> run_Status s = run_Status r"
  have fresh: "env_id (w_env W n) 1 \<notin> ev_ID ` set (audit_events d)" using un by (simp add: unused_def)
  have "RunStatus_Valid (run_Status ?q)" "Active (run_Status ?q) \<longrightarrow> Active (run_Status r)"
    "run_ID r = run_ID ?q" by (simp_all add: Active_def)
  from UpdateRun_cases(2)[OF inv this(1,2) fresh ev r this(3) refl]
  obtain d' l where d': "UpdateRun (w_env W n) ?q (run_Status r) (Some ev) d = Inr d'" "db_inv d'"
    "audit_events d' = audit_events d @ [l]" "ev_ID l = env_id (w_env W n) 1" by blast
  from d'(1) have rows: "runs d' = upd_where ?sel (set_run ?q) (runs d) \<and> acme_accounts d' = acme_accounts d"
    by (rule UpdateRun_effect) (auto dest!: insertAudit_Inr)
  have "s = r" if "s \<in> set (runs d)" "?sel s" for s
    using unique_onD[OF db_inv_keys(3)[OF db_invD(1)[OF inv]] that(1) r] that(2) by simp
  then have "upd_where ?sel (set_run ?q) (runs d) = map (\<lambda>s. if s = r then ?q else s) (runs d)"
    by (auto simp: upd_where_def)
  moreover have "unused W (Suc n) d'" using d'(3,4) by (intro unused_grows[OF ids un]) auto
  ultimately show thesis using d'(1,2) rows that by simp
qed

lemma sweep_runs_exact:
  assumes W: "exclusive W"
  shows "db_inv d \<Longrightarrow> unused W n d \<Longrightarrow> set rs \<subseteq> set (runs d) \<Longrightarrow> distinct (map run_ID rs) \<Longrightarrow>
    (\<And>r. r \<in> set rs \<Longrightarrow> Active (run_Status r)) \<Longrightarrow>
    \<exists>n' d'. run_state (sweep_runs W inflight summary pre k rs) (n, d) =
        ((k + length (filter (stranded inflight) rs), None), (n', d')) \<and>
      db_inv d' \<and> acme_accounts d' = acme_accounts d \<and>
      list_all2 (swept inflight summary rs) (runs d) (runs d')"
proof (induction rs arbitrary: k n d)
  case Nil
  then show ?case by (auto simp: swept_def list_all2_same)
next
  case (Cons r rs)
  show ?case
  proof (cases "stranded inflight r")
    case False
    then have skip: "run_Status r = RunQueued \<or> run_ID r \<in> inflight" using Cons.prems(5)[of r] by (auto simp: stranded_def)
    have "swept inflight summary (r # rs) = swept inflight summary rs" using False by (auto simp: swept_def fun_eq_iff)
    then show ?thesis using Cons.IH[of d n k] Cons.prems skip False by simp
  next
    case True
    let ?ev = "sched_event AuditRunFailed (pre @ summary)" and ?f = "\<lambda>s. if s = r then strand (w_now W n) summary r else s"
    have "r \<in> set (runs d)" "ev_ID ?ev = []" using Cons.prems(3) by (auto simp: sched_event_def new_event_def)
    from strand_one[OF Cons.prems(1,2) exclusive_alone[OF W] this]
    obtain d1 where d1: "UpdateRun (w_env W n) (strand (w_now W n) summary r) (run_Status r) (Some ?ev) d = Inr d1"
      "db_inv d1" "unused W (Suc n) d1" "acme_accounts d1 = acme_accounts d" "runs d1 = map ?f (runs d)" .
    have off: "r \<notin> set rs" using Cons.prems(4) by auto
    have "set rs \<subseteq> set (runs d1)"
    proof
      fix s assume "s \<in> set rs"
      then show "s \<in> set (runs d1)" using off Cons.prems(3) by (force simp: d1(5))
    qed
    from Cons.IH[OF d1(2,3) this, of "Suc k"] Cons.prems(4,5)
    obtain n' d' where d': "run_state (sweep_runs W inflight summary pre (Suc k) rs) (Suc n, d1) =
        ((Suc k + length (filter (stranded inflight) rs), None), (n', d'))"
      "db_inv d'" "acme_accounts d' = acme_accounts d1" "list_all2 (swept inflight summary rs) (map ?f (runs d)) (runs d')"
      using d1(5) by auto
    have "swept inflight summary (r # rs) s s'" if "swept inflight summary rs (?f s) s'" for s s'
      using that True by (cases "s = r") (auto simp: swept_def stranded_def Active_def split: if_splits)
    then have "list_all2 (swept inflight summary (r # rs)) (runs d) (runs d')"
      using d'(4) by (auto simp: list_all2_map1 elim!: list_all2_mono)
    moreover have "run_Status r \<noteq> RunQueued" "run_ID r \<notin> inflight" using True by (auto simp: stranded_def)
    ultimately show ?thesis using d' d1(1,4) True
      by (simp add: clock_def exclusive_call[OF W] mutate_def)
  qed
qed

lemma sweep_effect:
  assumes W: "exclusive W" and inv: "db_inv d" and un: "unused W n d"
  shows "\<exists>n' d'. run_state (sweep W inflight summary pre) (n, d) =
        ((length (filter (stranded inflight) (runs d)), None), (n', d')) \<and>
      db_inv d' \<and> acme_accounts d' = acme_accounts d \<and>
      list_all2 (swept inflight summary (runs d)) (runs d) (runs d')"
proof -
  let ?rs = "ListActiveRuns d"
  have set: "set ?rs = {r \<in> set (runs d). Active (run_Status r)}" by (simp add: ListActiveRuns_def)
  have dist: "distinct (map run_ID (runs d))"
    using db_inv_keys(3)[OF db_invD(1)[OF inv]] by (simp add: unique_on_every)
  then have ids: "distinct (map run_ID ?rs)"
    by (simp add: ListActiveRuns_def distinct_map inj_on_def)
  have "unused W (Suc n) d" "set ?rs \<subseteq> set (runs d)" "\<And>r. r \<in> set ?rs \<Longrightarrow> Active (run_Status r)"
    using un set by (auto simp: unused_def)
  from sweep_runs_exact[OF W inv this(1,2) ids this(3), of inflight summary pre 0]
  obtain n' d' where d': "run_state (sweep_runs W inflight summary pre 0 ?rs) (Suc n, d) =
        ((length (filter (stranded inflight) ?rs), None), (n', d'))" "db_inv d'" "acme_accounts d' = acme_accounts d"
      "list_all2 (swept inflight summary ?rs) (runs d) (runs d')"
    by auto
  have "(\<lambda>r. Active (run_Status r) \<and> stranded inflight r) = stranded inflight"
    by (auto simp: stranded_def fun_eq_iff)
  then have "length (filter (stranded inflight) ?rs) = length (filter (stranded inflight) (runs d))"
    by (simp add: ListActiveRuns_def filter_sort)
  moreover have "swept inflight summary ?rs r r' = swept inflight summary (runs d) r r'" if "r \<in> set (runs d)" for r r'
    using that by (auto simp: swept_def set stranded_def)
  then have "list_all2 (swept inflight summary (runs d)) (runs d) (runs d')"
    using d'(4) by (simp add: list_all2_conv_all_nth)
  ultimately show ?thesis using d' by (simp add: sweep_def exclusive_call[OF W] read_def)
qed

text \<open>
  Property C27: a sweep with a registry that answers ends exactly the runs that are under way in the
  registry but that nobody executes: each becomes failed with its reason, no other run changes,
  the number of runs ended is returned, and no such run is left.
\<close>

theorem sweep_exact:
  assumes "exclusive W" "db_inv d" "unused W n d"
  shows "\<exists>n' d'. run_state (sweep W inflight summary pre) (n, d) =
        ((length (filter (stranded inflight) (runs d)), None), (n', d')) \<and>
      list_all2 (\<lambda>r r'. if stranded inflight r then \<exists>now. r' = strand now summary r else r' = r) (runs d) (runs d') \<and>
      filter (stranded inflight) (runs d') = []"
proof -
  obtain n' d' where d': "run_state (sweep W inflight summary pre) (n, d) =
        ((length (filter (stranded inflight) (runs d)), None), (n', d'))"
      "list_all2 (swept inflight summary (runs d)) (runs d) (runs d')"
    using sweep_effect[OF assms] by blast
  have "list_all2 (\<lambda>r r'. if stranded inflight r then \<exists>now. r' = strand now summary r else r' = r) (runs d) (runs d')"
    using d'(2) by (simp add: list_all2_conv_all_nth swept_def)
  moreover have "\<not> stranded inflight r'" if r': "r' \<in> set (runs d')" for r'
  proof -
    obtain j where j: "j < length (runs d')" "r' = runs d' ! j" using r' by (auto simp: in_set_conv_nth)
    with d'(2) have "swept inflight summary (runs d) (runs d ! j) r'" "runs d ! j \<in> set (runs d)"
      by (auto simp: list_all2_conv_all_nth)
    moreover have "\<not> stranded inflight (strand now summary r)" for now r by (simp add: stranded_def Active_def)
    ultimately show ?thesis by (auto simp: swept_def split: if_splits)
  qed
  then have "filter (stranded inflight) (runs d') = []" by (simp add: filter_empty_conv)
  ultimately show ?thesis using d'(1) by blast
qed

lemma sample_world_exclusive: "exclusive sample_world"
proof -
  have "env_id (w_env sample_world m) j \<noteq> env_id (w_env sample_world n) k" if "m \<noteq> n" for m n j k
    using that sample_env_count[of m j] sample_env_count[of n k] by auto
  then show ?thesis by (simp add: exclusive_def) (simp add: sample_world_def)
qed

lemma sample_claimed_ready: "db_inv sample_claimed" "unused sample_world 4 sample_claimed"
  using sample_claimed_start by (simp_all add: holds_run_def unused_def sample_faulty_def)

theorem sweep_exact_witness:
  "\<exists>n' d'. run_state (sweep sample_world {} ''lost'' []) (4, sample_claimed) = ((1, None), (n', d')) \<and>
     map run_Status (runs d') = [RunFailed]"
proof -
  have rows: "length (filter (stranded {}) (runs sample_claimed)) = 1" "length (runs sample_claimed) = 1"
    "stranded {} (hd (runs sample_claimed))" by code_simp+
  obtain n' d' where d': "run_state (sweep sample_world {} ''lost'' []) (4, sample_claimed) = ((1, None), (n', d'))"
    "list_all2 (\<lambda>r r'. if stranded {} r then \<exists>now. r' = strand now ''lost'' r else r' = r) (runs sample_claimed) (runs d')"
    using sweep_exact[OF sample_world_exclusive sample_claimed_ready, of "{}" "''lost''" "[]"] rows(1) by auto
  from rows(2) obtain r where "runs sample_claimed = [r]" by (auto simp: length_Suc_conv)
  then show ?thesis using d' rows(3) by (auto simp: list_all2_Cons1)
qed

subsection \<open>What recovery leaves of an attached provisioning request\<close>

lemma attached_blocks:
  assumes inv: "db_inv d" and a: "a \<in> set (acme_accounts d)" "acc_Status a = ACMEAccountProvisioning" "acc_RunID a = Some i"
  shows "ClaimACMEAccountProvisioning E (acc_Binding a) (acc_Scope a) j d = Inr (None, d)"
    "CancelACMEAccountProvisioning E (acc_Binding a) (acc_Scope a) (acc_Generation a) ev d = Inl ErrConflict"
    "acc_scope x = acc_scope a \<Longrightarrow> RequestACMEAccountProvisioning E x sealed ev d \<noteq> Inr (x', d')"
proof -
  note v = db_invD(1)[OF inv]
  have only: "b = a" if "b \<in> set (acme_accounts d)" "acc_scope b = acc_scope a" "acc_Status b = ACMEAccountProvisioning" for b
    using unique_onD[OF db_inv_keys(8)[OF v] that(1) a(1)] that a(2) by simp
  have "filter (\<lambda>b. acc_Binding b = acc_Binding a \<and> acc_Scope b = acc_Scope a \<and>
      acc_Status b = ACMEAccountProvisioning \<and> acc_RunID b = None) (acme_accounts d) = []"
    using only a(3) by (auto simp: filter_empty_conv acc_scope_def)
  then show "ClaimACMEAccountProvisioning E (acc_Binding a) (acc_Scope a) j d = Inr (None, d)"
    by (simp add: ClaimACMEAccountProvisioning_def first_row_def)
  let ?sel = "\<lambda>b. acc_key b = acc_key a \<and> acc_Status b = ACMEAccountProvisioning \<and> acc_RunID b = None"
  have none: "\<not> ?sel b" if "b \<in> set (acme_accounts d)" for b
    using only[OF that] a(3) by (auto simp: acc_key_def acc_scope_def)
  then have "upd_where ?sel f (acme_accounts d) = acme_accounts d" for f by (rule upd_where_none)
  then show "CancelACMEAccountProvisioning E (acc_Binding a) (acc_Scope a) (acc_Generation a) ev d = Inl ErrConflict"
    using none a(1) v by (auto simp: CancelACMEAccountProvisioning_def Let_def acc_key_def exec_def)
  show "RequestACMEAccountProvisioning E x sealed ev d \<noteq> Inr (x', d')" if x: "acc_scope x = acc_scope a"
  proof
    assume "RequestACMEAccountProvisioning E x sealed ev d = Inr (x', d')"
    then show False
    proof (rule RequestACMEAccountProvisioning_effect)
      fix d1 assume d1: "d1 = d\<lparr>acme_accounts := acme_accounts d @ [x']\<rparr>" "violated d1 = None"
        and x': "x' = x\<lparr>acc_Status := ACMEAccountProvisioning, acc_sealed_payload := Some sealed, acc_RunID := None,
          acc_CreatedAt := env_now E 0, acc_UpdatedAt := env_now E 0, acc_ActivatedAt := None\<rparr>"
      have "acc_scope x' = acc_scope a" "acc_Status x' = ACMEAccountProvisioning" using x by (simp_all add: x' acc_scope_def)
      then show False using db_inv_keys(8)[OF d1(2)] a(1,2) by (auto simp: d1(1) unique_on_append)
    qed
  qed
qed

text \<open>
  Property C26: recovery ends the runs of a process that died, but not their hold on a provisioning
  request. A generation that was attached to such a run is still attached after a recovery that
  met no error; from then on no run can claim it, it cannot be cancelled, and no new request for
  the account is accepted.
\<close>

theorem recovery_keeps_attachment:
  assumes "exclusive W" "db_inv d" "unused W n d"
    and a: "a \<in> set (acme_accounts d)" "acc_Status a = ACMEAccountProvisioning" "acc_RunID a = Some i"
    and x: "acc_scope x = acc_scope a"
  shows "\<exists>k n' d'. run_state (Recover W {}) (n, d) = ((k, None), (n', d')) \<and> a \<in> set (acme_accounts d') \<and>
    ClaimACMEAccountProvisioning E (acc_Binding a) (acc_Scope a) j d' = Inr (None, d') \<and>
    CancelACMEAccountProvisioning E (acc_Binding a) (acc_Scope a) (acc_Generation a) ev d' = Inl ErrConflict \<and>
    isl (RequestACMEAccountProvisioning E x sealed ev d')"
proof -
  obtain n' d' where d': "run_state (Recover W {}) (n, d) = ((length (filter (stranded {}) (runs d)), None), (n', d'))"
      "db_inv d'" "acme_accounts d' = acme_accounts d"
    using sweep_effect[OF assms(1-3)] unfolding Recover_def by blast
  have "a \<in> set (acme_accounts d')" using a(1) d'(3) by simp
  from attached_blocks[OF d'(2) this a(2,3)] x this d'(1) show ?thesis
    by (intro exI[of _ n'] exI[of _ d'] exI[of _ "length (filter (stranded {}) (runs d))"])
      (cases "RequestACMEAccountProvisioning E x sealed ev d'"; auto)
qed

theorem recovery_keeps_attachment_witness:
  "\<exists>k n' d'. run_state (Recover sample_world {}) (0, sample_db4) = ((k, None), (n', d')) \<and>
    hd (acme_accounts sample_db4) \<in> set (acme_accounts d') \<and>
    ClaimACMEAccountProvisioning (sample_env CHR ''k'') ''acme'' [] ''r2'' d' = Inr (None, d') \<and>
    CancelACMEAccountProvisioning (sample_env CHR ''k'') ''acme'' [] 1 None d' = Inl ErrConflict \<and>
    isl (RequestACMEAccountProvisioning (sample_env CHR ''k'') (sample_account\<lparr>acc_Generation := 2\<rparr>) ''sealed'' None d')"
proof -
  let ?a = "hd (acme_accounts sample_db4)"
  have "acme_accounts sample_db4 \<noteq> []" by code_simp
  then have mem: "?a \<in> set (acme_accounts sample_db4)" by simp
  have a: "acc_Status ?a = ACMEAccountProvisioning" "acc_RunID ?a = Some ''r1''" "acc_Binding ?a = ''acme''" "acc_Scope ?a = []"
    "acc_Generation ?a = 1" by code_simp+
  have "map ev_ID (audit_events sample_db4) = [''g+'']" by code_simp
  then have "set (map ev_ID (audit_events sample_db4)) = {''g+''}" by simp
  moreover have "env_id (w_env sample_world m) k \<noteq> ''g+''" for m k
    using sample_env_count[of m k] by auto
  ultimately have "unused sample_world 0 sample_db4" by (auto simp: unused_def)
  moreover have "acc_scope (sample_account\<lparr>acc_Generation := 2\<rparr>) = acc_scope ?a" using a by (simp add: acc_scope_def sample_account_def)
  ultimately show ?thesis
    using recovery_keeps_attachment[OF sample_world_exclusive sample_db4_inv _ mem a(1,2)] a(3-5) by simp
qed

end
