(* ===== verification/Ids.thy ===== *)
theory Ids
  imports Contract
begin

text \<open>
  Identifiers, \<^verbatim>\<open>internal/conductor/registry/id.go\<close>: ULIDs of 48 bits of time and 80 random bits in
  Crockford's base 32. The process-wide variables under the mutex are the state passed along; the
  clock and the random source are arguments.
\<close>

unbundle bit_operations_syntax

definition crockford :: string where
  "crockford = ''0123456789ABCDEFGHJKMNPQRSTVWXYZ''"

text \<open>The bytes are big-endian; the loop runs from the last to the first.\<close>

fun increment :: "8 word list \<Rightarrow> bool \<times> 8 word list" where
  "increment [] = (False, [])"
| "increment (b # bs) =
     (case increment bs of
        (True, bs') \<Rightarrow> (True, b # bs')
      | (False, bs') \<Rightarrow> (b + 1 \<noteq> 0, (b + 1) # bs'))"

definition ulid_digits :: "8 word list \<Rightarrow> 8 word list" where
  "ulid_digits b =
     [drop_bit 5 (b ! 0 AND 224),
      b ! 0 AND 31,
      drop_bit 3 (b ! 1 AND 248),
      push_bit 2 (b ! 1 AND 7) OR drop_bit 6 (b ! 2 AND 192),
      drop_bit 1 (b ! 2 AND 62),
      push_bit 4 (b ! 2 AND 1) OR drop_bit 4 (b ! 3 AND 240),
      push_bit 1 (b ! 3 AND 15) OR drop_bit 7 (b ! 4 AND 128),
      drop_bit 2 (b ! 4 AND 124),
      push_bit 3 (b ! 4 AND 3) OR drop_bit 5 (b ! 5 AND 224),
      b ! 5 AND 31,
      drop_bit 3 (b ! 6 AND 248),
      push_bit 2 (b ! 6 AND 7) OR drop_bit 6 (b ! 7 AND 192),
      drop_bit 1 (b ! 7 AND 62),
      push_bit 4 (b ! 7 AND 1) OR drop_bit 4 (b ! 8 AND 240),
      push_bit 1 (b ! 8 AND 15) OR drop_bit 7 (b ! 9 AND 128),
      drop_bit 2 (b ! 9 AND 124),
      push_bit 3 (b ! 9 AND 3) OR drop_bit 5 (b ! 10 AND 224),
      b ! 10 AND 31,
      drop_bit 3 (b ! 11 AND 248),
      push_bit 2 (b ! 11 AND 7) OR drop_bit 6 (b ! 12 AND 192),
      drop_bit 1 (b ! 12 AND 62),
      push_bit 4 (b ! 12 AND 1) OR drop_bit 4 (b ! 13 AND 240),
      push_bit 1 (b ! 13 AND 15) OR drop_bit 7 (b ! 14 AND 128),
      drop_bit 2 (b ! 14 AND 124),
      push_bit 3 (b ! 14 AND 3) OR drop_bit 5 (b ! 15 AND 224),
      b ! 15 AND 31]"

definition encodeULID :: "8 word list \<Rightarrow> string" where
  "encodeULID b = map (\<lambda>d. crockford ! unat d) (ulid_digits b)"

record id_state =
  idLastMS :: "64 word"
  idLast :: "8 word list"

definition ms_bytes :: "64 word \<Rightarrow> 8 word list" where
  "ms_bytes ms = [ucast (drop_bit 40 ms), ucast (drop_bit 32 ms), ucast (drop_bit 24 ms),
     ucast (drop_bit 16 ms), ucast (drop_bit 8 ms), ucast ms]"

text \<open>\<open>rnd\<close> are the ten bytes \<^verbatim>\<open>mustRand\<close> reads, if it is called; a failing source panics.\<close>

definition NewIDAt :: "64 word \<Rightarrow> 8 word list \<Rightarrow> id_state \<Rightarrow> string \<times> id_state" where
  "NewIDAt ms rnd s =
     (let s' = (if ms \<le> idLastMS s then
                  (case increment (idLast s) of
                     (True, last') \<Rightarrow> s\<lparr>idLast := last'\<rparr>
                   | (False, _) \<Rightarrow> \<lparr>idLastMS = idLastMS s + 1, idLast = rnd\<rparr>)
                else \<lparr>idLastMS = ms, idLast = rnd\<rparr>)
      in (encodeULID (ms_bytes (idLastMS s') @ idLast s'), s'))"

fun new_ids :: "(64 word \<times> 8 word list) list \<Rightarrow> id_state \<Rightarrow> string list" where
  "new_ids [] s = []"
| "new_ids ((ms, rnd) # rest) s = (case NewIDAt ms rnd s of (i, s') \<Rightarrow> i # new_ids rest s')"

subsection \<open>Positional values\<close>

definition positional :: "nat \<Rightarrow> nat list \<Rightarrow> nat" where
  "positional B ds = foldl (\<lambda>v d. v * B + d) 0 ds"

lemma positional_shift: "foldl (\<lambda>v d. v * B + d) v ds = v * B ^ length ds + positional B ds"
proof (induction ds arbitrary: v)
  case (Cons d ds)
  show ?case using Cons[of "v * B + d"] Cons[of d] by (simp add: positional_def algebra_simps)
qed (simp add: positional_def)

lemma positional_append: "positional B (xs @ ys) = positional B xs * B ^ length ys + positional B ys"
proof -
  have "positional B (xs @ ys) = foldl (\<lambda>v d. v * B + d) (positional B xs) ys" by (simp add: positional_def)
  then show ?thesis by (simp only: positional_shift)
qed

lemma positional_Cons: "positional B (d # ds) = d * B ^ length ds + positional B ds"
  using positional_append[of B "[d]" ds] by (simp add: positional_def)

lemma positional_Nil [simp]: "positional B [] = 0"
  by (simp add: positional_def)

lemma positional_less: "(\<And>d. d \<in> set ds \<Longrightarrow> d < B) \<Longrightarrow> positional B ds < B ^ length ds"
proof (induction ds)
  case (Cons d ds)
  have "positional B ds < B ^ length ds" "d < B" using Cons by auto
  then have "d * B ^ length ds + positional B ds < Suc d * B ^ length ds" by simp
  also have "\<dots> \<le> B * B ^ length ds" using \<open>d < B\<close> by (intro mult_right_mono) auto
  finally show ?case by (simp add: positional_Cons)
qed simp

text \<open>Comparing renderings of equal length compares the values.\<close>

lemma positional_lex:
  assumes "length xs = length ys" "\<And>d. d \<in> set xs \<union> set ys \<Longrightarrow> d < B"
    and mono: "\<And>c d. c < d \<Longrightarrow> d < B \<Longrightarrow> (f c :: char) < f d"
    and "positional B xs < positional B ys"
  shows "map f xs < map f ys"
  using assms(1,2,4)
proof (induction xs ys rule: list_induct2)
  case (Cons x xs y ys)
  let ?n = "B ^ length xs"
  have lt: "positional B xs < ?n" "positional B ys < ?n" "x < B" "y < B"
    using Cons.prems(1) Cons.hyps positional_less[of xs B] positional_less[of ys B] by auto
  have val: "x * ?n + positional B xs < y * ?n + positional B ys"
    using Cons.prems(2) Cons.hyps by (simp add: positional_Cons)
  have "\<not> y < x"
  proof
    assume "y < x"
    then have "Suc y * ?n \<le> x * ?n" by (intro mult_right_mono) auto
    then show False using val lt(2) by simp
  qed
  then consider "x < y" | "x = y" by linarith
  then show ?case
  proof cases
    case 1
    then show ?thesis using mono[OF 1 lt(4)] by simp
  next
    case 2
    then show ?thesis using Cons.IH Cons.prems(1) val by simp
  qed
qed simp

subsection \<open>The base 32 digits\<close>

text \<open>Masks and shifts of one byte.\<close>

lemma unat_take_bit: "unat (take_bit m x) = unat x mod 2 ^ m"
  by (metis unsigned_take_bit_eq take_bit_eq_mod)

lemma unat_drop_bit: "unat (drop_bit k x) = unat x div 2 ^ k"
proof -
  have "unat (drop_bit k x) = drop_bit k (take_bit LENGTH('a) (unat x))" for x :: "'a::len word"
    by (rule unsigned_drop_bit_eq)
  then show ?thesis by (simp add: take_bit_nat_eq_self drop_bit_eq_div)
qed

lemma drop_masked: "drop_bit k (x AND push_bit k (mask m)) = take_bit m (drop_bit k (x :: 8 word))"
  by (rule bit_word_eqI) (auto simp: bit_simps dest: bit_imp_le_length)

lemma masks:
  "(224 :: 8 word) = push_bit 5 (mask 3)" "(248 :: 8 word) = push_bit 3 (mask 5)" "(62 :: 8 word) = push_bit 1 (mask 5)"
  "(124 :: 8 word) = push_bit 2 (mask 5)" "(192 :: 8 word) = push_bit 6 (mask 2)" "(240 :: 8 word) = push_bit 4 (mask 4)"
  "(128 :: 8 word) = push_bit 7 (mask 1)"
  by code_simp+

lemma low_bits:
  fixes x :: "8 word"
  shows "x AND 1 = take_bit 1 x" "x AND 3 = take_bit 2 x" "x AND 7 = take_bit 3 x" "x AND 15 = take_bit 4 x" "x AND 31 = take_bit 5 x"
  by (simp_all add: take_bit_eq_mask mask_eq_exp_minus_1)

lemma high_bits:
  fixes x :: "8 word"
  shows "drop_bit 5 (x AND 224) = drop_bit 5 x" "drop_bit 6 (x AND 192) = drop_bit 6 x"
    "drop_bit 4 (x AND 240) = drop_bit 4 x" "drop_bit 7 (x AND 128) = drop_bit 7 x" "drop_bit 3 (x AND 248) = drop_bit 3 x"
proof -
  have "take_bit m (drop_bit k x) = drop_bit k x" if "8 \<le> m + k" for m k
    using that by (intro bit_word_eqI) (auto simp: bit_simps dest: bit_imp_le_length)
  then show "drop_bit 5 (x AND 224) = drop_bit 5 x" "drop_bit 6 (x AND 192) = drop_bit 6 x"
    "drop_bit 4 (x AND 240) = drop_bit 4 x" "drop_bit 7 (x AND 128) = drop_bit 7 x" "drop_bit 3 (x AND 248) = drop_bit 3 x"
    unfolding masks drop_masked by (simp_all del: take_bit_eq_mod take_bit_Suc_0)
qed

lemma unat_digits:
  fixes x :: "8 word"
  shows "unat (drop_bit 5 (x AND 224)) = unat x div 32" "unat (drop_bit 3 (x AND 248)) = unat x div 8"
    "unat (drop_bit 1 (x AND 62)) = unat x div 2 mod 32" "unat (drop_bit 2 (x AND 124)) = unat x div 4 mod 32"
    "unat (x AND 31) = unat x mod 32"
  unfolding high_bits low_bits by (simp_all only: unat_drop_bit unat_take_bit masks drop_masked) simp_all

lemma unat_or_parts:
  fixes x y :: "8 word"
  assumes "k + m \<le> 8"
  shows "unat (push_bit k (take_bit m x) OR drop_bit (8 - k) y) = (unat x mod 2 ^ m) * 2 ^ k + unat y div 2 ^ (8 - k)"
proof -
  have a: "unat (take_bit m x) = unat x mod 2 ^ m" by (rule unat_take_bit)
  have "unat (push_bit k (take_bit m x)) = take_bit 8 (push_bit k (unat x mod 2 ^ m))"
    by (simp add: unsigned_push_bit_eq a)
  also have "\<dots> = unat x mod 2 ^ m * 2 ^ k"
  proof -
    have "unat x mod 2 ^ m * 2 ^ k < 2 ^ m * 2 ^ k" by simp
    also have "\<dots> \<le> (2::nat) ^ 8" using power_increasing[OF assms, of "2::nat"] by (simp add: power_add mult.commute)
    finally show ?thesis by (simp add: push_bit_eq_mult take_bit_eq_mod)
  qed
  finally have p: "unat (push_bit k (take_bit m x)) = unat x mod 2 ^ m * 2 ^ k" .
  have q: "unat (drop_bit (8 - k) y) = unat y div 2 ^ (8 - k)" by (rule unat_drop_bit)
  have "unat (push_bit k (take_bit m x) OR drop_bit (8 - k) y) = (unat x mod 2 ^ m * 2 ^ k) OR (unat y div 2 ^ (8 - k))"
    by (simp add: unsigned_or_eq p q)
  also have "\<dots> = push_bit k (unat x mod 2 ^ m) + (unat y div 2 ^ (8 - k))"
  proof -
    have "unat y < 2 ^ 8" using unsigned_less[of y] by simp
    then have "unat y div 2 ^ (8 - k) < 2 ^ k"
      using assms by (simp add: less_mult_imp_div_less flip: power_add)
    then have "take_bit k (unat y div 2 ^ (8 - k)) = unat y div 2 ^ (8 - k)" by (simp add: take_bit_nat_eq_self)
    then have "\<not> bit (unat y div 2 ^ (8 - k)) n" if "k \<le> n" for n using that by (metis bit_take_bit_iff not_le)
    then show ?thesis 
      by (subst disjunctive_add) (auto simp: push_bit_eq_mult[symmetric] bit_push_bit_iff not_less)
  qed
  finally show ?thesis by (simp add: push_bit_eq_mult)
qed

lemma unat_joins:
  fixes x y :: "8 word"
  shows "unat (push_bit 2 (x AND 7) OR drop_bit 6 (y AND 192)) = unat x mod 8 * 4 + unat y div 64"
    "unat (push_bit 4 (x AND 1) OR drop_bit 4 (y AND 240)) = unat x mod 2 * 16 + unat y div 16"
    "unat (push_bit 1 (x AND 15) OR drop_bit 7 (y AND 128)) = unat x mod 16 * 2 + unat y div 128"
    "unat (push_bit 3 (x AND 3) OR drop_bit 5 (y AND 224)) = unat x mod 4 * 8 + unat y div 32"
  unfolding low_bits high_bits
  using unat_or_parts[of 2 3 x y] unat_or_parts[of 4 1 x y] unat_or_parts[of 1 4 x y] unat_or_parts[of 3 2 x y]
  by simp_all

text \<open>Five bytes are eight digits.\<close>

definition chunk :: "nat \<Rightarrow> nat \<Rightarrow> nat \<Rightarrow> nat \<Rightarrow> nat \<Rightarrow> nat list" where
  "chunk a b c d e =
     [a div 8, a mod 8 * 4 + b div 64, b div 2 mod 32, b mod 2 * 16 + c div 16, c mod 16 * 2 + d div 128,
      d div 4 mod 32, d mod 4 * 8 + e div 32, e mod 32]"

lemma chunk_sum:
  fixes a1 a0 :: nat
  shows "(8 * a1 + a0) * 4294967296 + (64 * b2 + 2 * b1 + b0) * 16777216 + (16 * c1 + c0) * 65536
      + (128 * d2 + 4 * d1 + d0) * 256 + (32 * e1 + e0) =
    a1 * 34359738368 + (a0 * 4 + b2) * 1073741824 + b1 * 33554432 + (b0 * 16 + c1) * 1048576
      + (c0 * 2 + d2) * 32768 + d1 * 1024 + (d0 * 8 + e1) * 32 + e0"
  by (simp add: algebra_simps)

lemma chunk_value: "positional 32 (chunk a b c d e) = positional 256 [a, b, c, d, e]"
proof -
  have split: "n = m * k * (n div (m * k)) + m * (n div m mod k) + n mod m" for n m k :: nat
  proof -
    have "n = m * (n div m) + n mod m" "n div m = k * (n div m div k) + n div m mod k" by simp_all
    moreover have "n div m div k = n div (m * k)" by (simp add: div_mult2_eq)
    ultimately show ?thesis by (metis distrib_left mult.assoc)
  qed
  have eqs: "8 * (a div 8) + a mod 8 = a" "64 * (b div 64) + 2 * (b div 2 mod 32) + b mod 2 = b"
    "16 * (c div 16) + c mod 16 = c" "128 * (d div 128) + 4 * (d div 4 mod 32) + d mod 4 = d"
    "32 * (e div 32) + e mod 32 = e" using split[of b 2 32] split[of d 4 32] by simp_all
  have "positional 256 [a, b, c, d, e] = a * 4294967296 + b * 16777216 + c * 65536 + d * 256 + e"
    by (simp add: positional_def algebra_simps)
  moreover have "positional 32 (chunk a b c d e) = a div 8 * 34359738368 + (a mod 8 * 4 + b div 64) * 1073741824
      + b div 2 mod 32 * 33554432 + (b mod 2 * 16 + c div 16) * 1048576 + (c mod 16 * 2 + d div 128) * 32768
      + d div 4 mod 32 * 1024 + (d mod 4 * 8 + e div 32) * 32 + e mod 32"
    by (simp add: positional_def chunk_def algebra_simps)
  ultimately show ?thesis
    using chunk_sum[of "a div 8" "a mod 8" "b div 64" "b div 2 mod 32" "b mod 2" "c div 16" "c mod 16"
        "d div 128" "d div 4 mod 32" "d mod 4" "e div 32" "e mod 32", unfolded eqs] by (simp only:)
qed

lemma chunk_less:
  "a < 256 \<Longrightarrow> b < 256 \<Longrightarrow> c < 256 \<Longrightarrow> d < 256 \<Longrightarrow> e < 256 \<Longrightarrow> x \<in> set (chunk a b c d e) \<Longrightarrow> x < 32"
  by (auto simp: chunk_def)

lemma digits_value:
  assumes "length b = 16"
  shows "positional 32 (map unat (ulid_digits b)) = positional 256 (map unat b)" "length (ulid_digits b) = 26"
    "\<And>d. d \<in> set (ulid_digits b) \<Longrightarrow> unat d < 32"
proof -
  let ?n = "\<lambda>k. unat (b ! k)"
  have "map unat b = map ?n [0..<16]" using assms by (simp add: list_eq_iff_nth_eq)
  also have "[0..<16] = [0] @ [1, 2, 3, 4, 5] @ [6, 7, 8, 9, 10] @ [11, 12, 13, 14, 15]" by code_simp
  finally have bytes: "map unat b = [?n 0] @ [?n 1, ?n 2, ?n 3, ?n 4, ?n 5] @ [?n 6, ?n 7, ?n 8, ?n 9, ?n 10] @
      [?n 11, ?n 12, ?n 13, ?n 14, ?n 15]" by simp
  have digits: "map unat (ulid_digits b) = [?n 0 div 32, ?n 0 mod 32] @ chunk (?n 1) (?n 2) (?n 3) (?n 4) (?n 5) @
      chunk (?n 6) (?n 7) (?n 8) (?n 9) (?n 10) @ chunk (?n 11) (?n 12) (?n 13) (?n 14) (?n 15)"
    unfolding ulid_digits_def chunk_def list.map unat_digits unat_joins by (simp only: append.simps)
  have len: "length (chunk p q r s t) = 8" for p q r s t by (simp add: chunk_def)
  have "positional 32 [?n 0 div 32, ?n 0 mod 32] = positional 256 [?n 0]" by (simp add: positional_def)
  then show "positional 32 (map unat (ulid_digits b)) = positional 256 (map unat b)"
    unfolding digits bytes positional_append chunk_value by (simp only: length_append len list.size) simp
  show "length (ulid_digits b) = 26" by (simp add: ulid_digits_def)
  have byte: "?n k < 256" for k using unsigned_less[of "b ! k"] by simp
  have "x < 32" if x: "x \<in> set (map unat (ulid_digits b))" for x
    using x chunk_less[OF byte byte byte byte byte] byte[of 0] unfolding digits by (auto simp: less_mult_imp_div_less)
  then show "unat d < 32" if "d \<in> set (ulid_digits b)" for d using that by simp
qed

subsection \<open>Identifiers\<close>

lemma crockford_table:
  "list_all (\<lambda>d. is_alnum (crockford ! d) \<and> b64_char (crockford ! d) \<and>
     list_all (\<lambda>c. c < d \<longrightarrow> crockford ! c < crockford ! d) [0..<32]) [0..<32]"
  by code_simp

lemma crockford_digit:
  "d < 32 \<Longrightarrow> is_alnum (crockford ! d) \<and> b64_char (crockford ! d)"
  "c < d \<Longrightarrow> d < 32 \<Longrightarrow> crockford ! c < crockford ! d"
  using crockford_table unfolding list_all_iff set_upt atLeastLessThan_iff by auto

lemma encodeULID_less:
  assumes "length a = 16" "length b = 16" "positional 256 (map unat a) < positional 256 (map unat b)"
  shows "encodeULID a < encodeULID b"
proof -
  have "map (\<lambda>d. crockford ! d) (map unat (ulid_digits a)) < map (\<lambda>d. crockford ! d) (map unat (ulid_digits b))"
    using digits_value[OF assms(1)] digits_value[OF assms(2)] assms(3)
    by (intro positional_lex[where B = 32] crockford_digit(2)) auto
  then show ?thesis by (simp add: encodeULID_def comp_def)
qed

lemma encodeULID_identifier:
  assumes "length b = 16"
  shows "identifierRe (encodeULID b)" "length (encodeULID b) = 26"
proof -
  show len: "length (encodeULID b) = 26" using digits_value(2)[OF assms] by (simp add: encodeULID_def)
  have all: "is_alnum c \<and> b64_char c" if "c \<in> set (encodeULID b)" for c
    using that crockford_digit(1) digits_value(3)[OF assms] by (auto simp: encodeULID_def)
  from len have "encodeULID b \<noteq> []" by auto
  then show "identifierRe (encodeULID b)"
    using all len by (cases "encodeULID b") (auto simp: identifierRe_def list_all_iff)
qed

lemma increment_value:
  assumes "increment bs = (ok, bs')"
  shows "length bs' = length bs \<and>
    (if ok then positional 256 (map unat bs') = Suc (positional 256 (map unat bs))
     else positional 256 (map unat bs') = 0 \<and> Suc (positional 256 (map unat bs)) = 256 ^ length bs)"
  using assms
proof (induction bs arbitrary: ok bs')
  case (Cons b bs)
  obtain ok1 bs1 where rec: "increment bs = (ok1, bs1)" by (cases "increment bs")
  note IH = Cons.IH[OF rec]
  show ?case
  proof (cases ok1)
    case True
    then show ?thesis using Cons.prems IH rec by (auto simp: positional_Cons)
  next
    case False
    have b: "unat b < 256" using unsigned_less[of b] by simp
    have max: "unat (- 1 :: 8 word) = 255" by code_simp
    have "unat (b + 1) = (if b + 1 = 0 then 0 else Suc (unat b))" using unatSuc[of b] by (simp add: add.commute)
    moreover have "unat b = 255" if "b + 1 = 0" using that max by (simp add: eq_neg_iff_add_eq_0[symmetric])
    ultimately show ?thesis using False Cons.prems IH rec b by (auto simp: positional_Cons)
  qed
qed simp

lemma ms_value:
  assumes "unat ms < 2 ^ 48"
  shows "positional 256 (map unat (ms_bytes ms)) = unat ms"
proof -
  have byte: "unat (ucast x :: 8 word) = unat x mod 256" for x :: "64 word"
    by (simp add: unsigned_ucast_eq take_bit_eq_mod)
  have step: "n mod 256 ^ Suc k = (n div 256 ^ k mod 256) * 256 ^ k + n mod 256 ^ k" for n k :: nat
    using mod_mult2_eq[of n "256 ^ k" 256] by (simp add: mult.commute)
  have "unat ms = unat ms mod 256 ^ 6" using assms by simp
  also have "\<dots> = positional 256 (map (\<lambda>k. unat ms div 256 ^ k mod 256) [5, 4, 3, 2, 1, 0])"
    by (simp add: positional_def step[of _ 5, simplified] step[of _ 4, simplified] step[of _ 3, simplified]
        step[of _ 2, simplified] step[of _ 1, simplified])
  also have "\<dots> = positional 256 (map unat (ms_bytes ms))"
    by (simp add: ms_bytes_def byte unat_drop_bit)
  finally show ?thesis by simp
qed

lemma length_ms_bytes [simp]: "length (ms_bytes ms) = 6"
  by (simp add: ms_bytes_def)

definition ulid_of :: "id_state \<Rightarrow> string" where
  "ulid_of s = encodeULID (ms_bytes (idLastMS s) @ idLast s)"

definition id_value :: "id_state \<Rightarrow> nat" where
  "id_value s = unat (idLastMS s) * 256 ^ 10 + positional 256 (map unat (idLast s))"

lemma ulid_of_less:
  assumes "length (idLast s) = 10" "length (idLast t) = 10" "unat (idLastMS s) < 2 ^ 48" "unat (idLastMS t) < 2 ^ 48"
    "id_value s < id_value t"
  shows "ulid_of s < ulid_of t"
  unfolding ulid_of_def
  using assms ms_value[of "idLastMS s"] ms_value[of "idLastMS t"]
  by (intro encodeULID_less) (simp_all add: id_value_def positional_append)

lemma NewIDAt_step:
  assumes "NewIDAt ms rnd s = (i, s')" "length (idLast s) = 10" "length rnd = 10" "unat (idLastMS s) < 2 ^ 48"
  shows "i = ulid_of s'" "length (idLast s') = 10" "id_value s < id_value s'"
    "unat (idLastMS s') \<le> max (unat ms) (Suc (unat (idLastMS s)))"
proof -
  show "i = ulid_of s'" using assms(1) by (auto simp: NewIDAt_def ulid_of_def Let_def)
  obtain ok bs where inc: "increment (idLast s) = (ok, bs)" by (cases "increment (idLast s)")
  have small: "positional 256 (map unat (idLast s)) < 256 ^ 10"
    using positional_less[of "map unat (idLast s)" 256] assms(2) unsigned_less[where 'b = 8 and 'a = nat] by fastforce
  have suc: "unat (idLastMS s + 1) = Suc (unat (idLastMS s))" using assms(4) by (simp add: unat_plus_if')
  have later: "id_value s < id_value \<lparr>idLastMS = m, idLast = r\<rparr>" if "unat (idLastMS s) < unat m" for m r
  proof -
    have "id_value s < Suc (unat (idLastMS s)) * 256 ^ 10" using small by (simp add: id_value_def)
    also have "\<dots> \<le> unat m * 256 ^ 10" using that by (intro mult_right_mono) auto
    finally show ?thesis by (simp add: id_value_def)
  qed
  have s': "s' = (if ms \<le> idLastMS s then (if ok then s\<lparr>idLast := bs\<rparr> else \<lparr>idLastMS = idLastMS s + 1, idLast = rnd\<rparr>)
      else \<lparr>idLastMS = ms, idLast = rnd\<rparr>)"
    using assms(1) inc by (cases ok) (auto simp: NewIDAt_def Let_def)
  show "length (idLast s') = 10" using increment_value[OF inc] assms(2,3) by (simp add: s')
  show "id_value s < id_value s'"
    using increment_value[OF inc] later[of "idLastMS s + 1" rnd] later[of ms rnd] suc
    by (auto simp: s' id_value_def word_le_nat_alt)
  show "unat (idLastMS s') \<le> max (unat ms) (Suc (unat (idLastMS s)))"
    using suc by (auto simp: s' le_max_iff_disj)
qed

text \<open>
  Property C40: the identifiers one process draws are strictly increasing in the byte order the
  registry sorts by, whatever the clock does (it may stand still or step back) and whatever the
  random source returns; so they are distinct, and ordering by identifier is creation order. Each
  is 26 characters and a valid identifier of the contract. The time must fit 48 bits.
\<close>

theorem ids_increase:
  assumes "length (idLast s) = 10" "unat (idLastMS s) + length inputs < 2 ^ 48"
    and "\<forall>(ms, rnd) \<in> set inputs. length rnd = 10 \<and> unat ms + length inputs < 2 ^ 48"
  shows "sorted_wrt (<) (ulid_of s # new_ids inputs s) \<and>
    (\<forall>i \<in> set (new_ids inputs s). identifierRe i \<and> length i = 26)"
  using assms
proof (induction inputs arbitrary: s)
  case (Cons x inputs)
  obtain ms rnd where x: "x = (ms, rnd)" by (cases x)
  obtain i s' where new: "NewIDAt ms rnd s = (i, s')" by (cases "NewIDAt ms rnd s")
  have hyps: "length rnd = 10" "unat (idLastMS s) < 2 ^ 48" "unat ms + Suc (length inputs) < 2 ^ 48"
    "unat (idLastMS s) + Suc (length inputs) < 2 ^ 48"
    using Cons.prems x by auto
  note step = NewIDAt_step[OF new Cons.prems(1) hyps(1,2)]
  have ms': "unat (idLastMS s') + length inputs < 2 ^ 48" using step(4) hyps(3,4) by linarith
  have IH: "sorted_wrt (<) (ulid_of s' # new_ids inputs s') \<and> (\<forall>i \<in> set (new_ids inputs s'). identifierRe i \<and> length i = 26)"
    using Cons.IH[OF step(2) ms'] Cons.prems(3) x by force
  have "ulid_of s < ulid_of s'" using ulid_of_less[OF Cons.prems(1) step(2) hyps(2) _ step(3)] ms' by simp
  moreover have "identifierRe i \<and> length i = 26"
    using encodeULID_identifier[of "ms_bytes (idLastMS s') @ idLast s'"] step(1,2) by (simp add: ulid_of_def ms_bytes_def)
  ultimately show ?case using IH step(1) by (auto simp: x new intro: less_trans)
qed simp

theorem ids_increase_witness:
  "sorted_wrt (<) (new_ids [(1000, replicate 10 255), (1000, replicate 10 7), (999, replicate 10 0)]
     \<lparr>idLastMS = 0, idLast = replicate 10 0\<rparr>)"
  using ids_increase[of "\<lparr>idLastMS = 0, idLast = replicate 10 0\<rparr>"
      "[(1000, replicate 10 255), (1000, replicate 10 7), (999, replicate 10 0)]"] by simp

end
