(* ===== verification/Envelope.thy ===== *)
theory Envelope
  imports Contract
begin

text \<open>
  The signed envelopes of \<^verbatim>\<open>pkg/api/v1alpha1/signedjob.go\<close> and \<^verbatim>\<open>signedresult.go\<close>, and the decoders
  of \<^verbatim>\<open>decode.go\<close>. Ed25519, SHA-256 and the reading and writing of JSON are parameters: a
  \<open>crypto\<close> record of byte-string functions and a \<open>codec\<close> for each document. Go's
  \<^verbatim>\<open>strictjson.Unmarshal\<close> is the codec's reader, \<^verbatim>\<open>json.Marshal\<close> its writer.
\<close>

subsection \<open>Parameters\<close>

record crypto =
  ed_public :: "string \<Rightarrow> string"
  ed_sign :: "string \<Rightarrow> string \<Rightarrow> string"
  ed_verify :: "string \<Rightarrow> string \<Rightarrow> string \<Rightarrow> bool"
  sha256 :: "string \<Rightarrow> string"

record 'a codec =
  cd_read :: "string \<Rightarrow> 'a option"
  cd_write :: "'a \<Rightarrow> string"

subsection \<open>Constants and data\<close>

definition MaxDocumentSize :: nat where "MaxDocumentSize = 64 * 1024"
definition MaxSignedDocumentSize :: nat where "MaxSignedDocumentSize = 2 * MaxDocumentSize"
definition MaxSignedJobValidity :: duration where "MaxSignedJobValidity = 24 * hour"
definition DefaultClockSkew :: duration where "DefaultClockSkew = 5 * minute"
definition NonceBytes :: nat where "NonceBytes = 16"
definition maxHeaderSize :: nat where "maxHeaderSize = 4 * 1024"
definition KeyIDLength :: nat where "KeyIDLength = 16"
definition SigningAlgorithm :: string where "SigningAlgorithm = ''EdDSA''"
definition PrivateKeySize :: nat where "PrivateKeySize = 64"
definition PublicKeySize :: nat where "PublicKeySize = 32"
definition SignatureSize :: nat where "SignatureSize = 64"
definition KindSignedCertificateReconcileJob :: string where
  "KindSignedCertificateReconcileJob = ''SignedCertificateReconcileJob''"
definition KindSignedCertificateReconcileResult :: string where
  "KindSignedCertificateReconcileResult = ''SignedCertificateReconcileResult''"

record signed_header =
  hd_Alg :: string
  hd_Kid :: string
  hd_IssuedAt :: gotime
  hd_ExpiresAt :: gotime
  hd_Nonce :: string

record envelope =
  en_Protected :: string
  en_Payload :: string
  en_Signature :: string

text \<open>\<^verbatim>\<open>SignedJob\<close> and \<^verbatim>\<open>SignedResult\<close>: the same members around different payloads.\<close>

record signed_doc =
  sd_APIVersion :: string
  sd_Kind :: string
  sd_Protected :: string
  sd_Payload :: string
  sd_Signature :: string

record sign_options =
  so_IssuedAt :: gotime
  so_Validity :: duration
  so_Nonce :: string

record verify_options =
  vo_Now :: gotime
  vo_ClockSkew :: duration

datatype env_error =
    ErrDocumentTooLarge | ErrDecode | ErrInvalid validation_error
  | ErrSignatureInvalid | ErrUnknownSigningKey | ErrEnvelopeExpired | ErrEnvelopeNotYetValid
  | ErrKey | ErrValidity | ErrNonce

subsection \<open>Fields\<close>

definition is_url_char :: "char \<Rightarrow> bool" where
  "is_url_char c \<longleftrightarrow> is_alnum c \<or> c = CHR ''_'' \<or> c = CHR ''-''"

definition nonceRe :: "string \<Rightarrow> bool" where
  "nonceRe s \<longleftrightarrow> list_all is_url_char s \<and> 16 \<le> length s \<and> length s \<le> 128"

definition isLowerHex :: "string \<Rightarrow> bool" where
  "isLowerHex s \<longleftrightarrow> list_all is_lower_hex s"

definition hex_digit :: "nat \<Rightarrow> char" where
  "hex_digit n = ''0123456789abcdef'' ! n"

definition hex_encode :: "string \<Rightarrow> string" where
  "hex_encode s = concat (map (\<lambda>c. [hex_digit (byte_of c div 16), hex_digit (byte_of c mod 16)]) s)"

definition KeyID :: "crypto \<Rightarrow> string \<Rightarrow> string" where
  "KeyID K pub = take KeyIDLength (hex_encode (sha256 K pub))"

definition decodeB64 :: "string \<Rightarrow> string \<Rightarrow> nat \<Rightarrow> validation_error + string" where
  "decodeB64 field v mx =
     (if v = [] then Inl (invalid field)
      else if b64_encoded_len mx < length v then Inl (invalid field)
      else (case b64_decode True v of None \<Rightarrow> Inl (invalid field) | Some out \<Rightarrow> Inr out))"

subsection \<open>The envelope\<close>

definition signingInput :: "envelope \<Rightarrow> string" where
  "signingInput e = en_Protected e @ ''.'' @ en_Payload e"

text \<open>\<open>now\<close> is the clock and \<open>rnd\<close> the random bytes read when the caller names no nonce.\<close>

definition signEnvelope ::
  "crypto \<Rightarrow> signed_header codec \<Rightarrow> gotime \<Rightarrow> string \<Rightarrow> string \<Rightarrow> string \<Rightarrow> sign_options \<Rightarrow> env_error + envelope" where
  "signEnvelope K H now rnd payload key opts =
     (if length key \<noteq> PrivateKeySize then Inl ErrKey
      else
        let issued = (if so_IssuedAt opts = 0 then now else so_IssuedAt opts);
            issued = issued - issued mod second in
        if so_Validity opts \<le> 0 \<or> MaxSignedJobValidity < so_Validity opts then Inl ErrValidity
        else
          let nonce = (if so_Nonce opts = [] then b64_encode rnd else so_Nonce opts) in
          if \<not> nonceRe nonce then Inl ErrNonce
          else if MaxDocumentSize < length payload then Inl ErrDocumentTooLarge
          else
            let hdr = \<lparr>hd_Alg = SigningAlgorithm, hd_Kid = KeyID K (ed_public K key), hd_IssuedAt = issued,
                       hd_ExpiresAt = issued + so_Validity opts, hd_Nonce = nonce\<rparr>;
                e = \<lparr>en_Protected = b64_encode (cd_write H hdr), en_Payload = b64_encode payload, en_Signature = []\<rparr> in
            Inr (e\<lparr>en_Signature := b64_encode (ed_sign K key (signingInput e))\<rparr>))"

definition header :: "signed_header codec \<Rightarrow> envelope \<Rightarrow> validation_error + signed_header" where
  "header H e =
     (case decodeB64 ''protected'' (en_Protected e) maxHeaderSize of
        Inl err \<Rightarrow> Inl err
      | Inr raw \<Rightarrow>
          (case cd_read H raw of
             None \<Rightarrow> Inl (invalid ''protected'')
           | Some h \<Rightarrow>
               (case check_all
                  [reject_if (hd_Alg h \<noteq> SigningAlgorithm) (invalid ''protected.alg''),
                   reject_if (length (hd_Kid h) \<noteq> KeyIDLength \<or> \<not> isLowerHex (hd_Kid h)) (invalid ''protected.kid''),
                   reject_if (hd_IssuedAt h = 0) (invalid ''protected.issuedAt''),
                   reject_if (hd_ExpiresAt h = 0) (invalid ''protected.expiresAt''),
                   reject_if (\<not> hd_IssuedAt h < hd_ExpiresAt h) (invalid ''protected.expiresAt''),
                   reject_if (MaxSignedJobValidity < hd_ExpiresAt h - hd_IssuedAt h) (invalid ''protected.expiresAt''),
                   reject_if (\<not> nonceRe (hd_Nonce h)) (invalid ''protected.nonce'')] of
                  Some err \<Rightarrow> Inl err
                | None \<Rightarrow> Inr h)))"

definition envelope_validate :: "signed_header codec \<Rightarrow> envelope \<Rightarrow> validation_error option" where
  "envelope_validate H e =
     check_all
       [err_of (header H e),
        (case decodeB64 ''payload'' (en_Payload e) MaxDocumentSize of
           Inl err \<Rightarrow> Some err | Inr payload \<Rightarrow> reject_if (payload = []) (invalid ''payload'')),
        (case decodeB64 ''signature'' (en_Signature e) SignatureSize of
           Inl err \<Rightarrow> Some err | Inr sig \<Rightarrow> reject_if (length sig \<noteq> SignatureSize) (invalid ''signature''))]"

definition payloadBytes :: "envelope \<Rightarrow> string" where
  "payloadBytes e = (case b64_decode False (en_Payload e) of None \<Rightarrow> [] | Some p \<Rightarrow> p)"

definition envelope_verify ::
  "crypto \<Rightarrow> signed_header codec \<Rightarrow> gotime \<Rightarrow> (string \<Rightarrow> string option) \<Rightarrow> verify_options \<Rightarrow> envelope \<Rightarrow>
   env_error + (string \<times> signed_header)" where
  "envelope_verify K H clock keys opts e =
     (case envelope_validate H e of
        Some err \<Rightarrow> Inl (ErrInvalid err)
      | None \<Rightarrow>
          (case header H e of
             Inl err \<Rightarrow> Inl (ErrInvalid err)
           | Inr hdr \<Rightarrow>
               (case keys (hd_Kid hdr) of
                  None \<Rightarrow> Inl ErrUnknownSigningKey
                | Some pub \<Rightarrow>
                    if length pub \<noteq> PublicKeySize then Inl ErrUnknownSigningKey
                    else
                      let sig = (case b64_decode False (en_Signature e) of None \<Rightarrow> [] | Some s \<Rightarrow> s) in
                      if \<not> ed_verify K pub (signingInput e) sig then Inl ErrSignatureInvalid
                      else
                        let now = (if vo_Now opts = 0 then clock else vo_Now opts);
                            skew = (if vo_ClockSkew opts \<le> 0 then DefaultClockSkew else vo_ClockSkew opts) in
                        if hd_ExpiresAt hdr < now then Inl ErrEnvelopeExpired
                        else if now + skew < hd_IssuedAt hdr then Inl ErrEnvelopeNotYetValid
                        else Inr (payloadBytes e, hdr))))"

subsection \<open>Strict decoding\<close>

definition decodeStrict :: "'a codec \<Rightarrow> nat \<Rightarrow> string \<Rightarrow> env_error + 'a" where
  "decodeStrict D mx data =
     (if mx < length data then Inl ErrDocumentTooLarge
      else (case cd_read D data of None \<Rightarrow> Inl ErrDecode | Some v \<Rightarrow> Inr v))"

definition validated :: "('a \<Rightarrow> validation_error option) \<Rightarrow> env_error + 'a \<Rightarrow> env_error + 'a" where
  "validated check r =
     (case r of Inl err \<Rightarrow> Inl err
      | Inr v \<Rightarrow> (case check v of Some err \<Rightarrow> Inl (ErrInvalid err) | None \<Rightarrow> Inr v))"

definition DecodeJobSpec :: "job_spec codec \<Rightarrow> string \<Rightarrow> env_error + job_spec" where
  "DecodeJobSpec D data = validated JobSpec_Validate (decodeStrict D MaxDocumentSize data)"

definition DecodeResult :: "unicode \<Rightarrow> result_doc codec \<Rightarrow> string \<Rightarrow> env_error + result_doc" where
  "DecodeResult u D data = validated (Result_Validate u) (decodeStrict D MaxDocumentSize data)"

subsection \<open>Signed jobs and results\<close>

definition envelope_of :: "signed_doc \<Rightarrow> envelope" where
  "envelope_of s = \<lparr>en_Protected = sd_Protected s, en_Payload = sd_Payload s, en_Signature = sd_Signature s\<rparr>"

definition signed_of :: "string \<Rightarrow> envelope \<Rightarrow> signed_doc" where
  "signed_of kind e = \<lparr>sd_APIVersion = APIVersion, sd_Kind = kind, sd_Protected = en_Protected e,
     sd_Payload = en_Payload e, sd_Signature = en_Signature e\<rparr>"

definition SignJob ::
  "crypto \<Rightarrow> signed_header codec \<Rightarrow> job_spec codec \<Rightarrow> gotime \<Rightarrow> string \<Rightarrow> job_spec \<Rightarrow> string \<Rightarrow> sign_options \<Rightarrow>
   env_error + signed_doc" where
  "SignJob K H D now rnd spec key opts =
     (case JobSpec_Validate spec of
        Some err \<Rightarrow> Inl (ErrInvalid err)
      | None \<Rightarrow>
          (case signEnvelope K H now rnd (cd_write D spec) key opts of
             Inl err \<Rightarrow> Inl err
           | Inr e \<Rightarrow> Inr (signed_of KindSignedCertificateReconcileJob e)))"

definition SignResult ::
  "unicode \<Rightarrow> crypto \<Rightarrow> signed_header codec \<Rightarrow> result_doc codec \<Rightarrow> gotime \<Rightarrow> string \<Rightarrow> result_doc \<Rightarrow> string \<Rightarrow> sign_options \<Rightarrow>
   env_error + signed_doc" where
  "SignResult u K H D now rnd res key opts =
     (case Result_Validate u res of
        Some err \<Rightarrow> Inl (ErrInvalid err)
      | None \<Rightarrow>
          (case signEnvelope K H now rnd (cd_write D res) key opts of
             Inl err \<Rightarrow> Inl err
           | Inr e \<Rightarrow> Inr (signed_of KindSignedCertificateReconcileResult e)))"

definition SignedJob_Validate :: "signed_header codec \<Rightarrow> signed_doc \<Rightarrow> validation_error option" where
  "SignedJob_Validate H s =
     check_all
       [reject_if (sd_APIVersion s \<noteq> APIVersion) (invalid ''apiVersion''),
        reject_if (sd_Kind s \<noteq> KindSignedCertificateReconcileJob) (invalid ''kind''),
        envelope_validate H (envelope_of s)]"

definition SignedResult_Validate :: "signed_header codec \<Rightarrow> signed_doc \<Rightarrow> validation_error option" where
  "SignedResult_Validate H s =
     check_all
       [reject_if (sd_APIVersion s \<noteq> APIVersion) (invalid ''apiVersion''),
        reject_if (sd_Kind s \<noteq> KindSignedCertificateReconcileResult) (invalid ''kind''),
        envelope_validate H (envelope_of s)]"

definition DecodeSignedJob :: "signed_header codec \<Rightarrow> signed_doc codec \<Rightarrow> string \<Rightarrow> env_error + signed_doc" where
  "DecodeSignedJob H D data = validated (SignedJob_Validate H) (decodeStrict D MaxSignedDocumentSize data)"

definition DecodeSignedResult :: "signed_header codec \<Rightarrow> signed_doc codec \<Rightarrow> string \<Rightarrow> env_error + signed_doc" where
  "DecodeSignedResult H D data = validated (SignedResult_Validate H) (decodeStrict D MaxSignedDocumentSize data)"

definition SignedJob_Verify ::
  "crypto \<Rightarrow> signed_header codec \<Rightarrow> job_spec codec \<Rightarrow> gotime \<Rightarrow> (string \<Rightarrow> string option) \<Rightarrow> verify_options \<Rightarrow> signed_doc \<Rightarrow>
   env_error + (job_spec \<times> signed_header)" where
  "SignedJob_Verify K H D clock keys opts s =
     (case SignedJob_Validate H s of
        Some err \<Rightarrow> Inl (ErrInvalid err)
      | None \<Rightarrow>
          (case envelope_verify K H clock keys opts (envelope_of s) of
             Inl err \<Rightarrow> Inl err
           | Inr (payload, hdr) \<Rightarrow>
               (case DecodeJobSpec D payload of Inl err \<Rightarrow> Inl err | Inr spec \<Rightarrow> Inr (spec, hdr))))"

definition SignedResult_Verify ::
  "unicode \<Rightarrow> crypto \<Rightarrow> signed_header codec \<Rightarrow> result_doc codec \<Rightarrow> gotime \<Rightarrow> (string \<Rightarrow> string option) \<Rightarrow> verify_options \<Rightarrow> signed_doc \<Rightarrow>
   env_error + (result_doc \<times> signed_header)" where
  "SignedResult_Verify u K H D clock keys opts s =
     (case SignedResult_Validate H s of
        Some err \<Rightarrow> Inl (ErrInvalid err)
      | None \<Rightarrow>
          (case envelope_verify K H clock keys opts (envelope_of s) of
             Inl err \<Rightarrow> Inl err
           | Inr (payload, hdr) \<Rightarrow>
               (case DecodeResult u D payload of Inl err \<Rightarrow> Inl err | Inr res \<Rightarrow> Inr (res, hdr))))"

subsection \<open>What verification establishes\<close>

lemma header_Inr:
  assumes "header H e = Inr h"
  shows "\<exists>raw. decodeB64 ''protected'' (en_Protected e) maxHeaderSize = Inr raw \<and> cd_read H raw = Some h"
    "hd_IssuedAt h < hd_ExpiresAt h" "hd_ExpiresAt h - hd_IssuedAt h \<le> MaxSignedJobValidity" "nonceRe (hd_Nonce h)"
    "hd_Alg h = SigningAlgorithm"
  using assms by (auto simp: header_def go_checks split: sum.splits option.splits)

lemma decodeB64_Inr: "decodeB64 f v mx = Inr out \<Longrightarrow> b64_decode True v = Some out"
  by (auto simp: decodeB64_def split: if_splits option.splits)

lemma envelope_validate_None:
  assumes "envelope_validate H e = None"
  shows "\<exists>h. header H e = Inr h" "\<exists>p. b64_decode True (en_Payload e) = Some p \<and> p \<noteq> []"
    "\<exists>s. b64_decode True (en_Signature e) = Some s \<and> length s = SignatureSize"
  using assms by (auto simp: envelope_validate_def go_checks dest!: decodeB64_Inr split: sum.splits)

text \<open>The instant and the tolerance a call uses.\<close>

definition effective_now :: "gotime \<Rightarrow> verify_options \<Rightarrow> gotime" where
  "effective_now clock opts = (if vo_Now opts = 0 then clock else vo_Now opts)"

definition effective_skew :: "verify_options \<Rightarrow> duration" where
  "effective_skew opts = (if vo_ClockSkew opts \<le> 0 then DefaultClockSkew else vo_ClockSkew opts)"

definition in_window :: "signed_header \<Rightarrow> gotime \<Rightarrow> duration \<Rightarrow> bool" where
  "in_window h now skew \<longleftrightarrow> hd_IssuedAt h \<le> now + skew \<and> now \<le> hd_ExpiresAt h \<and>
     hd_ExpiresAt h - hd_IssuedAt h \<le> MaxSignedJobValidity"

definition signed_by :: "crypto \<Rightarrow> string \<Rightarrow> envelope \<Rightarrow> bool" where
  "signed_by K pub e \<longleftrightarrow> length pub = PublicKeySize \<and>
     (\<exists>sig. b64_decode True (en_Signature e) = Some sig \<and> length sig = SignatureSize \<and> ed_verify K pub (signingInput e) sig)"

lemma envelope_verify_Inr:
  assumes "envelope_verify K H clock keys opts e = Inr (payload, h)"
  shows "header H e = Inr h" "b64_decode True (en_Payload e) = Some payload"
    "\<exists>pub. keys (hd_Kid h) = Some pub \<and> signed_by K pub e"
    "in_window h (effective_now clock opts) (effective_skew opts)"
proof -
  have v: "envelope_validate H e = None" using assms by (auto simp: envelope_verify_def split: option.splits)
  note ok = envelope_validate_None[OF v]
  obtain p sig h' where p: "b64_decode True (en_Payload e) = Some p" "b64_decode True (en_Signature e) = Some sig"
    "length sig = SignatureSize" "header H e = Inr h'" using ok by auto
  note lenient = b64_decode_lenient[OF p(1)] b64_decode_lenient[OF p(2)]
  show h: "header H e = Inr h" and "b64_decode True (en_Payload e) = Some payload"
    using assms v p lenient
    by (auto simp: envelope_verify_def payloadBytes_def Let_def split: option.splits if_splits)
  show "\<exists>pub. keys (hd_Kid h) = Some pub \<and> signed_by K pub e"
    using assms v p lenient
    by (auto simp: envelope_verify_def signed_by_def Let_def split: option.splits if_splits)
  show "in_window h (effective_now clock opts) (effective_skew opts)"
    using assms v p header_Inr(3)[OF h]
    by (auto simp: envelope_verify_def in_window_def effective_now_def effective_skew_def Let_def split: option.splits if_splits)
qed

lemma decoded_and_valid: "validated check (decodeStrict D mx data) = Inr v \<longleftrightarrow>
    length data \<le> mx \<and> cd_read D data = Some v \<and> check v = None"
  by (auto simp: validated_def decodeStrict_def split: sum.splits option.splits)

text \<open>
  What acting on a verified job relies on. A job that verifies was signed, over exactly
  the header and payload bytes that were then decoded, by a key the verifier trusts under the
  header's key identifier; the moment of verification lies within a window of at most a day; and
  the document returned is the strict reading of the signed payload and passes the contract's
  validation.
\<close>

theorem verified_job_sound:
  assumes "SignedJob_Verify K H D clock keys opts s = Inr (spec, h)"
  shows "\<exists>pub payload. keys (hd_Kid h) = Some pub \<and> signed_by K pub (envelope_of s) \<and>
    header H (envelope_of s) = Inr h \<and> in_window h (effective_now clock opts) (effective_skew opts) \<and>
    b64_decode True (sd_Payload s) = Some payload \<and> cd_read D payload = Some spec \<and> JobSpec_Validate spec = None"
proof -
  obtain payload where p: "envelope_verify K H clock keys opts (envelope_of s) = Inr (payload, h)"
    "DecodeJobSpec D payload = Inr spec"
    using assms by (auto simp: SignedJob_Verify_def split: option.splits sum.splits)
  note e = envelope_verify_Inr[OF p(1)]
  show ?thesis using e p(2) by (auto simp: DecodeJobSpec_def decoded_and_valid envelope_of_def)
qed

subsection \<open>Round trip\<close>

definition signs_ok :: "crypto \<Rightarrow> string \<Rightarrow> string \<Rightarrow> bool" where
  "signs_ok K key m \<longleftrightarrow>
     length (ed_public K key) = PublicKeySize \<and> length (ed_sign K key m) = SignatureSize \<and>
     ed_verify K (ed_public K key) m (ed_sign K key m) \<and> length (sha256 K (ed_public K key)) = 32"

definition crypto_ok :: "crypto \<Rightarrow> bool" where
  "crypto_ok K \<longleftrightarrow> (\<forall>key m. length key = PrivateKeySize \<longrightarrow> signs_ok K key m)"

definition reads_back :: "'a codec \<Rightarrow> 'a \<Rightarrow> bool" where
  "reads_back D v \<longleftrightarrow> cd_write D v \<noteq> [] \<and> cd_read D (cd_write D v) = Some v"

definition sign_header :: "crypto \<Rightarrow> gotime \<Rightarrow> string \<Rightarrow> string \<Rightarrow> sign_options \<Rightarrow> signed_header" where
  "sign_header K now rnd key opts =
     (let issued = (if so_IssuedAt opts = 0 then now else so_IssuedAt opts) in
      \<lparr>hd_Alg = SigningAlgorithm, hd_Kid = KeyID K (ed_public K key), hd_IssuedAt = issued - issued mod second,
       hd_ExpiresAt = issued - issued mod second + so_Validity opts,
       hd_Nonce = (if so_Nonce opts = [] then b64_encode rnd else so_Nonce opts)\<rparr>)"

lemma signEnvelope_Inr:
  assumes "signEnvelope K H now rnd payload key opts = Inr e"
  shows "length key = PrivateKeySize" "0 < so_Validity opts" "so_Validity opts \<le> MaxSignedJobValidity"
    "nonceRe (hd_Nonce (sign_header K now rnd key opts))" "length payload \<le> MaxDocumentSize"
    "en_Protected e = b64_encode (cd_write H (sign_header K now rnd key opts))" "en_Payload e = b64_encode payload"
    "en_Signature e = b64_encode (ed_sign K key (signingInput e))"
  using assms by (auto simp: signEnvelope_def sign_header_def signingInput_def Let_def split: if_splits)

lemma b64_encode_nonempty: "b64_encode s = [] \<longleftrightarrow> s = []"
  using length_b64_encode[of s] by (cases s) (auto simp: b64_encoded_len_def b64_encode_def)

lemma decodeB64_encode:
  "s \<noteq> [] \<Longrightarrow> length s \<le> mx \<Longrightarrow> decodeB64 f (b64_encode s) mx = Inr s"
  using b64_encoded_len_mono[of "length s" mx]
  by (simp add: decodeB64_def b64_encode_nonempty length_b64_encode b64_decode_encode)

lemma hex_table: "list_all (\<lambda>n. is_lower_hex (hex_digit n)) [0..<16]"
  by code_simp

lemma KeyID_ok:
  assumes "length (sha256 K pub) = 32"
  shows "length (KeyID K pub) = KeyIDLength" "isLowerHex (KeyID K pub)"
proof -
  have len: "length (hex_encode s) = 2 * length s" for s by (induction s) (simp_all add: hex_encode_def)
  show "length (KeyID K pub) = KeyIDLength" using assms by (simp add: KeyID_def len KeyIDLength_def)
  have "is_lower_hex (hex_digit n)" if "n < 16" for n using that hex_table by (simp add: list_all_iff)
  moreover have "byte_of c div 16 < 16" for c using byte_of_less[of c] by (simp add: less_mult_imp_div_less)
  ultimately have "\<forall>c \<in> set (hex_encode s). is_lower_hex c" for s by (auto simp: hex_encode_def)
  then show "isLowerHex (KeyID K pub)" by (auto simp: KeyID_def isLowerHex_def list_all_iff dest: in_set_takeD)
qed

lemma sign_verify:
  assumes K: "signs_ok K key (signingInput e)" and sg: "signEnvelope K H now rnd payload key opts = Inr e"
    and h: "h = sign_header K now rnd key opts" and H: "reads_back H h" "length (cd_write H h) \<le> maxHeaderSize"
    and payload: "payload \<noteq> []" and set: "hd_IssuedAt h \<noteq> 0" "hd_ExpiresAt h \<noteq> 0"
    and keys: "keys (KeyID K (ed_public K key)) = Some (ed_public K key)"
    and window: "in_window h (effective_now clock vopts) (effective_skew vopts)"
  shows "envelope_validate H e = None" "envelope_verify K H clock keys vopts e = Inr (payload, h)"
proof -
  note e = signEnvelope_Inr[OF sg]
  have hs: "hd_Kid h = KeyID K (ed_public K key)" "hd_Alg h = SigningAlgorithm" "hd_ExpiresAt h = hd_IssuedAt h + so_Validity opts"
    by (simp_all add: h sign_header_def Let_def)
  have "decodeB64 ''protected'' (en_Protected e) maxHeaderSize = Inr (cd_write H h)"
    using H by (simp add: e(6) h[symmetric] decodeB64_encode reads_back_def)
  then have head: "header H e = Inr h"
    using H(1) set e(2,3,4) KeyID_ok[of K "ed_public K key"] K
    by (simp add: header_def reads_back_def hs h[symmetric] reject_if_def signs_ok_def)
  have sig: "length (ed_sign K key (signingInput e)) = SignatureSize" "ed_verify K (ed_public K key) (signingInput e) (ed_sign K key (signingInput e))"
    "length (ed_public K key) = PublicKeySize" using K by (simp_all add: signs_ok_def)
  have ne: "ed_sign K key (signingInput e) \<noteq> []" using sig(1) by (auto simp: SignatureSize_def)
  show v: "envelope_validate H e = None"
    using head payload e(5) sig(1) ne
    by (simp add: envelope_validate_def decodeB64_encode e(7)) (simp add: e(8) decodeB64_encode reject_if_def)
  have "b64_decode False (en_Signature e) = Some (ed_sign K key (signingInput e))"
    by (subst e(8)) (rule b64_decode_encode)
  then show "envelope_verify K H clock keys vopts e = Inr (payload, h)"
    using v head keys hs(1) sig window e(7)
    by (simp add: envelope_verify_def Let_def payloadBytes_def b64_decode_encode in_window_def effective_now_def effective_skew_def)
qed

lemma envelope_of_signed [simp]: "envelope_of (signed_of kind e) = e"
  by (simp add: envelope_of_def signed_of_def)

lemma SignJob_Inr: "SignJob K H D now rnd spec key opts = Inr s \<longleftrightarrow> JobSpec_Validate spec = None \<and>
    (\<exists>e. signEnvelope K H now rnd (cd_write D spec) key opts = Inr e \<and> s = signed_of KindSignedCertificateReconcileJob e)"
  by (auto simp: SignJob_def split: option.splits sum.splits)

lemma signed_job_verifies:
  assumes K: "signs_ok K key (signingInput (envelope_of s))" and sg: "SignJob K H D now rnd spec key opts = Inr s"
    and h: "h = sign_header K now rnd key opts" and H: "reads_back H h" "length (cd_write H h) \<le> maxHeaderSize"
    and D: "reads_back D spec" and set: "hd_IssuedAt h \<noteq> 0" "hd_ExpiresAt h \<noteq> 0"
    and keys: "keys (KeyID K (ed_public K key)) = Some (ed_public K key)"
    and window: "in_window h (effective_now clock vopts) (effective_skew vopts)"
  shows "SignedJob_Verify K H D clock keys vopts s = Inr (spec, h)"
proof -
  obtain e where e: "signEnvelope K H now rnd (cd_write D spec) key opts = Inr e"
    and s: "s = signed_of KindSignedCertificateReconcileJob e" and valid: "JobSpec_Validate spec = None"
    using sg by (auto simp: SignJob_Inr)
  have env: "envelope_of s = e" by (simp add: s envelope_of_def signed_of_def)
  have ne: "cd_write D spec \<noteq> []" using D by (simp add: reads_back_def)
  note v = sign_verify[where keys = keys and clock = clock and vopts = vopts, OF K[unfolded env] e h H ne set keys window]
  have "SignedJob_Validate H s = None" using v(1) env by (simp add: SignedJob_Validate_def s signed_of_def go_checks)
  moreover have "DecodeJobSpec D (cd_write D spec) = Inr spec"
    using D valid signEnvelope_Inr(5)[OF e] by (simp add: DecodeJobSpec_def decoded_and_valid reads_back_def)
  ultimately show ?thesis using v(2) env by (simp add: SignedJob_Verify_def)
qed

text \<open>
  Property C35: a signed job comes back as it was signed. Whoever holds the signer's public key under
  its identifier, and reads the envelope within its window, gets the same JobSpec and the header
  it was signed with, provided JSON written from that header and that JobSpec reads back as it.
\<close>

theorem signed_job_round_trip:
  assumes K: "crypto_ok K" and sg: "SignJob K H D now rnd spec key opts = Inr s"
    and h: "h = sign_header K now rnd key opts" and H: "reads_back H h" "length (cd_write H h) \<le> maxHeaderSize"
    and D: "reads_back D spec" and set: "hd_IssuedAt h \<noteq> 0" "hd_ExpiresAt h \<noteq> 0"
    and keys: "keys (KeyID K (ed_public K key)) = Some (ed_public K key)"
    and window: "in_window h (effective_now clock vopts) (effective_skew vopts)"
  shows "SignedJob_Verify K H D clock keys vopts s = Inr (spec, h)"
proof -
  have "length key = PrivateKeySize" using sg by (auto simp: SignJob_Inr dest: signEnvelope_Inr(1))
  then have "signs_ok K key (signingInput (envelope_of s))" using K by (simp add: crypto_ok_def)
  from signed_job_verifies[where keys = keys, OF this sg h H D set keys window] show ?thesis .
qed

definition sample_crypto :: crypto where
  "sample_crypto = \<lparr>ed_public = take 32, ed_sign = (\<lambda>key m. take 64 (take 32 key @ m @ replicate 64 CHR ''s'')),
     ed_verify = (\<lambda>p m sig. sig = take 64 (p @ m @ replicate 64 CHR ''s'')), sha256 = (\<lambda>p. replicate 32 CHR ''h'')\<rparr>"

definition sample_key :: string where "sample_key = replicate 64 CHR ''k''"

definition sample_sign_opts :: sign_options where
  "sample_sign_opts = \<lparr>so_IssuedAt = hour, so_Validity = hour, so_Nonce = replicate 16 CHR ''n''\<rparr>"

definition sample_header :: signed_header where
  "sample_header = sign_header sample_crypto 0 [] sample_key sample_sign_opts"

definition sample_header_codec :: "signed_header codec" where
  "sample_header_codec = \<lparr>cd_read = (\<lambda>_. Some sample_header), cd_write = (\<lambda>_. ''{header}'')\<rparr>"

definition sample_job_codec :: "job_spec codec" where
  "sample_job_codec = \<lparr>cd_read = (\<lambda>_. Some sample_job), cd_write = (\<lambda>_. ''{job}'')\<rparr>"

definition sample_signed :: signed_doc where
  "sample_signed = projr (SignJob sample_crypto sample_header_codec sample_job_codec 0 [] sample_job sample_key sample_sign_opts)"

definition sample_keys :: "string \<Rightarrow> string option" where
  "sample_keys = (\<lambda>kid. if kid = KeyID sample_crypto (take 32 sample_key) then Some (take 32 sample_key) else None)"

definition sample_verify_opts :: verify_options where
  "sample_verify_opts = \<lparr>vo_Now = hour + minute, vo_ClockSkew = 0\<rparr>"

lemma sample_crypto_ok: "crypto_ok sample_crypto"
  by (auto simp: crypto_ok_def signs_ok_def sample_crypto_def PrivateKeySize_def PublicKeySize_def SignatureSize_def)

lemma sample_signs:
  "SignJob sample_crypto sample_header_codec sample_job_codec 0 [] sample_job sample_key sample_sign_opts = Inr sample_signed"
proof -
  have "nonceRe (replicate 16 CHR ''n'')" by code_simp
  then have "\<exists>s. SignJob sample_crypto sample_header_codec sample_job_codec 0 [] sample_job sample_key sample_sign_opts = Inr s"
    by (simp add: SignJob_def sample_job_valid signEnvelope_def sample_key_def sample_sign_opts_def sample_job_codec_def
        PrivateKeySize_def MaxSignedJobValidity_def MaxDocumentSize_def Let_def del: replicate.simps)
  then show ?thesis by (auto simp: sample_signed_def)
qed

lemma sample_header_times: "hd_IssuedAt sample_header = hour" "hd_ExpiresAt sample_header = 2 * hour"
  by (simp_all add: sample_header_def sign_header_def sample_sign_opts_def)

lemma sample_codecs: "reads_back sample_header_codec sample_header" "length (cd_write sample_header_codec sample_header) \<le> maxHeaderSize"
  "reads_back sample_job_codec sample_job" "hd_IssuedAt sample_header \<noteq> 0" "hd_ExpiresAt sample_header \<noteq> 0"
  by (simp_all add: reads_back_def sample_header_codec_def sample_job_codec_def maxHeaderSize_def sample_header_times)

lemma sample_trusted: "sample_keys (KeyID sample_crypto (ed_public sample_crypto sample_key)) = Some (ed_public sample_crypto sample_key)"
  by (simp add: sample_keys_def sample_crypto_def)

lemma sample_window: "in_window sample_header (effective_now 0 sample_verify_opts) (effective_skew sample_verify_opts)"
  by (simp add: in_window_def effective_now_def effective_skew_def sample_verify_opts_def sample_header_times MaxSignedJobValidity_def
      DefaultClockSkew_def)

theorem signed_job_round_trip_witness:
  "SignedJob_Verify sample_crypto sample_header_codec sample_job_codec 0 sample_keys sample_verify_opts sample_signed =
     Inr (sample_job, sample_header)"
  by (rule signed_job_round_trip[where keys = sample_keys, OF sample_crypto_ok sample_signs sample_header_def sample_codecs sample_trusted sample_window])

lemma sample_signs_ok: "signs_ok sample_crypto sample_key m"
  using sample_crypto_ok by (simp add: crypto_ok_def sample_key_def PrivateKeySize_def)

lemma sample_verified: "SignedJob_Verify sample_crypto sample_header_codec sample_job_codec 0 sample_keys sample_verify_opts sample_signed =
     Inr (sample_job, sample_header)"
  by (rule signed_job_verifies[where keys = sample_keys, OF sample_signs_ok sample_signs sample_header_def sample_codecs sample_trusted sample_window])

theorem verified_job_sound_witness: "\<exists>pub. sample_keys (hd_Kid sample_header) = Some pub \<and> signed_by sample_crypto pub (envelope_of sample_signed)"
  using verified_job_sound[OF sample_verified] by blast

subsection \<open>Integrity\<close>

text \<open>What verifies under a trusted key was signed, as an envelope, by its holder.\<close>

definition only_signed :: "crypto \<Rightarrow> signed_header codec \<Rightarrow> (string \<Rightarrow> string option) \<Rightarrow> envelope set \<Rightarrow> bool" where
  "only_signed K H keys issued \<longleftrightarrow>
     (\<forall>e \<in> issued. \<exists>now rnd payload key opts. signEnvelope K H now rnd payload key opts = Inr e) \<and>
     (\<forall>kid pub m sig. keys kid = Some pub \<longrightarrow> ed_verify K pub m sig \<longrightarrow> m \<in> signingInput ` issued)"

lemma dec_digit_dot: "dec_digit CHR ''.'' = None"
  by code_simp

lemma decoded_no_dot: "b64_decode strict s = Some out \<Longrightarrow> CHR ''.'' \<notin> set s"
proof
  assume "b64_decode strict s = Some out" and dot: "CHR ''.'' \<in> set s"
  then obtain ds where "those (map dec_digit (filter (Not \<circ> is_crlf) s)) = Some ds"
    by (auto simp: b64_decode_def bind_eq_Some_conv)
  moreover have "those (map dec_digit cs) = None" if "CHR ''.'' \<in> set cs" for cs
    using that by (induction cs) (auto simp: dec_digit_dot split: option.splits)
  ultimately show False using dot by (auto simp: is_crlf_def)
qed

lemma split_at_dot:
  assumes "xs @ CHR ''.'' # ys = us @ CHR ''.'' # vs" "CHR ''.'' \<notin> set xs" "CHR ''.'' \<notin> set us"
  shows "xs = us \<and> ys = vs"
  using assms by (induction xs arbitrary: us) (auto simp: Cons_eq_append_conv append_eq_Cons_conv)

text \<open>
  Property C36: nobody but the holders of the trusted keys can change what a Runner executes. If
  every message that verifies under a trusted key is the signing input of an envelope one of
  those holders issued, then an accepted job has the header and payload of an issued envelope,
  character by character, and the JobSpec acted upon is the strict reading of the very payload
  that was signed.
\<close>

theorem accepted_job_was_issued:
  assumes keys: "only_signed K H keys issued" and ok: "SignedJob_Verify K H D clock keys opts s = Inr (spec, h)"
  shows "\<exists>e \<in> issued. sd_Protected s = en_Protected e \<and> sd_Payload s = en_Payload e \<and>
    (\<exists>now rnd payload key opts. signEnvelope K H now rnd payload key opts = Inr e \<and> cd_read D payload = Some spec)"
proof -
  obtain payload where p: "envelope_verify K H clock keys opts (envelope_of s) = Inr (payload, h)"
    "DecodeJobSpec D payload = Inr spec"
    using ok by (auto simp: SignedJob_Verify_def split: option.splits sum.splits)
  note v = envelope_verify_Inr[OF p(1)]
  have "signingInput (envelope_of s) \<in> signingInput ` issued"
    using v(3) keys unfolding signed_by_def only_signed_def by blast
  then obtain e where e: "e \<in> issued" "signingInput (envelope_of s) = signingInput e" by blast
  obtain now rnd pl key so where sg: "signEnvelope K H now rnd pl key so = Inr e" using keys e(1) by (auto simp: only_signed_def)
  obtain raw where "b64_decode True (sd_Protected s) = Some raw"
    using header_Inr(1)[OF v(1)] by (auto dest: decodeB64_Inr simp: envelope_of_def)
  moreover have "b64_decode True (en_Protected e) = Some (cd_write H (sign_header K now rnd key so))"
    using signEnvelope_Inr(6)[OF sg] by (simp add: b64_decode_encode)
  ultimately have "sd_Protected s = en_Protected e \<and> sd_Payload s = en_Payload e"
    using e(2) decoded_no_dot by (intro split_at_dot) (auto simp: signingInput_def envelope_of_def)
  moreover from this have "payload = pl"
    using v(2) signEnvelope_Inr(7)[OF sg] by (simp add: envelope_of_def b64_decode_encode)
  then have "cd_read D pl = Some spec" using p(2) by (simp add: DecodeJobSpec_def decoded_and_valid)
  ultimately show ?thesis using e(1) sg by blast
qed

text \<open>A signature scheme under which nothing but the sample job's envelope verifies.\<close>

definition sample_strict :: crypto where
  "sample_strict = sample_crypto\<lparr>ed_verify := (\<lambda>p m sig. m = signingInput (envelope_of sample_signed))\<rparr>"

lemma sample_signed_shape:
  "sample_signed = signed_of KindSignedCertificateReconcileJob (envelope_of sample_signed)"
  "signEnvelope sample_crypto sample_header_codec 0 [] ''{job}'' sample_key sample_sign_opts = Inr (envelope_of sample_signed)"
proof -
  obtain e where e: "sample_signed = signed_of KindSignedCertificateReconcileJob e"
    "signEnvelope sample_crypto sample_header_codec 0 [] ''{job}'' sample_key sample_sign_opts = Inr e"
    using sample_signs by (auto simp: SignJob_Inr sample_job_codec_def)
  then show "sample_signed = signed_of KindSignedCertificateReconcileJob (envelope_of sample_signed)"
    "signEnvelope sample_crypto sample_header_codec 0 [] ''{job}'' sample_key sample_sign_opts = Inr (envelope_of sample_signed)"
    unfolding e(1) by simp_all
qed

lemma sample_strict_signs:
  "signEnvelope sample_strict sample_header_codec 0 [] ''{job}'' sample_key sample_sign_opts = Inr (envelope_of sample_signed)"
proof -
  have K: "ed_public sample_strict = ed_public sample_crypto" "ed_sign sample_strict = ed_sign sample_crypto"
    "KeyID sample_strict = KeyID sample_crypto" by (simp_all add: sample_strict_def KeyID_def fun_eq_iff)
  have "signEnvelope sample_strict = signEnvelope sample_crypto"
    unfolding fun_eq_iff signEnvelope_def K by simp
  then show ?thesis using sample_signed_shape(2) by simp
qed

theorem accepted_job_was_issued_witness:
  "\<exists>e \<in> {envelope_of sample_signed}. sd_Protected sample_signed = en_Protected e \<and> sd_Payload sample_signed = en_Payload e \<and>
    (\<exists>now rnd payload key opts. signEnvelope sample_strict sample_header_codec now rnd payload key opts = Inr e \<and>
       cd_read sample_job_codec payload = Some sample_job)"
proof (rule accepted_job_was_issued)
  show "only_signed sample_strict sample_header_codec sample_keys {envelope_of sample_signed}"
    unfolding only_signed_def
  proof (intro conjI)
    show "\<forall>e \<in> {envelope_of sample_signed}. \<exists>now rnd payload key opts. signEnvelope sample_strict sample_header_codec now rnd payload key opts = Inr e"
      using sample_strict_signs by blast
  qed (simp add: sample_strict_def)
  have pub: "ed_public sample_strict = take 32" "sample_header = sign_header sample_strict 0 [] sample_key sample_sign_opts"
    "KeyID sample_strict = KeyID sample_crypto"
    by (simp_all add: sample_strict_def sample_crypto_def sample_header_def sign_header_def KeyID_def fun_eq_iff)
  have "signs_ok sample_strict sample_key (signingInput (envelope_of sample_signed))"
    using sample_signs_ok[of "signingInput (envelope_of sample_signed)"] by (simp add: signs_ok_def sample_strict_def)
  moreover have "SignJob sample_strict sample_header_codec sample_job_codec 0 [] sample_job sample_key sample_sign_opts = Inr sample_signed"
    using sample_strict_signs sample_signed_shape(1) sample_job_valid by (auto simp: SignJob_Inr sample_job_codec_def)
  moreover have "sample_keys (KeyID sample_strict (ed_public sample_strict sample_key)) = Some (ed_public sample_strict sample_key)"
    by (simp add: sample_keys_def pub)
  ultimately show "SignedJob_Verify sample_strict sample_header_codec sample_job_codec 0 sample_keys sample_verify_opts sample_signed =
      Inr (sample_job, sample_header)"
    by (intro signed_job_verifies[where keys = sample_keys, OF _ _ pub(2) sample_codecs _ sample_window])
qed

end
