(* ===== verification/Replay.thy ===== *)
theory Replay
  imports Strconv Envelope
begin

text \<open>
  The replay ledger, \<^verbatim>\<open>internal/runner/replay.go\<close>. The directory \<^verbatim>\<open>jobs.d\<close> is a finite map from names
  to files; what the file system refuses is given per call by \<open>ledger_io\<close>. The lock makes calls
  atomic, so an execution is a sequence of calls.
\<close>

record ledger_file =
  lf_regular :: bool
  lf_data :: "string option"
  lf_mtime :: "gotime option"

datatype ledger_dir = NoDir | NotADir | Dir "string \<rightharpoonup> ledger_file"

record ledger_io =
  io_stateDir :: bool
  io_lock :: bool
  io_lstat :: bool
  io_mkdir :: bool
  io_readDir :: bool
  io_unlink :: "string \<Rightarrow> bool"
  io_open :: bool
  io_write :: bool
  io_mtime :: "gotime option"
  io_fsync :: bool

datatype ledger_error = ErrJobReplayed | ErrLedger

subsection \<open>pruneLedger\<close>

definition recorded_expiry :: "ledger_file \<Rightarrow> gotime option" where
  "recorded_expiry f =
     (let expiry = (case lf_data f of
                      None \<Rightarrow> 0
                    | Some data \<Rightarrow>
                        (case ParseInt (TrimSpace data) of None \<Rightarrow> 0 | Some secs \<Rightarrow> unix_time secs)) in
      if expiry = 0 then lf_mtime f else Some expiry)"

definition prunable :: "gotime \<Rightarrow> ledger_file \<Rightarrow> bool" where
  "prunable cutoff f \<longleftrightarrow>
     lf_regular f \<and> (case recorded_expiry f of None \<Rightarrow> False | Some expiry \<Rightarrow> expiry < cutoff)"

definition pruneLedger :: "ledger_io \<Rightarrow> gotime \<Rightarrow> (string \<rightharpoonup> ledger_file) \<Rightarrow> (string \<rightharpoonup> ledger_file)" where
  "pruneLedger io cutoff d =
     (if \<not> io_readDir io then d
      else (\<lambda>n. case d n of
                  None \<Rightarrow> None
                | Some f \<Rightarrow> if prunable cutoff f \<and> io_unlink io n then None else Some f))"

subsection \<open>recordJob\<close>

definition marker :: "ledger_io \<Rightarrow> gotime \<Rightarrow> ledger_file" where
  "marker io expiresAt = \<lparr>lf_regular = True, lf_data = Some (itoa (unix_of expiresAt) @ [CHR 10]), lf_mtime = io_mtime io\<rparr>"

text \<open>A write that fails leaves some file behind if the clean-up fails as well.\<close>

definition write_marker ::
  "ledger_io \<Rightarrow> string \<Rightarrow> gotime \<Rightarrow> (string \<rightharpoonup> ledger_file) \<Rightarrow> ledger_error option \<times> (string \<rightharpoonup> ledger_file)" where
  "write_marker io runID expiresAt d =
     (case d runID of
        Some _ \<Rightarrow> (Some ErrJobReplayed, d)
      | None \<Rightarrow>
          if \<not> io_open io then (Some ErrLedger, d)
          else if \<not> io_write io then
            (Some ErrLedger,
             if io_unlink io runID then d
             else d(runID \<mapsto> \<lparr>lf_regular = True, lf_data = Some [], lf_mtime = io_mtime io\<rparr>))
          else (if io_fsync io then None else Some ErrLedger, d(runID \<mapsto> marker io expiresAt)))"

definition recordJob ::
  "ledger_io \<Rightarrow> string \<Rightarrow> gotime \<Rightarrow> gotime \<Rightarrow> duration \<Rightarrow> ledger_dir \<Rightarrow> ledger_error option \<times> ledger_dir" where
  "recordJob io runID expiresAt now skew dir =
     (if \<not> io_stateDir io \<or> \<not> io_lock io \<or> \<not> io_lstat io then (Some ErrLedger, dir)
      else
        case dir of
          NotADir \<Rightarrow> (Some ErrLedger, dir)
        | NoDir \<Rightarrow>
            if \<not> io_mkdir io then (Some ErrLedger, dir)
            else (case write_marker io runID expiresAt (pruneLedger io (now - skew) Map.empty) of (e, d) \<Rightarrow> (e, Dir d))
        | Dir d \<Rightarrow>
            (case write_marker io runID expiresAt (pruneLedger io (now - skew) d) of (e, d) \<Rightarrow> (e, Dir d)))"

subsection \<open>A sequence of presentations\<close>

record presentation =
  pr_io :: ledger_io
  pr_runID :: string
  pr_expiresAt :: gotime
  pr_now :: gotime

fun present :: "duration \<Rightarrow> presentation list \<Rightarrow> ledger_dir \<Rightarrow> ledger_error option list" where
  "present skew [] dir = []"
| "present skew (p # ps) dir =
     (case recordJob (pr_io p) (pr_runID p) (pr_expiresAt p) (pr_now p) skew dir of
        (e, dir') \<Rightarrow> e # present skew ps dir')"

text \<open>A marker of an envelope that expires at \<open>x\<close> is in the ledger.\<close>

definition held :: "string \<Rightarrow> gotime \<Rightarrow> ledger_dir \<Rightarrow> bool" where
  "held r x dir \<longleftrightarrow> (\<exists>d f. dir = Dir d \<and> d r = Some f \<and> recorded_expiry f = Some (unix_time (unix_of x)))"

lemma marker_expiry:
  assumes "- (2 ^ 63) \<le> unix_of x" "unix_of x < 2 ^ 63" "unix_time (unix_of x) \<noteq> 0"
  shows "recorded_expiry (marker io x) = Some (unix_time (unix_of x))"
proof -
  have vis: "visible c" if "is_digit c \<or> c = CHR ''-''" for c using that by (auto simp: visible_def in_range_def byte_of_def)
  have "visible (hd (itoa i)) \<and> visible (last (itoa i)) \<and> itoa i \<noteq> []" for i
    using show_nat_digits[of "nat i"] show_nat_digits[of "nat (- i)"] vis
    by (auto simp: itoa_def is_number_def list_all_iff)
  then have "TrimSpace (itoa (unix_of x) @ [CHR 10]) = itoa (unix_of x)" by (intro TrimSpace_newline) auto
  then show ?thesis using ParseInt_itoa[OF assms(1,2)] assms(3) by (simp add: recorded_expiry_def marker_def Let_def)
qed

lemma held_stays:
  assumes "held r x dir" "now - skew \<le> unix_time (unix_of x)"
  shows "recordJob io r' x' now skew dir = (e, dir') \<Longrightarrow> held r x dir' \<and> (r' = r \<longrightarrow> e \<noteq> None)"
proof -
  assume rec: "recordJob io r' x' now skew dir = (e, dir')"
  obtain d f where d: "dir = Dir d" "d r = Some f" "recorded_expiry f = Some (unix_time (unix_of x))"
    using assms(1) by (auto simp: held_def)
  have keep: "pruneLedger io (now - skew) d r = Some f"
    using d(2,3) assms(2) by (simp add: pruneLedger_def prunable_def)
  show ?thesis
    using rec keep d by (auto simp: recordJob_def write_marker_def held_def split: if_splits option.splits)
qed

lemma accepted_held:
  assumes "recordJob io r x now skew dir = (None, dir')"
    "- (2 ^ 63) \<le> unix_of x" "unix_of x < 2 ^ 63" "unix_time (unix_of x) \<noteq> 0"
  shows "held r x dir'"
  using assms(1) marker_expiry[OF assms(2-4), of io]
  by (auto simp: recordJob_def write_marker_def held_def split: if_splits option.splits ledger_dir.splits)

lemma present_held:
  assumes "held r x dir" "\<And>p. p \<in> set ps \<Longrightarrow> pr_now p - skew \<le> unix_time (unix_of x)"
    "j < length ps" "pr_runID (ps ! j) = r"
  shows "present skew ps dir ! j \<noteq> None"
  using assms
proof (induction ps arbitrary: dir j)
  case (Cons p ps)
  obtain e dir' where rec: "recordJob (pr_io p) (pr_runID p) (pr_expiresAt p) (pr_now p) skew dir = (e, dir')" by fastforce
  have stay: "held r x dir' \<and> (pr_runID p = r \<longrightarrow> e \<noteq> None)"
    using held_stays[OF Cons.prems(1) _ rec] Cons.prems(2)[of p] by simp
  show ?case
  proof (cases j)
    case 0
    then show ?thesis using stay rec Cons.prems(4) by simp
  next
    case (Suc k)
    then show ?thesis using Cons.IH[of dir' k] stay rec Cons.prems by simp
  qed
qed simp

text \<open>
  Property C37: no envelope is executed twice. Whatever is presented to the Runners that share a
  ledger, and whatever the file system refuses on the way, a run that was accepted once is
  refused at every later presentation up to the expiry of the envelope it was accepted with, and
  beyond that for the clock tolerance less one second. An envelope does not verify after its
  expiry, so it is never accepted again. The tolerance is at least one second; the expiry is
  kept to the second.
\<close>

theorem replay_refused:
  assumes "i < j" "j < length ps" and ok: "present skew ps dir ! i = None"
    and same: "pr_runID (ps ! j) = pr_runID (ps ! i)"
    and time: "\<And>k. k < length ps \<Longrightarrow> k \<le> j \<Longrightarrow> pr_now (ps ! k) \<le> pr_now (ps ! j)"
    and early: "pr_now (ps ! j) \<le> pr_expiresAt (ps ! i) + skew - second"
    and range: "- (2 ^ 63) \<le> unix_of (pr_expiresAt (ps ! i))" "unix_of (pr_expiresAt (ps ! i)) < 2 ^ 63"
      "second \<le> pr_expiresAt (ps ! i)"
  shows "present skew ps dir ! j \<noteq> None"
  using assms
proof (induction ps arbitrary: dir i j)
  case (Cons p ps)
  obtain e dir' where rec: "recordJob (pr_io p) (pr_runID p) (pr_expiresAt p) (pr_now p) skew dir = (e, dir')" by fastforce
  obtain k where j: "j = Suc k" using Cons.prems(1) by (cases j) auto
  show ?case
  proof (cases i)
    case 0
    let ?x = "pr_expiresAt p"
    have "unix_time (unix_of ?x) \<noteq> 0" using Cons.prems(9) 0 unix_time_floor(2)[of ?x] by auto
    then have held: "held (pr_runID p) ?x dir'" using accepted_held[of "pr_io p"] rec Cons.prems(3,7,8) 0 by auto
    have "pr_now (ps ! m) \<le> pr_now (ps ! k)" if "m < length ps" "m \<le> k" for m
      using Cons.prems(5)[of "Suc m"] that j by simp
    then have "pr_now q - skew \<le> unix_time (unix_of ?x)" if "q \<in> set (take (Suc k) ps)" for q
      using that Cons.prems(2,6) 0 j unix_time_floor(2)[of ?x] by (fastforce simp: in_set_conv_nth)
    then have "present skew (take (Suc k) ps) dir' ! k \<noteq> None"
      using present_held[OF held, of "take (Suc k) ps" skew k] Cons.prems(2,4) 0 j by simp
    moreover have "present skew (take n qs) D ! k = present skew qs D ! k" if "k < n" "k < length qs" for n qs D k
      using that by (induction qs arbitrary: n D k) (auto simp: take_Cons' nth_Cons' split: prod.splits)
    ultimately show ?thesis using rec j Cons.prems(2) by simp
  next
    case (Suc m)
    have "present skew ps dir' ! k \<noteq> None"
      using Cons.IH[of m k dir'] Cons.prems Suc j rec by force
    then show ?thesis using rec j by simp
  qed
qed simp

definition sample_io :: ledger_io where
  "sample_io = \<lparr>io_stateDir = True, io_lock = True, io_lstat = True, io_mkdir = True, io_readDir = True,
     io_unlink = (\<lambda>_. True), io_open = True, io_write = True, io_mtime = None, io_fsync = True\<rparr>"

definition sample_presentations :: "presentation list" where
  "sample_presentations =
     [\<lparr>pr_io = sample_io, pr_runID = ''r1'', pr_expiresAt = 2 * hour, pr_now = hour\<rparr>,
      \<lparr>pr_io = sample_io, pr_runID = ''r2'', pr_expiresAt = 3 * hour, pr_now = hour + minute\<rparr>,
      \<lparr>pr_io = sample_io, pr_runID = ''r1'', pr_expiresAt = 2 * hour, pr_now = 2 * hour\<rparr>]"

theorem replay_refused_witness: "present (5 * minute) sample_presentations NoDir ! 2 \<noteq> None"
proof (rule replay_refused[of 0])
  show "present (5 * minute) sample_presentations NoDir ! 0 = None"
    by (simp add: sample_presentations_def recordJob_def write_marker_def pruneLedger_def sample_io_def split: prod.split)
qed (auto simp: sample_presentations_def unix_of_def less_Suc_eq numeral_3_eq_3)

end
