(* ===== verification/StrictJson.thy ===== *)
theory StrictJson
  imports Prelude
begin

text \<open>
  \<^verbatim>\<open>internal/strictjson/strictjson.go\<close>: the walk over the token stream that rejects duplicate keys
  and deep nesting before a document is decoded. A \<^verbatim>\<open>json.Decoder\<close> is the list of the tokens it
  still has to return; at its end, and at \<open>TBad\<close>, \<^verbatim>\<open>Token\<close> reports an error. The path is kept
  for its length, which is what the code bounds.
\<close>

datatype token = TDelim char | TString string | TNumber string | TBool bool | TNull | TBad

datatype json_error = ErrTrailingData | ErrDuplicateKey | ErrNotAnObject | ErrTooDeep | ErrDecodeDocument

definition MaxNestingDepth :: nat where "MaxNestingDepth = 8"

text \<open>\<^verbatim>\<open>Token\<close> and \<^verbatim>\<open>More\<close>.\<close>

fun next_token :: "token list \<Rightarrow> (token \<times> token list) option" where
  "next_token [] = None"
| "next_token (TBad # ts) = None"
| "next_token (t # ts) = Some (t, ts)"

fun More :: "token list \<Rightarrow> bool" where
  "More [] = False"
| "More (TDelim c # ts) = (c \<noteq> CHR '']'' \<and> c \<noteq> CHR ''}'')"
| "More (t # ts) = True"

subsection \<open>The walker\<close>

text \<open>
  \<open>depth\<close> is the length of the path. The result is the rest of the stream or an error; \<open>None\<close>
  means the fuel did not last.
\<close>

definition push :: "nat \<Rightarrow> json_error + nat" where
  "push depth = (if MaxNestingDepth < depth then Inl ErrTooDeep else Inr (Suc depth))"

fun walk_object :: "nat \<Rightarrow> string set \<Rightarrow> nat \<Rightarrow> token list \<Rightarrow> (json_error + token list) option"
  and walk_array :: "nat \<Rightarrow> nat \<Rightarrow> token list \<Rightarrow> (json_error + token list) option"
  and walk_value :: "nat \<Rightarrow> nat \<Rightarrow> token list \<Rightarrow> (json_error + token list) option" where
  "walk_object 0 seen depth ts = None"
| "walk_object (Suc n) seen depth ts =
     (case next_token ts of
        None \<Rightarrow> Some (Inl ErrDecodeDocument)
      | Some (tok, ts) \<Rightarrow>
          if tok = TDelim (CHR ''}'') then Some (Inr ts)
          else
            (case tok of
               TString key \<Rightarrow>
                 if key \<in> seen then Some (Inl ErrDuplicateKey)
                 else
                   (case push depth of
                      Inl e \<Rightarrow> Some (Inl e)
                    | Inr deeper \<Rightarrow>
                        (case walk_value n deeper ts of
                           None \<Rightarrow> None
                         | Some (Inl e) \<Rightarrow> Some (Inl e)
                         | Some (Inr ts) \<Rightarrow> walk_object n (insert key seen) depth ts))
             | _ \<Rightarrow> Some (Inl ErrDecodeDocument)))"
| "walk_array 0 depth ts = None"
| "walk_array (Suc n) depth ts =
     (if \<not> More ts then
        (case next_token ts of
           None \<Rightarrow> Some (Inl ErrDecodeDocument)
         | Some (tok, ts) \<Rightarrow> if tok = TDelim (CHR '']'') then Some (Inr ts) else Some (Inl ErrDecodeDocument))
      else
        (case push depth of
           Inl e \<Rightarrow> Some (Inl e)
         | Inr deeper \<Rightarrow>
             (case walk_value n deeper ts of
                None \<Rightarrow> None
              | Some (Inl e) \<Rightarrow> Some (Inl e)
              | Some (Inr ts) \<Rightarrow> walk_array n depth ts)))"
| "walk_value 0 depth ts = None"
| "walk_value (Suc n) depth ts =
     (case next_token ts of
        None \<Rightarrow> Some (Inl ErrDecodeDocument)
      | Some (tok, ts) \<Rightarrow>
          (case tok of
             TDelim c \<Rightarrow>
               if c = CHR ''{'' then walk_object n {} depth ts
               else if c = CHR ''['' then walk_array n depth ts
               else Some (Inl ErrDecodeDocument)
           | _ \<Rightarrow> Some (Inr ts)))"

text \<open>The fuel always lasts (\<open>walk_ends\<close>).\<close>

definition checkDuplicateKeys :: "token list \<Rightarrow> json_error option" where
  "checkDuplicateKeys ts =
     (case next_token ts of
        None \<Rightarrow> Some ErrDecodeDocument
      | Some (tok, ts) \<Rightarrow>
          if tok \<noteq> TDelim (CHR ''{'') then Some ErrNotAnObject
          else
            (case walk_object (Suc (2 * length ts)) {} 1 ts of
               None \<Rightarrow> Some ErrDecodeDocument
             | Some (Inl e) \<Rightarrow> Some e
             | Some (Inr _) \<Rightarrow> None))"

text \<open>
  \<open>decode\<close> is \<^verbatim>\<open>Decode\<close> with unknown fields disallowed: the value, and the tokens it left.
\<close>

definition Unmarshal :: "(token list \<Rightarrow> ('a \<times> token list) option) \<Rightarrow> token list \<Rightarrow> json_error + 'a" where
  "Unmarshal decode ts =
     (case checkDuplicateKeys ts of
        Some e \<Rightarrow> Inl e
      | None \<Rightarrow>
          (case decode ts of
             None \<Rightarrow> Inl ErrDecodeDocument
           | Some (v, rest) \<Rightarrow> if rest \<noteq> [] then Inl ErrTrailingData else Inr v))"

subsection \<open>The walk always ends\<close>

lemma next_token_length: "next_token ts = Some (t, ts') \<Longrightarrow> length ts = Suc (length ts')"
  by (cases ts rule: next_token.cases) auto

definition ends :: "token list \<Rightarrow> (json_error + token list) option \<Rightarrow> bool" where
  "ends ts r \<longleftrightarrow> r \<noteq> None \<and> (\<forall>rest. r = Some (Inr rest) \<longrightarrow> length rest < length ts)"

lemma ends_error [simp]: "ends ts (Some (Inl e))" and ends_rest [simp]: "ends ts (Some (Inr rest)) \<longleftrightarrow> length rest < length ts"
  by (auto simp: ends_def)

lemma ends_longer: "ends ts r \<Longrightarrow> length ts \<le> length us \<Longrightarrow> ends us r"
  by (auto simp: ends_def)

lemma ends_then:
  assumes "ends ts r" "\<And>rest. length rest < length ts \<Longrightarrow> ends us (f rest)"
  shows "ends us (case r of None \<Rightarrow> None | Some (Inl e) \<Rightarrow> Some (Inl e) | Some (Inr rest) \<Rightarrow> f rest)"
  using assms by (auto simp: ends_def split: option.split sum.split)

lemma walk_ends:
  "(\<forall>seen depth ts. 2 * length ts < n \<longrightarrow> ends ts (walk_object n seen depth ts)) \<and>
   (\<forall>depth ts. 2 * length ts < n \<longrightarrow> ends ts (walk_array n depth ts)) \<and>
   (\<forall>depth ts. 2 * length ts \<le> n \<longrightarrow> 0 < n \<longrightarrow> ends ts (walk_value n depth ts))"
proof (induction n)
  case (Suc n)
  have obj: "ends ts (walk_object n seen depth ts)" "ends ts (walk_array n depth ts)" if "2 * length ts < n" for seen depth ts
    using Suc.IH that by blast+
  have val: "ends ts (walk_value n depth ts)" if "2 * length ts \<le> n" "0 < n" for depth ts
    using Suc.IH that by blast
  have "ends ts (walk_object (Suc n) seen depth ts)" if n: "2 * length ts < Suc n" for seen depth ts
  proof (cases "next_token ts")
    case (Some x)
    then obtain tok us where x: "next_token ts = Some (tok, us)" by (cases x) auto
    note len = next_token_length[OF x]
    have "ends ts (case walk_value n deeper us of None \<Rightarrow> None | Some (Inl e) \<Rightarrow> Some (Inl e)
        | Some (Inr rest) \<Rightarrow> walk_object n seen' depth rest)" for deeper seen'
      using n len by (intro ends_then[OF val] ends_longer[OF obj(1)]) auto
    then show ?thesis using x len by (auto split: token.split sum.split)
  qed simp
  moreover have "ends ts (walk_array (Suc n) depth ts)" if n: "2 * length ts < Suc n" for depth ts
  proof (cases "More ts")
    case True
    then have ne: "1 \<le> length ts" by (cases ts) auto
    then have "0 < n" using n by linarith
    note ne = ne this
    have "ends ts (case walk_value n deeper ts of None \<Rightarrow> None | Some (Inl e) \<Rightarrow> Some (Inl e)
        | Some (Inr rest) \<Rightarrow> walk_array n depth rest)" for deeper
      using n ne by (intro ends_then[OF val] ends_longer[OF obj(2)]) auto
    then show ?thesis using True by (auto split: sum.split)
  qed (auto split: option.split dest: next_token_length)
  moreover have "ends ts (walk_value (Suc n) depth ts)" if n: "2 * length ts \<le> Suc n" for depth ts
  proof (cases "next_token ts")
    case (Some x)
    then obtain tok us where x: "next_token ts = Some (tok, us)" by (cases x) auto
    note len = next_token_length[OF x]
    have "ends ts (walk_object n {} depth us)" "ends ts (walk_array n depth us)"
      using n len by (auto intro!: ends_longer[OF obj(1)] ends_longer[OF obj(2)])
    then show ?thesis using x len by (auto split: token.split)
  qed simp
  ultimately show ?case by blast
qed simp

subsection \<open>What the walk accepts\<close>

datatype json =
    JObject "(string \<times> json) list" | JArray "json list" | JString string | JNumber string | JBool bool | JNull

fun tokens :: "json \<Rightarrow> token list" where
  "tokens (JObject kvs) = TDelim (CHR ''{'') # concat (map (\<lambda>(k, v). TString k # tokens v) kvs) @ [TDelim (CHR ''}'')]"
| "tokens (JArray vs) = TDelim (CHR ''['') # concat (map tokens vs) @ [TDelim (CHR '']'')]"
| "tokens (JString s) = [TString s]"
| "tokens (JNumber s) = [TNumber s]"
| "tokens (JBool b) = [TBool b]"
| "tokens JNull = [TNull]"

text \<open>Nesting below a value, and that no object in it repeats a key.\<close>

fun nesting :: "json \<Rightarrow> nat" where
  "nesting (JObject kvs) = foldr max (map (\<lambda>(k, v). Suc (nesting v)) kvs) 0"
| "nesting (JArray vs) = foldr max (map (\<lambda>v. Suc (nesting v)) vs) 0"
| "nesting _ = 0"

fun no_duplicates :: "json \<Rightarrow> bool" where
  "no_duplicates (JObject kvs) = (distinct (map fst kvs) \<and> list_all (\<lambda>(k, v). no_duplicates v) kvs)"
| "no_duplicates (JArray vs) = list_all no_duplicates vs"
| "no_duplicates _ = True"

definition admissible :: "nat \<Rightarrow> json \<Rightarrow> bool" where
  "admissible d t \<longleftrightarrow> nesting t + d \<le> Suc MaxNestingDepth \<and> no_duplicates t"

definition verdict :: "bool \<Rightarrow> token list \<Rightarrow> (json_error + token list) option \<Rightarrow> bool" where
  "verdict ok rest r \<longleftrightarrow> (if ok then r = Some (Inr rest) else r = Some (Inl ErrTooDeep) \<or> r = Some (Inl ErrDuplicateKey))"

lemma foldr_max_le: "foldr max xs 0 + d \<le> m \<longleftrightarrow> (\<forall>x \<in> set xs. x + d \<le> m) \<and> d \<le> m" for m :: nat
  by (induction xs) auto

lemma admissible_object:
  "admissible d (JObject kvs) \<longleftrightarrow> d \<le> Suc MaxNestingDepth \<and> distinct (map fst kvs) \<and>
     (\<forall>(k, v) \<in> set kvs. d \<le> MaxNestingDepth \<and> admissible (Suc d) v)"
  by (auto simp: admissible_def foldr_max_le list_all_iff)

lemma admissible_array:
  "admissible d (JArray vs) \<longleftrightarrow> d \<le> Suc MaxNestingDepth \<and>
     (\<forall>v \<in> set vs. d \<le> MaxNestingDepth \<and> admissible (Suc d) v)"
  by (auto simp: admissible_def foldr_max_le list_all_iff)

lemma length_tokens: "1 \<le> length (tokens t)"
  by (cases t) auto

lemma walk_members:
  assumes "\<And>k v n d rest. (k, v) \<in> set kvs \<Longrightarrow> 2 * length (tokens v) \<le> n \<Longrightarrow> d \<le> Suc MaxNestingDepth \<Longrightarrow>
      verdict (admissible d v) rest (walk_value n d (tokens v @ rest))"
    and "2 * length (concat (map (\<lambda>(k, v). TString k # tokens v) kvs)) < n" "d \<le> Suc MaxNestingDepth"
  shows "verdict (distinct (map fst kvs) \<and> fst ` set kvs \<inter> seen = {} \<and> (\<forall>(k, v) \<in> set kvs. d \<le> MaxNestingDepth \<and> admissible (Suc d) v)) rest
    (walk_object n seen d (concat (map (\<lambda>(k, v). TString k # tokens v) kvs) @ TDelim (CHR ''}'') # rest))"
  using assms
proof (induction kvs arbitrary: n seen)
  case Nil
  then show ?case by (cases n) (auto simp: verdict_def)
next
  case (Cons kv kvs)
  obtain k v where kv: "kv = (k, v)" by (cases kv)
  obtain m where n: "n = Suc m" using Cons.prems(2) by (cases n) auto
  let ?rest = "concat (map (\<lambda>(k, v). TString k # tokens v) kvs) @ TDelim (CHR ''}'') # rest"
  have val: "verdict (admissible (Suc d) v) ?rest (walk_value m (Suc d) (tokens v @ ?rest))" if "d \<le> MaxNestingDepth"
    using Cons.prems(1)[of k v m "Suc d"] Cons.prems(2) that by (simp add: kv n)
  have IH: "verdict (distinct (map fst kvs) \<and> fst ` set kvs \<inter> insert k seen = {} \<and>
      (\<forall>(k, v) \<in> set kvs. d \<le> MaxNestingDepth \<and> admissible (Suc d) v)) rest (walk_object m (insert k seen) d ?rest)"
  proof (rule Cons.IH)
    show "2 * length (concat (map (\<lambda>(k, v). TString k # tokens v) kvs)) < m" using Cons.prems(2) by (simp add: kv n)
    show "verdict (admissible d v) rest (walk_value n d (tokens v @ rest))"
      if "(k, v) \<in> set kvs" "2 * length (tokens v) \<le> n" "d \<le> Suc MaxNestingDepth" for k v n d rest
      by (rule Cons.prems(1)) (use that in auto)
  qed (rule Cons.prems(3))
  show ?case
  proof (cases "k \<in> seen \<or> MaxNestingDepth < d \<or> \<not> admissible (Suc d) v")
    case True
    then show ?thesis using val by (auto simp: kv n push_def verdict_def not_less)
  next
    case False
    then have "walk_object n seen d (concat (map (\<lambda>(k, v). TString k # tokens v) (kv # kvs)) @ TDelim (CHR ''}'') # rest) =
        walk_object m (insert k seen) d ?rest" using val by (simp add: kv n push_def verdict_def)
    then show ?thesis using IH False by (auto simp: kv verdict_def)
  qed
qed

lemma walk_elements:
  assumes "\<And>v n d rest. v \<in> set vs \<Longrightarrow> 2 * length (tokens v) \<le> n \<Longrightarrow> d \<le> Suc MaxNestingDepth \<Longrightarrow>
      verdict (admissible d v) rest (walk_value n d (tokens v @ rest))"
    and "2 * length (concat (map tokens vs)) < n" "d \<le> Suc MaxNestingDepth"
  shows "verdict (\<forall>v \<in> set vs. d \<le> MaxNestingDepth \<and> admissible (Suc d) v) rest
    (walk_array n d (concat (map tokens vs) @ TDelim (CHR '']'') # rest))"
  using assms
proof (induction vs arbitrary: n)
  case Nil
  then show ?case by (cases n) (auto simp: verdict_def)
next
  case (Cons v vs)
  obtain m where n: "n = Suc m" using Cons.prems(2) by (cases n) auto
  let ?rest = "concat (map tokens vs) @ TDelim (CHR '']'') # rest"
  have val: "verdict (admissible (Suc d) v) ?rest (walk_value m (Suc d) (tokens v @ ?rest))" if "d \<le> MaxNestingDepth"
    using Cons.prems(1)[of v m "Suc d"] Cons.prems(2) that by (simp add: n)
  have IH: "verdict (\<forall>v \<in> set vs. d \<le> MaxNestingDepth \<and> admissible (Suc d) v) rest (walk_array m d ?rest)"
  proof (rule Cons.IH)
    have "2 * length (tokens v) + 2 * length (concat (map tokens vs)) < Suc m" using Cons.prems(2) by (simp add: n)
    then show "2 * length (concat (map tokens vs)) < m" using length_tokens[of v] by linarith
    show "verdict (admissible d v) rest (walk_value n d (tokens v @ rest))"
      if "v \<in> set vs" "2 * length (tokens v) \<le> n" "d \<le> Suc MaxNestingDepth" for v n d rest
      by (rule Cons.prems(1)) (use that in auto)
  qed (rule Cons.prems(3))
  have more: "More (tokens v @ us)" for us by (cases v) auto
  show ?case
  proof (cases "MaxNestingDepth < d \<or> \<not> admissible (Suc d) v")
    case True
    then show ?thesis using val more by (auto simp: n push_def verdict_def not_less)
  next
    case False
    then have "walk_array n d (concat (map tokens (v # vs)) @ TDelim (CHR '']'') # rest) = walk_array m d ?rest"
      using val more by (simp add: n push_def verdict_def)
    then show ?thesis using IH False by (auto simp: verdict_def)
  qed
qed

lemma walk_tokens:
  "2 * length (tokens t) \<le> n \<Longrightarrow> d \<le> Suc MaxNestingDepth \<Longrightarrow> verdict (admissible d t) rest (walk_value n d (tokens t @ rest))"
proof (induction t arbitrary: n d rest)
  case (JObject kvs)
  obtain m where n: "n = Suc m" using JObject.prems(1) by (cases n) auto
  have "verdict (distinct (map fst kvs) \<and> fst ` set kvs \<inter> {} = {} \<and> (\<forall>(k, v) \<in> set kvs. d \<le> MaxNestingDepth \<and> admissible (Suc d) v)) rest
    (walk_object m {} d (concat (map (\<lambda>(k, v). TString k # tokens v) kvs) @ TDelim (CHR ''}'') # rest))"
    using JObject by (intro walk_members) (auto simp: n)
  then show ?case using JObject.prems(2) by (simp add: n admissible_object)
next
  case (JArray vs)
  obtain m where n: "n = Suc m" using JArray.prems(1) by (cases n) auto
  have "verdict (\<forall>v \<in> set vs. d \<le> MaxNestingDepth \<and> admissible (Suc d) v) rest
    (walk_array m d (concat (map tokens vs) @ TDelim (CHR '']'') # rest))"
    using JArray by (intro walk_elements) (auto simp: n)
  then show ?case using JArray.prems(2) by (simp add: n admissible_array)
qed (auto simp: verdict_def admissible_def numeral_2_eq_2 Suc_le_eq dest!: less_imp_Suc_add)

text \<open>
  Property C39: the strict check accepts exactly the objects that nest at most eight deep and repeat
  no key at any level, and rejects every other object as too deep or as having a duplicate key,
  whatever follows the document; the walk never runs out of steps.
\<close>

theorem strict_check_exact:
  "if nesting (JObject kvs) \<le> MaxNestingDepth \<and> no_duplicates (JObject kvs)
   then checkDuplicateKeys (tokens (JObject kvs) @ rest) = None
   else checkDuplicateKeys (tokens (JObject kvs) @ rest) \<in> {Some ErrTooDeep, Some ErrDuplicateKey}"
proof -
  let ?ts = "concat (map (\<lambda>(k, v). TString k # tokens v) kvs) @ TDelim (CHR ''}'') # rest"
  have "verdict (distinct (map fst kvs) \<and> fst ` set kvs \<inter> {} = {} \<and> (\<forall>(k, v) \<in> set kvs. 1 \<le> MaxNestingDepth \<and> admissible (Suc 1) v)) rest
    (walk_object (Suc (2 * length ?ts)) {} 1 ?ts)"
    by (intro walk_members walk_tokens) (auto simp: MaxNestingDepth_def)
  then have "verdict (admissible 1 (JObject kvs)) rest (walk_object (Suc (2 * length ?ts)) {} 1 ?ts)"
    by (simp only: admissible_object) (simp add: MaxNestingDepth_def)
  then show ?thesis by (auto simp: checkDuplicateKeys_def verdict_def admissible_def simp del: walk_object.simps)
qed

end
