(* ===== verification/GoStrings.thy ===== *)
theory GoStrings
  imports Prelude
begin

text \<open>
  Further functions of package \<^verbatim>\<open>strings\<close>: trimming by a cut set, replacement of one or of all
  occurrences (the pattern is not empty wherever the program replaces), with the laws the
  components use.
\<close>

definition TrimLeft :: "string \<Rightarrow> string \<Rightarrow> string" where
  "TrimLeft s cs = dropWhile (\<lambda>c. c \<in> set cs) s"

definition TrimRight :: "string \<Rightarrow> string \<Rightarrow> string" where
  "TrimRight s cs = rev (dropWhile (\<lambda>c. c \<in> set cs) (rev s))"

fun replace_first :: "string \<Rightarrow> string \<Rightarrow> string \<Rightarrow> string" where
  "replace_first [] old new = []"
| "replace_first (c # s) old new =
     (if prefix old (c # s) then new @ drop (length old) (c # s) else c # replace_first s old new)"

function ReplaceAll :: "string \<Rightarrow> string \<Rightarrow> string \<Rightarrow> string" where
  "ReplaceAll [] old new = []"
| "ReplaceAll (c # s) old new =
     (if old \<noteq> [] \<and> prefix old (c # s) then new @ ReplaceAll (drop (length old) (c # s)) old new
      else c # ReplaceAll s old new)"
  by pat_completeness auto
termination by (relation "measure (\<lambda>(s, old, new). length s)") (auto simp: neq_Nil_conv)

subsection \<open>Trimming\<close>

lemma TrimLeft_hd: "TrimLeft s cs \<noteq> [] \<Longrightarrow> hd (TrimLeft s cs) \<notin> set cs"
  using hd_dropWhile[of "\<lambda>c. c \<in> set cs" s] by (simp add: TrimLeft_def)

lemma TrimRight_last: "TrimRight s cs \<noteq> [] \<Longrightarrow> last (TrimRight s cs) \<notin> set cs"
  using hd_dropWhile[of "\<lambda>c. c \<in> set cs" "rev s"] by (simp add: TrimRight_def last_rev)

lemma TrimRight_prefix: "prefix (TrimRight s cs) s"
proof -
  have "s = TrimRight s cs @ rev (takeWhile (\<lambda>c. c \<in> set cs) (rev s))"
    unfolding TrimRight_def by (metis rev_append rev_rev_ident takeWhile_dropWhile_id)
  then show ?thesis by (metis prefixI)
qed

lemma TrimRight_hd: "TrimRight s cs \<noteq> [] \<Longrightarrow> hd (TrimRight s cs) = hd s"
  using TrimRight_prefix[of s cs] by (metis hd_append2 prefixE)

lemma set_Trim: "set (TrimLeft s cs) \<subseteq> set s" "set (TrimRight s cs) \<subseteq> set s"
  using set_mono_prefix[OF TrimRight_prefix[of s cs]] by (auto simp: TrimLeft_def dest: set_dropWhileD)

lemma length_Trim [simp]: "length (TrimLeft s cs) \<le> length s" "length (TrimRight s cs) \<le> length s"
  using TrimRight_prefix[of s cs] by (auto simp: TrimLeft_def length_dropWhile_le prefix_length_le)

subsection \<open>Replacing\<close>

lemma set_ReplaceAll: "set (ReplaceAll s old new) \<subseteq> set s \<union> set new"
proof (induction s old new rule: ReplaceAll.induct)
  case (2 c s old new)
  then show ?case using set_drop_subset[of "length old" "c # s"] by auto
qed simp

lemma length_ReplaceAll:
  "length new \<le> length old \<Longrightarrow> length (ReplaceAll s old new) \<le> length s"
proof (induction s old new rule: ReplaceAll.induct)
  case (2 c s old new)
  then show ?case using prefix_length_le[of old "c # s"] by (cases "prefix old (c # s)") auto
qed simp

lemma length_ReplaceAll_less:
  "length new < length old \<Longrightarrow> Contains s old \<Longrightarrow> length (ReplaceAll s old new) < length s"
proof (induction s old new rule: ReplaceAll.induct)
  case (2 c s old new)
  show ?case
  proof (cases "prefix old (c # s)")
    case True
    have "length (ReplaceAll (drop (length old) (c # s)) old new) \<le> length (drop (length old) (c # s))"
      using "2.prems"(1) by (intro length_ReplaceAll) simp
    then show ?thesis using True "2.prems"(1) prefix_length_le[OF True] by auto
  next
    case False
    then show ?thesis using 2 by (auto simp: Contains_def sublist_Cons_right)
  qed
qed (simp add: Contains_def)

end
