(* ===== verification/Effects.thy ===== *)
theory Effects
  imports Prelude "HOL-Library.State_Monad"
begin

text \<open>
  Programs with effects: the state monad with steps that may fail, and a logic of pre- and
  postconditions for them. \<open>triple P m Q\<close> says that from a state in \<open>P\<close> the program \<open>m\<close> ends with a
  result and a state in \<open>Q\<close>; every program of the state monad ends.
\<close>

subsection \<open>Steps that may fail\<close>

text \<open>\<open>attempt\<close> is a step whose error ends the procedure, \<open>on_failure\<close> a clean-up that runs when the step fails.\<close>

definition attempt :: "('s, 'e + 'a) state \<Rightarrow> ('a \<Rightarrow> ('s, 'e + 'b) state) \<Rightarrow> ('s, 'e + 'b) state" where
  "attempt m k = do { r \<leftarrow> m; case r of Inl e \<Rightarrow> State_Monad.return (Inl e) | Inr a \<Rightarrow> k a }"

definition on_failure :: "('s, 'e + 'a) state \<Rightarrow> ('s, 'c) state \<Rightarrow> ('s, 'e + 'a) state" where
  "on_failure m c =
     do { r \<leftarrow> m; case r of Inl e \<Rightarrow> do { c; State_Monad.return (Inl e) } | Inr a \<Rightarrow> State_Monad.return (Inr a) }"

lemma run_bind: "run_state (State_Monad.bind m k) s = (case run_state m s of (a, s') \<Rightarrow> run_state (k a) s')"
  by (cases m) (simp add: State_Monad.bind_def split: prod.splits)

lemma run_attempt: "run_state (attempt m k) s = (case run_state m s of (Inl e, s') \<Rightarrow> (Inl e, s') | (Inr a, s') \<Rightarrow> run_state (k a) s')"
  by (simp add: attempt_def run_bind split: prod.splits sum.splits)

lemma attempt_Inr: "run_state (attempt m k) s = (Inr b, s') \<longleftrightarrow> (\<exists>a s1. run_state m s = (Inr a, s1) \<and> run_state (k a) s1 = (Inr b, s'))"
  by (auto simp: run_attempt split: prod.splits sum.splits)

lemma on_failure_Inr: "run_state (on_failure m c) s = (Inr a, s') \<longleftrightarrow> run_state m s = (Inr a, s')"
  by (auto simp: on_failure_def run_bind split: prod.splits sum.splits)

subsection \<open>Pre- and postconditions\<close>

definition triple :: "('s \<Rightarrow> bool) \<Rightarrow> ('s, 'a) state \<Rightarrow> ('a \<Rightarrow> 's \<Rightarrow> bool) \<Rightarrow> bool" where
  "triple P m Q \<longleftrightarrow> (\<forall>s r s'. P s \<longrightarrow> run_state m s = (r, s') \<longrightarrow> Q r s')"

named_theorems triple_rules "rules for the parts of a program"

lemma tripleD: "triple P m Q \<Longrightarrow> P s \<Longrightarrow> run_state m s = (r, s') \<Longrightarrow> Q r s'"
  by (simp add: triple_def)

lemma tripleI: "(\<And>s r s'. P s \<Longrightarrow> run_state m s = (r, s') \<Longrightarrow> Q r s') \<Longrightarrow> triple P m Q"
  by (simp add: triple_def)

lemma triple_post: "triple P m Q \<Longrightarrow> (\<And>r s. Q r s \<Longrightarrow> Q' r s) \<Longrightarrow> triple P m Q'"
  by (auto simp: triple_def)

lemma triple_pre: "triple P m Q \<Longrightarrow> (\<And>s. P' s \<Longrightarrow> P s) \<Longrightarrow> triple P' m Q"
  by (auto simp: triple_def)

lemma triple_conj: "triple P m Q \<Longrightarrow> triple P m Q' \<Longrightarrow> triple P m (\<lambda>r s. Q r s \<and> Q' r s)"
  by (auto simp: triple_def)

lemma triple_fact: "(B \<Longrightarrow> triple P m Q) \<Longrightarrow> triple (\<lambda>s. B \<and> P s) m Q"
  by (auto simp: triple_def)

lemma triple_return [triple_rules]: "(\<And>s. P s \<Longrightarrow> Q x s) \<Longrightarrow> triple P (State_Monad.return x) Q"
  by (auto simp: triple_def)

lemma triple_bind: "triple P m A \<Longrightarrow> (\<And>x. triple (A x) (k x) Q) \<Longrightarrow> triple P (State_Monad.bind m k) Q"
  unfolding triple_def run_bind by (fastforce split: prod.splits)

lemma triple_attempt:
  "triple P m (\<lambda>r s. case r of Inl e \<Rightarrow> Q (Inl e) s | Inr x \<Rightarrow> A x s) \<Longrightarrow> (\<And>x. triple (A x) (k x) Q) \<Longrightarrow> triple P (attempt m k) Q"
  unfolding triple_def run_attempt by (fastforce split: prod.splits sum.splits)

text \<open>Postconditions on the result alone, that every error satisfies.\<close>

lemma triple_bind_any: "(\<And>x. triple (\<lambda>_. True) (k x) Q) \<Longrightarrow> triple (\<lambda>_. True) (State_Monad.bind m k) Q"
  by (auto simp: triple_def run_bind split: prod.splits)

lemma triple_attempt_any:
  "(\<And>e s. Q (Inl e) s) \<Longrightarrow> (\<And>x. triple (\<lambda>_. True) (k x) Q) \<Longrightarrow> triple (\<lambda>_. True) (attempt m k) Q"
  by (auto simp: triple_def run_attempt split: prod.splits sum.splits)

subsection \<open>Programs that leave a part of the state alone\<close>

text \<open>\<open>leaves ok view m Q\<close>: in a well-formed state \<open>m\<close> does not change what \<open>view\<close> shows, and its result is in \<open>Q\<close>.\<close>

definition shows_as :: "('s \<Rightarrow> bool) \<Rightarrow> ('s \<Rightarrow> 'v) \<Rightarrow> 'v \<Rightarrow> 's \<Rightarrow> bool" where
  "shows_as ok view v s \<longleftrightarrow> ok s \<and> view s = v"

definition leaves :: "('s \<Rightarrow> bool) \<Rightarrow> ('s \<Rightarrow> 'v) \<Rightarrow> ('s, 'a) state \<Rightarrow> ('a \<Rightarrow> bool) \<Rightarrow> bool" where
  "leaves ok view m Q \<longleftrightarrow> (\<forall>v. triple (shows_as ok view v) m (\<lambda>r s. Q r \<and> shows_as ok view v s))"

lemma leavesD: "leaves ok view m Q \<Longrightarrow> triple (shows_as ok view v) m (\<lambda>r s. Q r \<and> shows_as ok view v s)"
  by (simp add: leaves_def)

lemma leavesI:
  "(\<And>s r s'. ok s \<Longrightarrow> run_state m s = (r, s') \<Longrightarrow> Q r \<and> ok s' \<and> view s' = view s) \<Longrightarrow> leaves ok view m Q"
  by (auto simp: leaves_def triple_def shows_as_def)

lemma leaves_then:
  "leaves ok view m A \<Longrightarrow> (\<And>x. A x \<Longrightarrow> triple (shows_as ok view v) (k x) Q) \<Longrightarrow> triple (shows_as ok view v) (State_Monad.bind m k) Q"
  by (rule triple_bind[OF leavesD]) (auto intro: triple_fact)

lemma leaves_bind:
  "leaves ok view m A \<Longrightarrow> (\<And>x. A x \<Longrightarrow> leaves ok view (k x) Q) \<Longrightarrow> leaves ok view (State_Monad.bind m k) Q"
  unfolding leaves_def[of _ _ "State_Monad.bind m k"] by (auto intro: leaves_then leavesD)

lemma leaves_return: "Q x \<Longrightarrow> leaves ok view (State_Monad.return x) Q"
  by (auto simp: leaves_def intro: triple_rules)

lemma leaves_attempt:
  assumes "leaves ok view m A" "\<And>x. A (Inr x) \<Longrightarrow> triple (shows_as ok view v) (k x) Q"
    and "\<And>f s. shows_as ok view v s \<Longrightarrow> Q (Inl f) s"
  shows "triple (shows_as ok view v) (attempt m k) Q"
proof (rule triple_attempt)
  show "triple (shows_as ok view v) m (\<lambda>r s. case r of Inl f \<Rightarrow> Q (Inl f) s | Inr x \<Rightarrow> A (Inr x) \<and> shows_as ok view v s)"
    by (rule triple_post[OF leavesD[OF assms(1)]]) (auto intro: assms(3) split: sum.splits)
qed (auto intro: triple_fact assms(2))

subsection \<open>Programs that agree where they can get\<close>

lemma bind_agree:
  "triple P m A \<Longrightarrow> P s \<Longrightarrow> (\<And>x s'. A x s' \<Longrightarrow> run_state (k x) s' = run_state (k' x) s') \<Longrightarrow>
   run_state (State_Monad.bind m k) s = run_state (State_Monad.bind m k') s"
  by (auto simp: run_bind triple_def split: prod.splits)

lemma attempt_agree:
  "triple P m A \<Longrightarrow> P s \<Longrightarrow> (\<And>x s'. A (Inr x) s' \<Longrightarrow> run_state (k x) s' = run_state (k' x) s') \<Longrightarrow>
   run_state (attempt m k) s = run_state (attempt m k') s"
  unfolding attempt_def by (rule bind_agree[of P m A]) (auto split: sum.splits)

end
