(* ===== verification/FileSys.thy ===== *)
theory FileSys
  imports Strconv GoStrings Effects
begin

text \<open>
  The file system as the program's storage code uses it: a map from absolute paths, given by their
  components, to directories, regular files and symbolic links. A program runs in the state monad
  over the number of system calls made so far and the file system. The world decides call by call
  whether it fails. A call that fails changes nothing, except that a failed write may leave part of
  the file and a failed recursive removal may have removed some of the entries. A process that is
  killed is a world in which every later call fails. Links in the middle of a path are not
  followed: such a path names nothing. The world also gives the order in which a directory tree is
  walked, modification times, the clock, random bytes and the state of the caller's context.
\<close>

subsection \<open>State and failures\<close>

datatype node = NDir | NFile string | NLink string

type_synonym path = "string list"
type_synonym fs = "path \<rightharpoonup> node"

datatype io_error = Canceled | DeadlineExceeded | NotExist | Exist | Failed

record fs_world =
  fw_fail :: "nat \<Rightarrow> io_error option"
  fw_left :: "nat \<Rightarrow> string option"
  fw_removed :: "nat \<Rightarrow> path \<Rightarrow> bool"
  fw_walk :: "fs \<Rightarrow> path \<Rightarrow> path list"
  fw_mtime :: "nat \<Rightarrow> path \<Rightarrow> gotime option"
  fw_now :: "nat \<Rightarrow> gotime"
  fw_random :: "nat \<Rightarrow> string option"
  fw_ctx :: "nat \<Rightarrow> io_error option"

type_synonym 'a fsm = "(nat \<times> fs, 'a) state"

abbreviation give :: "'a \<Rightarrow> 'a fsm" where "give \<equiv> State_Monad.return"

definition sys :: "fs_world \<Rightarrow> (nat \<Rightarrow> fs \<Rightarrow> fs) \<Rightarrow> (nat \<Rightarrow> fs \<Rightarrow> io_error + ('a \<times> fs)) \<Rightarrow> (io_error + 'a) fsm" where
  "sys W broken op = State (\<lambda>(n, f).
     case fw_fail W n of
       Some e \<Rightarrow> (Inl e, (Suc n, broken n f))
     | None \<Rightarrow> (case op n f of Inl e \<Rightarrow> (Inl e, (Suc n, f)) | Inr (a, f') \<Rightarrow> (Inr a, (Suc n, f'))))"

abbreviation sound_failure :: "nat \<Rightarrow> fs \<Rightarrow> fs" where "sound_failure \<equiv> \<lambda>_ f. f"

subsection \<open>System calls\<close>

definition is_dir :: "fs \<Rightarrow> path \<Rightarrow> bool" where
  "is_dir f p \<longleftrightarrow> p = [] \<or> f p = Some NDir"

definition below :: "path \<Rightarrow> path \<Rightarrow> bool" where
  "below p q \<longleftrightarrow> prefix p q"

definition remove_tree :: "path \<Rightarrow> fs \<Rightarrow> fs" where
  "remove_tree p f = (\<lambda>q. if below p q then None else f q)"

definition move_tree :: "path \<Rightarrow> path \<Rightarrow> fs \<Rightarrow> fs" where
  "move_tree a b f = (\<lambda>q. if below b q then f (a @ drop (length b) q) else if below a q then None else f q)"

definition Lstat :: "fs_world \<Rightarrow> path \<Rightarrow> (io_error + node) fsm" where
  "Lstat W p = sys W sound_failure (\<lambda>_ f. case f p of None \<Rightarrow> Inl NotExist | Some nd \<Rightarrow> Inr (nd, f))"

definition Readlink :: "fs_world \<Rightarrow> path \<Rightarrow> (io_error + string) fsm" where
  "Readlink W p = sys W sound_failure (\<lambda>_ f. case f p of
     Some (NLink t) \<Rightarrow> Inr (t, f) | None \<Rightarrow> Inl NotExist | _ \<Rightarrow> Inl Failed)"

definition ReadFile :: "fs_world \<Rightarrow> path \<Rightarrow> (io_error + string) fsm" where
  "ReadFile W p = sys W sound_failure (\<lambda>_ f. case f p of
     Some (NFile d) \<Rightarrow> Inr (d, f) | None \<Rightarrow> Inl NotExist | _ \<Rightarrow> Inl Failed)"

definition Mkdir :: "fs_world \<Rightarrow> path \<Rightarrow> (io_error + unit) fsm" where
  "Mkdir W p = sys W sound_failure (\<lambda>_ f.
     if f p \<noteq> None then Inl Exist else if \<not> is_dir f (butlast p) then Inl NotExist else Inr ((), f(p \<mapsto> NDir)))"

text \<open>\<^verbatim>\<open>MkdirAll\<close> creates the missing ones among \<open>p\<close> and its ancestors.\<close>

definition mkdir_all :: "path \<Rightarrow> fs \<Rightarrow> fs" where
  "mkdir_all p f = (\<lambda>q. if q \<noteq> [] \<and> prefix q p then Some NDir else f q)"

definition MkdirAll :: "fs_world \<Rightarrow> path \<Rightarrow> (io_error + unit) fsm" where
  "MkdirAll W p = sys W sound_failure (\<lambda>_ f.
     if list_ex (\<lambda>q. f q \<noteq> None \<and> f q \<noteq> Some NDir) (tl (prefixes p)) then Inl Failed else Inr ((), mkdir_all p f))"

text \<open>Creating a file that must not exist, writing and syncing it.\<close>

definition WriteNew :: "fs_world \<Rightarrow> path \<Rightarrow> string \<Rightarrow> (io_error + unit) fsm" where
  "WriteNew W p content = sys W
     (\<lambda>n f. if f p \<noteq> None \<or> \<not> is_dir f (butlast p) then f
            else (case fw_left W n of None \<Rightarrow> f | Some part \<Rightarrow> f(p \<mapsto> NFile part)))
     (\<lambda>_ f. if f p \<noteq> None then Inl Exist else if \<not> is_dir f (butlast p) then Inl NotExist
            else Inr ((), f(p \<mapsto> NFile content)))"

text \<open>
  Opening a lock file, creating it if needed, and taking the lock (package \<^verbatim>\<open>fslock\<close>). A wait that
  ends without the lock leaves the file.
\<close>

definition Lock :: "fs_world \<Rightarrow> path \<Rightarrow> (io_error + unit) fsm" where
  "Lock W p = sys W
     (\<lambda>n f. if f p = None \<and> is_dir f (butlast p) \<and> fw_left W n \<noteq> None then f(p \<mapsto> NFile []) else f) (\<lambda>_ f. case f p of
     Some (NFile d) \<Rightarrow> Inr ((), f)
   | Some _ \<Rightarrow> Inl Failed
   | None \<Rightarrow> if is_dir f (butlast p) then Inr ((), f(p \<mapsto> NFile [])) else Inl NotExist)"

definition fsyncDir :: "fs_world \<Rightarrow> path \<Rightarrow> (io_error + unit) fsm" where
  "fsyncDir W p = sys W sound_failure (\<lambda>_ f. if is_dir f p then Inr ((), f) else Inl NotExist)"

definition Chmod :: "fs_world \<Rightarrow> path \<Rightarrow> (io_error + unit) fsm" where
  "Chmod W p = sys W sound_failure (\<lambda>_ f. if f p = None then Inl NotExist else Inr ((), f))"

definition Symlink :: "fs_world \<Rightarrow> string \<Rightarrow> path \<Rightarrow> (io_error + unit) fsm" where
  "Symlink W target p = sys W sound_failure (\<lambda>_ f.
     if f p \<noteq> None then Inl Exist else if \<not> is_dir f (butlast p) then Inl NotExist else Inr ((), f(p \<mapsto> NLink target)))"

text \<open>Writing a file, creating or truncating it.\<close>

definition WriteFile :: "fs_world \<Rightarrow> path \<Rightarrow> string \<Rightarrow> (io_error + unit) fsm" where
  "WriteFile W p content = sys W
     (\<lambda>n f. if f p \<notin> {None} \<union> range (Some \<circ> NFile) \<or> \<not> is_dir f (butlast p) then f
            else (case fw_left W n of None \<Rightarrow> f | Some part \<Rightarrow> f(p \<mapsto> NFile part)))
     (\<lambda>_ f. case f p of
        Some NDir \<Rightarrow> Inl Failed
      | Some (NLink _) \<Rightarrow> Inl Failed
      | _ \<Rightarrow> if is_dir f (butlast p) then Inr ((), f(p \<mapsto> NFile content)) else Inl NotExist)"

text \<open>\<^verbatim>\<open>os.Rename\<close> refuses to replace a directory, and a directory replaces nothing else.\<close>

definition Rename :: "fs_world \<Rightarrow> path \<Rightarrow> path \<Rightarrow> (io_error + unit) fsm" where
  "Rename W a b = sys W sound_failure (\<lambda>_ f.
     case f a of
       None \<Rightarrow> Inl NotExist
     | Some nd \<Rightarrow>
         if \<not> is_dir f (butlast b) then Inl NotExist
         else if f b = Some NDir then Inl Exist
         else if nd = NDir \<and> f b \<noteq> None then Inl Failed
         else Inr ((), move_tree a b f))"

definition RemoveAll :: "fs_world \<Rightarrow> path \<Rightarrow> (io_error + unit) fsm" where
  "RemoveAll W p = sys W
     (\<lambda>n f q. if below p q \<and> fw_removed W n q then None else f q)
     (\<lambda>_ f. Inr ((), remove_tree p f))"

text \<open>The paths of a tree, relative to its root, in the order \<^verbatim>\<open>filepath.WalkDir\<close> visits them.\<close>

definition WalkDir :: "fs_world \<Rightarrow> path \<Rightarrow> (io_error + path list) fsm" where
  "WalkDir W p = sys W sound_failure (\<lambda>_ f. if f p = None then Inl NotExist else Inr (fw_walk W f p, f))"

definition Now :: "fs_world \<Rightarrow> gotime fsm" where
  "Now W = State (\<lambda>(n, f). (fw_now W n, (n, f)))"

definition Random :: "fs_world \<Rightarrow> string option fsm" where
  "Random W = State (\<lambda>(n, f). (fw_random W n, (n, f)))"

definition CtxErr :: "fs_world \<Rightarrow> io_error option fsm" where
  "CtxErr W = State (\<lambda>(n, f). (fw_ctx W n, (n, f)))"

subsection \<open>Paths\<close>

definition sep :: char where "sep = CHR ''/''"

text \<open>\<^verbatim>\<open>filepath.Join\<close> of a path and a relative text, cleaned.\<close>

definition clean_step :: "path \<Rightarrow> string \<Rightarrow> path" where
  "clean_step p c = (if c = [] \<or> c = ''.'' then p else if c = ''..'' then butlast p else p @ [c])"

definition join_path :: "path \<Rightarrow> string \<Rightarrow> path" where
  "join_path p t = foldl clean_step p (Split sep t)"

text \<open>\<^verbatim>\<open>filepath.EvalSymlinks\<close> on the last component.\<close>

fun eval_link :: "nat \<Rightarrow> fs \<Rightarrow> path \<Rightarrow> path option" where
  "eval_link 0 f p = None"
| "eval_link (Suc k) f p =
     (case f p of
        None \<Rightarrow> None
      | Some (NLink t) \<Rightarrow> eval_link k f (if t \<noteq> [] \<and> hd t = sep then join_path [] t else join_path (butlast p) t)
      | Some _ \<Rightarrow> Some p)"

definition EvalSymlinks :: "fs_world \<Rightarrow> path \<Rightarrow> (io_error + path) fsm" where
  "EvalSymlinks W p = sys W sound_failure (\<lambda>_ f. case eval_link 255 f p of None \<Rightarrow> Inl NotExist | Some q \<Rightarrow> Inr (q, f))"

subsection \<open>Which paths a program can change\<close>

text \<open>\<open>confined ps m\<close>: whatever fails, \<open>m\<close> changes nothing outside the trees at \<open>ps\<close>.\<close>

definition confined :: "path set \<Rightarrow> 'a fsm \<Rightarrow> bool" where
  "confined ps m \<longleftrightarrow> (\<forall>s r s' q. run_state m s = (r, s') \<longrightarrow> (\<forall>p \<in> ps. \<not> below p q) \<longrightarrow> snd s' q = snd s q)"

named_theorems confined_rules "programs that only change given trees"

lemma confinedI:
  "(\<And>n f r n' f' q. run_state m (n, f) = (r, (n', f')) \<Longrightarrow> \<forall>p \<in> ps. \<not> below p q \<Longrightarrow> f' q = f q) \<Longrightarrow> confined ps m"
  unfolding confined_def by (metis prod.collapse)

lemma confinedD: "confined ps m \<Longrightarrow> run_state m (n, f) = (r, (n', f')) \<Longrightarrow> (\<And>p. p \<in> ps \<Longrightarrow> \<not> below p q) \<Longrightarrow> f' q = f q"
  unfolding confined_def by (metis snd_conv)

lemma confined_return [confined_rules]: "confined ps (give a)"
  by (simp add: confined_def)

lemma run_sys_Inr: "run_state (sys W br op) (n, f) = (Inr a, (n', f')) \<longleftrightarrow> fw_fail W n = None \<and> n' = Suc n \<and> op n f = Inr (a, f')"
  by (auto simp: sys_def split: option.splits sum.splits)

lemma confined_bind [confined_rules]:
  assumes "confined ps m" "\<And>a. confined ps (k a)"
  shows "confined ps (State_Monad.bind m k)"
proof (rule confinedI)
  fix n f r n' f' q
  assume run: "run_state (State_Monad.bind m k) (n, f) = (r, (n', f'))" and q: "\<forall>p \<in> ps. \<not> below p q"
  obtain a n1 f1 where m: "run_state m (n, f) = (a, (n1, f1))" by (metis prod_cases3)
  then have "f1 q = f q" "f' q = f1 q"
    using run q confinedD[OF assms(1) m] confinedD[OF assms(2), of a n1 f1] by (auto simp: run_bind)
  then show "f' q = f q" by simp
qed

lemma confined_cases [confined_rules]:
  "(\<And>e. r = Inl e \<Longrightarrow> confined ps (g e)) \<Longrightarrow> (\<And>a. r = Inr a \<Longrightarrow> confined ps (h a)) \<Longrightarrow> confined ps (case r of Inl e \<Rightarrow> g e | Inr a \<Rightarrow> h a)"
  "(opt = None \<Longrightarrow> confined ps m) \<Longrightarrow> (\<And>x. opt = Some x \<Longrightarrow> confined ps (k x)) \<Longrightarrow> confined ps (case opt of None \<Rightarrow> m | Some x \<Rightarrow> k x)"
  "(b \<Longrightarrow> confined ps m) \<Longrightarrow> (\<not> b \<Longrightarrow> confined ps m') \<Longrightarrow> confined ps (if b then m else m')"
  by (auto split: sum.splits option.splits)

lemma confined_attempt [confined_rules]:
  "confined ps m \<Longrightarrow> (\<And>a. confined ps (k a)) \<Longrightarrow> confined ps (attempt m k)"
  "confined ps m \<Longrightarrow> confined ps c \<Longrightarrow> confined ps (on_failure m c)"
  unfolding attempt_def on_failure_def by (auto intro!: confined_rules)

lemma confined_sys:
  assumes "\<And>n f q. (\<forall>p \<in> ps. \<not> below p q) \<Longrightarrow> broken n f q = f q"
    and "\<And>n f a f' q. op n f = Inr (a, f') \<Longrightarrow> (\<forall>p \<in> ps. \<not> below p q) \<Longrightarrow> f' q = f q"
  shows "confined ps (sys W broken op)"
  by (rule confinedI) (use assms in \<open>auto simp: sys_def split: option.splits sum.splits\<close>)

lemma confined_reads [confined_rules]:
  "confined ps (Lstat W p)" "confined ps (Readlink W p)" "confined ps (ReadFile W p)" "confined ps (fsyncDir W p)"
  unfolding Lstat_def Readlink_def ReadFile_def fsyncDir_def
  by (intro confined_sys; auto split: option.splits node.splits if_splits)+

lemma below_refl [simp]: "below p p"
  by (simp add: below_def)

lemma outside: "p \<in> ps \<Longrightarrow> \<forall>pa \<in> ps. \<not> below pa q \<Longrightarrow> q \<noteq> p \<and> \<not> below p q"
  by auto

lemma confined_writes [confined_rules]:
  "p \<in> ps \<Longrightarrow> confined ps (Mkdir W p)" "p \<in> ps \<Longrightarrow> confined ps (WriteNew W p c)" "p \<in> ps \<Longrightarrow> confined ps (Lock W p)"
  "p \<in> ps \<Longrightarrow> confined ps (Symlink W t p)" "p \<in> ps \<Longrightarrow> confined ps (RemoveAll W p)"
  "a \<in> ps \<Longrightarrow> b \<in> ps \<Longrightarrow> confined ps (Rename W a b)"
  unfolding Mkdir_def WriteNew_def Lock_def Symlink_def RemoveAll_def Rename_def
  by (intro confined_sys; auto simp: remove_tree_def move_tree_def dest: outside split: option.splits node.splits if_splits)+

text \<open>\<open>avoids a m\<close>: whatever fails, \<open>m\<close> leaves the tree at \<open>a\<close> as it is.\<close>

definition avoids :: "path \<Rightarrow> 'a fsm \<Rightarrow> bool" where
  "avoids a m \<longleftrightarrow> (\<forall>s r s' q. run_state m s = (r, s') \<longrightarrow> below a q \<longrightarrow> snd s' q = snd s q)"

definition apart :: "path \<Rightarrow> path \<Rightarrow> bool" where
  "apart a p \<longleftrightarrow> \<not> prefix a p \<and> \<not> prefix p a"

lemma apart_below: "apart a p \<Longrightarrow> below p q \<Longrightarrow> apart a q"
  unfolding apart_def below_def by (meson prefix_order.trans prefix_same_cases)

lemma avoidsD: "avoids a m \<Longrightarrow> run_state m (n, f) = (r, (n', f')) \<Longrightarrow> below a q \<Longrightarrow> f' q = f q"
  unfolding avoids_def by (metis snd_conv)

lemma confined_avoids: "confined ps m \<Longrightarrow> (\<And>p. p \<in> ps \<Longrightarrow> apart a p) \<Longrightarrow> avoids a m"
  unfolding avoids_def confined_def below_def apart_def by (meson prefix_same_cases)

named_theorems avoid_rules "programs that leave a given tree alone"

lemma avoids_return [avoid_rules]: "avoids a (give x)"
  by (simp add: avoids_def)

lemma avoids_bind [avoid_rules]: "avoids a m \<Longrightarrow> (\<And>x. avoids a (k x)) \<Longrightarrow> avoids a (State_Monad.bind m k)"
  unfolding avoids_def run_bind by (fastforce split: prod.splits)

lemma avoids_cases [avoid_rules]:
  "(\<And>e. r = Inl e \<Longrightarrow> avoids a (g e)) \<Longrightarrow> (\<And>x. r = Inr x \<Longrightarrow> avoids a (h x)) \<Longrightarrow> avoids a (case r of Inl e \<Rightarrow> g e | Inr x \<Rightarrow> h x)"
  "(opt = None \<Longrightarrow> avoids a m) \<Longrightarrow> (\<And>x. opt = Some x \<Longrightarrow> avoids a (k x)) \<Longrightarrow> avoids a (case opt of None \<Rightarrow> m | Some x \<Rightarrow> k x)"
  "(b \<Longrightarrow> avoids a m) \<Longrightarrow> (\<not> b \<Longrightarrow> avoids a m') \<Longrightarrow> avoids a (if b then m else m')"
  "avoids a m \<Longrightarrow> (\<And>d. avoids a (k1 d)) \<Longrightarrow> (\<And>t. avoids a (k2 t)) \<Longrightarrow> avoids a (case nd of NDir \<Rightarrow> m | NFile d \<Rightarrow> k1 d | NLink t \<Rightarrow> k2 t)"
  by (auto split: sum.splits option.splits node.splits)

lemma avoids_attempt [avoid_rules]:
  "avoids a m \<Longrightarrow> (\<And>x. avoids a (k x)) \<Longrightarrow> avoids a (attempt m k)"
  "avoids a m \<Longrightarrow> avoids a c \<Longrightarrow> avoids a (on_failure m c)"
  unfolding attempt_def on_failure_def by (auto intro!: avoid_rules)

lemma avoids_reads [avoid_rules]:
  "avoids a (Lstat W p)" "avoids a (Readlink W p)" "avoids a (ReadFile W p)" "avoids a (fsyncDir W p)"
  by (auto intro: confined_avoids[of "{}"] confined_rules)

lemma avoids_looks [avoid_rules]:
  "avoids a (WalkDir W p)" "avoids a (EvalSymlinks W p)" "avoids a (Now W)" "avoids a (Random W)" "avoids a (CtxErr W)" "avoids a (Chmod W p)"
  by (auto simp: avoids_def Chmod_def WalkDir_def EvalSymlinks_def Now_def Random_def CtxErr_def sys_def split: option.splits if_splits)

lemma avoids_writes [avoid_rules]:
  "apart a p \<Longrightarrow> avoids a (Mkdir W p)" "apart a p \<Longrightarrow> avoids a (WriteNew W p c)" "apart a p \<Longrightarrow> avoids a (Lock W p)"
  "apart a p \<Longrightarrow> avoids a (Symlink W t p)" "apart a p \<Longrightarrow> avoids a (RemoveAll W p)"
  "apart a p \<Longrightarrow> apart a q \<Longrightarrow> avoids a (Rename W p q)"
  by (auto intro: confined_avoids[of "{p}"] confined_avoids[of "{p, q}"] confined_rules)

lemma avoids_writefile [avoid_rules]: "apart a p \<Longrightarrow> avoids a (WriteFile W p c)"
  by (auto simp: avoids_def WriteFile_def sys_def apart_def below_def split: option.splits node.splits if_splits)

lemma avoids_mkdirall [avoid_rules]: "\<not> prefix a p \<Longrightarrow> avoids a (MkdirAll W p)"
  by (auto simp: avoids_def MkdirAll_def sys_def below_def mkdir_all_def split: option.splits if_splits dest: prefix_order.trans)

lemma confined_wider: "confined ps m \<Longrightarrow> (\<And>p. p \<in> ps \<Longrightarrow> \<exists>p' \<in> ps'. below p' p) \<Longrightarrow> confined ps' m"
  unfolding confined_def below_def by (meson prefix_order.trans)

end
