(* ===== verification/CertStore.thy ===== *)
theory CertStore
  imports GoStrings Envelope
begin

text \<open>
  Package \<^verbatim>\<open>pkg/store\<close>: object names, what a store knows about a certificate, key types and the
  splitting of PEM bundles. SHA-256, PEM and X.509 parsing are parameters; a PEM text is given by
  the blocks \<^verbatim>\<open>pem.Decode\<close> finds in it, one after the other.
\<close>

subsection \<open>Object names\<close>

definition ObjectNameHashBytes :: nat where "ObjectNameHashBytes = 8"

definition object_rune :: "nat \<Rightarrow> nat option" where
  "object_rune r =
     (if r < 0x80 \<and> (is_alnum (char_of r) \<or> r = 46 \<or> r = 45 \<or> r = 95) then Some r else Some 45)"

text \<open>The loop \<^verbatim>\<open>for strings.Contains(readable, "..")\<close>.\<close>

function collapse_dots :: "string \<Rightarrow> string" where
  "collapse_dots s = (if Contains s ''..'' then collapse_dots (ReplaceAll s ''..'' ''.'') else s)"
  by pat_completeness auto
termination by (relation "measure length") (auto intro!: length_ReplaceAll_less)

declare collapse_dots.simps [simp del]

definition ObjectNameN :: "(string \<Rightarrow> string) \<Rightarrow> string \<Rightarrow> int \<Rightarrow> string" where
  "ObjectNameN sha fqdn maxLen =
     (let suff = ''-'' @ hex_encode (take ObjectNameHashBytes (sha fqdn));
          readable = replace_first fqdn ''*.'' ''wildcard.'';
          mx = maxLen - int (length suff);
          mx = nat (if mx < 1 then 1 else mx);
          readable = (if mx < length readable then TrimRight (take mx readable) ''.-'' else readable);
          readable = strings_Map object_rune readable;
          readable = TrimLeft readable ''.-_'';
          readable = TrimRight readable ''.-_'';
          readable = (if readable = [] then ''target'' else readable) in
      collapse_dots readable @ suff)"

definition ObjectName :: "(string \<Rightarrow> string) \<Rightarrow> string \<Rightarrow> string" where
  "ObjectName sha fqdn = ObjectNameN sha fqdn (int MaxStoreObjectRefLength)"

subsection \<open>Certificates\<close>

datatype public_key = ECDSA nat | RSA nat | OtherKey

text \<open>\<open>ECDSA\<close> carries the size of the NIST curve, \<open>RSA\<close> the bit length of the modulus.\<close>

record x509_cert =
  crt_Raw :: string
  crt_NotBefore :: gotime
  crt_NotAfter :: gotime
  crt_DNSNames :: "string list"
  crt_PublicKey :: public_key
  crt_KeyBytes :: string

record cert_info =
  ci_FingerprintSHA256 :: string
  ci_NotBefore :: gotime
  ci_NotAfter :: gotime
  ci_DNSNames :: "string list"
  ci_KeyType :: string
  ci_Stale :: bool

record cert_bundle =
  bd_Certificate :: string
  bd_Chain :: string
  bd_PrivateKey :: string

record pem_block =
  pb_Type :: string
  pb_Bytes :: string

text \<open>
  \<open>px_blocks\<close> lists the blocks of a text, \<open>px_encode\<close> is \<^verbatim>\<open>pem.EncodeToMemory\<close>, \<open>px_parse\<close>
  \<^verbatim>\<open>x509.ParseCertificate\<close> and \<open>px_private\<close> the parser of the private key forms, giving the bytes
  of the public key.
\<close>

record pki =
  px_sha :: "string \<Rightarrow> string"
  px_blocks :: "string \<Rightarrow> pem_block list"
  px_encode :: "pem_block \<Rightarrow> string"
  px_parse :: "string \<Rightarrow> x509_cert option"
  px_private :: "string \<Rightarrow> string \<Rightarrow> string option"

definition curve_of :: "string \<Rightarrow> nat option" where
  "curve_of kt = map_of [(''ec256'', 256), (''ec384'', 384)] kt"

definition modulus_of :: "string \<Rightarrow> nat option" where
  "modulus_of kt = map_of [(''rsa2048'', 2048), (''rsa3072'', 3072), (''rsa4096'', 4096)] kt"

definition KeyMatchesType :: "x509_cert \<Rightarrow> string \<Rightarrow> bool" where
  "KeyMatchesType c kt =
     (case crt_PublicKey c of
        ECDSA n \<Rightarrow> (case curve_of kt of None \<Rightarrow> False | Some want \<Rightarrow> n = want)
      | RSA n \<Rightarrow> (case modulus_of kt of None \<Rightarrow> False | Some want \<Rightarrow> n = want)
      | OtherKey \<Rightarrow> False)"

definition KeyTypeOf :: "x509_cert \<Rightarrow> string" where
  "KeyTypeOf c =
     (case find (KeyMatchesType c) [''ec256'', ''ec384'', ''rsa2048'', ''rsa3072'', ''rsa4096''] of
        None \<Rightarrow> [] | Some kt \<Rightarrow> kt)"

definition Fingerprint :: "pki \<Rightarrow> x509_cert \<Rightarrow> string" where
  "Fingerprint P c = hex_encode (px_sha P (crt_Raw c))"

definition InfoOf :: "pki \<Rightarrow> x509_cert \<Rightarrow> cert_info" where
  "InfoOf P c = \<lparr>ci_FingerprintSHA256 = Fingerprint P c, ci_NotBefore = crt_NotBefore c,
     ci_NotAfter = crt_NotAfter c, ci_DNSNames = crt_DNSNames c, ci_KeyType = KeyTypeOf c, ci_Stale = False\<rparr>"

subsection \<open>PEM bundles\<close>

fun leaf_of :: "pki \<Rightarrow> pem_block list \<Rightarrow> x509_cert option" where
  "leaf_of P [] = None"
| "leaf_of P (b # bs) = (if pb_Type b = ''CERTIFICATE'' then px_parse P (pb_Bytes b) else leaf_of P bs)"

definition ParseLeaf :: "pki \<Rightarrow> string \<Rightarrow> x509_cert option" where
  "ParseLeaf P pemData = leaf_of P (px_blocks P pemData)"

fun split_blocks :: "pki \<Rightarrow> string option \<Rightarrow> string \<Rightarrow> pem_block list \<Rightarrow> (string \<times> string) option" where
  "split_blocks P leaf chain [] = map_option (\<lambda>l. (l, chain)) leaf"
| "split_blocks P leaf chain (b # bs) =
     (if pb_Type b \<noteq> ''CERTIFICATE'' then split_blocks P leaf chain bs
      else (case leaf of
              None \<Rightarrow> split_blocks P (Some (px_encode P b)) chain bs
            | Some l \<Rightarrow> split_blocks P (Some l) (chain @ px_encode P b) bs))"

definition SplitChain :: "pki \<Rightarrow> string \<Rightarrow> (string \<times> string) option" where
  "SplitChain P pemData = split_blocks P None [] (px_blocks P pemData)"

definition ParsePrivateKey :: "pki \<Rightarrow> string \<Rightarrow> string option" where
  "ParsePrivateKey P keyPEM =
     (case px_blocks P keyPEM of
        [] \<Rightarrow> None
      | b # _ \<Rightarrow>
          if pb_Type b \<in> {''EC PRIVATE KEY'', ''RSA PRIVATE KEY'', ''PRIVATE KEY''}
          then px_private P (pb_Type b) (pb_Bytes b) else None)"

definition PrivateKeyMatches :: "pki \<Rightarrow> x509_cert \<Rightarrow> string \<Rightarrow> bool" where
  "PrivateKeyMatches P c keyPEM = (ParsePrivateKey P keyPEM = Some (crt_KeyBytes c))"

subsection \<open>Key types\<close>

lemma KeyMatchesType_unique: "KeyMatchesType c k \<Longrightarrow> KeyMatchesType c k' \<Longrightarrow> k = k'"
  by (auto simp: KeyMatchesType_def curve_of_def modulus_of_def split: public_key.splits option.splits if_splits)

lemma KeyMatchesType_known: "KeyMatchesType c k \<Longrightarrow> k \<in> set KeyTypes"
  by (auto simp: KeyMatchesType_def curve_of_def modulus_of_def KeyTypes_def split: public_key.splits option.splits if_splits)

lemma KeyTypeOf_iff: "k \<noteq> [] \<Longrightarrow> KeyTypeOf c = k \<longleftrightarrow> KeyMatchesType c k"
proof
  assume "k \<noteq> []" "KeyTypeOf c = k"
  then have "find (KeyMatchesType c) KeyTypes = Some k"
    unfolding KeyTypeOf_def KeyTypes_def by (auto split: option.splits simp del: find.simps)
  then show "KeyMatchesType c k" by (auto simp: find_Some_iff)
next
  assume k: "KeyMatchesType c k"
  then have "find (KeyMatchesType c) KeyTypes \<noteq> None"
    using KeyMatchesType_known[OF k] by (auto simp: find_None_iff)
  then obtain k' where f: "find (KeyMatchesType c) KeyTypes = Some k'" by blast
  then have "KeyMatchesType c k'" by (auto simp: find_Some_iff)
  with f k show "KeyTypeOf c = k" using KeyMatchesType_unique by (auto simp: KeyTypeOf_def KeyTypes_def)
qed

subsection \<open>The object name is a legal name that carries the hash\<close>

definition object_char :: "char \<Rightarrow> bool" where
  "object_char c \<longleftrightarrow> is_alnum c \<or> c = CHR ''.'' \<or> c = CHR ''_'' \<or> c = CHR ''-''"

definition readable_name :: "string \<Rightarrow> bool" where
  "readable_name s \<longleftrightarrow> s \<noteq> [] \<and> is_alnum (hd s) \<and> is_alnum (last s) \<and> list_all object_char s"

lemma runes_length: "length (runes s) \<le> length s"
proof (induction s rule: rune_pairs.induct)
  case (2 c s)
  then show ?case using decode_rune_width[of "c # s"] by (simp add: runes_def)
qed (simp add: runes_def)

lemma object_rune_one: "\<exists>c. object_char c \<and> (case object_rune r of None \<Rightarrow> [] | Some r' \<Rightarrow> encode_rune r') = [c]"
proof -
  have "char_of (46 :: nat) = CHR ''.''" "char_of (45 :: nat) = CHR ''-''" "char_of (95 :: nat) = CHR ''_''"
    by (simp_all flip: byte_of_inject add: byte_of_def)
  then show ?thesis by (auto simp: object_rune_def encode_rune_def object_char_def)
qed

lemma object_map:
  "list_all object_char (strings_Map object_rune s) \<and> length (strings_Map object_rune s) \<le> length s"
proof -
  define f where "f r = (case object_rune r of None \<Rightarrow> [] | Some r' \<Rightarrow> encode_rune r')" for r
  have one: "list_all object_char (f r) \<and> length (f r) = 1" for r
    using object_rune_one[of r] by (auto simp: f_def)
  have "list_all object_char (concat (map f rs)) \<and> length (concat (map f rs)) = length rs" for rs
    by (induction rs) (use one in auto)
  from this[of "runes s"] show ?thesis using runes_length[of s] by (simp add: strings_Map_def flip: f_def)
qed

text \<open>Collapsing dots keeps the first and the last byte of a name that starts and ends otherwise.\<close>

lemma ReplaceAll_hd: "s \<noteq> [] \<Longrightarrow> hd s \<noteq> CHR ''.'' \<Longrightarrow> ReplaceAll s ''..'' ''.'' \<noteq> [] \<and> hd (ReplaceAll s ''..'' ''.'') = hd s"
  by (cases s) auto

lemma ReplaceAll_last:
  "s \<noteq> [] \<Longrightarrow> last s \<noteq> CHR ''.'' \<Longrightarrow> ReplaceAll s ''..'' ''.'' \<noteq> [] \<and> last (ReplaceAll s ''..'' ''.'') = last s"
proof (induction s "''..''" "''.''" rule: ReplaceAll.induct)
  case (2 c s)
  show ?case
  proof (cases "prefix ''..'' (c # s)")
    case True
    then obtain t where s: "c = CHR ''.''" "s = CHR ''.'' # t" by (auto simp: prefix_def)
    with "2.prems" have "t \<noteq> []" by auto
    then show ?thesis using "2.hyps"(1)[OF _ ] "2.prems" s True by auto
  next
    case False
    then show ?thesis using "2.hyps"(2) "2.prems" by (cases "s = []") auto
  qed
qed simp

lemma collapse_readable:
  "readable_name s \<Longrightarrow> readable_name (collapse_dots s) \<and> length (collapse_dots s) \<le> length s \<and> \<not> Contains (collapse_dots s) ''..''"
proof (induction s rule: collapse_dots.induct)
  case (1 s)
  show ?case
  proof (cases "Contains s ''..''")
    case True
    let ?r = "ReplaceAll s ''..'' ''.''"
    have ends: "hd s \<noteq> CHR ''.''" "last s \<noteq> CHR ''.''" "s \<noteq> []"
      using "1.prems" by (auto simp: readable_name_def is_alnum_def in_range_def byte_of_def)
    have "readable_name ?r"
      using "1.prems" ReplaceAll_hd[OF ends(3,1)] ReplaceAll_last[OF ends(3,2)] set_ReplaceAll[of s "''..''" "''.''"]
      by (auto simp: readable_name_def list_all_iff object_char_def)
    then show ?thesis using "1.IH"[OF True] True length_ReplaceAll[of "''.''" "''..''" s]
      by (subst (1 2 3) collapse_dots.simps) auto
  next
    case False
    then show ?thesis using "1.prems" by (subst (1 2 3) collapse_dots.simps) simp
  qed
qed

lemma trimmed_readable:
  assumes "list_all object_char s" "t = TrimRight (TrimLeft s ''.-_'') ''.-_''" "t \<noteq> []"
  shows "readable_name t"
proof -
  have l: "TrimLeft s ''.-_'' \<noteq> []" using assms by (auto simp: TrimRight_def)
  have "set t \<subseteq> set s" using set_Trim assms(2) by blast
  then have all: "list_all object_char t" using assms(1) by (auto simp: list_all_iff)
  then have "object_char (hd t)" "object_char (last t)" using assms(3) by (auto simp: list_all_iff)
  moreover have "hd t \<notin> set ''.-_''" "last t \<notin> set ''.-_''"
    using TrimLeft_hd[OF l] TrimRight_hd[of "TrimLeft s ''.-_''" "''.-_''"]
      TrimRight_last[of "TrimLeft s ''.-_''" "''.-_''"] assms by auto
  ultimately show ?thesis using all assms(3) by (auto simp: readable_name_def object_char_def)
qed

lemma ObjectNameN_shape:
  assumes h: "h = hex_encode (take ObjectNameHashBytes (sha fqdn))"
  obtains r where "ObjectNameN sha fqdn mx = r @ ''-'' @ h" "readable_name r" "\<not> Contains r ''..''"
    "length r \<le> max 6 (nat (mx - int (length h) - 1))"
proof -
  let ?r1 = "replace_first fqdn ''*.'' ''wildcard.''"
  let ?n = "nat (if mx - int (length (''-'' @ h)) < 1 then 1 else mx - int (length (''-'' @ h)))"
  define r2 where "r2 = (if ?n < length ?r1 then TrimRight (take ?n ?r1) ''.-'' else ?r1)"
  define r4 where "r4 = TrimRight (TrimLeft (strings_Map object_rune r2) ''.-_'') ''.-_''"
  define r5 where "r5 = (if r4 = [] then ''target'' else r4)"
  have name: "ObjectNameN sha fqdn mx = collapse_dots r5 @ ''-'' @ h"
    by (simp add: ObjectNameN_def Let_def r5_def r4_def r2_def h)
  have "length r2 \<le> ?n"
    using length_Trim(2)[of "take ?n ?r1" "''.-''"] by (auto simp: r2_def simp del: length_Trim)
  then have "length r4 \<le> ?n"
    using object_map[of r2] length_Trim unfolding r4_def by (meson le_trans)
  then have len: "length r5 \<le> max 6 (nat (mx - int (length h) - 1))"
    by (auto simp: r5_def split: if_splits)
  have "readable_name r5"
    using trimmed_readable[of "strings_Map object_rune r2" r4] object_map[of r2]
    by (auto simp: r5_def r4_def readable_name_def object_char_def is_alnum_def in_range_def byte_of_def)
  with collapse_readable[of r5] len show thesis using that[OF name] by force
qed

lemma hex_encode_simps [simp]:
  "hex_encode [] = []" "hex_encode (c # s) = hex_digit (byte_of c div 16) # hex_digit (byte_of c mod 16) # hex_encode s"
  by (simp_all add: hex_encode_def)

lemma length_hex_encode [simp]: "length (hex_encode s) = 2 * length s"
  by (induction s) auto

lemma hex_digit_inject: "m < 16 \<Longrightarrow> n < 16 \<Longrightarrow> hex_digit m = hex_digit n \<longleftrightarrow> m = n"
proof -
  have d: "distinct ''0123456789abcdef''" by simp
  show "m < 16 \<Longrightarrow> n < 16 \<Longrightarrow> ?thesis"
    unfolding hex_digit_def by (rule nth_eq_iff_index_eq[OF d]) simp_all
qed

lemma hex_encode_inject: "hex_encode s = hex_encode t \<longleftrightarrow> s = t"
proof (induction s arbitrary: t)
  case (Cons c s)
  have "byte_of c = byte_of d" if "byte_of c div 16 = byte_of d div 16" "byte_of c mod 16 = byte_of d mod 16" for d
    using that div_mod_decomp by metis
  then show ?case using Cons
    by (cases t) (auto simp: hex_digit_inject less_mult_imp_div_less)
next
  case Nil
  show ?case by (cases t) auto
qed

lemma hex_encode_lower: "list_all is_lower_hex (hex_encode s)"
proof (induction s)
  case (Cons c s)
  have "is_lower_hex (hex_digit n)" if "n < 16" for n
    using hex_table that by (simp add: list_all_iff)
  then show ?case using Cons by (simp add: less_mult_imp_div_less)
qed simp

lemma lower_hex_alnum: "is_lower_hex c \<Longrightarrow> is_alnum c"
  by (auto simp: is_lower_hex_def is_alnum_def in_range_def byte_of_def)

lemma joined_name_ok:
  assumes r: "readable_name r" "\<not> Contains r ''..''" and h: "list_all is_lower_hex h" "h \<noteq> []"
    and len: "length (r @ ''-'' @ h) \<le> MaxStoreObjectRefLength"
  shows "IsStoreObjectRef (r @ ''-'' @ h)"
proof -
  have alnum: "is_alnum c" if "c \<in> set h" for c using h(1) that lower_hex_alnum by (auto simp: list_all_iff)
  from this[of "CHR ''.''"] have "CHR ''.'' \<notin> set h" by (auto simp: is_alnum_def in_range_def byte_of_def)
  then have "\<not> sublist ''..'' (CHR ''-'' # h)" using set_mono_sublist[of "''..''" "CHR ''-'' # h"] by auto
  then have dots: "\<not> Contains (r @ ''-'' @ h) ''..''"
    using r(2) by (auto simp: Contains_def sublist_append Cons_eq_append_conv)
  obtain c t where ct: "r = c # t" using r(1) by (cases r) (auto simp: readable_name_def)
  have "object_char d" if "d \<in> set t \<union> {CHR ''-''} \<union> set h" for d
    using that r(1) ct alnum by (auto simp: readable_name_def list_all_iff object_char_def)
  then have "list_all object_char (butlast (t @ ''-'' @ h))" using h(2) by (auto simp: list_all_iff butlast_append dest: in_set_butlastD)
  then have "storeObjectRefRe (r @ ''-'' @ h)"
    using r(1) ct h(2) alnum[of "last h"] len
    by (auto simp: storeObjectRefRe_def re_ends_def readable_name_def MaxStoreObjectRefLength_def simp flip: object_char_def)
  then show ?thesis using dots len ct by (auto simp: IsStoreObjectRef_def validateStoreObjectRef_def)
qed

lemma ObjectNameN_legal:
  assumes sha: "\<And>s. length (sha s) = 32" and mx: "23 \<le> mx" "mx \<le> int MaxStoreObjectRefLength"
  shows "IsStoreObjectRef (ObjectNameN sha f mx) \<and> int (length (ObjectNameN sha f mx)) \<le> mx"
proof -
  let ?h = "hex_encode (take ObjectNameHashBytes (sha f))"
  have h: "length ?h = 16" by (simp add: sha ObjectNameHashBytes_def)
  obtain r where r: "ObjectNameN sha f mx = r @ ''-'' @ ?h" "readable_name r" "\<not> Contains r ''..''"
    "length r \<le> max 6 (nat (mx - int (length ?h) - 1))" by (rule ObjectNameN_shape[OF refl])
  have len: "int (length (ObjectNameN sha f mx)) \<le> mx" using r(1,4) h mx by auto
  have "?h \<noteq> []" using h by force
  moreover have "length (r @ ''-'' @ ?h) \<le> MaxStoreObjectRefLength" using len mx(2) unfolding r(1) by linarith
  ultimately have "IsStoreObjectRef (ObjectNameN sha f mx)" unfolding r(1) by (rule joined_name_ok[OF r(2,3) hex_encode_lower])
  with len show ?thesis by simp
qed

text \<open>
  Property C38: the name a store derives from an FQDN is always a legal object reference, whatever
  bytes the FQDN holds, and fits the length the store asks for; and two FQDNs get the same name
  only if the first eight bytes of their SHA-256 digests agree.
\<close>

theorem object_name_sound:
  assumes sha: "\<And>s. length (sha s) = 32" and mx: "23 \<le> mx" "mx \<le> int MaxStoreObjectRefLength"
  shows "IsStoreObjectRef (ObjectNameN sha f mx) \<and> int (length (ObjectNameN sha f mx)) \<le> mx \<and>
    (ObjectNameN sha f mx = ObjectNameN sha g mx \<longrightarrow> take ObjectNameHashBytes (sha f) = take ObjectNameHashBytes (sha g))"
proof -
  let ?h = "\<lambda>s. hex_encode (take ObjectNameHashBytes (sha s))"
  have h: "length (?h s) = 16" for s by (simp add: sha ObjectNameHashBytes_def)
  obtain r q where rq: "ObjectNameN sha f mx = r @ ''-'' @ ?h f" "ObjectNameN sha g mx = q @ ''-'' @ ?h g"
    by (metis ObjectNameN_shape)
  have "take ObjectNameHashBytes (sha f) = take ObjectNameHashBytes (sha g)" if "ObjectNameN sha f mx = ObjectNameN sha g mx"
  proof -
    have "(r @ ''-'') @ ?h f = (q @ ''-'') @ ?h g" using that rq by simp
    then have "?h f = ?h g" by (simp add: append_eq_append_conv h del: length_hex_encode)
    then show ?thesis by (simp add: hex_encode_inject)
  qed
  then show ?thesis using ObjectNameN_legal[of sha mx f] assms by auto
qed

definition sample_digest :: "string \<Rightarrow> string" where
  "sample_digest s = take 32 (s @ replicate 32 CHR ''#'')"

theorem object_name_sound_witness: "IsStoreObjectRef (ObjectNameN sample_digest ''*.wiki.example'' 127) \<and>
    int (length (ObjectNameN sample_digest ''*.wiki.example'' 127)) \<le> 127"
  using object_name_sound[of sample_digest 127 "''*.wiki.example''"]
  by (simp add: sample_digest_def MaxStoreObjectRefLength_def)

end
