(* ===== verification/FsStore.thy ===== *)
theory FsStore
  imports FileSys CertStore
begin

text \<open>
  The certificate store on a local directory, \<^verbatim>\<open>internal/store/filesystem/filesystem.go\<close>: a complete new
  version is written beside the old ones, the link \<^verbatim>\<open>current\<close> is swapped with one rename, and older
  versions are pruned. The clock, the random bytes and the order in which Go visits the map of
  files are arguments. The lock makes the calls on one object a sequence.
\<close>

definition currentLink :: string where "currentLink = ''current''"
definition versionsDir :: string where "versionsDir = ''versions''"
definition lockFile :: string where "lockFile = ''.lock''"
definition certFile :: string where "certFile = ''cert.pem''"
definition chainFile :: string where "chainFile = ''chain.pem''"
definition fullFile :: string where "fullFile = ''fullchain.pem''"
definition keyFile :: string where "keyFile = ''privkey.pem''"

datatype store_error = ErrStoreNotFound | ErrStoreIO io_error

definition versionRe :: "string \<Rightarrow> bool" where
  "versionRe s \<longleftrightarrow> list_all is_lower_hex (take 16 s) \<and> 17 < length s \<and> s ! 16 = CHR ''-'' \<and> list_all is_digit (drop 17 s)"

definition objectDir :: "fs_world \<Rightarrow> path \<Rightarrow> string \<Rightarrow> (io_error + path) fsm" where
  "objectDir W root object =
     (if \<not> IsStoreObjectRef object then give (Inl Failed)
      else
        let dir = root @ [object] in
        do {
          a \<leftarrow> Lstat W dir;
          case a of
            Inr (NLink _) \<Rightarrow> give (Inl Failed)
          | _ \<Rightarrow>
              do {
                b \<leftarrow> Lstat W (dir @ [versionsDir]);
                case b of Inr (NLink _) \<Rightarrow> give (Inl Failed) | _ \<Rightarrow> give (Inr dir)
              }
        })"

definition store_io :: "(io_error + 'a) fsm \<Rightarrow> (store_error + 'a) fsm" where
  "store_io m = do { r \<leftarrow> m; give (case r of Inl e \<Rightarrow> Inl (ErrStoreIO e) | Inr a \<Rightarrow> Inr a) }"

definition Current :: "fs_world \<Rightarrow> pki \<Rightarrow> path \<Rightarrow> string \<Rightarrow> (store_error + cert_info) fsm" where
  "Current W P root object =
     attempt (store_io (objectDir W root object)) (\<lambda>dir. do {
       l \<leftarrow> Lstat W (dir @ [currentLink]);
       case l of
         Inl e \<Rightarrow> give (Inl (if e = NotExist then ErrStoreNotFound else ErrStoreIO e))
       | Inr _ \<Rightarrow>
           attempt (store_io (Lock W (dir @ [lockFile]))) (\<lambda>_.
           attempt (store_io (Readlink W (dir @ [currentLink]))) (\<lambda>target.
             let version = join_path dir target in
             if \<not> strict_prefix dir version then give (Inl (ErrStoreIO Failed))
             else
               attempt (store_io (ReadFile W (version @ [certFile]))) (\<lambda>data.
                 case ParseLeaf P data of
                   None \<Rightarrow> give (Inl (ErrStoreIO Failed))
                 | Some leaf \<Rightarrow>
                     attempt (store_io (ReadFile W (version @ [keyFile]))) (\<lambda>key.
                       if \<not> PrivateKeyMatches P leaf key then give (Inl (ErrStoreIO Failed))
                       else give (Inr (InfoOf P leaf))))))
     })"

subsection \<open>Put\<close>

fun writeFiles :: "fs_world \<Rightarrow> path \<Rightarrow> (string \<times> string) list \<Rightarrow> (io_error + unit) fsm" where
  "writeFiles W dir [] = give (Inr ())"
| "writeFiles W dir ((name, content) # fs) = attempt (WriteNew W (dir @ [name]) content) (\<lambda>_. writeFiles W dir fs)"

definition bundle_files :: "cert_bundle \<Rightarrow> string \<Rightarrow> string" where
  "bundle_files b name =
     (if name = certFile then bd_Certificate b
      else if name = chainFile then bd_Chain b
      else if name = fullFile then bd_Certificate b @ bd_Chain b
      else bd_PrivateKey b)"

text \<open>
  Pruning: every directory this store creates, other than \<open>keep\<close>, goes, as far as the file system
  lets it.
\<close>

definition stale_version :: "fs \<Rightarrow> path \<Rightarrow> string \<Rightarrow> path \<Rightarrow> bool" where
  "stale_version f versions keep q \<longleftrightarrow>
     strict_prefix versions q \<and>
     (let e = q ! length versions in
      e \<noteq> keep \<and> f (versions @ [e]) = Some NDir \<and> (prefix ''.tmp-'' e \<or> versionRe e))"

definition prune :: "fs_world \<Rightarrow> path \<Rightarrow> string \<Rightarrow> (io_error + unit) fsm" where
  "prune W versions keep = sys W sound_failure (\<lambda>n f.
     Inr ((), \<lambda>q. if stale_version f versions keep q \<and> fw_removed W n q then None else f q))"

text \<open>The new version under its final name.\<close>

definition commit_version :: "fs_world \<Rightarrow> path \<Rightarrow> string \<Rightarrow> string \<Rightarrow> (string \<times> string) list \<Rightarrow> (io_error + unit) fsm" where
  "commit_version W versions tmp final files =
     attempt (writeFiles W (versions @ [tmp]) files) (\<lambda>_.
     attempt (fsyncDir W (versions @ [tmp])) (\<lambda>_.
     Rename W (versions @ [tmp]) (versions @ [final])))"

text \<open>The temporary link, and its rename over \<^verbatim>\<open>current\<close>.\<close>

definition prepare_link :: "fs_world \<Rightarrow> path \<Rightarrow> string \<Rightarrow> string \<Rightarrow> (io_error + unit) fsm" where
  "prepare_link W dir final linkTmp =
     attempt (on_failure (fsyncDir W (dir @ [versionsDir])) (RemoveAll W (dir @ [versionsDir, final]))) (\<lambda>_.
     on_failure (Symlink W (versionsDir @ sep # final) (dir @ [linkTmp])) (RemoveAll W (dir @ [versionsDir, final])))"

definition swap_link :: "fs_world \<Rightarrow> path \<Rightarrow> string \<Rightarrow> string \<Rightarrow> (io_error + unit) fsm" where
  "swap_link W dir final linkTmp =
     on_failure (Rename W (dir @ [linkTmp]) (dir @ [currentLink]))
       (do { RemoveAll W (dir @ [linkTmp]); RemoveAll W (dir @ [versionsDir, final]) })"

definition settle_link :: "fs_world \<Rightarrow> path \<Rightarrow> string \<Rightarrow> (io_error + unit) fsm" where
  "settle_link W dir final =
     attempt (fsyncDir W dir) (\<lambda>_. do { prune W (dir @ [versionsDir]) final; give (Inr ()) })"

definition publish :: "fs_world \<Rightarrow> path \<Rightarrow> string \<Rightarrow> string \<Rightarrow> string \<Rightarrow> (string \<times> string) list \<Rightarrow> (io_error + unit) fsm" where
  "publish W dir tmp final linkTmp files =
     attempt (commit_version W (dir @ [versionsDir]) tmp final files) (\<lambda>_.
     attempt (prepare_link W dir final linkTmp) (\<lambda>_.
     attempt (swap_link W dir final linkTmp) (\<lambda>_.
     settle_link W dir final)))"

definition Put ::
  "fs_world \<Rightarrow> pki \<Rightarrow> path \<Rightarrow> int \<Rightarrow> string option \<Rightarrow> string list \<Rightarrow> string \<Rightarrow> cert_bundle \<Rightarrow> (io_error + unit) fsm" where
  "Put W P root nanos rnd order object b =
     attempt (objectDir W root object) (\<lambda>dir.
       case ParseLeaf P (bd_Certificate b) of
         None \<Rightarrow> give (Inl Failed)
       | Some leaf \<Rightarrow>
           if bd_PrivateKey b = [] then give (Inl Failed)
           else if \<not> PrivateKeyMatches P leaf (bd_PrivateKey b) then give (Inl Failed)
           else
             attempt (MkdirAll W (dir @ [versionsDir])) (\<lambda>_.
             attempt (Lock W (dir @ [lockFile])) (\<lambda>_.
               case rnd of
                 None \<Rightarrow> give (Inl Failed)
               | Some nonce \<Rightarrow>
                   let final = take 16 (Fingerprint P leaf) @ ''-'' @ itoa nanos;
                       tmp = ''.tmp-'' @ final @ ''-'' @ hex_encode nonce;
                       linkTmp = ''.current-'' @ hex_encode nonce in
                   attempt (Mkdir W (dir @ [versionsDir, tmp])) (\<lambda>_.
                   on_failure
                     (publish W dir tmp final linkTmp (map (\<lambda>name. (name, bundle_files b name)) order))
                     (RemoveAll W (dir @ [versionsDir, tmp]))))))"

subsection \<open>What a reader sees\<close>

definition calm :: fs_world where
  "calm = \<lparr>fw_fail = (\<lambda>_. None), fw_left = (\<lambda>_. None), fw_removed = (\<lambda>_ _. True),
     fw_walk = (\<lambda>_ _. []), fw_mtime = (\<lambda>_ _. None), fw_now = (\<lambda>_. 0), fw_random = (\<lambda>_. None), fw_ctx = (\<lambda>_. None)\<rparr>"

definition store_view :: "pki \<Rightarrow> path \<Rightarrow> string \<Rightarrow> fs \<Rightarrow> store_error + cert_info" where
  "store_view P root object f = fst (run_state (Current calm P root object) (0, f))"

text \<open>The states of an object's directory: nothing published yet, or version \<open>v\<close> with leaf \<open>leaf\<close>.\<close>

definition dir_ok :: "path \<Rightarrow> fs \<Rightarrow> bool" where
  "dir_ok dir f \<longleftrightarrow> f (dir @ [lockFile]) \<in> {None} \<union> range (Some \<circ> NFile)"

definition unpublished :: "path \<Rightarrow> fs \<Rightarrow> bool" where
  "unpublished dir f \<longleftrightarrow> dir_ok dir f \<and> f (dir @ [currentLink]) = None \<and>
     f dir \<in> {None, Some NDir} \<and> f (dir @ [versionsDir]) \<in> {None, Some NDir}"

definition published :: "pki \<Rightarrow> path \<Rightarrow> string \<Rightarrow> x509_cert \<Rightarrow> fs \<Rightarrow> bool" where
  "published P dir v leaf f \<longleftrightarrow> dir_ok dir f \<and> versionRe v \<and> f dir = Some NDir \<and> f (dir @ [versionsDir]) = Some NDir \<and>
     f (dir @ [currentLink]) = Some (NLink (versionsDir @ sep # v)) \<and> f (dir @ [versionsDir, v]) = Some NDir \<and>
     (\<exists>c k. f (dir @ [versionsDir, v, certFile]) = Some (NFile c) \<and> f (dir @ [versionsDir, v, keyFile]) = Some (NFile k) \<and>
        ParseLeaf P c = Some leaf \<and> PrivateKeyMatches P leaf k)"

definition store_ok :: "pki \<Rightarrow> path \<Rightarrow> fs \<Rightarrow> bool" where
  "store_ok P dir f \<longleftrightarrow> unpublished dir f \<or> (\<exists>v leaf. published P dir v leaf f)"

lemma versionRe_chars: "versionRe v \<Longrightarrow> c \<in> set v \<Longrightarrow> c \<noteq> sep \<and> c \<noteq> CHR ''.''"
proof -
  assume v: "versionRe v" "c \<in> set v"
  have no: "\<not> is_lower_hex sep" "\<not> is_lower_hex CHR ''.''" "\<not> is_digit sep" "\<not> is_digit CHR ''.''" "sep \<noteq> CHR ''-''"
    by code_simp+
  have "v = take 16 v @ v ! 16 # drop 17 v" using id_take_nth_drop[of 16 v] v(1) by (simp add: versionRe_def)
  then have "set v \<subseteq> set (take 16 v) \<union> {v ! 16} \<union> set (drop 17 v)"
    by (metis (no_types, lifting) Un_insert_right append_is_Nil_conv list.simps(15) set_append sup_bot.right_neutral sup_assoc insert_is_Un order_refl)
  then have "c \<in> set (take 16 v) \<or> c = v ! 16 \<or> c \<in> set (drop 17 v)" using v(2) by blast
  then show ?thesis using v(1) no by (auto simp: versionRe_def list_all_iff)
qed

lemma versionRe_name: "versionRe v \<Longrightarrow> v \<noteq> [] \<and> sep \<notin> set v \<and> CHR ''.'' \<notin> set v"
  using versionRe_chars by (auto simp: versionRe_def)

lemma join_version: "versionRe v \<Longrightarrow> join_path dir (versionsDir @ sep # v) = dir @ [versionsDir, v]"
  using versionRe_name[of v]
  by (auto simp: join_path_def Split_append_sep Split_no_sep versionsDir_def sep_def clean_step_def)

lemma run_store_io: "run_state (store_io m) s = (case run_state m s of (r, s') \<Rightarrow> (case r of Inl e \<Rightarrow> Inl (ErrStoreIO e) | Inr a \<Rightarrow> Inr a, s'))"
  by (simp add: store_io_def run_bind split: prod.splits)

lemma run_calm: "run_state (sys calm br op) (n, f) = (case op n f of Inl e \<Rightarrow> (Inl e, (Suc n, f)) | Inr (a, f') \<Rightarrow> (Inr a, (Suc n, f')))"
  by (simp add: sys_def calm_def)

lemma view_unpublished: "IsStoreObjectRef object \<Longrightarrow> unpublished (root @ [object]) f \<Longrightarrow> store_view P root object f = Inl ErrStoreNotFound"
  by (auto simp: store_view_def Current_def run_attempt run_store_io objectDir_def run_bind Lstat_def run_calm unpublished_def Let_def
      split: option.splits)

lemma view_published:
  assumes "IsStoreObjectRef object" "published P (root @ [object]) v leaf f"
  shows "store_view P root object f = Inr (InfoOf P leaf)"
proof -
  let ?dir = "root @ [object]"
  obtain c k where f: "f ?dir = Some NDir" "f (?dir @ [versionsDir]) = Some NDir"
      "f (?dir @ [currentLink]) = Some (NLink (versionsDir @ sep # v))" "f (?dir @ [versionsDir, v]) = Some NDir"
      "f (?dir @ [versionsDir, v, certFile]) = Some (NFile c)" "f (?dir @ [versionsDir, v, keyFile]) = Some (NFile k)"
    and c: "ParseLeaf P c = Some leaf" "PrivateKeyMatches P leaf k" and v: "versionRe v"
    and lock: "dir_ok ?dir f"
    using assms(2) by (auto simp: published_def)
  have "\<exists>g. run_state (Lock calm (?dir @ [lockFile])) (n, f) = (Inr (), (Suc n, g)) \<and> (\<forall>q. q \<noteq> ?dir @ [lockFile] \<longrightarrow> g q = f q)" for n
    using lock f(1) by (auto simp: Lock_def run_calm dir_ok_def is_dir_def butlast_append)
  from this[of 3] obtain g where g: "run_state (Lock calm (?dir @ [lockFile])) (3, f) = (Inr (), (4, g))"
    and same: "\<And>q. q \<noteq> ?dir @ [lockFile] \<Longrightarrow> g q = f q" by auto
  have ne: "lockFile \<noteq> currentLink" "lockFile \<noteq> versionsDir" by (simp_all add: lockFile_def currentLink_def versionsDir_def)
  have "run_state (objectDir calm root object) (0, f) = (Inr ?dir, (2, f))"
    using assms(1) f by (simp add: objectDir_def run_bind Lstat_def run_calm Let_def)
  then show ?thesis
    using f c v g ne same
    by (simp add: store_view_def Current_def run_attempt run_store_io run_bind Lstat_def Readlink_def ReadFile_def run_calm
        join_version Let_def strict_prefix_def)
qed

subsection \<open>The steps of Put\<close>

lemma sibling: "below (d @ [a]) (d @ b # x) \<longleftrightarrow> a = b" "\<not> below (d @ a # b # x) (d @ [c])" "\<not> below (d @ a # x) d"
  by (auto simp: below_def)

lemma writeFiles_confined: "confined ((\<lambda>(name, _). d @ [name]) ` set files) (writeFiles W d files)"
proof (induction files)
  case (Cons x files)
  obtain name c where x: "x = (name, c)" by fastforce
  have "confined ((\<lambda>(name, _). d @ [name]) ` set (x # files)) (writeFiles W d files)"
  proof (rule confined_wider[OF Cons])
    fix p assume "p \<in> (\<lambda>(name, _). d @ [name]) ` set files"
    then show "\<exists>p' \<in> (\<lambda>(name, _). d @ [name]) ` set (x # files). below p' p" by (intro bexI[of _ p]) auto
  qed
  then show ?case by (auto simp: x intro!: confined_rules)
qed (simp add: confined_rules)

lemma writeFiles_done:
  "run_state (writeFiles W d files) (n, f) = (Inr (), (n', f')) \<Longrightarrow> distinct (map fst files) \<Longrightarrow>
   (name, c) \<in> set files \<Longrightarrow> f' (d @ [name]) = Some (NFile c)"
proof (induction files arbitrary: n f)
  case (Cons x files)
  obtain nm ct where x: "x = (nm, ct)" by fastforce
  from Cons.prems(1) obtain n1 f1 where w: "run_state (WriteNew W (d @ [nm]) ct) (n, f) = (Inr (), (n1, f1))"
    and r: "run_state (writeFiles W d files) (n1, f1) = (Inr (), (n', f'))" by (auto simp: x attempt_Inr)
  show ?case
  proof (cases "(name, c) \<in> set files")
    case True
    then show ?thesis using Cons.IH[OF r] Cons.prems(2) by simp
  next
    case False
    then have nm: "name = nm" "c = ct" using Cons.prems(3) x by auto
    have "f1 (d @ [nm]) = Some (NFile ct)" using w by (auto simp: WriteNew_def run_sys_Inr split: if_splits)
    moreover have "f' (d @ [nm]) = f1 (d @ [nm])"
      using Cons.prems(2) x by (intro confinedD[OF writeFiles_confined r]) (force simp: below_def)
    ultimately show ?thesis using nm by simp
  qed
qed simp

lemma commit_confined: "confined {v @ [tmp], v @ [final]} (commit_version W v tmp final files)"
proof -
  have "confined {v @ [tmp], v @ [final]} (writeFiles W (v @ [tmp]) files)"
    by (rule confined_wider[OF writeFiles_confined]) (auto simp: below_def)
  then show ?thesis unfolding commit_version_def by (auto intro!: confined_rules)
qed

lemma commit_refused:
  assumes "f (v @ [final]) = Some NDir" "tmp \<noteq> final" "run_state (commit_version W v tmp final files) (n, f) = (r, (n', f'))"
  shows "r \<noteq> Inr () \<and> (\<forall>q. \<not> below (v @ [tmp]) q \<longrightarrow> f' q = f q)"
proof -
  have conf: "confined {v @ [tmp]} (writeFiles W (v @ [tmp]) files)" by (rule confined_wider[OF writeFiles_confined]) (auto simp: below_def)
  obtain r1 n1 f1 where w: "run_state (writeFiles W (v @ [tmp]) files) (n, f) = (r1, (n1, f1))" by (metis prod_cases3)
  have f1: "f1 q = f q" if "\<not> below (v @ [tmp]) q" for q by (rule confinedD[OF conf w]) (use that in auto)
  then have "f1 (v @ [final]) = Some NDir" using assms(1,2) by (simp add: below_def)
  then show ?thesis using assms(3) f1
    by (auto simp: commit_version_def run_attempt w fsyncDir_def Rename_def sys_def split: sum.splits option.splits if_splits)
qed

lemma commit_done:
  assumes run: "run_state (commit_version W v tmp final files) (n, f) = (Inr (), (n', f'))"
    and d: "distinct (map fst files)" and t: "f (v @ [tmp]) = Some NDir"
  shows "f' (v @ [final]) = Some NDir" "(name, c) \<in> set files \<Longrightarrow> f' (v @ [final, name]) = Some (NFile c)"
proof -
  obtain n1 f1 where w: "run_state (writeFiles W (v @ [tmp]) files) (n, f) = (Inr (), (n1, f1))"
    and f': "f' = move_tree (v @ [tmp]) (v @ [final]) f1"
    using run by (auto simp: commit_version_def attempt_Inr fsyncDir_def Rename_def run_sys_Inr split: if_splits option.splits)
  have "f1 (v @ [tmp]) = f (v @ [tmp])"
    by (rule confinedD[OF writeFiles_confined w]) (auto simp: below_def)
  then show "f' (v @ [final]) = Some NDir" using t by (simp add: f' move_tree_def)
  show "f' (v @ [final, name]) = Some (NFile c)" if "(name, c) \<in> set files"
    using writeFiles_done[OF w d that] by (simp add: f' move_tree_def below_def)
qed

lemma link_confined:
  "confined {dir @ [linkTmp], dir @ [versionsDir, final]} (prepare_link W dir final linkTmp)"
  unfolding prepare_link_def by (auto intro!: confined_rules)

lemma prune_keeps:
  "run_state (prune W v keep) (n, f) = (r, (n', f')) \<Longrightarrow> \<not> strict_prefix v q \<or> below (v @ [keep]) q \<Longrightarrow> f' q = f q"
  by (auto simp: prune_def sys_def stale_version_def below_def prefix_def strict_prefix_def nth_append split: option.splits)

lemma prepare_done:
  "run_state (prepare_link W dir final linkTmp) (n, f) = (Inr (), (n', f')) \<Longrightarrow>
   f' = f(dir @ [linkTmp] \<mapsto> NLink (versionsDir @ sep # final))"
  by (auto simp: prepare_link_def attempt_Inr on_failure_Inr fsyncDir_def Symlink_def run_sys_Inr split: if_splits)

lemma swap_done:
  "run_state (swap_link W dir final linkTmp) (n, f) = (Inr (), (n', f')) \<Longrightarrow> f' = move_tree (dir @ [linkTmp]) (dir @ [currentLink]) f"
  by (auto simp: swap_link_def on_failure_Inr Rename_def run_sys_Inr split: if_splits option.splits)

lemma swap_failed:
  assumes run: "run_state (swap_link W dir final linkTmp) (n, f) = (Inl e, (n', f'))"
    and q: "\<not> below (dir @ [linkTmp]) q" "\<not> below (dir @ [versionsDir, final]) q"
  shows "f' q = f q"
proof -
  let ?undo = "do { RemoveAll W (dir @ [linkTmp]); RemoveAll W (dir @ [versionsDir, final]) }"
  have conf: "confined {dir @ [linkTmp], dir @ [versionsDir, final]} ?undo" by (intro confined_rules) auto
  obtain r n1 f1 where ren: "run_state (Rename W (dir @ [linkTmp]) (dir @ [currentLink])) (n, f) = (r, (n1, f1))" by (metis prod_cases3)
  obtain r2 n2 f2 where un: "run_state ?undo (n1, f1) = (r2, (n2, f2))" by (metis prod_cases3)
  obtain e' where r: "r = Inl e'" "f' = f2"
    using run un by (cases r) (auto simp: swap_link_def on_failure_def run_bind ren split: prod.splits)
  then have "f1 = f" using ren by (auto simp: Rename_def sys_def split: option.splits if_splits)
  moreover have "f2 q = f1 q" by (rule confinedD[OF conf un]) (use q in auto)
  ultimately show ?thesis using r by simp
qed

lemma settle_keeps:
  assumes run: "run_state (settle_link W dir final) (n, f) = (r, (n', f'))"
    and q: "\<not> strict_prefix (dir @ [versionsDir]) q \<or> below (dir @ [versionsDir, final]) q"
  shows "f' q = f q"
proof -
  obtain r1 n1 where s: "run_state (fsyncDir W dir) (n, f) = (r1, (n1, f))"
    by (cases "fw_fail W n"; cases "is_dir f dir") (auto simp: fsyncDir_def sys_def)
  obtain r2 n2 f2 where p: "run_state (prune W (dir @ [versionsDir]) final) (n1, f) = (r2, (n2, f2))" by (metis prod_cases3)
  have "f' \<in> {f, f2}" using run by (cases r1) (auto simp: settle_link_def run_attempt run_bind s p)
  then show ?thesis using prune_keeps[OF p, of q] q by auto
qed

text \<open>Either nothing a reader can see has changed, or the new version is complete and current.\<close>

definition outside_put :: "path \<Rightarrow> string \<Rightarrow> string \<Rightarrow> string \<Rightarrow> path \<Rightarrow> bool" where
  "outside_put dir tmp final linkTmp q \<longleftrightarrow>
     \<not> below (dir @ [versionsDir, tmp]) q \<and> \<not> below (dir @ [versionsDir, final]) q \<and> \<not> below (dir @ [linkTmp]) q"

definition unswapped :: "path \<Rightarrow> string \<Rightarrow> string \<Rightarrow> string \<Rightarrow> fs \<Rightarrow> fs \<Rightarrow> bool" where
  "unswapped dir tmp final linkTmp f f' \<longleftrightarrow> (\<forall>q. outside_put dir tmp final linkTmp q \<longrightarrow> f' q = f q) \<and>
     (f (dir @ [versionsDir, final]) = Some NDir \<longrightarrow> (\<forall>q. below (dir @ [versionsDir, final]) q \<longrightarrow> f' q = f q))"

definition swapped :: "path \<Rightarrow> string \<Rightarrow> (string \<times> string) list \<Rightarrow> fs \<Rightarrow> fs \<Rightarrow> bool" where
  "swapped dir final files f f' \<longleftrightarrow>
     (\<forall>q \<in> {dir, dir @ [versionsDir], dir @ [lockFile]}. f' q = f q) \<and>
     f' (dir @ [currentLink]) = Some (NLink (versionsDir @ sep # final)) \<and> f' (dir @ [versionsDir, final]) = Some NDir \<and>
     (\<forall>(name, c) \<in> set files. f' (dir @ [versionsDir, final, name]) = Some (NFile c))"

lemma publish_outcome:
  assumes run: "run_state (publish W dir tmp final linkTmp files) (n, f) = (r, (n', f'))"
    and names: "tmp \<noteq> final" "linkTmp \<notin> {versionsDir, currentLink, lockFile}" "distinct (map fst files)"
    and t: "f (dir @ [versionsDir, tmp]) = Some NDir"
  shows "r \<noteq> Inr () \<and> unswapped dir tmp final linkTmp f f' \<or> swapped dir final files f f'"
proof -
  let ?v = "dir @ [versionsDir]"
  let ?out = "outside_put dir tmp final linkTmp"
  obtain r1 n1 f1 where c: "run_state (commit_version W ?v tmp final files) (n, f) = (r1, (n1, f1))" by (metis prod_cases3)
  have f1: "f1 q = f q" if "?out q" for q
    by (rule confinedD[OF commit_confined c]) (use that in \<open>auto simp: outside_put_def\<close>)
  have refused: "r1 \<noteq> Inr () \<and> (\<forall>q. \<not> below (dir @ [versionsDir, tmp]) q \<longrightarrow> f1 q = f q)" if "f (dir @ [versionsDir, final]) = Some NDir"
    using commit_refused[OF _ names(1) c] that by simp
  show ?thesis
  proof (cases r1)
    case (Inl e)
    then have "r = Inl e" "f' = f1" using run by (auto simp: publish_def run_attempt c)
    then show ?thesis using f1 refused names(1) by (auto simp: unswapped_def below_def prefix_def)
  next
    case (Inr u)
    then have c: "run_state (commit_version W ?v tmp final files) (n, f) = (Inr (), (n1, f1))" using c by simp
    have new: "f (dir @ [versionsDir, final]) \<noteq> Some NDir" using refused Inr by auto
    note files = commit_done[OF c names(3)]
    obtain r2 n2 f2 where p: "run_state (prepare_link W dir final linkTmp) (n1, f1) = (r2, (n2, f2))" by (metis prod_cases3)
    have f2: "f2 q = f q" if "?out q" for q
      using confinedD[OF link_confined p, of q] f1[OF that] that by (auto simp: outside_put_def)
    show ?thesis
    proof (cases r2)
      case (Inl e)
      then have "r = Inl e" "f' = f2" using run by (auto simp: publish_def run_attempt c p)
      then show ?thesis using f2 new by (simp add: unswapped_def)
    next
      case (Inr u)
      then have p: "run_state (prepare_link W dir final linkTmp) (n1, f1) = (Inr (), (n2, f2))" using p by simp
      obtain r3 n3 f3 where w: "run_state (swap_link W dir final linkTmp) (n2, f2) = (r3, (n3, f3))" by (metis prod_cases3)
      show ?thesis
      proof (cases r3)
        case (Inl e)
        then have "r = Inl e" "f' = f3" using run by (auto simp: publish_def run_attempt c p w)
        moreover have "f3 q = f q" if "?out q" for q
          using swap_failed[OF w[unfolded Inl], of q] f2[OF that] that by (simp add: outside_put_def)
        ultimately show ?thesis using new by (simp add: unswapped_def)
      next
        case (Inr u)
        then have w: "run_state (swap_link W dir final linkTmp) (n2, f2) = (Inr (), (n3, f3))" using w by simp
        then have "run_state (settle_link W dir final) (n3, f3) = (r, (n', f'))"
          using run by (simp add: publish_def run_attempt c p)
        note f' = settle_keeps[OF this]
        note f3 = swap_done[OF w] prepare_done[OF p]
        have away: "f' q = f q" if "q \<in> {dir, dir @ [versionsDir], dir @ [lockFile]}" for q
          using that names(2) f1[of q] by (subst f')
            (auto simp: f3 move_tree_def outside_put_def below_def strict_prefix_def lockFile_def versionsDir_def currentLink_def)
        have "f' (dir @ versionsDir # final # x) = f1 (dir @ versionsDir # final # x)" for x
          using names(2) by (subst f') (auto simp: f3 move_tree_def below_def strict_prefix_def versionsDir_def currentLink_def)
        moreover have "f' (dir @ [currentLink]) = Some (NLink (versionsDir @ sep # final))"
          by (subst f') (auto simp: f3 move_tree_def below_def strict_prefix_def versionsDir_def currentLink_def)
        ultimately show ?thesis using away files(1) files(2) t by (auto simp: swapped_def)
      qed
    qed
  qed
qed

subsection \<open>Put is atomic\<close>

definition same_state :: "pki \<Rightarrow> path \<Rightarrow> fs \<Rightarrow> fs \<Rightarrow> bool" where
  "same_state P dir f f' \<longleftrightarrow> (unpublished dir f \<longrightarrow> unpublished dir f') \<and>
     (\<forall>v leaf. published P dir v leaf f \<longrightarrow> published P dir v leaf f')"

lemma same_refl: "same_state P dir f f"
  by (simp add: same_state_def)

lemma same_trans: "same_state P dir f g \<Longrightarrow> same_state P dir g h \<Longrightarrow> same_state P dir f h"
  by (simp add: same_state_def)

lemma same_agree:
  assumes "\<And>q. q \<in> {dir, dir @ [versionsDir], dir @ [currentLink]} \<Longrightarrow> f' q = f q" "dir_ok dir f \<Longrightarrow> dir_ok dir f'"
    and "\<And>v x. versionRe v \<Longrightarrow> f (dir @ [versionsDir, v]) = Some NDir \<Longrightarrow> f' (dir @ versionsDir # v # x) = f (dir @ versionsDir # v # x)"
  shows "same_state P dir f f'"
  using assms(1)[of dir] assms(1)[of "dir @ [versionsDir]"] assms(1)[of "dir @ [currentLink]"] assms(2,3)
  by (auto simp: same_state_def unpublished_def published_def)

lemma same_mkdir:
  assumes "run_state (MkdirAll W (dir @ [versionsDir])) (n, f) = (Inr (), (n', f'))" "dir \<noteq> []"
  shows "same_state P dir f f'" "f' dir = Some NDir" "f' (dir @ [versionsDir]) = Some NDir"
proof -
  have f': "f' = mkdir_all (dir @ [versionsDir]) f" using assms(1) by (auto simp: MkdirAll_def run_sys_Inr split: if_splits)
  show "f' dir = Some NDir" "f' (dir @ [versionsDir]) = Some NDir" using assms(2) by (simp_all add: f' mkdir_all_def)
  have "f' q = f q" if "\<not> prefix q (dir @ [versionsDir])" for q using that by (simp add: f' mkdir_all_def)
  then show "same_state P dir f f'"
    using assms(2) by (auto simp: same_state_def unpublished_def published_def dir_ok_def f' mkdir_all_def lockFile_def versionsDir_def currentLink_def)
qed

lemma same_lock:
  assumes "run_state (Lock W (dir @ [lockFile])) (n, f) = (r, (n', f'))"
  shows "same_state P dir f f'" "\<And>q. q \<noteq> dir @ [lockFile] \<Longrightarrow> f' q = f q"
proof -
  have f': "f' = f \<or> f' = f(dir @ [lockFile] \<mapsto> NFile [])"
    using assms by (auto simp: Lock_def sys_def split: option.splits node.splits if_splits)
  then show away: "\<And>q. q \<noteq> dir @ [lockFile] \<Longrightarrow> f' q = f q" by auto
  show "same_state P dir f f'"
    by (rule same_agree) (use f' in \<open>auto simp: dir_ok_def lockFile_def versionsDir_def currentLink_def\<close>)
qed

lemma same_unswapped:
  assumes "unswapped dir tmp final linkTmp f f'" "\<not> versionRe tmp" "linkTmp \<notin> {versionsDir, currentLink, lockFile}"
  shows "same_state P dir f f'"
proof (rule same_agree)
  have out: "f' q = f q" if "outside_put dir tmp final linkTmp q" for q using assms(1) that by (simp add: unswapped_def)
  show "f' q = f q" if "q \<in> {dir, dir @ [versionsDir], dir @ [currentLink]}" for q
    using that assms(3) by (intro out) (auto simp: outside_put_def below_def versionsDir_def currentLink_def)
  have "outside_put dir tmp final linkTmp (dir @ [lockFile])"
    using assms(3) by (auto simp: outside_put_def below_def versionsDir_def lockFile_def)
  then show "dir_ok dir f \<Longrightarrow> dir_ok dir f'" using out by (simp add: dir_ok_def)
  fix v x assume v: "versionRe v" "f (dir @ [versionsDir, v]) = Some NDir"
  show "f' (dir @ versionsDir # v # x) = f (dir @ versionsDir # v # x)"
  proof (cases "v = final")
    case True
    then show ?thesis using assms(1) v(2) by (simp add: unswapped_def below_def)
  next
    case False
    then show ?thesis using assms(2,3) v(1) by (intro out) (auto simp: outside_put_def below_def)
  qed
qed

lemma same_remove_tmp:
  assumes "run_state (RemoveAll W (dir @ [versionsDir, tmp])) (n, f) = (r, (n', f'))" "\<not> versionRe tmp"
  shows "same_state P dir f f'"
proof (rule same_agree)
  have away: "f' q = f q" if "\<not> below (dir @ [versionsDir, tmp]) q" for q
    by (rule confinedD[OF confined_writes(5)[of "dir @ [versionsDir, tmp]" "{dir @ [versionsDir, tmp]}"] assms(1)]) (use that in auto)
  show "f' q = f q" if "q \<in> {dir, dir @ [versionsDir], dir @ [currentLink]}" for q
    using that by (intro away) (auto simp: below_def)
  show "dir_ok dir f \<Longrightarrow> dir_ok dir f'" using away[of "dir @ [lockFile]"] by (simp add: dir_ok_def below_def)
  show "f' (dir @ versionsDir # v # x) = f (dir @ versionsDir # v # x)" if "versionRe v" for v x
    using that assms(2) by (intro away) (auto simp: below_def)
qed

lemma published_swapped:
  assumes "swapped dir final files f f'" "dir_ok dir f" "f dir = Some NDir" "f (dir @ [versionsDir]) = Some NDir" "versionRe final"
    and "(certFile, c) \<in> set files" "(keyFile, k) \<in> set files" "ParseLeaf P c = Some leaf" "PrivateKeyMatches P leaf k"
  shows "published P dir final leaf f'"
  using assms by (fastforce simp: swapped_def published_def dir_ok_def)

lemma final_version:
  assumes "length (px_sha P (crt_Raw leaf)) = 32" "0 \<le> nanos"
  shows "versionRe (take 16 (Fingerprint P leaf) @ ''-'' @ itoa nanos)"
proof -
  let ?h = "take 16 (Fingerprint P leaf)"
  have "length ?h = 16" using assms(1) by (simp add: Fingerprint_def)
  moreover have "list_all is_lower_hex ?h"
    using hex_encode_lower[of "px_sha P (crt_Raw leaf)"] by (auto simp: Fingerprint_def list_all_iff dest: in_set_takeD)
  moreover have "is_number (itoa nanos)" using assms(2) show_nat_digits by (simp add: itoa_def)
  ultimately show ?thesis by (auto simp: versionRe_def is_number_def nth_append)
qed

definition new_version ::
  "fs_world \<Rightarrow> path \<Rightarrow> string \<Rightarrow> string \<Rightarrow> string \<Rightarrow> (string \<times> string) list \<Rightarrow> (io_error + unit) fsm" where
  "new_version W dir tmp final linkTmp files =
     attempt (Mkdir W (dir @ [versionsDir, tmp])) (\<lambda>_.
       on_failure (publish W dir tmp final linkTmp files) (RemoveAll W (dir @ [versionsDir, tmp])))"

lemma new_version_outcome:
  assumes run: "run_state (new_version W dir tmp final linkTmp files) (n, f) = (r, (n', f'))"
    and names: "\<not> versionRe tmp" "versionRe final" "linkTmp \<notin> {versionsDir, currentLink, lockFile}" "distinct (map fst files)"
    and f: "dir_ok dir f" "f dir = Some NDir" "f (dir @ [versionsDir]) = Some NDir"
    and b: "(certFile, c) \<in> set files" "(keyFile, k) \<in> set files" "ParseLeaf P c = Some leaf" "PrivateKeyMatches P leaf k"
  shows "r \<noteq> Inr () \<and> same_state P dir f f' \<or> published P dir final leaf f'"
proof -
  obtain r1 n1 f1 where m: "run_state (Mkdir W (dir @ [versionsDir, tmp])) (n, f) = (r1, (n1, f1))" by (metis prod_cases3)
  show ?thesis
  proof (cases r1)
    case (Inl e)
    then have "f1 = f" using m by (auto simp: Mkdir_def sys_def split: option.splits if_splits)
    then show ?thesis using run Inl by (auto simp: new_version_def run_attempt m same_refl)
  next
    case (Inr u)
    then have f1: "f1 = f(dir @ [versionsDir, tmp] \<mapsto> NDir)" using m by (auto simp: Mkdir_def run_sys_Inr split: if_splits)
    have same1: "same_state P dir f f1"
      by (rule same_agree) (use names(1) in \<open>auto simp: f1 dir_ok_def\<close>)
    obtain r2 n2 f2 where p: "run_state (publish W dir tmp final linkTmp files) (n1, f1) = (r2, (n2, f2))" by (metis prod_cases3)
    have ne: "tmp \<noteq> final" and t1: "f1 (dir @ [versionsDir, tmp]) = Some NDir" using names(1,2) by (auto simp: f1)
    have dir1: "dir_ok dir f1" "f1 dir = Some NDir" "f1 (dir @ [versionsDir]) = Some NDir" using f by (auto simp: f1 dir_ok_def)
    have out: "r2 \<noteq> Inr () \<and> same_state P dir f f2 \<or> published P dir final leaf f2"
      using publish_outcome[OF p ne names(3,4) t1] same_unswapped[OF _ names(1,3)]
        published_swapped[OF _ dir1 names(2) b] same_trans[OF same1] by blast
    show ?thesis
    proof (cases r2)
      case (Inl e)
      obtain r3 n3 f3 where u: "run_state (RemoveAll W (dir @ [versionsDir, tmp])) (n2, f2) = (r3, (n3, f3))" by (metis prod_cases3)
      have "r = Inl e" "f' = f3"
        using run Inr Inl by (auto simp: new_version_def run_attempt m on_failure_def run_bind p u)
      then show ?thesis using out same_remove_tmp[OF u names(1), of P] same_trans unfolding same_state_def by blast
    next
      case (Inr u)
      then have "r = Inr u" "f' = f2" using run \<open>r1 = Inr _\<close> by (auto simp: new_version_def run_attempt m on_failure_def run_bind p)
      then show ?thesis using out Inr by auto
    qed
  qed
qed

lemma new_version_confined: "confined {dir} (new_version W dir tmp final linkTmp files)"
proof -
  have "confined {dir @ [versionsDir, tmp], dir @ [versionsDir, final], dir @ [linkTmp], dir @ [currentLink], dir @ [versionsDir]}
      (new_version W dir tmp final linkTmp files)"
  proof -
    have "confined {dir @ [versionsDir]} (prune W (dir @ [versionsDir]) final)"
      unfolding prune_def by (rule confined_sys) (auto simp: stale_version_def below_def strict_prefix_def)
    moreover have "confined {dir @ [versionsDir, tmp], dir @ [versionsDir, final]} (commit_version W (dir @ [versionsDir]) tmp final files)"
      using commit_confined[of "dir @ [versionsDir]"] by simp
    ultimately show ?thesis unfolding new_version_def publish_def prepare_link_def swap_link_def settle_link_def
      by (intro confined_rules) (auto intro!: confined_rules elim!: confined_wider simp: below_def)
  qed
  then show ?thesis by (rule confined_wider) (auto simp: below_def)
qed

definition bundle_order :: "string list \<Rightarrow> bool" where
  "bundle_order order \<longleftrightarrow> distinct order \<and> set order = {certFile, chainFile, fullFile, keyFile}"

lemma Put_outcome:
  assumes run: "run_state (Put W P root nanos rnd order object b) (n, f) = (r, (n', f'))"
    and sha: "\<And>s. length (px_sha P s) = 32" and nanos: "0 \<le> nanos" and order: "bundle_order order"
    and dir: "dir = root @ [object]" and ok: "store_ok P dir f"
  shows "(r \<noteq> Inr () \<and> same_state P dir f f' \<or>
      (\<exists>v leaf. ParseLeaf P (bd_Certificate b) = Some leaf \<and> published P dir v leaf f')) \<and>
    (\<forall>q. \<not> below dir q \<longrightarrow> \<not> prefix q root \<longrightarrow> f' q = f q)"
proof -
  have still: ?thesis if "r \<noteq> Inr ()" "same_state P dir f f'" "\<And>q. \<not> below dir q \<Longrightarrow> \<not> prefix q root \<Longrightarrow> f' q = f q"
    using that by blast
  have od: "\<exists>r0 n0. run_state (objectDir W root object) (n, f) = (r0, (n0, f)) \<and> r0 \<in> insert (Inr dir) (range Inl)"
    unfolding dir by (auto simp: objectDir_def run_bind Lstat_def sys_def Let_def split: option.splits node.splits sum.splits)
  then obtain r0 n0 where o0: "run_state (objectDir W root object) (n, f) = (r0, (n0, f))" "r0 = Inr dir \<or> (\<exists>e. r0 = Inl e)" by auto
  note P0 = run[unfolded Put_def run_attempt o0(1)]
  show ?thesis
  proof (cases "r0 = Inr dir \<and> (\<exists>leaf. ParseLeaf P (bd_Certificate b) = Some leaf \<and> bd_PrivateKey b \<noteq> [] \<and> PrivateKeyMatches P leaf (bd_PrivateKey b))")
    case False
    then have "r \<noteq> Inr () \<and> f' = f" using P0 o0(2) by (auto split: option.splits if_splits)
    then show ?thesis by (intro still) (auto simp: same_refl)
  next
    case True
    then obtain leaf where leaf: "ParseLeaf P (bd_Certificate b) = Some leaf" "bd_PrivateKey b \<noteq> []" "PrivateKeyMatches P leaf (bd_PrivateKey b)"
      and r0: "r0 = Inr dir" by blast
    obtain r1 n1 f1 where m: "run_state (MkdirAll W (dir @ [versionsDir])) (n0, f) = (r1, (n1, f1))" by (metis prod_cases3)
    have f1: "f1 q = f q" if "\<not> below dir q" "\<not> prefix q root" for q
      using m that unfolding dir by (auto simp: MkdirAll_def sys_def mkdir_all_def below_def prefix_append prefix_Cons
          split: option.splits if_splits)
    obtain r2 n2 f2 where l: "run_state (Lock W (dir @ [lockFile])) (n1, f1) = (r2, (n2, f2))" by (metis prod_cases3)
    have f2: "f2 q = f q" if "\<not> below dir q" "\<not> prefix q root" for q
      using f1[OF that] same_lock(2)[OF l, of q] that(1) by (cases "q = dir @ [lockFile]") (simp_all add: below_def)
    show ?thesis
    proof (cases "(\<exists>e. r1 = Inl e) \<or> (\<exists>e. r2 = Inl e) \<or> rnd = None")
      case True
      have "r1 = Inl e \<Longrightarrow> f1 = f" for e using m by (auto simp: MkdirAll_def sys_def split: option.splits if_splits)
      moreover have "r1 = Inr () \<Longrightarrow> same_state P dir f f1" using same_mkdir(1)[of W dir n0 f n1 f1 P] m dir by simp
      moreover have "r \<noteq> Inr () \<and> (f' = f1 \<and> (\<exists>e. r1 = Inl e) \<or> f' = f2 \<and> r1 = Inr ())"
        using True P0 leaf r0 by (cases r1; cases r2) (auto simp: m l run_attempt)
      ultimately show ?thesis using f1 f2 same_lock(1)[OF l, of P] same_trans same_refl by (intro still) blast+
    next
      case False
      then obtain nonce where rnd: "rnd = Some nonce" and r12: "r1 = Inr ()" "r2 = Inr ()" by (cases r1; cases r2) auto
      have m: "run_state (MkdirAll W (dir @ [versionsDir])) (n0, f) = (Inr (), (n1, f1))" using m r12 by simp
      have "dir \<noteq> []" by (simp add: dir)
      note mk = same_mkdir[OF m this]
      define final where "final = take 16 (Fingerprint P leaf) @ ''-'' @ itoa nanos"
      define tmp where "tmp = ''.tmp-'' @ final @ ''-'' @ hex_encode nonce"
      define files where "files = map (\<lambda>name. (name, bundle_files b name)) order"
      have nv: "run_state (new_version W dir tmp final (''.current-'' @ hex_encode nonce) files) (n2, f2) = (r, (n', f'))"
        using P0 leaf r0 r12 by (simp add: m l run_attempt rnd new_version_def Let_def final_def tmp_def files_def)
      have same2: "same_state P dir f f2" using mk(1)[of P] same_lock(1)[OF l, of P] same_trans by blast
      then have ok2: "dir_ok dir f2" using ok by (auto simp: store_ok_def same_state_def unpublished_def published_def)
      have dirs: "f2 dir = Some NDir" "f2 (dir @ [versionsDir]) = Some NDir"
        using mk(2,3) same_lock(2)[OF l] by (auto simp: versionsDir_def lockFile_def)
      have tmp: "\<not> versionRe tmp" using versionRe_name[of tmp] by (auto simp: tmp_def)
      have link: "''.current-'' @ hex_encode nonce \<notin> {versionsDir, currentLink, lockFile}"
        by (simp add: versionsDir_def currentLink_def lockFile_def)
      have fin: "versionRe final" unfolding final_def by (rule final_version[OF sha nanos])
      have d: "distinct (map fst files)" using order by (simp add: files_def bundle_order_def comp_def)
      have b: "(certFile, bd_Certificate b) \<in> set files" "(keyFile, bd_PrivateKey b) \<in> set files"
        using order by (auto simp: files_def bundle_order_def bundle_files_def certFile_def chainFile_def fullFile_def keyFile_def)
      have "f' q = f q" if "\<not> below dir q" "\<not> prefix q root" for q
        using confinedD[OF new_version_confined nv, of q] f2[OF that] that by auto
      moreover note new_version_outcome[OF nv tmp fin link d ok2 dirs b leaf(1,3)]
      ultimately show ?thesis using leaf(1) same_trans[OF same2] by blast
    qed
  qed
qed

lemma view_same:
  assumes "IsStoreObjectRef object" "store_ok P (root @ [object]) f" "same_state P (root @ [object]) f f'"
  shows "store_ok P (root @ [object]) f' \<and> store_view P root object f' = store_view P root object f"
  using assms view_published[OF assms(1)] view_unpublished[OF assms(1)] unfolding store_ok_def same_state_def by metis

lemma Put_view:
  assumes "run_state (Put W P root nanos rnd order object b) (n, f) = (r, (n', f'))"
    and "\<And>s. length (px_sha P s) = 32" "0 \<le> nanos" "bundle_order order"
    and "store_ok P (root @ [object]) f" "IsStoreObjectRef object"
  shows "store_ok P (root @ [object]) f' \<and>
    (r \<noteq> Inr () \<and> store_view P root object f' = store_view P root object f \<or>
     (\<exists>leaf. ParseLeaf P (bd_Certificate b) = Some leaf \<and> store_view P root object f' = Inr (InfoOf P leaf)))"
  using Put_outcome[OF assms(1-4) refl assms(5)] view_same[OF assms(6,5)] view_published[OF assms(6)]
  unfolding store_ok_def by blast

text \<open>
  Property C7: whatever fails during a write, or wherever it is cut off, a reader afterwards sees
  either what it saw before or the complete new certificate with its matching key; after a write
  that reports success it sees the new one; the object's directory stays well formed and nothing
  outside it changes (other than creating the directories that lead to it).
\<close>

theorem put_atomic:
  assumes "run_state (Put W P root nanos rnd order object b) (n, f) = (r, (n', f'))"
    and "\<And>s. length (px_sha P s) = 32" "0 \<le> nanos" "bundle_order order"
    and "store_ok P (root @ [object]) f" "IsStoreObjectRef object"
  shows "store_ok P (root @ [object]) f' \<and>
    (r \<noteq> Inr () \<and> store_view P root object f' = store_view P root object f \<or>
     (\<exists>leaf. ParseLeaf P (bd_Certificate b) = Some leaf \<and> store_view P root object f' = Inr (InfoOf P leaf))) \<and>
    (\<forall>q. \<not> below (root @ [object]) q \<longrightarrow> \<not> prefix q root \<longrightarrow> f' q = f q)"
  using Put_view[OF assms] Put_outcome[OF assms(1-4) refl assms(5)] by blast

definition sample_leaf :: x509_cert where
  "sample_leaf = \<lparr>crt_Raw = ''der'', crt_NotBefore = 0, crt_NotAfter = 90 * 24 * hour, crt_DNSNames = [''wiki.example''],
     crt_PublicKey = ECDSA 256, crt_KeyBytes = ''pub''\<rparr>"

definition sample_pki :: pki where
  "sample_pki = \<lparr>px_sha = sample_digest,
     px_blocks = (\<lambda>s. if s = ''cert'' then [\<lparr>pb_Type = ''CERTIFICATE'', pb_Bytes = s\<rparr>]
                      else if s = ''key'' then [\<lparr>pb_Type = ''PRIVATE KEY'', pb_Bytes = s\<rparr>] else []),
     px_encode = pb_Bytes, px_parse = (\<lambda>_. Some sample_leaf), px_private = (\<lambda>_ _. Some ''pub'')\<rparr>"

definition sample_bundle :: cert_bundle where
  "sample_bundle = \<lparr>bd_Certificate = ''cert'', bd_Chain = [], bd_PrivateKey = ''key''\<rparr>"

text \<open>A process killed before its tenth system call.\<close>

definition sample_crash :: fs_world where
  "sample_crash = \<lparr>fw_fail = (\<lambda>n. if 9 \<le> n then Some Failed else None), fw_left = (\<lambda>_. Some ''ce''), fw_removed = (\<lambda>_ _. False),
     fw_walk = (\<lambda>_ _. []), fw_mtime = (\<lambda>_ _. None), fw_now = (\<lambda>_. 0), fw_random = (\<lambda>_. None), fw_ctx = (\<lambda>_. None)\<rparr>"

definition sample_order :: "string list" where
  "sample_order = [keyFile, certFile, fullFile, chainFile]"

definition sample_fs :: fs where "sample_fs = Map.empty([''s''] \<mapsto> NDir)"

theorem put_atomic_witness:
  "store_ok sample_pki [''s'', ''wiki'']
     (snd (snd (run_state (Put sample_crash sample_pki [''s''] 7 (Some ''abcd'') sample_order ''wiki'' sample_bundle) (0, sample_fs))))"
proof -
  have "bundle_order sample_order"
    by (auto simp: bundle_order_def sample_order_def certFile_def chainFile_def fullFile_def keyFile_def)
  moreover have "store_ok sample_pki ([''s''] @ [''wiki'']) sample_fs"
    by (simp add: store_ok_def unpublished_def dir_ok_def sample_fs_def)
  moreover have "IsStoreObjectRef ''wiki''" by code_simp
  moreover have "length (px_sha sample_pki s) = 32" for s by (simp add: sample_pki_def sample_digest_def)
  moreover obtain r n' f' where "run_state (Put sample_crash sample_pki [''s''] 7 (Some ''abcd'') sample_order ''wiki'' sample_bundle)
      (0, sample_fs) = (r, (n', f'))" by (metis prod_cases3)
  ultimately show ?thesis using put_atomic[of sample_crash sample_pki "[''s'']" 7 "Some ''abcd''"] by simp
qed

subsection \<open>Reading\<close>

text \<open>A world whose failures are not reported as a missing file.\<close>

definition honest :: "fs_world \<Rightarrow> bool" where
  "honest W \<longleftrightarrow> (\<forall>n. fw_fail W n \<noteq> Some NotExist)"

lemma Lstat_run: "run_state (Lstat W p) (n, f) =
    (case fw_fail W n of Some e \<Rightarrow> Inl e | None \<Rightarrow> (case f p of None \<Rightarrow> Inl NotExist | Some nd \<Rightarrow> Inr nd), (Suc n, f))"
  by (auto simp: Lstat_def sys_def split: option.splits)

lemma objectDir_run:
  assumes "IsStoreObjectRef object" "f (root @ [object]) \<in> {None, Some NDir}" "f (root @ [object, versionsDir]) \<in> {None, Some NDir}"
  shows "\<exists>n'. run_state (objectDir W root object) (n, f) = (Inr (root @ [object]), (n', f))"
  using assms by (auto simp: objectDir_def Let_def run_bind Lstat_run split: option.splits)

lemma reads_fail_or_answer:
  "f p = Some (NLink t) \<Longrightarrow> run_state (Readlink W p) (n, f) \<in> {(Inr t, (Suc n, f))} \<union> range (\<lambda>e. (Inl e, (Suc n, f)))"
  "f p = Some (NFile d) \<Longrightarrow> run_state (ReadFile W p) (n, f) \<in> {(Inr d, (Suc n, f))} \<union> range (\<lambda>e. (Inl e, (Suc n, f)))"
  by (auto simp: Readlink_def ReadFile_def sys_def split: option.splits)

lemma Current_view:
  assumes run: "run_state (Current W P root object) (n, f) = (r, (n', f'))"
    and W: "honest W" and ok: "store_ok P (root @ [object]) f" and obj: "IsStoreObjectRef object"
  shows "(r = store_view P root object f \<or> (\<exists>e. r = Inl (ErrStoreIO e))) \<and> same_state P (root @ [object]) f f'"
proof -
  let ?dir = "root @ [object]"
  have dirs: "f ?dir \<in> {None, Some NDir}" "f (root @ [object, versionsDir]) \<in> {None, Some NDir}"
    using ok by (auto simp: store_ok_def unpublished_def published_def)
  obtain n1 where d: "run_state (objectDir W root object) (n, f) = (Inr ?dir, (n1, f))" using objectDir_run[OF obj dirs] by blast
  have NE: "fw_fail W n1 \<noteq> Some NotExist" using W by (simp add: honest_def)
  show ?thesis
  proof (cases "unpublished ?dir f")
    case True
    then have "f (root @ [object, currentLink]) = None" by (simp add: unpublished_def)
    then have "f' = f \<and> (r = Inl ErrStoreNotFound \<or> (\<exists>e. r = Inl (ErrStoreIO e)))"
      using run by (auto simp: Current_def run_attempt run_store_io d run_bind Lstat_run split: option.splits if_splits)
    then show ?thesis using view_unpublished[OF obj True] by (auto simp: same_refl)
  next
    case False
    then obtain v leaf where p: "published P ?dir v leaf f" using ok by (auto simp: store_ok_def)
    then obtain c k where f: "f (root @ [object, currentLink]) = Some (NLink (versionsDir @ sep # v))" "versionRe v"
      "f (root @ [object, versionsDir, v, certFile]) = Some (NFile c)" "f (root @ [object, versionsDir, v, keyFile]) = Some (NFile k)"
      "ParseLeaf P c = Some leaf" "PrivateKeyMatches P leaf k" by (auto simp: published_def)
    show ?thesis
    proof (cases "fw_fail W n1")
      case (Some e)
      then have "f' = f \<and> (\<exists>e. r = Inl (ErrStoreIO e))"
        using run NE by (auto simp: Current_def run_attempt run_store_io d run_bind Lstat_run split: if_splits)
      then show ?thesis by (auto simp: same_refl)
    next
      case None
      obtain r2 n2 f2 where l: "run_state (Lock W (?dir @ [lockFile])) (Suc n1, f) = (r2, (n2, f2))" by (metis prod_cases3)
      note same = same_lock[OF l]
      have l: "run_state (Lock W (root @ [object, lockFile])) (Suc n1, f) = (r2, (n2, f2))" using l by simp
      have f2: "f2 (root @ [object, currentLink]) = Some (NLink (versionsDir @ sep # v))"
        "f2 (root @ [object, versionsDir, v, certFile]) = Some (NFile c)" "f2 (root @ [object, versionsDir, v, keyFile]) = Some (NFile k)"
        using f(1,3,4) same(2) by (auto simp: currentLink_def lockFile_def)
      have tail: "(r = Inr (InfoOf P leaf) \<or> (\<exists>e. r = Inl (ErrStoreIO e))) \<and> f' = f2"
      proof (cases r2)
        case (Inl e)
        then show ?thesis using run f(1) by (auto simp: Current_def run_attempt run_store_io d run_bind Lstat_run None l)
      next
        case (Inr u)
        have j: "join_path (root @ [object]) (versionsDir @ sep # v) = root @ [object, versionsDir, v]" using join_version[OF f(2)] by simp
        have "strict_prefix (root @ [object]) (root @ [object, versionsDir, v])" by (simp add: strict_prefix_def)
        then show ?thesis
          using run f(1,5,6) Inr reads_fail_or_answer(1)[of f2 "root @ [object, currentLink]", OF f2(1), of W n2]
            reads_fail_or_answer(2)[of f2 "root @ [object, versionsDir, v, certFile]", OF f2(2), of W "Suc n2"]
            reads_fail_or_answer(2)[of f2 "root @ [object, versionsDir, v, keyFile]", OF f2(3), of W "Suc (Suc n2)"]
          by (auto simp: Current_def run_attempt run_store_io d run_bind Lstat_run None l Let_def j split: option.splits)
      qed
      then show ?thesis using view_published[OF obj p] same(1) by auto
    qed
  qed
qed

end
