(* ===== verification/RunnerConfig.thy ===== *)
theory RunnerConfig
  imports GoStrings Envelope
begin

text \<open>
  The Runner's configuration, \<^verbatim>\<open>internal/runner/config/config.go\<close>. A Go map is an association list
  with distinct keys. Validation answers with the configuration after its defaults are filled in,
  or with nothing: every failure is the same \<^verbatim>\<open>ErrInvalid\<close>, only the text differs. URL and IP
  parsing, JSON syntax and the reading of public keys are parameters.
\<close>

subsection \<open>Parameters\<close>

record parsed_url =
  u_Scheme :: string
  u_Host :: string
  u_Hostname :: string
  u_User :: bool
  u_Fragment :: string

datatype ip_class = IPLoopback | IPPrivate | IPLinkLocal | IPOther

record platform =
  pf_unicode :: unicode
  pf_parseURL :: "string \<Rightarrow> parsed_url option"
  pf_parseIP :: "string \<Rightarrow> ip_class option"
  pf_jsonValid :: "string \<Rightarrow> bool"
  pf_parsePublicKey :: "string \<Rightarrow> string option"

subsection \<open>Data\<close>

record eab_env =
  eb_KIDEnv :: string
  eb_HMACEnv :: string

record acme_binding =
  ab_DirectoryURL :: string
  ab_Email :: string
  ab_EAB :: "eab_env option"
  ab_AllowProductionCA :: bool

record dns_binding =
  db_Provider :: string
  db_Env :: "(string \<times> string) list"
  db_PassthroughEnv :: "string list"
  db_PropagationWaitSeconds :: int
  db_Resolvers :: "string list"

record store_binding =
  sb_Type :: string
  sb_Config :: string

record lego_cfg =
  lg_Binary :: string
  lg_StateDir :: string
  lg_WorkDir :: string
  lg_TimeoutSeconds :: int

record authorization =
  az_AllowedDnsSuffixes :: "string list"
  az_AllowWildcard :: bool
  az_AllowedACMEBindings :: "string list"
  az_AllowedDNSBindings :: "string list"
  az_AllowedStoreBindings :: "string list"
  az_MaxNames :: int

record job_signing =
  jg_PublicKeys :: "string list"
  jg_ClockSkewSeconds :: int
  jg_keys :: "(string \<times> string) list"

record result_signing =
  rg_PrivateKeyFile :: string
  rg_ValiditySeconds :: int

record runner_config =
  rc_APIVersion :: string
  rc_Kind :: string
  rc_Authorization :: authorization
  rc_Lego :: lego_cfg
  rc_ACMEBindings :: "(string \<times> acme_binding) list"
  rc_DNSBindings :: "(string \<times> dns_binding) list"
  rc_StoreBindings :: "(string \<times> store_binding) list"
  rc_JobSigning :: "job_signing option"
  rc_ResultSigning :: "result_signing option"
  rc_AccountProvisioning :: "string list option"

definition RunnerConfigKind :: string where "RunnerConfigKind = ''RunnerConfig''"
definition MaxConfigSize :: nat where "MaxConfigSize = 256 * 1024"
definition DefaultTimeoutSeconds :: int where "DefaultTimeoutSeconds = 900"
definition MaxTimeoutSeconds :: int where "MaxTimeoutSeconds = 86400"
definition MaxEnvEntries :: nat where "MaxEnvEntries = 64"
definition MaxEnvValueLength :: nat where "MaxEnvValueLength = 4096"
definition MaxSigningKeys :: nat where "MaxSigningKeys = 8"
definition DefaultClockSkewSeconds :: int where "DefaultClockSkewSeconds = 300"
definition MaxClockSkewSeconds :: int where "MaxClockSkewSeconds = 3600"
definition DefaultResultValiditySeconds :: int where "DefaultResultValiditySeconds = 3600"
definition MaxResultValiditySeconds :: int where "MaxResultValiditySeconds = 86400"
definition MaxProvisioningKeys :: nat where "MaxProvisioningKeys = 8"

definition deniedProviders :: "string list" where "deniedProviders = [''exec'', ''manual'']"
definition deniedEnvPrefixes :: "string list" where "deniedEnvPrefixes = [''LEGO_'', ''LD_'']"
definition deniedEnvNames :: "string list" where "deniedEnvNames = [''PATH'', ''HOME'', ''TMPDIR'']"
definition nonProductionHostTokens :: "string list" where
  "nonProductionHostTokens = [''staging'', ''stage'', ''test'', ''testing'', ''sandbox'', ''pebble'', ''localhost'', ''dev'', ''local'', ''internal'']"

subsection \<open>Names, paths and addresses\<close>

definition envNameRe :: "string \<Rightarrow> bool" where
  "envNameRe s \<longleftrightarrow> s \<noteq> [] \<and> is_upper (hd s) \<and> list_all (\<lambda>c. is_upper c \<or> is_digit c \<or> c = CHR ''_'') (tl s) \<and> length (tl s) \<le> 63"

definition providerRe :: "string \<Rightarrow> bool" where
  "providerRe s \<longleftrightarrow> 1 \<le> length s \<and> length s \<le> 32 \<and> list_all is_lower_alnum s"

definition bindingTypeRe :: "string \<Rightarrow> bool" where
  "bindingTypeRe s \<longleftrightarrow> re_ends is_lower_alnum (\<lambda>c. is_lower_alnum c \<or> c = CHR ''-'') 62 s"

definition validateEnvName :: "string \<Rightarrow> bool" where
  "validateEnvName name \<longleftrightarrow> envNameRe name \<and> \<not> list_ex (\<lambda>p. prefix p name) deniedEnvPrefixes \<and> name \<notin> set deniedEnvNames"

text \<open>\<^verbatim>\<open>filepath.IsAbs(p) && filepath.Clean(p) == p\<close>\<close>

definition clean_abs :: "string \<Rightarrow> bool" where
  "clean_abs p \<longleftrightarrow> p = ''/'' \<or>
     (p \<noteq> [] \<and> hd p = CHR ''/'' \<and> list_all (\<lambda>c. c \<noteq> [] \<and> c \<noteq> ''.'' \<and> c \<noteq> ''..'') (Split (CHR ''/'') (tl p)))"

fun FieldsFunc :: "(char \<Rightarrow> bool) \<Rightarrow> string \<Rightarrow> string \<Rightarrow> string list" where
  "FieldsFunc f cur [] = (if cur = [] then [] else [cur])"
| "FieldsFunc f cur (c # s) =
     (if f c then (if cur = [] then [] else [cur]) @ FieldsFunc f [] s else FieldsFunc f (cur @ [c]) s)"

definition IsNonProductionDirectory :: "platform \<Rightarrow> parsed_url \<Rightarrow> bool" where
  "IsNonProductionDirectory N u =
     (let host = strings_ToLower (pf_unicode N) (u_Hostname u) in
      case pf_parseIP N host of
        Some ip \<Rightarrow> ip \<noteq> IPOther
      | None \<Rightarrow> list_ex (\<lambda>l. l \<in> set nonProductionHostTokens) (FieldsFunc (\<lambda>c. c = CHR ''.'' \<or> c = CHR ''-'') [] host))"

definition contains_any :: "string \<Rightarrow> string \<Rightarrow> bool" where
  "contains_any s chars \<longleftrightarrow> list_ex (\<lambda>c. c \<in> set chars) s"

text \<open>\<^verbatim>\<open>splitHostPort\<close>: the text after the last colon is the port.\<close>

definition splitHostPort :: "string \<Rightarrow> (string \<times> string) option" where
  "splitHostPort s =
     (if CHR '':'' \<notin> set s then None
      else
        let port = rev (takeWhile (\<lambda>c. c \<noteq> CHR '':'') (rev s));
            host = take (length s - length port - 1) s;
            bad = [CHR 32, CHR 9] @ '',/'' @ [CHR 92] in
        if contains_any host bad \<or> contains_any port bad then None
        else if \<not> list_all is_digit port then None
        else Some (TrimRight (TrimLeft host ''[]'') ''[]'', port))"

subsection \<open>Sections\<close>

definition Lego_validate :: "lego_cfg \<Rightarrow> lego_cfg option" where
  "Lego_validate l =
     (if \<not> list_all clean_abs [lg_Binary l, lg_StateDir l, lg_WorkDir l] then None
      else if lg_StateDir l = lg_WorkDir l then None
      else
        let l = (if lg_TimeoutSeconds l = 0 then l\<lparr>lg_TimeoutSeconds := DefaultTimeoutSeconds\<rparr> else l) in
        if lg_TimeoutSeconds l < 1 \<or> MaxTimeoutSeconds < lg_TimeoutSeconds l then None else Some l)"

definition ACMEBinding_validate :: "platform \<Rightarrow> acme_binding \<Rightarrow> bool" where
  "ACMEBinding_validate N b =
     (case pf_parseURL N (ab_DirectoryURL b) of
        None \<Rightarrow> False
      | Some u \<Rightarrow>
          \<not> (u_Scheme u \<noteq> ''https'' \<or> u_Host u = [] \<or> u_User u \<or> u_Fragment u \<noteq> []) \<and>
          \<not> (\<not> ab_AllowProductionCA b \<and> \<not> IsNonProductionDirectory N u) \<and>
          \<not> (ab_Email b = [] \<or> contains_any (ab_Email b) ([CHR 32, CHR 9, CHR 13, CHR 10, CHR 34, CHR 39, CHR 92] @ ''/'') \<or>
             length (filter (\<lambda>c. c = CHR ''@'') (ab_Email b)) \<noteq> 1 \<or> hd (ab_Email b) = CHR ''@'' \<or> last (ab_Email b) = CHR ''@'') \<and>
          (case ab_EAB b of
             None \<Rightarrow> True
           | Some e \<Rightarrow> validateEnvName (eb_KIDEnv e) \<and> validateEnvName (eb_HMACEnv e) \<and> eb_KIDEnv e \<noteq> eb_HMACEnv e))"

definition DNSBinding_validate :: "dns_binding \<Rightarrow> bool" where
  "DNSBinding_validate b \<longleftrightarrow>
     providerRe (db_Provider b) \<and> db_Provider b \<notin> set deniedProviders \<and>
     length (db_Env b) + length (db_PassthroughEnv b) \<le> MaxEnvEntries \<and>
     list_all (\<lambda>(k, v). validateEnvName k \<and> length v \<le> MaxEnvValueLength \<and> \<not> contains_any v [CHR 0x00, CHR 13, CHR 10]) (db_Env b) \<and>
     list_all (\<lambda>k. validateEnvName k \<and> k \<notin> fst ` set (db_Env b)) (db_PassthroughEnv b) \<and>
     0 \<le> db_PropagationWaitSeconds b \<and> db_PropagationWaitSeconds b \<le> 3600 \<and>
     list_all (\<lambda>r. case splitHostPort r of None \<Rightarrow> False | Some (host, port) \<Rightarrow> host \<noteq> [] \<and> port \<noteq> []) (db_Resolvers b)"

definition ValidateBindingShape :: "platform \<Rightarrow> string \<Rightarrow> string \<Rightarrow> bool" where
  "ValidateBindingShape N typ raw \<longleftrightarrow>
     bindingTypeRe typ \<and> TrimSpace raw \<noteq> [] \<and> hd (TrimSpace raw) = CHR ''{'' \<and> pf_jsonValid N (TrimSpace raw)"

definition allowed_defined :: "string list \<Rightarrow> string list \<Rightarrow> bool" where
  "allowed_defined names defined \<longleftrightarrow> names \<noteq> [] \<and> list_all (\<lambda>n. IsBindingName n \<and> n \<in> set defined) names"

definition Authorization_validate :: "runner_config \<Rightarrow> authorization \<Rightarrow> bool" where
  "Authorization_validate c a \<longleftrightarrow>
     az_AllowedDnsSuffixes a \<noteq> [] \<and> 0 \<le> az_MaxNames a \<and> az_MaxNames a \<le> int MaxNames \<and>
     list_all (\<lambda>s. NormalizeSuffix s = Inr s) (az_AllowedDnsSuffixes a) \<and>
     allowed_defined (az_AllowedACMEBindings a) (map fst (rc_ACMEBindings c)) \<and>
     allowed_defined (az_AllowedDNSBindings a) (map fst (rc_DNSBindings c)) \<and>
     allowed_defined (az_AllowedStoreBindings a) (map fst (rc_StoreBindings c))"

fun index_keys :: "platform \<Rightarrow> crypto \<Rightarrow> (string \<times> string) list \<Rightarrow> string list \<Rightarrow> (string \<times> string) list option" where
  "index_keys N K keys [] = Some keys"
| "index_keys N K keys (s # ss) =
     (case pf_parsePublicKey N s of
        None \<Rightarrow> None
      | Some pub \<Rightarrow>
          if KeyID K pub \<in> fst ` set keys then None
          else index_keys N K ((KeyID K pub, pub) # keys) ss)"

definition JobSigning_validate :: "platform \<Rightarrow> crypto \<Rightarrow> job_signing \<Rightarrow> job_signing option" where
  "JobSigning_validate N K j =
     (if jg_PublicKeys j = [] \<or> MaxSigningKeys < length (jg_PublicKeys j) then None
      else (case index_keys N K [] (jg_PublicKeys j) of
              None \<Rightarrow> None
            | Some keys \<Rightarrow>
                let j = j\<lparr>jg_keys := keys\<rparr>;
                    j = (if jg_ClockSkewSeconds j = 0 then j\<lparr>jg_ClockSkewSeconds := DefaultClockSkewSeconds\<rparr> else j) in
                if jg_ClockSkewSeconds j < 1 \<or> MaxClockSkewSeconds < jg_ClockSkewSeconds j then None else Some j))"

definition JobSigning_Keys :: "job_signing \<Rightarrow> string \<Rightarrow> string option" where
  "JobSigning_Keys j = map_of (jg_keys j)"

definition ResultSigning_validate :: "result_signing \<Rightarrow> result_signing option" where
  "ResultSigning_validate r =
     (if \<not> clean_abs (rg_PrivateKeyFile r) then None
      else
        let r = (if rg_ValiditySeconds r = 0 then r\<lparr>rg_ValiditySeconds := DefaultResultValiditySeconds\<rparr> else r) in
        if rg_ValiditySeconds r < 1 \<or> MaxResultValiditySeconds < rg_ValiditySeconds r then None else Some r)"

definition AccountProvisioning_validate :: "string list \<Rightarrow> bool" where
  "AccountProvisioning_validate files \<longleftrightarrow>
     files \<noteq> [] \<and> length files \<le> MaxProvisioningKeys \<and> list_all clean_abs files \<and> distinct files"

subsection \<open>The whole configuration\<close>

text \<open>An optional section: absent, or validated.\<close>

definition checked_section :: "('a \<Rightarrow> 'a option) \<Rightarrow> 'a option \<Rightarrow> 'a option option" where
  "checked_section check x = (case x of None \<Rightarrow> Some None | Some v \<Rightarrow> (case check v of None \<Rightarrow> None | Some v' \<Rightarrow> Some (Some v')))"

definition Config_Validate :: "platform \<Rightarrow> crypto \<Rightarrow> runner_config \<Rightarrow> runner_config option" where
  "Config_Validate N K c =
     (if rc_APIVersion c \<noteq> APIVersion \<or> rc_Kind c \<noteq> RunnerConfigKind then None
      else (case Lego_validate (rc_Lego c) of
        None \<Rightarrow> None
      | Some l \<Rightarrow>
          if rc_ACMEBindings c = [] \<or> rc_DNSBindings c = [] \<or> rc_StoreBindings c = [] then None
          else if \<not> list_all (\<lambda>(n, b). IsBindingName n \<and> ACMEBinding_validate N b) (rc_ACMEBindings c) then None
          else if \<not> list_all (\<lambda>(n, b). IsBindingName n \<and> DNSBinding_validate b) (rc_DNSBindings c) then None
          else if \<not> list_all (\<lambda>(n, b). IsBindingName n \<and> ValidateBindingShape N (sb_Type b) (sb_Config b)) (rc_StoreBindings c) then None
          else if \<not> Authorization_validate c (rc_Authorization c) then None
          else (case checked_section (JobSigning_validate N K) (rc_JobSigning c) of
            None \<Rightarrow> None
          | Some js \<Rightarrow>
              (case checked_section ResultSigning_validate (rc_ResultSigning c) of
                 None \<Rightarrow> None
               | Some rs \<Rightarrow>
                   (case checked_section (\<lambda>f. if AccountProvisioning_validate f then Some f else None) (rc_AccountProvisioning c) of
                      None \<Rightarrow> None
                    | Some ap \<Rightarrow>
                        Some (c\<lparr>rc_Lego := l, rc_JobSigning := js, rc_ResultSigning := rs, rc_AccountProvisioning := ap\<rparr>))))))"

definition Config_Read :: "platform \<Rightarrow> crypto \<Rightarrow> runner_config codec \<Rightarrow> string \<Rightarrow> runner_config option" where
  "Config_Read N K D data =
     (if MaxConfigSize < length data then None
      else (case cd_read D data of None \<Rightarrow> None | Some c \<Rightarrow> Config_Validate N K c))"

definition Config_Policy :: "runner_config \<Rightarrow> runner_policy" where
  "Config_Policy c =
     (let a = rc_Authorization c in
      \<lparr>rp_AllowedDnsSuffixes = az_AllowedDnsSuffixes a, rp_AllowWildcard = az_AllowWildcard a,
       AllowedACMEBindings = az_AllowedACMEBindings a, AllowedDNSBindings = az_AllowedDNSBindings a,
       AllowedStoreBindings = az_AllowedStoreBindings a, rp_MaxNames = az_MaxNames a\<rparr>)"

definition SortedEnv :: "dns_binding \<Rightarrow> string list" where
  "SortedEnv b = map (\<lambda>(k, v). k @ ''='' @ v) (sort_key fst (db_Env b))"

end
