(* ===== verification/LegoCmd.thy ===== *)
theory LegoCmd
  imports RunnerConfig Strconv
begin

text \<open>
  The lego command line and environment, \<^verbatim>\<open>Build\<close> of \<^verbatim>\<open>internal/runner/lego/lego.go\<close>.
\<close>

record eab_values =
  ev_KID :: string
  ev_HMAC :: string

record lego_params =
  lp_Binary :: string
  lp_WorkDir :: string
  lp_FQDN :: string
  lp_AdditionalNames :: "string list"
  lp_KeyType :: string
  lp_ACME :: acme_binding
  lp_DNS :: dns_binding
  lp_LookupEnv :: "string \<Rightarrow> string option"
  lp_EAB :: "eab_values option"
  lp_DisableEAB :: bool

record invocation =
  inv_Argv :: "string list"
  inv_Env :: "string list"
  inv_Dir :: string
  inv_secrets :: "string list"

datatype build_error = ErrMissingDNSEnv | ErrMissingEAB | ErrBuild

text \<open>The variables a binding passes through; the first one the platform lacks is an error.\<close>

fun passthrough :: "(string \<Rightarrow> string option) \<Rightarrow> string list \<Rightarrow> (string \<times> string) list option" where
  "passthrough lookupEnv [] = Some []"
| "passthrough lookupEnv (name # names) =
     (case lookupEnv name of
        None \<Rightarrow> None
      | Some v \<Rightarrow> map_option ((#) (name, v)) (passthrough lookupEnv names))"

definition env_entry :: "string \<times> string \<Rightarrow> string" where
  "env_entry kv = fst kv @ ''='' @ snd kv"

definition eab_entries :: "string \<Rightarrow> string \<Rightarrow> string list" where
  "eab_entries kid hmac = [''LEGO_EAB_KID='' @ kid, ''LEGO_EAB_HMAC='' @ hmac]"

definition base_argv :: "lego_params \<Rightarrow> string list" where
  "base_argv p =
     [lp_Binary p, ''--accept-tos'', ''--email'', ab_Email (lp_ACME p), ''--server'', ab_DirectoryURL (lp_ACME p),
      ''--dns'', db_Provider (lp_DNS p), ''--domains'', lp_FQDN p]
     @ concat (map (\<lambda>name. [''--domains'', name]) (lp_AdditionalNames p))
     @ [''--key-type'', lp_KeyType p, ''--path'', lp_WorkDir p]
     @ (if 0 < db_PropagationWaitSeconds (lp_DNS p)
        then [''--dns.propagation-wait'', itoa (db_PropagationWaitSeconds (lp_DNS p)) @ ''s''] else [])
     @ (if db_Resolvers (lp_DNS p) \<noteq> [] then [''--dns.resolvers'', Join (CHR '','') (db_Resolvers (lp_DNS p))] else [])"

definition is_abs :: "string \<Rightarrow> bool" where
  "is_abs p \<longleftrightarrow> p \<noteq> [] \<and> hd p = CHR ''/''"

definition Build :: "lego_params \<Rightarrow> build_error + invocation" where
  "Build p =
     (if \<not> is_abs (lp_Binary p) \<or> \<not> is_abs (lp_WorkDir p) then Inl ErrBuild
      else if \<not> KeyType_Valid (lp_KeyType p) then Inl ErrBuild
      else
        let env = [''HOME='' @ lp_WorkDir p, ''TMPDIR='' @ lp_WorkDir p, ''PATH=/usr/local/bin:/usr/bin:/bin''] @ SortedEnv (lp_DNS p) in
        (case passthrough (lp_LookupEnv p) (db_PassthroughEnv (lp_DNS p)) of
           None \<Rightarrow> Inl ErrMissingDNSEnv
         | Some pass \<Rightarrow>
             let env = env @ map env_entry pass;
                 secrets = map snd pass;
                 plain = \<lparr>inv_Argv = base_argv p @ [''run''], inv_Env = env, inv_Dir = lp_WorkDir p, inv_secrets = secrets\<rparr>;
                 bound = (\<lambda>kid hmac. plain\<lparr>inv_Argv := base_argv p @ [''--eab'', ''run''], inv_Env := env @ eab_entries kid hmac,
                            inv_secrets := secrets @ [kid, hmac]\<rparr>) in
             (case lp_EAB p of
                Some e \<Rightarrow> Inr (bound (ev_KID e) (ev_HMAC e))
              | None \<Rightarrow>
                  if lp_DisableEAB p then Inr plain
                  else
                    (case ab_EAB (lp_ACME p) of
                       None \<Rightarrow> Inr plain
                     | Some e \<Rightarrow>
                         (case (lp_LookupEnv p (eb_KIDEnv e), lp_LookupEnv p (eb_HMACEnv e)) of
                            (Some kid, Some hmac) \<Rightarrow> Inr (bound kid hmac)
                          | _ \<Rightarrow> Inl ErrMissingEAB)))))"

definition SanitizedDomain :: "string \<Rightarrow> string" where
  "SanitizedDomain fqdn = map (\<lambda>c. if c = CHR '':'' then CHR ''-'' else if c = CHR ''*'' then CHR ''_'' else c) fqdn"

subsection \<open>What lego is given\<close>

text \<open>The name of an entry: the text before the first equals sign.\<close>

definition env_name :: "string \<Rightarrow> string" where
  "env_name e = takeWhile (\<lambda>c. c \<noteq> CHR ''='') e"

lemma env_name_entry: "CHR ''='' \<notin> set k \<Longrightarrow> env_name (k @ ''='' @ v) = k"
  unfolding env_name_def by (subst takeWhile_append2) auto

lemma env_name_valid: "validateEnvName k \<Longrightarrow> CHR ''='' \<notin> set k"
proof -
  have "\<not> is_upper CHR ''=''" "\<not> is_digit CHR ''=''" by code_simp+
  then show "validateEnvName k \<Longrightarrow> CHR ''='' \<notin> set k"
    by (cases k) (auto simp: validateEnvName_def envNameRe_def list_all_iff)
qed

lemma passthrough_names: "passthrough look ns = Some pass \<Longrightarrow> map fst pass = ns \<and> (\<forall>(k, v) \<in> set pass. look k = Some v)"
  by (induction ns arbitrary: pass) (auto split: option.splits)

text \<open>The entries of the binding: its own settings and what it passes through.\<close>

lemma binding_entry:
  assumes "DNSBinding_validate b" "passthrough look (db_PassthroughEnv b) = Some pass"
    and "e \<in> set (SortedEnv b) \<union> env_entry ` set pass"
  shows "validateEnvName (env_name e)"
proof -
  obtain k v where e: "e = k @ ''='' @ v" and kv: "(k, v) \<in> set (db_Env b) \<or> (k, v) \<in> set pass"
    using assms(3) by (auto simp: SortedEnv_def env_entry_def)
  have "k \<in> fst ` set (db_Env b) \<or> k \<in> set (map fst pass)" using kv by (metis fst_conv image_eqI set_map)
  then have "k \<in> fst ` set (db_Env b) \<or> k \<in> set (db_PassthroughEnv b)" using passthrough_names[OF assms(2)] by simp
  then have "validateEnvName k" using assms(1) by (auto simp: DNSBinding_validate_def list_all_iff)
  then show ?thesis using env_name_entry[OF env_name_valid] e by simp
qed

lemma Build_cases:
  assumes "Build p = Inr cmd"
  obtains pass eab where "passthrough (lp_LookupEnv p) (db_PassthroughEnv (lp_DNS p)) = Some pass"
    "inv_Env cmd = [''HOME='' @ lp_WorkDir p, ''TMPDIR='' @ lp_WorkDir p, ''PATH=/usr/local/bin:/usr/bin:/bin'']
       @ SortedEnv (lp_DNS p) @ map env_entry pass @ (case eab of None \<Rightarrow> [] | Some (kid, hmac) \<Rightarrow> eab_entries kid hmac)"
    "inv_secrets cmd = map snd pass @ (case eab of None \<Rightarrow> [] | Some (kid, hmac) \<Rightarrow> [kid, hmac])"
    "inv_Argv cmd = base_argv p @ (if eab = None then [] else [''--eab'']) @ [''run'']"
    "eab = None \<longleftrightarrow> lp_EAB p = None \<and> (lp_DisableEAB p \<or> ab_EAB (lp_ACME p) = None)"
proof -
  obtain pass where pass: "passthrough (lp_LookupEnv p) (db_PassthroughEnv (lp_DNS p)) = Some pass"
    using assms by (auto simp: Build_def Let_def split: if_splits option.splits)
  consider (given) e where "lp_EAB p = Some e" | (none) "lp_EAB p = None" "lp_DisableEAB p \<or> ab_EAB (lp_ACME p) = None"
    | (env) e where "lp_EAB p = None" "\<not> lp_DisableEAB p" "ab_EAB (lp_ACME p) = Some e" by fastforce
  then show thesis
  proof cases
    case given
    then show thesis using assms pass that[OF pass, of "Some (ev_KID e, ev_HMAC e)"]
      by (auto simp: Build_def Let_def split: if_splits)
  next
    case none
    then show thesis using assms pass that[OF pass, of None] by (auto simp: Build_def Let_def split: if_splits option.splits)
  next
    case env
    then obtain kid hmac where "lp_LookupEnv p (eb_KIDEnv e) = Some kid" "lp_LookupEnv p (eb_HMACEnv e) = Some hmac"
      using assms pass by (auto simp: Build_def Let_def split: if_splits option.splits)
    then show thesis using assms pass env that[OF pass, of "Some (kid, hmac)"]
      by (auto simp: Build_def Let_def split: if_splits)
  qed
qed

definition entry_ok :: "lego_params \<Rightarrow> invocation \<Rightarrow> string \<Rightarrow> bool" where
  "entry_ok p cmd e \<longleftrightarrow>
     (env_name e \<in> set deniedEnvNames \<longrightarrow>
        e \<in> {''HOME='' @ lp_WorkDir p, ''TMPDIR='' @ lp_WorkDir p, ''PATH=/usr/local/bin:/usr/bin:/bin''}) \<and>
     \<not> prefix ''LD_'' (env_name e) \<and>
     (prefix ''LEGO_'' (env_name e) \<longrightarrow> (\<exists>v \<in> set (inv_secrets cmd). e \<in> {''LEGO_EAB_KID='' @ v, ''LEGO_EAB_HMAC='' @ v})) \<and>
     (env_name e \<in> set (db_PassthroughEnv (lp_DNS p)) \<longrightarrow> (\<exists>v \<in> set (inv_secrets cmd). e = env_name e @ ''='' @ v))"

lemma entry_ok_fixed:
  assumes "DNSBinding_validate (lp_DNS p)" and "e \<in> {''HOME='' @ lp_WorkDir p, ''TMPDIR='' @ lp_WorkDir p, ''PATH=/usr/local/bin:/usr/bin:/bin''}"
  shows "entry_ok p cmd e"
proof -
  have "env_name e \<in> {''HOME'', ''TMPDIR'', ''PATH''}" using assms(2) by (auto simp: env_name_def)
  moreover have "k \<notin> set deniedEnvNames" if "k \<in> set (db_PassthroughEnv (lp_DNS p))" for k
    using assms(1) that by (auto simp: DNSBinding_validate_def list_all_iff validateEnvName_def)
  ultimately show ?thesis using assms(2) by (auto simp: entry_ok_def deniedEnvNames_def)
qed

lemma entry_ok_binding:
  assumes valid: "DNSBinding_validate (lp_DNS p)" and pass: "passthrough look (db_PassthroughEnv (lp_DNS p)) = Some pass"
    and e: "e \<in> set (SortedEnv (lp_DNS p)) \<union> env_entry ` set pass" and secrets: "snd ` set pass \<subseteq> set (inv_secrets cmd)"
  shows "entry_ok p cmd e"
proof -
  have name: "validateEnvName (env_name e)" by (rule binding_entry[OF valid pass e])
  have "\<exists>v \<in> set (inv_secrets cmd). e = env_name e @ ''='' @ v" if "env_name e \<in> set (db_PassthroughEnv (lp_DNS p))"
  proof (cases "e \<in> env_entry ` set pass")
    case True
    then obtain k v where kv: "(k, v) \<in> set pass" "e = k @ ''='' @ v" by (auto simp: env_entry_def)
    then have "k \<in> set (map fst pass)" by force
    then have "k \<in> set (db_PassthroughEnv (lp_DNS p))" using passthrough_names[OF pass] by simp
    then have "validateEnvName k" using valid by (auto simp: DNSBinding_validate_def list_all_iff)
    then show ?thesis using kv secrets env_name_entry[OF env_name_valid] by force
  next
    case False
    then obtain k v where kv: "(k, v) \<in> set (db_Env (lp_DNS p))" "e = k @ ''='' @ v" using e by (auto simp: SortedEnv_def)
    then have k: "validateEnvName k" using valid by (auto simp: DNSBinding_validate_def list_all_iff)
    then have "k \<in> set (db_PassthroughEnv (lp_DNS p))" using that env_name_entry[OF env_name_valid[OF k], of v] kv(2) by simp
    then have "k \<notin> fst ` set (db_Env (lp_DNS p))" using valid by (auto simp: DNSBinding_validate_def list_all_iff)
    moreover have "k \<in> fst ` set (db_Env (lp_DNS p))" using imageI[OF kv(1), of fst] by simp
    ultimately show ?thesis by contradiction
  qed
  then show ?thesis using name by (auto simp: entry_ok_def validateEnvName_def deniedEnvPrefixes_def)
qed

lemma entry_ok_eab:
  assumes "DNSBinding_validate (lp_DNS p)" "e \<in> set (eab_entries kid hmac)" "{kid, hmac} \<subseteq> set (inv_secrets cmd)"
  shows "entry_ok p cmd e"
proof -
  have "env_name e \<in> {''LEGO_EAB_KID'', ''LEGO_EAB_HMAC''}" using assms(2) by (auto simp: env_name_def eab_entries_def)
  moreover have "\<not> prefix ''LEGO_'' k" if "k \<in> set (db_PassthroughEnv (lp_DNS p))" for k
    using assms(1) that by (auto simp: DNSBinding_validate_def list_all_iff validateEnvName_def deniedEnvPrefixes_def)
  ultimately show ?thesis using assms(2,3) by (fastforce simp: entry_ok_def deniedEnvNames_def eab_entries_def)
qed


definition sample_dns :: dns_binding where
  "sample_dns = \<lparr>db_Provider = ''azuredns'', db_Env = [(''AZURE_ZONE'', ''example'')], db_PassthroughEnv = [''AZURE_TOKEN''],
     db_PropagationWaitSeconds = 0, db_Resolvers = []\<rparr>"

definition sample_params :: lego_params where
  "sample_params = \<lparr>lp_Binary = ''/lego'', lp_WorkDir = ''/w'', lp_FQDN = ''wiki.example'', lp_AdditionalNames = [],
     lp_KeyType = ''ec256'', lp_ACME = \<lparr>ab_DirectoryURL = ''https://pebble/dir'', ab_Email = ''a@b'', ab_EAB = None, ab_AllowProductionCA = False\<rparr>,
     lp_DNS = sample_dns, lp_LookupEnv = (\<lambda>_. Some ''t0ken''), lp_EAB = None, lp_DisableEAB = True\<rparr>"


end
