(* ===== verification/Provision.thy ===== *)
theory Provision
  imports Strconv Envelope
begin

text \<open>
  The sealing of account provisioning payloads, \<^verbatim>\<open>pkg/api/v1alpha1/provisioning.go\<close>. X25519, HKDF,
  AES-GCM, SHA-256 and the JSON codec of the plaintext are parameters; keys are their bytes. The
  ephemeral key and the nonce the code draws at random are arguments.
\<close>

record sealing =
  x_public :: "string \<Rightarrow> string"
  x_ecdh :: "string \<Rightarrow> string \<Rightarrow> string option"
  x_hkdf :: "string \<Rightarrow> string \<Rightarrow> string \<Rightarrow> string"
  x_seal :: "string \<Rightarrow> string \<Rightarrow> string \<Rightarrow> string \<Rightarrow> string"
  x_open :: "string \<Rightarrow> string \<Rightarrow> string \<Rightarrow> string \<Rightarrow> string option"
  x_sha :: "string \<Rightarrow> string"

datatype prov_error = ErrProvisioningUnknownKey | ErrProvisioningOpen | ErrSeal

record provisioning_eab =
  eab_KID :: string
  eab_HMAC :: string

definition provisioningInfo :: string where
  "provisioningInfo = ''acme-conductor.cits-nue.github.io/v1alpha1 account-provisioning''"
definition MaxProvisioningKIDLength :: nat where "MaxProvisioningKIDLength = 256"
definition MaxProvisioningHMACLength :: nat where "MaxProvisioningHMACLength = 1024"

definition provisioningKIDRe :: "string \<Rightarrow> bool" where
  "provisioningKIDRe s \<longleftrightarrow> s \<noteq> [] \<and> list_all (\<lambda>c. 0x21 \<le> byte_of c \<and> byte_of c \<le> 0x7E) s"

definition provisioningHMACRe :: "string \<Rightarrow> bool" where
  "provisioningHMACRe s \<longleftrightarrow> s \<noteq> [] \<and>
     list_all (\<lambda>c. is_alnum c \<or> c \<in> {CHR ''+'', CHR ''/'', CHR ''_'', CHR ''='', CHR ''-''}) s"

definition validateProvisioningEAB :: "provisioning_eab \<Rightarrow> bool" where
  "validateProvisioningEAB e \<longleftrightarrow>
     \<not> (eab_KID e = [] \<or> MaxProvisioningKIDLength < length (eab_KID e) \<or> \<not> provisioningKIDRe (eab_KID e)) \<and>
     \<not> (eab_HMAC e = [] \<or> MaxProvisioningHMACLength < length (eab_HMAC e) \<or> \<not> provisioningHMACRe (eab_HMAC e))"

definition ProvisioningKeyID :: "sealing \<Rightarrow> string \<Rightarrow> string" where
  "ProvisioningKeyID S pub = take 16 (hex_encode (x_sha S pub))"

definition ProvisioningAAD :: "string \<Rightarrow> string \<Rightarrow> string \<Rightarrow> int \<Rightarrow> string" where
  "ProvisioningAAD version keyID binding generation =
     Join (CHR 10) [''acme-conductor.cits-nue.github.io/v1alpha1'', ''account-provisioning'',
       ''version='' @ version, ''keyId='' @ keyID, ''binding='' @ binding, ''generation='' @ itoa generation]"

definition ProvisioningScopedAAD :: "string \<Rightarrow> string \<Rightarrow> string \<Rightarrow> string \<Rightarrow> int \<Rightarrow> string" where
  "ProvisioningScopedAAD version keyID binding scope generation =
     Join (CHR 10) [''acme-conductor.cits-nue.github.io/v1alpha1'', ''account-provisioning'',
       ''version='' @ version, ''keyId='' @ keyID, ''binding='' @ binding, ''scope='' @ scope,
       ''generation='' @ itoa generation]"

definition provisioningAADFor :: "string \<Rightarrow> string \<Rightarrow> string \<Rightarrow> string \<Rightarrow> int \<Rightarrow> string" where
  "provisioningAADFor version keyID binding scope generation =
     (if version = ProvisioningVersionScoped then ProvisioningScopedAAD version keyID binding scope generation
      else ProvisioningAAD version keyID binding generation)"

text \<open>\<^verbatim>\<open>provisioningAEAD\<close>: the key of the cipher and the additional data.\<close>

definition provisioningAEAD ::
  "sealing \<Rightarrow> string \<Rightarrow> string \<Rightarrow> string \<Rightarrow> string \<Rightarrow> string \<Rightarrow> string \<Rightarrow> string \<Rightarrow> int \<Rightarrow> string \<times> string" where
  "provisioningAEAD S shared ephPub runnerPub version keyID binding scope generation =
     (x_hkdf S shared (ephPub @ runnerPub) provisioningInfo,
      provisioningAADFor version keyID binding scope generation)"

definition sealScopedProvisioningRawWith ::
  "sealing \<Rightarrow> string \<Rightarrow> string \<Rightarrow> string \<Rightarrow> int \<Rightarrow> string \<Rightarrow> string \<Rightarrow> string \<Rightarrow> prov_error + sealed_provisioning" where
  "sealScopedProvisioningRawWith S runnerPub binding scope generation plaintext eph nonce =
     (if length nonce \<noteq> 12 then Inl ErrSeal
      else if validateBindingName ''binding'' binding \<noteq> None then Inl ErrSeal
      else if generation < 1 \<or> MaxAccountGeneration < generation then Inl ErrSeal
      else if scope \<noteq> [] \<and> validateIdentifier ''scope'' scope \<noteq> None then Inl ErrSeal
      else
        let version = provisioningVersionFor scope; keyID = ProvisioningKeyID S runnerPub in
        (case x_ecdh S eph runnerPub of
           None \<Rightarrow> Inl ErrSeal
         | Some shared \<Rightarrow>
             let (key, aad) = provisioningAEAD S shared (x_public S eph) runnerPub version keyID binding scope generation in
             Inr \<lparr>sp_Version = version, sp_KeyID = keyID, sp_EphemeralPublicKey = b64_encode (x_public S eph),
                  sp_Nonce = b64_encode nonce, sp_Ciphertext = b64_encode (x_seal S key nonce plaintext aad)\<rparr>))"

definition sealScopedProvisioningWith ::
  "sealing \<Rightarrow> provisioning_eab codec \<Rightarrow> string \<Rightarrow> string \<Rightarrow> string \<Rightarrow> int \<Rightarrow> provisioning_eab \<Rightarrow> string \<Rightarrow> string \<Rightarrow>
   prov_error + sealed_provisioning" where
  "sealScopedProvisioningWith S J runnerPub binding scope generation eab eph nonce =
     (if \<not> validateProvisioningEAB eab then Inl ErrSeal
      else sealScopedProvisioningRawWith S runnerPub binding scope generation (cd_write J eab) eph nonce)"

text \<open>\<open>curve\<close> says whether the caller's key is on X25519, \<open>gen\<close> is what key generation returned.\<close>

definition SealScopedProvisioning ::
  "sealing \<Rightarrow> provisioning_eab codec \<Rightarrow> bool \<Rightarrow> string option \<Rightarrow> string option \<Rightarrow> string \<Rightarrow> string \<Rightarrow> string \<Rightarrow> int \<Rightarrow>
   provisioning_eab \<Rightarrow> prov_error + sealed_provisioning" where
  "SealScopedProvisioning S J curve gen rnd runnerPub binding scope generation eab =
     (if \<not> curve then Inl ErrSeal
      else (case gen of
              None \<Rightarrow> Inl ErrSeal
            | Some eph \<Rightarrow>
                (case rnd of
                   None \<Rightarrow> Inl ErrSeal
                 | Some nonce \<Rightarrow> sealScopedProvisioningWith S J runnerPub binding scope generation eab eph nonce)))"

text \<open>A public key of X25519 is any 32 bytes.\<close>

definition OpenScoped ::
  "sealing \<Rightarrow> provisioning_eab codec \<Rightarrow> (string \<Rightarrow> string option) \<Rightarrow> string \<Rightarrow> string \<Rightarrow> int \<Rightarrow> sealed_provisioning \<Rightarrow>
   prov_error + provisioning_eab" where
  "OpenScoped S J keys binding scope generation p =
     (if SealedProvisioning_validate ''$'' p \<noteq> None then Inl ErrProvisioningOpen
      else if sp_Version p \<noteq> provisioningVersionFor scope then Inl ErrProvisioningOpen
      else (case keys (sp_KeyID p) of
              None \<Rightarrow> Inl ErrProvisioningUnknownKey
            | Some priv \<Rightarrow>
                (case (b64_decode True (sp_EphemeralPublicKey p), b64_decode True (sp_Nonce p), b64_decode True (sp_Ciphertext p)) of
                   (Some eph, Some nonce, Some ciphertext) \<Rightarrow>
                     if length eph \<noteq> 32 then Inl ErrProvisioningOpen
                     else (case x_ecdh S priv eph of
                             None \<Rightarrow> Inl ErrProvisioningOpen
                           | Some shared \<Rightarrow>
                               let (key, aad) = provisioningAEAD S shared eph (x_public S priv) (sp_Version p) (sp_KeyID p)
                                     binding scope generation in
                               (case x_open S key nonce ciphertext aad of
                                  None \<Rightarrow> Inl ErrProvisioningOpen
                                | Some plaintext \<Rightarrow>
                                    (case cd_read J plaintext of
                                       None \<Rightarrow> Inl ErrProvisioningOpen
                                     | Some eab \<Rightarrow>
                                         if validateProvisioningEAB eab then Inr eab else Inl ErrProvisioningOpen)))
                 | _ \<Rightarrow> Inl ErrProvisioningOpen)))"

subsection \<open>The additional data determines its parts\<close>

lemma itoa_no_newline: "CHR 10 \<notin> set (itoa i)"
proof -
  have "\<not> is_digit CHR 10" by code_simp
  then show ?thesis using show_nat_digits by (auto simp: itoa_def is_number_def list_all_iff)
qed

lemma itoa_inject: "itoa i = itoa j \<longleftrightarrow> i = j"
proof
  assume eq: "itoa i = itoa j"
  have pos: "hd (show_nat n) \<noteq> CHR ''-''" for n using number_head show_nat_digits by blast
  have inj: "show_nat m = show_nat n \<Longrightarrow> m = n" for m n using show_nat_digits by metis
  consider "i < 0" "j < 0" | "0 \<le> i" "0 \<le> j" | "i < 0" "0 \<le> j" | "0 \<le> i" "j < 0" by linarith
  then show "i = j"
  proof cases
    case 1 then show ?thesis using eq inj[of "nat (- i)" "nat (- j)"] by (simp add: itoa_def)
  next
    case 2 then show ?thesis using eq inj[of "nat i" "nat j"] by (simp add: itoa_def)
  next
    case 3 then show ?thesis using eq pos[of "nat j"] by (auto simp: itoa_def dest: sym)
  next
    case 4 then show ?thesis using eq pos[of "nat i"] by (auto simp: itoa_def)
  qed
qed simp

definition one_line :: "string \<Rightarrow> bool" where
  "one_line s \<longleftrightarrow> CHR 10 \<notin> set s"

lemma Join_inject:
  assumes "ls \<noteq> []" "ks \<noteq> []" "\<forall>l \<in> set ls \<union> set ks. CHR 10 \<notin> set l" "Join (CHR 10) ls = Join (CHR 10) ks"
  shows "ls = ks"
proof -
  have "ls = Split (CHR 10) (Join (CHR 10) ls)" using assms(1,3) by (intro Split_Join[symmetric]) blast+
  also have "\<dots> = Split (CHR 10) (Join (CHR 10) ks)" by (simp only: assms(4))
  also have "\<dots> = ks" using assms(2,3) by (intro Split_Join) blast+
  finally show ?thesis .
qed

lemma aad_inject:
  assumes "one_line keyID" "one_line b" "one_line b'" "one_line s" "one_line s'"
    and "provisioningVersionFor s = provisioningVersionFor s'"
    and "provisioningAADFor (provisioningVersionFor s) keyID b s g = provisioningAADFor (provisioningVersionFor s) keyID b' s' g'"
  shows "b = b' \<and> s = s' \<and> g = g'"
proof -
  note lines = one_line_def provisioningVersionFor_def itoa_no_newline itoa_inject
  have v: "one_line (provisioningVersionFor s)"
    by (simp add: one_line_def provisioningVersionFor_def ProvisioningVersion_def ProvisioningVersionScoped_def)
  have same: "s = [] \<longleftrightarrow> s' = []"
    using assms(6) by (auto simp: provisioningVersionFor_def ProvisioningVersion_def ProvisioningVersionScoped_def split: if_splits)
  show ?thesis
  proof (cases "s = []")
    case True
    with assms(7) have "ProvisioningAAD ProvisioningVersion keyID b g = ProvisioningAAD ProvisioningVersion keyID b' g'"
      by (simp add: provisioningAADFor_def provisioningVersionFor_def ProvisioningVersion_def ProvisioningVersionScoped_def)
    from this[unfolded ProvisioningAAD_def] show ?thesis
      by (rule Join_inject[rotated 3, elim_format]) (use assms(1-3) v True same in \<open>auto simp: lines\<close>)
  next
    case False
    with assms(7) have "ProvisioningScopedAAD ProvisioningVersionScoped keyID b s g = ProvisioningScopedAAD ProvisioningVersionScoped keyID b' s' g'"
      by (simp add: provisioningAADFor_def provisioningVersionFor_def)
    from this[unfolded ProvisioningScopedAAD_def] show ?thesis
      by (rule Join_inject[rotated 3, elim_format]) (use assms(1-5) v False same in \<open>auto simp: lines\<close>)
  qed
qed


subsection \<open>Sealing and opening\<close>

text \<open>
  What the code relies on: both sides of the key agreement obtain the same secret, public keys and
  digests have 32 bytes and a ciphertext is 16 bytes longer than its plaintext. \<open>authentic\<close> says of
  one ciphertext that the cipher returns the plaintext for the additional data it was sealed with
  and refuses the other one.
\<close>

definition sealing_ok :: "sealing \<Rightarrow> bool" where
  "sealing_ok S \<longleftrightarrow>
     (\<forall>a b. x_ecdh S a (x_public S b) = x_ecdh S b (x_public S a)) \<and>
     (\<forall>a. length (x_public S a) = 32) \<and> (\<forall>s. length (x_sha S s) = 32) \<and>
     (\<forall>k n p a. length (x_seal S k n p a) = length p + 16)"

definition authentic :: "sealing \<Rightarrow> string \<Rightarrow> string \<Rightarrow> string \<Rightarrow> string \<Rightarrow> bool" where
  "authentic S n p a a' \<longleftrightarrow> (\<forall>k. x_open S k n (x_seal S k n p a) a' = (if a' = a then Some p else None))"

lemma enc_digit_char: "n < 64 \<Longrightarrow> b64_char (enc_digit n)"
proof -
  have "list_all b64_char b64_alphabet"
    by (simp add: b64_alphabet_def b64_char_def is_alnum_def in_range_def byte_of_def)
  moreover have "length b64_alphabet = 64" by (simp add: b64_alphabet_def)
  ultimately show "n < 64 \<Longrightarrow> b64_char (enc_digit n)" by (simp add: list_all_length enc_digit_def)
qed

lemma b64_encode_url: "s \<noteq> [] \<Longrightarrow> base64URLRe (b64_encode s)"
proof -
  have "b64_char (enc_digit d)" if "d \<in> set (b64_digits (map byte_of s))" for d
    using that by (intro enc_digit_char b64_digits_less[OF _ that]) simp
  then have "list_all b64_char (b64_encode s)" by (auto simp: b64_encode_def list_all_iff)
  then show "s \<noteq> [] \<Longrightarrow> base64URLRe (b64_encode s)" by (simp add: base64URLRe_def b64_encode_nonempty)
qed

lemma validateExactB64_encode: "s \<noteq> [] \<Longrightarrow> length s = n \<Longrightarrow> validateExactB64 f (b64_encode s) n = None"
  by (simp add: validateExactB64_def length_b64_encode b64_encode_url b64_decode_encode)

lemma validateBoundedB64_encode:
  "s \<noteq> [] \<Longrightarrow> mn \<le> length s \<Longrightarrow> length s \<le> mx \<Longrightarrow> validateBoundedB64 f (b64_encode s) mn mx = None"
  using b64_encoded_len_mono[of "length s" mx]
  by (simp add: validateBoundedB64_def length_b64_encode b64_encode_url b64_decode_encode b64_encode_nonempty)

lemma ProvisioningKeyID_ok:
  assumes "length (x_sha S pub) = 32"
  shows "provisioningKeyIDRe (ProvisioningKeyID S pub)" "one_line (ProvisioningKeyID S pub)"
proof -
  let ?k = "ProvisioningKeyID S pub"
  have d: "is_lower_hex (hex_digit n)" if "n < 16" for n using hex_table that by (simp add: list_all_iff)
  have "list_all is_lower_hex (hex_encode s)" for s
    by (induction s) (auto simp: hex_encode_def d less_mult_imp_div_less)
  then have hex: "list_all is_lower_hex ?k"
    by (auto simp: ProvisioningKeyID_def list_all_iff dest: in_set_takeD)
  moreover have "length (hex_encode s) = 2 * length s" for s by (induction s) (auto simp: hex_encode_def)
  ultimately show "provisioningKeyIDRe ?k" using assms by (simp add: provisioningKeyIDRe_def ProvisioningKeyID_def)
  have "\<not> is_lower_hex CHR 10" by code_simp
  then show "one_line ?k" using hex by (auto simp: one_line_def list_all_iff)
qed

lemma sealed_names_one_line:
  "validateBindingName f b = None \<Longrightarrow> one_line b" "validateIdentifier f s = None \<Longrightarrow> one_line s"
proof -
  have no: "\<not> is_lower_alnum CHR 10" "\<not> b64_char CHR 10" "\<not> is_alnum CHR 10" by code_simp+
  show "validateBindingName f b = None \<Longrightarrow> one_line b"
    using re_ends_all[of is_lower_alnum "\<lambda>c. is_lower_alnum c \<or> c = CHR ''-''" 61 b] no(1)
    by (auto simp: validateBindingName_def bindingNameRe_def one_line_def list_all_iff split: if_splits)
  show "validateIdentifier f s = None \<Longrightarrow> one_line s"
    using no(2,3) by (cases s) (auto simp: validateIdentifier_def identifierRe_def one_line_def list_all_iff split: if_splits)
qed

text \<open>
  Property C23: a payload sealed for a binding, a scope and a generation opens with the Runner's key
  to exactly the EAB that was sealed, and for every other binding, scope or generation it does not
  open at all.
\<close>

theorem sealed_opens_exactly:
  assumes S: "sealing_ok S" and J: "reads_back J eab" "length (cd_write J eab) \<le> 4096" "cd_write J eab \<noteq> []"
    and sealed: "sealScopedProvisioningWith S J (x_public S priv) b s g eab eph nonce = Inr p"
    and keys: "keys (ProvisioningKeyID S (x_public S priv)) = Some priv"
    and names: "one_line b'" "one_line s'"
    and auth: "authentic S nonce (cd_write J eab) (provisioningAADFor (sp_Version p) (sp_KeyID p) b s g)
      (provisioningAADFor (sp_Version p) (sp_KeyID p) b' s' g')"
  shows "OpenScoped S J keys b' s' g' p = (if (b', s', g') = (b, s, g) then Inr eab else Inl ErrProvisioningOpen)"
proof -
  define K where "K = ProvisioningKeyID S (x_public S priv)"
  define v where "v = provisioningVersionFor s"
  obtain shared where ok: "validateProvisioningEAB eab" "length nonce = 12" "validateBindingName ''binding'' b = None"
      "s = [] \<or> validateIdentifier ''scope'' s = None"
    and sh: "x_ecdh S eph (x_public S priv) = Some shared"
    and p: "p = \<lparr>sp_Version = v, sp_KeyID = K, sp_EphemeralPublicKey = b64_encode (x_public S eph),
       sp_Nonce = b64_encode nonce, sp_Ciphertext = b64_encode (x_seal S
         (x_hkdf S shared (x_public S eph @ x_public S priv) provisioningInfo) nonce (cd_write J eab)
         (provisioningAADFor v K b s g))\<rparr>"
    using sealed by (auto simp: sealScopedProvisioningWith_def sealScopedProvisioningRawWith_def provisioningAEAD_def
      Let_def K_def v_def split: if_splits option.splits)
  note Sd = S[unfolded sealing_ok_def]
  have lines: "one_line K" "one_line b" "one_line s"
    using ProvisioningKeyID_ok[of S "x_public S priv"] sealed_names_one_line ok Sd by (auto simp: K_def one_line_def)
  have ne: "nonce \<noteq> []" "x_public S eph \<noteq> []" "\<And>k n a. x_seal S k n (cd_write J eab) a \<noteq> []"
    using ok(2) Sd by (metis length_0_conv zero_neq_numeral, metis length_0_conv zero_neq_numeral, metis add_is_0 length_0_conv zero_neq_numeral)
  have valid: "SealedProvisioning_validate ''$'' p = None"
    using ok(2) Sd J ne ProvisioningKeyID_ok[of S "x_public S priv"] unfolding p
    by (auto simp: SealedProvisioning_validate_def go_checks validateExactB64_encode validateBoundedB64_encode
      ephemeralPublicKeyLen_def provisioningNonceLen_def MinProvisioningCiphertext_def MaxProvisioningCiphertext_def
      v_def K_def provisioningVersionFor_def Suc_le_eq)
  have aad: "provisioningAADFor v K b' s' g' = provisioningAADFor v K b s g \<longleftrightarrow> (b', s', g') = (b, s, g)"
    if "provisioningVersionFor s' = v"
    using aad_inject[of K b b' s s' g g'] lines names that by (auto simp: v_def)
  show ?thesis
  proof (cases "provisioningVersionFor s' = v")
    case False
    then show ?thesis using valid by (auto simp: OpenScoped_def p v_def)
  next
    case True
    then show ?thesis using valid keys sh Sd J(1) aad[OF True] ok(1) auth
      by (simp add: OpenScoped_def p K_def authentic_def b64_decode_encode provisioningAEAD_def reads_back_def)
  qed
qed

definition sample_tag :: "string \<Rightarrow> string" where
  "sample_tag a = take 16 (rev a @ replicate 16 CHR ''x'')"

lemma length_sample_tag: "length (sample_tag a) = 16"
  by (auto simp: sample_tag_def min_def)

definition sample_sealing :: sealing where
  "sample_sealing = \<lparr>x_public = (\<lambda>k. take 32 (k @ replicate 32 CHR ''p'')), x_ecdh = (\<lambda>_ _. Some ''s''),
     x_hkdf = (\<lambda>_ _ _. ''k''), x_seal = (\<lambda>_ _ p a. p @ sample_tag a),
     x_open = (\<lambda>_ _ c a. if drop (length c - 16) c = sample_tag a then Some (take (length c - 16) c) else None),
     x_sha = (\<lambda>s. take 32 (s @ replicate 32 CHR ''h''))\<rparr>"

definition sample_eab :: provisioning_eab where "sample_eab = \<lparr>eab_KID = ''kid'', eab_HMAC = ''aGk''\<rparr>"

definition sample_eab_codec :: "provisioning_eab codec" where
  "sample_eab_codec = \<lparr>cd_read = (\<lambda>_. Some sample_eab), cd_write = (\<lambda>_. ''{}'')\<rparr>"

definition sample_sealed :: sealed_provisioning where
  "sample_sealed = projr (sealScopedProvisioningWith sample_sealing sample_eab_codec (x_public sample_sealing ''r'')
     ''le'' ''T1'' 2 sample_eab ''e'' ''0123456789ab'')"

lemma sample_sealing_ok: "sealing_ok sample_sealing"
  by (auto simp: sealing_ok_def sample_sealing_def length_sample_tag min_def)

lemma sample_sealed_eq: "sealScopedProvisioningWith sample_sealing sample_eab_codec (x_public sample_sealing ''r'')
     ''le'' ''T1'' 2 sample_eab ''e'' ''0123456789ab'' = Inr sample_sealed"
proof -
  have "validateProvisioningEAB sample_eab" "validateBindingName ''binding'' ''le'' = None" "validateIdentifier ''scope'' ''T1'' = None"
    by code_simp+
  then show ?thesis
    by (simp add: sample_sealed_def sealScopedProvisioningWith_def sealScopedProvisioningRawWith_def MaxAccountGeneration_def
        sample_sealing_def Let_def split_beta)
qed

lemma sample_authentic: "authentic sample_sealing ''0123456789ab'' ''{}''
    (provisioningAADFor v k ''le'' ''T1'' 2) (provisioningAADFor v k ''le'' ''T1'' 3)"
proof -
  have "itoa 2 = ''2''" "itoa 3 = ''3''" by code_simp+
  then have "sample_tag (provisioningAADFor v k ''le'' ''T1'' 2) \<noteq> sample_tag (provisioningAADFor v k ''le'' ''T1'' 3)"
    by (simp add: sample_tag_def provisioningAADFor_def ProvisioningAAD_def ProvisioningScopedAAD_def)
  then show ?thesis by (auto simp: authentic_def sample_sealing_def length_sample_tag)
qed

theorem sealed_opens_exactly_witness:
  "OpenScoped sample_sealing sample_eab_codec (\<lambda>_. Some ''r'') ''le'' ''T1'' 3 sample_sealed = Inl ErrProvisioningOpen"
proof -
  have "cd_write sample_eab_codec sample_eab = ''{}''" by (simp add: sample_eab_codec_def)
  then show ?thesis
    using sealed_opens_exactly[where b' = "''le''" and s' = "''T1''" and g' = 3 and keys = "\<lambda>_. Some ''r''",
      OF sample_sealing_ok _ _ _ sample_sealed_eq] sample_authentic
    by (simp add: reads_back_def sample_eab_codec_def one_line_def)
qed

end
