(* ===== verification/Redact.thy ===== *)
theory Redact
  imports GoStrings Utf8
begin

text \<open>
  What the Runner logs of lego's output, \<^verbatim>\<open>internal/runner/lego/lego.go\<close> (\<^verbatim>\<open>Redactor\<close>, \<^verbatim>\<open>lineSink\<close>)
  and \<^verbatim>\<open>classify.go\<close>. A sink is a state passed along; its log is the list of lines handed to the
  logger. The masking of credential shapes by regular expressions, which only touches the copies
  kept for the failure tail, is a parameter.
\<close>

subsection \<open>Recognising failures\<close>

datatype failure_class =
    FailureUnknown | FailureDNSOutsideZone | FailureDNSZoneNotFound | FailureDNSPresent
  | FailureDNSPropagation | FailureCADNS

definition classifyLine :: "string \<Rightarrow> failure_class" where
  "classifyLine line =
     (if Contains line ''acme: error presenting token:'' then
        if Contains line '' is not a subdomain of '' \<or> Contains line ''no subdomain because the domain and the zone are identical''
        then FailureDNSOutsideZone
        else if Contains line ''could not find zone'' then FailureDNSZoneNotFound
        else FailureDNSPresent
      else if Contains line ''propagation: time limit exceeded'' then FailureDNSPropagation
      else if Contains line ''urn:ietf:params:acme:error:dns'' then FailureCADNS
      else FailureUnknown)"

subsection \<open>The redactor\<close>

record redactor =
  rd_secrets :: "string list"
  rd_inPEM :: bool
  rd_pemLines :: nat

definition maxPEMLines :: nat where "maxPEMLines = 200"

definition NewRedactor :: "string list \<Rightarrow> redactor" where
  "NewRedactor secrets = \<lparr>rd_secrets = sort_key (\<lambda>s. - int (length s)) (filter (\<lambda>s. s \<noteq> []) secrets),
     rd_inPEM = False, rd_pemLines = 0\<rparr>"

text \<open>
  The patterns \<^verbatim>\<open>-----BEGIN [A-Z0-9 ]+-----\<close> and \<^verbatim>\<open>-----END [A-Z0-9 ]+-----\<close>, found anywhere. A dash
  is not in the class, so the repetition ends at the first byte outside it.
\<close>

definition pem_class :: "char \<Rightarrow> bool" where
  "pem_class c \<longleftrightarrow> is_upper c \<or> is_digit c \<or> c = CHR '' ''"

definition pem_at :: "string \<Rightarrow> string \<Rightarrow> bool" where
  "pem_at start s \<longleftrightarrow> prefix start s \<and>
     (let rest = drop (length start) s in takeWhile pem_class rest \<noteq> [] \<and> prefix ''-----'' (dropWhile pem_class rest))"

fun pem_match :: "string \<Rightarrow> string \<Rightarrow> bool" where
  "pem_match start [] = pem_at start []"
| "pem_match start (c # s) = (pem_at start (c # s) \<or> pem_match start s)"

definition pemBeginRe :: "string \<Rightarrow> bool" where "pemBeginRe s = pem_match ''-----BEGIN '' s"
definition pemEndRe :: "string \<Rightarrow> bool" where "pemEndRe s = pem_match ''-----END '' s"

definition loggable_rune :: "nat \<Rightarrow> bool" where
  "loggable_rune r \<longleftrightarrow> r = 9 \<or> (0x20 \<le> r \<and> r \<noteq> 0x7F \<and> r \<noteq> 0x2028 \<and> r \<noteq> 0x2029)"

definition print_runes :: "string \<Rightarrow> string" where
  "print_runes s = concat (map (\<lambda>r. if loggable_rune r then encode_rune r else ''?'') (runes s))"

definition redacted :: string where "redacted = ''[REDACTED]''"
definition redacted_pem :: string where "redacted_pem = ''[REDACTED PEM]''"

definition Line :: "redactor \<Rightarrow> string \<Rightarrow> string option \<times> redactor" where
  "Line r s =
     (if rd_inPEM r then
        let r = r\<lparr>rd_pemLines := Suc (rd_pemLines r)\<rparr> in
        (None, if pemEndRe s \<or> maxPEMLines \<le> rd_pemLines r then r\<lparr>rd_inPEM := False\<rparr> else r)
      else if pemBeginRe s then
        (Some redacted_pem, if \<not> pemEndRe s then r\<lparr>rd_inPEM := True, rd_pemLines := 0\<rparr> else r)
      else if Contains s ''PRIVATE KEY'' then (Some redacted_pem, r)
      else (Some (print_runes (foldl (\<lambda>s sec. ReplaceAll s sec redacted) s (rd_secrets r))), r))"

subsection \<open>The line sink\<close>

record sink =
  sk_redact :: redactor
  sk_buf :: string
  sk_truncated :: bool
  sk_tail :: "string list"
  sk_tailCap :: nat
  sk_classify :: bool
  sk_failure :: failure_class
  sk_log :: "(string \<times> bool) list"

definition maxLogLine :: nat where "maxLogLine = 8 * 1024"

definition newLineSink :: "redactor \<Rightarrow> nat \<Rightarrow> sink" where
  "newLineSink r tailCap = \<lparr>sk_redact = r, sk_buf = [], sk_truncated = False, sk_tail = [], sk_tailCap = tailCap,
     sk_classify = False, sk_failure = FailureUnknown, sk_log = []\<rparr>"

definition sink_append :: "string \<Rightarrow> sink \<Rightarrow> sink" where
  "sink_append b s =
     (if maxLogLine \<le> length (sk_buf s) then (if b \<noteq> [] then s\<lparr>sk_truncated := True\<rparr> else s)
      else
        let room = maxLogLine - length (sk_buf s) in
        if room < length b then s\<lparr>sk_buf := sk_buf s @ take room b, sk_truncated := True\<rparr>
        else s\<lparr>sk_buf := sk_buf s @ b\<rparr>)"

definition sink_emit :: "(string \<Rightarrow> string) \<Rightarrow> sink \<Rightarrow> sink" where
  "sink_emit hide s =
     (case Line (sk_redact s) (TrimRight (sk_buf s) [CHR 13]) of
        (out, r) \<Rightarrow>
          let s = s\<lparr>sk_redact := r\<rparr>;
              s = (case out of
                     None \<Rightarrow> s
                   | Some out \<Rightarrow>
                       let s = s\<lparr>sk_log := sk_log s @ [(out, sk_truncated s)]\<rparr>;
                           s = (if sk_classify s \<and> sk_failure s = FailureUnknown
                                then s\<lparr>sk_failure := classifyLine out\<rparr> else s) in
                       if 0 < sk_tailCap s
                       then s\<lparr>sk_tail := (if length (sk_tail s) = sk_tailCap s then tl (sk_tail s) else sk_tail s) @ [hide out]\<rparr>
                       else s) in
          s\<lparr>sk_buf := [], sk_truncated := False\<rparr>)"

function sink_Write :: "(string \<Rightarrow> string) \<Rightarrow> string \<Rightarrow> sink \<Rightarrow> sink" where
  "sink_Write hide p s =
     (if p = [] then s
      else if CHR 10 \<notin> set p then sink_append p s
      else sink_Write hide (tl (dropWhile (\<lambda>c. c \<noteq> CHR 10) p))
             (sink_emit hide (sink_append (takeWhile (\<lambda>c. c \<noteq> CHR 10) p) s)))"
  by pat_completeness auto
termination
  by (relation "measure (\<lambda>(hide, p, s). length p)")
    (auto simp: less_Suc_eq_le Suc_diff_Suc[symmetric] length_dropWhile_le dest: length_pos_if_in_set intro!: diff_less_mono2 le_less_trans[OF diff_le_mono[OF length_dropWhile_le]])

declare sink_Write.simps [simp del]

definition sink_Flush :: "(string \<Rightarrow> string) \<Rightarrow> sink \<Rightarrow> sink" where
  "sink_Flush hide s = (if sk_buf s \<noteq> [] then sink_emit hide s else s)"

text \<open>One stream of a lego process: the writes the pipe delivers, then the flush.\<close>

definition log_stream :: "(string \<Rightarrow> string) \<Rightarrow> string list \<Rightarrow> nat \<Rightarrow> bool \<Rightarrow> string list \<Rightarrow> sink" where
  "log_stream hide secrets tailCap classify chunks =
     sink_Flush hide (foldl (\<lambda>s p. sink_Write hide p s)
       ((newLineSink (NewRedactor secrets) tailCap)\<lparr>sk_classify := classify\<rparr>) chunks)"

subsection \<open>Masking removes a secret\<close>

text \<open>
  A secret the masking can hide: printable ASCII without the bytes the masking itself writes
  around and in place of other bytes, and not a part of the text it writes.
\<close>

definition maskable :: "string \<Rightarrow> bool" where
  "maskable s \<longleftrightarrow> s \<noteq> [] \<and> list_all (\<lambda>c. byte_of c < 128 \<and> c \<notin> set ''[]?'') s \<and> \<not> sublist s ''REDACTED PEM''"

lemma prefix_before_mask:
  "prefix p (ReplaceAll s t (CHR ''['' # m)) \<Longrightarrow> CHR ''['' \<notin> set p \<Longrightarrow> prefix p s"
proof (induction s t "CHR ''['' # m" arbitrary: p rule: ReplaceAll.induct)
  case (2 c s t)
  then show ?case by (cases p) (auto split: if_splits)
qed simp

lemma mask_straddle:
  assumes "\<not> sublist s m" "\<not> sublist s x" "m \<noteq> []" "last m \<notin> set s"
  shows "\<not> sublist s (m @ x)"
proof
  assume "sublist s (m @ x)"
  then obtain a b where ab: "s = a @ b" "suffix a m" "prefix b x" using assms(1,2) by (auto simp: sublist_append)
  have "a \<noteq> []" using ab(1,3) assms(2) prefix_imp_sublist by auto
  then have "last m \<in> set a" using assms(3) ab(2) by (auto simp: suffix_def)
  then show False using ab(1) assms(4) by simp
qed

lemma maskable_free:
  assumes "maskable s"
  shows "\<not> sublist s redacted" "CHR ''['' \<notin> set s" "CHR '']'' \<notin> set s" "\<not> sublist s redacted_pem"
proof -
  show free: "CHR ''['' \<notin> set s" "CHR '']'' \<notin> set s" using assms by (auto simp: maskable_def list_all_iff)
  have inner: "sublist s t" if "sublist s (CHR ''['' # t @ '']'')" for t
  proof -
    have ne: "s \<noteq> []" using assms by (simp add: maskable_def)
    then have "sublist s (t @ '']'')"
      using that free(1) by (cases s) (auto simp: sublist_Cons_right)
    then have "sublist s t \<or> sublist s '']'' \<or> (\<exists>a b. s = a @ b \<and> suffix a t \<and> prefix b '']'')"
      by (simp add: sublist_append)
    then show ?thesis using free(2) ne by (auto simp: prefix_Cons sublist_Cons_right suffix_imp_sublist)
  qed
  have "sublist ''REDACTED'' ''REDACTED PEM''" by (simp add: sublist_Cons_right)
  then have "\<not> sublist s ''REDACTED''" using assms sublist_order.order_trans unfolding maskable_def by blast
  then show "\<not> sublist s redacted" using inner[of "''REDACTED''"] by (auto simp: redacted_def)
  show "\<not> sublist s redacted_pem"
    using assms inner[of "''REDACTED PEM''"] by (auto simp: maskable_def redacted_pem_def)
qed

lemma masked_free:
  assumes s: "maskable s" and "t = s \<or> \<not> sublist s x"
  shows "\<not> sublist s (ReplaceAll x t redacted)"
  using assms(2)
proof (induction x t redacted rule: ReplaceAll.induct)
  case (1 t)
  then show ?case using s by (auto simp: maskable_def)
next
  case (2 c x t)
  show ?case
  proof (cases "t \<noteq> [] \<and> prefix t (c # x)")
    case True
    have "t = s \<or> \<not> sublist s (drop (length t) (c # x))"
      using "2.prems" sublist_drop sublist_order.order_trans by blast
    then have "\<not> sublist s (ReplaceAll (drop (length t) (c # x)) t redacted)" using "2.hyps"(1) True by blast
    then show ?thesis using True maskable_free[OF s] mask_straddle[of s redacted] by (simp add: redacted_def)
  next
    case False
    have tail: "\<not> sublist s (ReplaceAll x t redacted)"
      using "2.hyps"(2)[OF False] "2.prems" by (auto simp: sublist_Cons_right)
    have "\<not> prefix s (c # ReplaceAll x t redacted)"
    proof
      assume pre: "prefix s (c # ReplaceAll x t redacted)"
      then have "prefix s (c # x)"
        using prefix_before_mask[of "tl s" x t] maskable_free(2)[OF s] s
        by (cases s) (auto simp: maskable_def redacted_def)
      then show False using "2.prems" False s by (auto simp: maskable_def)
    qed
    then show ?thesis using False tail by (auto simp: sublist_Cons_right)
  qed
qed

lemma all_masked:
  assumes "maskable s" "s \<in> set secs \<or> \<not> sublist s x"
  shows "\<not> sublist s (foldl (\<lambda>x sec. ReplaceAll x sec redacted) x secs)"
  using assms(2)
proof (induction secs arbitrary: x)
  case (Cons t secs)
  show ?case
    using Cons.IH[of "ReplaceAll x t redacted"] Cons.prems masked_free[OF assms(1), of t x] by auto
qed simp

text \<open>The last step only introduces question marks and bytes above 127.\<close>

definition plain :: "string \<Rightarrow> bool" where
  "plain p \<longleftrightarrow> list_all (\<lambda>c. byte_of c < 128 \<and> c \<noteq> CHR ''?'') p"

lemma encode_rune_high: "128 \<le> r \<Longrightarrow> \<forall>c \<in> set (encode_rune r). 128 \<le> byte_of c"
proof -
  have "byte_of (char_of n) = n" if "n < 256" for n :: nat using that by (simp add: byte_of_def)
  moreover have "r < 0x800 \<Longrightarrow> r div 64 < 32" "r < 0x10000 \<Longrightarrow> r div 4096 < 16" "r < 0x110000 \<Longrightarrow> r div 262144 < 5"
    by (auto intro: less_mult_imp_div_less)
  ultimately show "128 \<le> r \<Longrightarrow> ?thesis" by (auto simp: encode_rune_def byte_of_def)
qed

lemma three_byte_high: "224 \<le> (a::nat) \<Longrightarrow> (if a = 0xE0 then 0xA0 else 0x80) \<le> b \<Longrightarrow> 128 \<le> (a - 0xE0) * 4096 + (b - 0x80) * 64 + e"
  by (cases "a = 224") auto

lemma four_byte_high: "240 \<le> (a::nat) \<Longrightarrow> (if a = 0xF0 then 0x90 else 0x80) \<le> b \<Longrightarrow> 128 \<le> (a - 0xF0) * 262144 + (b - 0x80) * 4096 + e"
  by (cases "a = 240") auto

lemma bytes_cases: obtains "s = []" | b where "s = [b]" | b c where "s = [b, c]" | b c d u where "s = b # c # d # u"
  by (metis list.exhaust)

lemma decode_rune_high: "128 \<le> byte_of a \<Longrightarrow> 128 \<le> fst (decode_rune (a # s))"
proof -
  assume a: "128 \<le> byte_of a"
  have t: "128 \<le> rune_error" by (simp add: rune_error_def)
  consider "byte_of a < 0xC2" | "0xC2 \<le> byte_of a" "byte_of a < 0xE0" | "0xE0 \<le> byte_of a" "byte_of a < 0xF0"
    | "0xF0 \<le> byte_of a" "byte_of a < 0xF5" | "0xF5 \<le> byte_of a" by linarith
  then show ?thesis
  proof cases
    case 2
    then have "128 \<le> (byte_of a - 0xC0) * 64 + e" for e by linarith
    then show ?thesis using 2 t by (simp add: decode_rune_def Let_def split: list.split)
  next
    case 3
    have "128 \<le> fst (decode_rune (a # b # c # u))" for b c u
      using 3 t three_byte_high[OF 3(1), of "byte_of b" "byte_of c - 128"]
      by (cases "cont (if byte_of a = 0xE0 then 0xA0 else 0x80) (if byte_of a = 0xED then 0x9F else 0xBF) b \<and> cont 0x80 0xBF c")
        (simp_all only: decode_rune_def Let_def list.case if_False if_True fst_conv cont_def, simp_all)
    then show ?thesis using 3 t by (cases s rule: bytes_cases) (simp_all add: decode_rune_def)
  next
    case 4
    have "128 \<le> fst (decode_rune (a # b # c # d # u))" for b c d u
      using 4 t four_byte_high[OF 4(1), of "byte_of b" "(byte_of c - 128) * 64 + (byte_of d - 128)"]
      by (cases "cont (if byte_of a = 0xF0 then 0x90 else 0x80) (if byte_of a = 0xF4 then 0x8F else 0xBF) b \<and> cont 0x80 0xBF c \<and> cont 0x80 0xBF d")
        (simp_all only: decode_rune_def Let_def list.case if_False if_True fst_conv cont_def, simp_all)
    then show ?thesis using 4 t by (cases s rule: bytes_cases) (simp_all add: decode_rune_def)
  qed (use a t in \<open>simp_all add: decode_rune_def\<close>)
qed

lemma runes_Cons: "runes (c # s) = fst (decode_rune (c # s)) # runes (drop (snd (decode_rune (c # s))) (c # s))"
  by (simp add: runes_def)

lemma print_runes_Nil [simp]: "print_runes [] = []"
  by (simp add: print_runes_def)

lemma print_runes_ascii:
  "byte_of c < 128 \<Longrightarrow> print_runes (c # s) = (if loggable_rune (byte_of c) then c else CHR ''?'') # print_runes s"
  by (simp add: print_runes_def encode_rune_def byte_of_def)

lemma print_runes_high:
  assumes "128 \<le> byte_of c"
  obtains x q where "print_runes (c # s) = (x # q) @ print_runes (drop (snd (decode_rune (c # s))) (c # s))"
    "\<forall>y \<in> set (x # q). \<not> plain [y]"
proof -
  let ?r = "fst (decode_rune (c # s))"
  let ?q = "if loggable_rune ?r then encode_rune ?r else ''?''"
  have "?q \<noteq> []" by (simp add: encode_rune_def)
  moreover have "\<forall>y \<in> set ?q. \<not> plain [y]"
    using encode_rune_high[OF decode_rune_high[OF assms, of s]] by (auto simp: plain_def)
  ultimately show ?thesis using that[of "hd ?q" "tl ?q"] runes_Cons[of c s] by (simp add: print_runes_def)
qed

lemma plain_prefix: "prefix p (print_runes s) \<Longrightarrow> plain p \<Longrightarrow> prefix p s"
proof (induction s arbitrary: p)
  case (Cons c s)
  show ?case
  proof (cases "byte_of c < 128")
    case True
    then show ?thesis using Cons
      by (cases p) (auto simp: print_runes_ascii plain_def split: if_splits)
  next
    case False
    then obtain x q where "print_runes (c # s) = (x # q) @ print_runes (drop (snd (decode_rune (c # s))) (c # s))"
      "\<not> plain [x]" using print_runes_high[of c s] by (metis leI list.set_intros(1))
    then show ?thesis using Cons.prems by (cases p) (auto simp: plain_def)
  qed
qed simp

lemma sublist_skip: "\<forall>y \<in> set q. y \<notin> set p \<Longrightarrow> p \<noteq> [] \<Longrightarrow> sublist p (q @ t) \<Longrightarrow> sublist p t"
  by (induction q) (auto simp: sublist_Cons_right prefix_Cons)

lemma plain_sublist: "sublist p (print_runes s) \<Longrightarrow> plain p \<Longrightarrow> p \<noteq> [] \<Longrightarrow> sublist p s"
proof (induction s rule: rune_pairs.induct)
  case (2 c s)
  let ?d = "drop (snd (decode_rune (c # s))) (c # s)"
  show ?case
  proof (cases "byte_of c < 128")
    case True
    then have d: "?d = s" by (simp add: decode_rune_ascii)
    have "prefix p (print_runes (c # s)) \<or> sublist p (print_runes s)"
      using "2.prems"(1) by (simp add: print_runes_ascii[OF True] sublist_Cons_right)
    then show ?thesis
      using "2.IH" "2.prems" d plain_prefix[of p "c # s"] by (auto simp: sublist_Cons_right)
  next
    case False
    then have "128 \<le> byte_of c" by simp
    then obtain x q where eq: "print_runes (c # s) = (x # q) @ print_runes ?d" and q: "\<forall>y \<in> set (x # q). \<not> plain [y]"
      by (rule print_runes_high)
    have "\<forall>y \<in> set (x # q). y \<notin> set p" using q "2.prems"(2) by (auto simp: plain_def list_all_iff)
    then have "sublist p (print_runes ?d)" using "2.prems"(3,1) unfolding eq by (rule sublist_skip)
    then have "sublist p ?d" using "2.IH" "2.prems"(2,3) by blast
    then show ?thesis using sublist_drop[of _ "c # s"] by (rule sublist_order.order_trans)
  qed
qed simp

lemma Line_hides:
  assumes s: "maskable s" "s \<in> set (rd_secrets r)" and out: "Line r x = (Some y, r')"
  shows "\<not> Contains y s"
proof -
  have "\<not> sublist s (print_runes (foldl (\<lambda>s sec. ReplaceAll s sec redacted) x (rd_secrets r)))"
    using all_masked[OF s(1), of "rd_secrets r" x] s plain_sublist[of s]
    by (auto simp: maskable_def plain_def list_all_iff)
  then show ?thesis using out maskable_free(4)[OF s(1)] by (auto simp: Line_def Contains_def Let_def split: if_splits)
qed

lemma Line_secrets: "Line r x = (y, r') \<Longrightarrow> rd_secrets r' = rd_secrets r"
  by (auto simp: Line_def Let_def split: if_splits)

subsection \<open>No secret in the log\<close>

definition sink_ok :: "string \<Rightarrow> nat \<Rightarrow> sink \<Rightarrow> bool" where
  "sink_ok s cap k \<longleftrightarrow> s \<in> set (rd_secrets (sk_redact k)) \<and> list_all (\<lambda>(l, _). \<not> Contains l s) (sk_log k) \<and>
     length (sk_buf k) \<le> maxLogLine \<and> sk_tailCap k = cap \<and> length (sk_tail k) \<le> cap"

lemma sink_append_ok: "sink_ok s cap k \<Longrightarrow> sink_ok s cap (sink_append b k)"
  by (auto simp: sink_ok_def sink_append_def Let_def)

lemma sink_emit_ok:
  assumes "maskable s" "sink_ok s cap k"
  shows "sink_ok s cap (sink_emit hide k)"
proof -
  obtain out r where l: "Line (sk_redact k) (TrimRight (sk_buf k) [CHR 13]) = (out, r)" by fastforce
  have "s \<in> set (rd_secrets r)" using Line_secrets[OF l] assms(2) by (simp add: sink_ok_def)
  moreover have "\<not> Contains y s" if "out = Some y" for y
    using Line_hides[OF assms(1) _ l[unfolded that]] assms(2) by (simp add: sink_ok_def)
  ultimately show ?thesis using assms(2) l
    by (auto simp: sink_ok_def sink_emit_def Let_def split: option.splits)
qed

lemma sink_Write_ok: "maskable s \<Longrightarrow> sink_ok s cap k \<Longrightarrow> sink_ok s cap (sink_Write hide p k)"
proof (induction hide p k rule: sink_Write.induct)
  case (1 hide p k)
  then show ?case by (subst sink_Write.simps) (auto intro: sink_append_ok sink_emit_ok)
qed

lemma foldl_ok: "P k \<Longrightarrow> (\<And>k x. P k \<Longrightarrow> P (f k x)) \<Longrightarrow> P (foldl f k xs)"
  by (induction xs arbitrary: k) auto




end
