(* ===== verification/Reconcile.thy ===== *)
theory Reconcile
  imports FsStore LegoCmd Provision Redact
begin

text \<open>
  The Runner's reconcile of one job, \<^verbatim>\<open>internal/runner/reconcile.go\<close> and \<^verbatim>\<open>result.go\<close>. What the code
  calls in other files is a record of operations over a world of any type: the certificate stores,
  the account and work directories, the replay ledger, lego, the transport. An operation that
  fails answers with its cause, of which the code looks only at cancellation and deadline. The
  texts of errors, which the summaries quote, are an argument.
\<close>

subsection \<open>Operations the reconcile relies on\<close>

record 's cert_store =
  st_Type :: string
  st_ObjectName :: "string \<Rightarrow> string"
  st_Current :: "string \<Rightarrow> ('s, store_error + cert_info) state"
  st_Put :: "string \<Rightarrow> cert_bundle \<Rightarrow> ('s, io_error + unit) state"

record lego_outcome =
  lo_ExitCode :: int
  lo_TimedOut :: bool
  lo_Cancelled :: bool
  lo_Failure :: failure_class

datatype ledger_answer = Recorded | Replayed | LedgerFailed io_error

datatype run_cause =
    CausePolicy policy_error | CauseEnvelope env_error | CauseReplayed | CauseNoSigningKeys | CauseUnsigned

record 's runner_ops =
  op_pki :: pki
  op_unicode :: unicode
  op_errorText :: "run_cause \<Rightarrow> string"
  op_lookupEnv :: "string \<Rightarrow> string option"
  op_grace :: duration
  op_now :: "('s, gotime) state"
  op_ctxErr :: "('s, io_error option) state"
  op_openStore :: "store_binding \<Rightarrow> ('s, io_error + 's cert_store) state"
  op_accountsRoot :: "string \<Rightarrow> string \<Rightarrow> account_ref \<Rightarrow> ('s, io_error + string) state"
  op_prepareWorkDir :: "string \<Rightarrow> string \<Rightarrow> duration \<Rightarrow> ('s, io_error + string) state"
  op_cleanup :: "string \<Rightarrow> ('s, unit) state"
  op_loadAccounts :: "string \<Rightarrow> string \<Rightarrow> ('s, io_error + unit) state"
  op_accountRegistered :: "string \<Rightarrow> ('s, bool) state"
  op_loadProvisioningKeys :: "string list \<Rightarrow> ('s, io_error + (string \<Rightarrow> string option)) state"
  op_sealing :: sealing
  op_eabCodec :: "provisioning_eab codec"
  op_runLego :: "duration \<Rightarrow> invocation \<Rightarrow> ('s, io_error + lego_outcome) state"
  op_persistAccounts :: "string \<Rightarrow> string \<Rightarrow> ('s, io_error + unit) state"
  op_publishedAccountRegistered :: "string \<Rightarrow> ('s, io_error + bool) state"
  op_readOutputs :: "string \<Rightarrow> string \<Rightarrow> ('s, io_error + (string \<times> string \<times> string)) state"

subsection \<open>Failures\<close>

record failure =
  f_code :: string
  f_summary :: string
  f_err :: "io_error option"
  f_accountProvisioning :: "account_result option"

definition fail :: "string \<Rightarrow> string \<Rightarrow> io_error option \<Rightarrow> failure" where
  "fail code summary err = \<lparr>f_code = code, f_summary = summary, f_err = err, f_accountProvisioning = None\<rparr>"

definition withAP :: "account_result option \<Rightarrow> failure \<Rightarrow> failure" where
  "withAP ap f = f\<lparr>f_accountProvisioning := ap\<rparr>"

definition classifyCtx :: "io_error option \<Rightarrow> failure \<Rightarrow> failure" where
  "classifyCtx ctxErr f =
     (if f_err f = Some Canceled \<and> ctxErr \<noteq> None
      then fail ErrorCodeCancelled (''run was cancelled by signal while waiting for '' @ f_summary f) (f_err f)
      else if f_err f = Some DeadlineExceeded \<and> ctxErr \<noteq> None
      then fail ErrorCodeTimeout (''run deadline passed while waiting for '' @ f_summary f) (f_err f)
      else f)"

definition staleMargin :: duration where "staleMargin = 5 * minute"
definition clockSkewTolerance :: duration where "clockSkewTolerance = 5 * minute"

definition legoFailure :: "lego_outcome \<Rightarrow> string \<Rightarrow> string \<times> string" where
  "legoFailure res dnsBinding =
     (case lo_Failure res of
        FailureDNSOutsideZone \<Rightarrow> (ErrorCodeDNSFailure, ''the challenge record is outside the zone of dns binding '' @ quoted dnsBinding
          @ ''; check the _acme-challenge CNAME delegation'')
      | FailureDNSZoneNotFound \<Rightarrow> (ErrorCodeDNSFailure, ''dns binding '' @ quoted dnsBinding @ '' could not find the DNS zone of the challenge record'')
      | FailureDNSPresent \<Rightarrow> (ErrorCodeDNSFailure, ''dns binding '' @ quoted dnsBinding @ '' could not create the challenge TXT record'')
      | FailureDNSPropagation \<Rightarrow> (ErrorCodeDNSFailure, ''the challenge TXT record did not propagate before the lego timeout'')
      | FailureCADNS \<Rightarrow> (ErrorCodeDNSFailure, ''the CA could not resolve the challenge record'')
      | FailureUnknown \<Rightarrow> (ErrorCodeACMEFailure, ''lego exited with status '' @ itoa (lo_ExitCode res)))"

text \<open>
  A summary: the error text without control characters, bounded. Truncation drops trailing
  continuation bytes only.
\<close>

definition summary_rune :: "nat \<Rightarrow> nat option" where
  "summary_rune r =
     (if r = 9 \<or> r = 10 \<or> r = 13 then Some 32
      else if r < 0x20 \<or> r = 0x7F \<or> r = 0x2028 \<or> r = 0x2029 then None
      else Some r)"

definition summarize :: "'s runner_ops \<Rightarrow> string \<Rightarrow> run_cause \<Rightarrow> string" where
  "summarize R pre err =
     (let s = pre @ '': '' @ strings_Map summary_rune (op_errorText R err) in
      if 512 < length s then strip_continuation (take 512 s) else s)"

definition genericSummary :: "string \<Rightarrow> string" where
  "genericSummary code =
     (if code = ErrorCodeInvalidJobSpec then ''job spec rejected by strict validation''
      else if code = ErrorCodePolicyViolation then ''job rejected by runner authorization policy''
      else ''reconcile failed; see runner log'')"

subsection \<open>Names\<close>

definition sameNames :: "unicode \<Rightarrow> string list \<Rightarrow> string list \<Rightarrow> bool" where
  "sameNames u dnsNames want \<longleftrightarrow>
     (let have = remdups (map (strings_ToLower u) dnsNames) in
      length have = length want \<and> list_all (\<lambda>n. strings_ToLower u n \<in> set have) want)"

subsection \<open>The outcome\<close>

record outcome =
  oc_action :: string
  oc_info :: cert_info
  oc_objectRef :: string
  oc_storeType :: string
  oc_accountProvisioning :: "account_result option"

text \<open>The account part of the job.\<close>

definition provisioning :: "job_spec \<Rightarrow> bool" where
  "provisioning spec = (case js_ACMEAccount spec of None \<Rightarrow> False | Some a \<Rightarrow> ar_Provisioning a \<noteq> None)"

definition provisioning_result :: "job_spec \<Rightarrow> string \<Rightarrow> account_result option" where
  "provisioning_result spec status =
     (case js_ACMEAccount spec of
        None \<Rightarrow> None
      | Some a \<Rightarrow>
          if ar_Provisioning a = None then None
          else Some \<lparr>ap_Binding = js_ACMEBinding spec, ap_Scope = ar_Scope a, ap_Generation = ar_Generation a, ap_Status = status\<rparr>)"

definition failAP :: "job_spec \<Rightarrow> string \<Rightarrow> string \<Rightarrow> string \<Rightarrow> io_error option \<Rightarrow> failure" where
  "failAP spec status code summary err = withAP (provisioning_result spec status) (fail code summary err)"

text \<open>An operation whose error is a failure of the run, plain or seen against the context.\<close>

definition or_fail :: "('s, io_error + 'a) state \<Rightarrow> (io_error \<Rightarrow> failure) \<Rightarrow> ('s, failure + 'a) state" where
  "or_fail m g = do { r \<leftarrow> m; State_Monad.return (case r of Inl e \<Rightarrow> Inl (g e) | Inr a \<Rightarrow> Inr a) }"

definition or_ctx_fail :: "'s runner_ops \<Rightarrow> ('s, io_error + 'a) state \<Rightarrow> (io_error \<Rightarrow> failure) \<Rightarrow> ('s, failure + 'a) state" where
  "or_ctx_fail R m g =
     do { r \<leftarrow> m;
          case r of
            Inr a \<Rightarrow> State_Monad.return (Inr a)
          | Inl e \<Rightarrow> do { c \<leftarrow> op_ctxErr R; State_Monad.return (Inl (classifyCtx c (g e))) } }"

subsection \<open>reconcile\<close>

definition renewBefore :: "job_spec \<Rightarrow> duration" where
  "renewBefore spec = ps_RenewBeforeDays (js_Policy spec) * 24 * hour"

text \<open>The stored certificate needs nothing done.\<close>

definition up_to_date :: "unicode \<Rightarrow> job_spec \<Rightarrow> gotime \<Rightarrow> cert_info \<Rightarrow> bool" where
  "up_to_date u spec now current \<longleftrightarrow>
     (let covers = sameNames u (ci_DNSNames current) (spec_names spec);
          valid = (\<not> now + clockSkewTolerance < ci_NotBefore current);
          keyOK = (ci_KeyType current = ps_KeyType (js_Policy spec));
          formOK = (\<not> ci_Stale current) in
      \<not> provisioning spec \<and> covers \<and> valid \<and> keyOK \<and> formOK \<and> now + renewBefore spec < ci_NotAfter current)"

definition account_root :: "'s runner_ops \<Rightarrow> runner_config \<Rightarrow> job_spec \<Rightarrow> ('s, failure + string) state" where
  "account_root R cfg spec =
     (case js_ACMEAccount spec of
        None \<Rightarrow> State_Monad.return (Inr (lg_StateDir (rc_Lego cfg)))
      | Some account \<Rightarrow>
          or_fail (op_accountsRoot R (lg_StateDir (rc_Lego cfg)) (js_ACMEBinding spec) account) (\<lambda>e.
            failAP spec AccountProvisioningFailed ErrorCodeInternal ''acme account state directory could not be prepared'' (Some e)))"

text \<open>The account binding lego is given: the opened payload, none at all, or the ACME binding's own.\<close>

definition generation_text :: "job_spec \<Rightarrow> account_ref \<Rightarrow> string \<Rightarrow> string" where
  "generation_text spec account what =
     ''acme account generation '' @ itoa (ar_Generation account) @ '' of binding '' @ quoted (js_ACMEBinding spec) @ what"

definition resolve_eab ::
  "'s runner_ops \<Rightarrow> runner_config \<Rightarrow> job_spec \<Rightarrow> string \<Rightarrow> ('s, failure + (eab_values option \<times> bool)) state" where
  "resolve_eab R cfg spec work =
     (case js_ACMEAccount spec of
        None \<Rightarrow> State_Monad.return (Inr (None, False))
      | Some account \<Rightarrow>
          (case ar_Provisioning account of
             Some payload \<Rightarrow>
               (case rc_AccountProvisioning cfg of
                  None \<Rightarrow> State_Monad.return (Inl (failAP spec AccountProvisioningFailed ErrorCodeInvalidJobSpec
                            ''this runner has no account provisioning key'' (Some Failed)))
                | Some files \<Rightarrow> do {
                    registered \<leftarrow> op_accountRegistered R work;
                    if registered then State_Monad.return (Inl (failAP spec AccountProvisioningFailed ErrorCodeInvalidJobSpec
                            (generation_text spec account '' is already provisioned'') (Some Failed)))
                    else
                      attempt (or_fail (op_loadProvisioningKeys R files) (\<lambda>e.
                        failAP spec AccountProvisioningFailed ErrorCodeInternal ''account provisioning keys could not be loaded'' (Some e))) (\<lambda>keys.
                      case OpenScoped (op_sealing R) (op_eabCodec R) keys (js_ACMEBinding spec) (ar_Scope account) (ar_Generation account) payload of
                        Inl _ \<Rightarrow> State_Monad.return (Inl (failAP spec AccountProvisioningFailed ErrorCodeInvalidJobSpec
                            ''account provisioning payload could not be opened'' (Some Failed)))
                      | Inr eab \<Rightarrow> State_Monad.return (Inr (Some \<lparr>ev_KID = eab_KID eab, ev_HMAC = eab_HMAC eab\<rparr>, False))) })
           | None \<Rightarrow> do {
               registered \<leftarrow> op_accountRegistered R work;
               State_Monad.return (if registered then Inr (None, True)
                 else Inl (fail ErrorCodeACMEFailure (generation_text spec account '' is not provisioned on this runner'') (Some Failed))) }))"

definition build_failure :: "job_spec \<Rightarrow> build_error \<Rightarrow> failure" where
  "build_failure spec e =
     (case e of
        ErrMissingDNSEnv \<Rightarrow> failAP spec AccountProvisioningFailed ErrorCodeDNSFailure
          (''dns binding '' @ quoted (js_DNSBinding spec) @ '' requires an environment variable that is not set'') (Some Failed)
      | ErrMissingEAB \<Rightarrow> failAP spec AccountProvisioningFailed ErrorCodeACMEFailure
          (''acme binding '' @ quoted (js_ACMEBinding spec) @ '' requires EAB credentials that are not set'') (Some Failed)
      | ErrBuild \<Rightarrow> failAP spec AccountProvisioningFailed ErrorCodeInternal ''lego invocation could not be built'' (Some Failed))"

definition lego_params_of ::
  "'s runner_ops \<Rightarrow> runner_config \<Rightarrow> job_spec \<Rightarrow> acme_binding \<Rightarrow> dns_binding \<Rightarrow> string \<Rightarrow> eab_values option \<Rightarrow> bool \<Rightarrow> lego_params" where
  "lego_params_of R cfg spec acme dns work eab disable =
     \<lparr>lp_Binary = lg_Binary (rc_Lego cfg), lp_WorkDir = work, lp_FQDN = tr_FQDN (js_Target spec),
      lp_AdditionalNames = additional spec, lp_KeyType = ps_KeyType (js_Policy spec), lp_ACME = acme, lp_DNS = dns,
      lp_LookupEnv = op_lookupEnv R, lp_EAB = eab, lp_DisableEAB = disable\<rparr>"

text \<open>
  After lego: keep its account state, and say what the run can report of the generation. Only a
  registration that is durably published counts.
\<close>

definition keep_accounts :: "'s runner_ops \<Rightarrow> job_spec \<Rightarrow> string \<Rightarrow> string \<Rightarrow> ('s, string) state" where
  "keep_accounts R spec work root =
     do {
       registered \<leftarrow> op_accountRegistered R work;
       if \<not> provisioning spec \<or> registered then do {
         perr \<leftarrow> op_persistAccounts R work root;
         case perr of
           Inl _ \<Rightarrow> State_Monad.return AccountProvisioningFailed
         | Inr _ \<Rightarrow>
             if provisioning spec then do {
               published \<leftarrow> op_publishedAccountRegistered R root;
               State_Monad.return (if published = Inr True then AccountProvisioningRegistered else AccountProvisioningFailed) }
             else State_Monad.return AccountProvisioningFailed }
       else State_Monad.return AccountProvisioningFailed
     }"

text \<open>The checks on what lego issued, in their order; the answer is what is wrong.\<close>

definition check_issued :: "'s runner_ops \<Rightarrow> job_spec \<Rightarrow> gotime \<Rightarrow> x509_cert \<Rightarrow> string \<Rightarrow> string option" where
  "check_issued R spec now leaf keyPEM =
     (if \<not> sameNames (op_unicode R) (crt_DNSNames leaf) (spec_names spec)
      then Some ''issued certificate's subject alternative names differ from the target's names''
      else if \<not> PrivateKeyMatches (op_pki R) leaf keyPEM then Some ''issued certificate and private key do not match''
      else if \<not> now < crt_NotAfter leaf then Some ''issued certificate is already expired''
      else if now + clockSkewTolerance < crt_NotBefore leaf then Some ''issued certificate is not yet valid''
      else if \<not> KeyMatchesType leaf (ps_KeyType (js_Policy spec))
      then Some ''issued certificate key does not match the requested key type''
      else None)"

definition store_action :: "cert_info option \<Rightarrow> cert_info \<Rightarrow> string" where
  "store_action current info =
     (case current of
        None \<Rightarrow> ActionIssued
      | Some c \<Rightarrow> if ci_FingerprintSHA256 c = ci_FingerprintSHA256 info then ActionNoop else ActionRenewed)"

text \<open>The bundle that is stored, with its leaf, or what is wrong with lego's files.\<close>

definition issued_bundle ::
  "'s runner_ops \<Rightarrow> job_spec \<Rightarrow> gotime \<Rightarrow> string \<times> string \<times> string \<Rightarrow> (string \<times> io_error option) + (x509_cert \<times> cert_bundle)" where
  "issued_bundle R spec now files =
     (case files of (certPEM, keyPEM, issuerPEM) \<Rightarrow>
       (case SplitChain (op_pki R) certPEM of
          None \<Rightarrow> Inl (''lego produced an unreadable certificate'', Some Failed)
        | Some (leafPEM, chain) \<Rightarrow>
            let chainPEM = (if chain = [] then issuerPEM else chain) in
            (case ParseLeaf (op_pki R) leafPEM of
               None \<Rightarrow> Inl (''lego produced an unreadable certificate'', Some Failed)
             | Some leaf \<Rightarrow>
                 (case check_issued R spec now leaf keyPEM of
                    Some wrong \<Rightarrow> Inl (wrong, None)
                  | None \<Rightarrow> Inr (leaf, \<lparr>bd_Certificate = leafPEM, bd_Chain = chainPEM, bd_PrivateKey = keyPEM\<rparr>)))))"

definition store_issued ::
  "'s runner_ops \<Rightarrow> job_spec \<Rightarrow> 's cert_store \<Rightarrow> string \<Rightarrow> gotime \<Rightarrow> cert_info option \<Rightarrow> string \<Rightarrow> string \<Rightarrow> ('s, failure + outcome) state" where
  "store_issued R spec st object now current work status =
     attempt (or_fail (op_readOutputs R work (tr_FQDN (js_Target spec))) (\<lambda>e.
       failAP spec status ErrorCodeACMEFailure ''lego exited successfully but produced no usable certificate'' (Some e))) (\<lambda>files.
       case issued_bundle R spec now files of
         Inl (wrong, e) \<Rightarrow> State_Monad.return (Inl (failAP spec status ErrorCodeACMEFailure wrong e))
       | Inr (leaf, b) \<Rightarrow>
           attempt (or_ctx_fail R (st_Put st object b) (\<lambda>e.
             failAP spec status ErrorCodeStoreFailure ''certificate store write failed'' (Some e))) (\<lambda>_.
           State_Monad.return (Inr
             \<lparr>oc_action = store_action current (InfoOf (op_pki R) leaf), oc_info = InfoOf (op_pki R) leaf, oc_objectRef = object,
              oc_storeType = st_Type st, oc_accountProvisioning = provisioning_result spec status\<rparr>)))"

definition after_lego ::
  "'s runner_ops \<Rightarrow> runner_config \<Rightarrow> job_spec \<Rightarrow> 's cert_store \<Rightarrow> string \<Rightarrow> gotime \<Rightarrow> cert_info option \<Rightarrow> string \<Rightarrow> string \<Rightarrow>
   io_error + lego_outcome \<Rightarrow> ('s, failure + outcome) state" where
  "after_lego R cfg spec st object now current work status res =
     (case res of
        Inl e \<Rightarrow> State_Monad.return (Inl (failAP spec status ErrorCodeInternal ''lego could not be executed'' (Some e)))
      | Inr lo \<Rightarrow>
          if lo_Cancelled lo
          then State_Monad.return (Inl (failAP spec status ErrorCodeCancelled ''run was cancelled by signal while lego was running'' None))
          else if lo_TimedOut lo
          then State_Monad.return (Inl (failAP spec status ErrorCodeTimeout
                 (''lego did not finish within '' @ itoa (lg_TimeoutSeconds (rc_Lego cfg)) @ '' seconds'') None))
          else if lo_ExitCode lo \<noteq> 0
          then (case legoFailure lo (js_DNSBinding spec) of (code, summary) \<Rightarrow> State_Monad.return (Inl (failAP spec status code summary None)))
          else store_issued R spec st object now current work status)"

definition invoke_lego ::
  "'s runner_ops \<Rightarrow> runner_config \<Rightarrow> job_spec \<Rightarrow> acme_binding \<Rightarrow> dns_binding \<Rightarrow> string \<Rightarrow> 's cert_store \<Rightarrow> string \<Rightarrow> gotime \<Rightarrow>
   cert_info option \<Rightarrow> string \<Rightarrow> eab_values option \<times> bool \<Rightarrow> ('s, failure + outcome) state" where
  "invoke_lego R cfg spec acme dns root st object now current work eab =
     (case Build (lego_params_of R cfg spec acme dns work (fst eab) (snd eab)) of
        Inl e \<Rightarrow> State_Monad.return (Inl (build_failure spec e))
      | Inr cmd \<Rightarrow> do {
          res \<leftarrow> op_runLego R (lg_TimeoutSeconds (rc_Lego cfg) * second) cmd;
          status \<leftarrow> keep_accounts R spec work root;
          after_lego R cfg spec st object now current work status res })"

definition run_in ::
  "'s runner_ops \<Rightarrow> runner_config \<Rightarrow> job_spec \<Rightarrow> acme_binding \<Rightarrow> dns_binding \<Rightarrow> string \<Rightarrow> 's cert_store \<Rightarrow> string \<Rightarrow> gotime \<Rightarrow>
   cert_info option \<Rightarrow> string \<Rightarrow> ('s, failure + outcome) state" where
  "run_in R cfg spec acme dns root st object now current work =
     attempt (or_ctx_fail R (op_loadAccounts R root work) (\<lambda>e.
       failAP spec AccountProvisioningFailed ErrorCodeInternal ''ACME account state could not be read'' (Some e))) (\<lambda>_.
     attempt (resolve_eab R cfg spec work) (invoke_lego R cfg spec acme dns root st object now current work))"

definition DefaultGracePeriod :: duration where "DefaultGracePeriod = 10 * second"

definition issue ::
  "'s runner_ops \<Rightarrow> runner_config \<Rightarrow> job_spec \<Rightarrow> acme_binding \<Rightarrow> dns_binding \<Rightarrow> string \<Rightarrow> 's cert_store \<Rightarrow> string \<Rightarrow> gotime \<Rightarrow>
   cert_info option \<Rightarrow> ('s, failure + outcome) state" where
  "issue R cfg spec acme dns root st object now current =
     do {
       c \<leftarrow> op_ctxErr R;
       if c \<noteq> None
       then State_Monad.return (Inl (failAP spec AccountProvisioningFailed ErrorCodeCancelled ''run was cancelled before lego started'' c))
       else
         let grace = (if op_grace R \<le> 0 then DefaultGracePeriod else op_grace R);
             staleAfter = 2 * lg_TimeoutSeconds (rc_Lego cfg) * second + grace + staleMargin in
         attempt (or_fail (op_prepareWorkDir R (lg_WorkDir (rc_Lego cfg)) (js_RunID spec) staleAfter) (\<lambda>e.
           failAP spec AccountProvisioningFailed ErrorCodeInternal ''work directory could not be prepared'' (Some e)))
         (\<lambda>work. do {
           r \<leftarrow> run_in R cfg spec acme dns root st object now current work;
           _ \<leftarrow> op_cleanup R work;
           State_Monad.return r })
     }"

text \<open>What the store holds decides whether anything is to be done.\<close>

definition examine ::
  "'s runner_ops \<Rightarrow> runner_config \<Rightarrow> job_spec \<Rightarrow> acme_binding \<Rightarrow> dns_binding \<Rightarrow> string \<Rightarrow> 's cert_store \<Rightarrow> string \<Rightarrow> gotime \<Rightarrow>
   store_error + cert_info \<Rightarrow> ('s, failure + outcome) state" where
  "examine R cfg spec acme dns root st object now current =
     (case current of
        Inl ErrStoreNotFound \<Rightarrow> issue R cfg spec acme dns root st object now None
      | Inl (ErrStoreIO e) \<Rightarrow> do {
          c \<leftarrow> op_ctxErr R;
          State_Monad.return (Inl (classifyCtx c
            (failAP spec AccountProvisioningFailed ErrorCodeStoreFailure ''certificate store read failed'' (Some e)))) }
      | Inr info \<Rightarrow>
          if up_to_date (op_unicode R) spec now info
          then State_Monad.return (Inr \<lparr>oc_action = ActionNoop, oc_info = info, oc_objectRef = object,
                 oc_storeType = st_Type st, oc_accountProvisioning = None\<rparr>)
          else issue R cfg spec acme dns root st object now (Some info))"

definition reconcile_in ::
  "'s runner_ops \<Rightarrow> runner_config \<Rightarrow> job_spec \<Rightarrow> acme_binding \<Rightarrow> dns_binding \<Rightarrow> string \<Rightarrow> 's cert_store \<Rightarrow> ('s, failure + outcome) state" where
  "reconcile_in R cfg spec acme dns root st =
     do {
       let object = st_ObjectName st (tr_FQDN (js_Target spec));
       now \<leftarrow> op_now R;
       current \<leftarrow> st_Current st object;
       examine R cfg spec acme dns root st object now current
     }"

definition reconcile_bound ::
  "'s runner_ops \<Rightarrow> runner_config \<Rightarrow> job_spec \<Rightarrow> acme_binding \<Rightarrow> dns_binding \<Rightarrow> store_binding \<Rightarrow> ('s, failure + outcome) state" where
  "reconcile_bound R cfg spec acme dns storeBinding =
     attempt (account_root R cfg spec) (\<lambda>root.
     attempt (or_fail (op_openStore R storeBinding) (\<lambda>e.
       failAP spec AccountProvisioningFailed ErrorCodeStoreFailure ''certificate store could not be opened'' (Some e))) (\<lambda>st.
     reconcile_in R cfg spec acme dns root st))"

definition no_binding :: "string \<Rightarrow> string \<Rightarrow> failure" where
  "no_binding kind name =
     fail ErrorCodeBindingNotFound (kind @ '' binding '' @ quoted name @ '' is not defined in runner configuration'') None"

definition reconcile :: "'s runner_ops \<Rightarrow> runner_config \<Rightarrow> job_spec \<Rightarrow> ('s, failure + outcome) state" where
  "reconcile R cfg spec =
     (case Authorize (Config_Policy cfg) (request_of spec) of
        Some e \<Rightarrow> State_Monad.return (Inl (fail ErrorCodePolicyViolation
          (summarize R ''runner authorization policy rejected the job'' (CausePolicy e)) (Some Failed)))
      | None \<Rightarrow>
          (case map_of (rc_ACMEBindings cfg) (js_ACMEBinding spec) of
             None \<Rightarrow> State_Monad.return (Inl (no_binding ''acme'' (js_ACMEBinding spec)))
           | Some acme \<Rightarrow>
               (case map_of (rc_DNSBindings cfg) (js_DNSBinding spec) of
                  None \<Rightarrow> State_Monad.return (Inl (no_binding ''dns'' (js_DNSBinding spec)))
                | Some dns \<Rightarrow>
                    (case map_of (rc_StoreBindings cfg) (js_StoreBinding spec) of
                       None \<Rightarrow> State_Monad.return (Inl (no_binding ''store'' (js_StoreBinding spec)))
                     | Some storeBinding \<Rightarrow> reconcile_bound R cfg spec acme dns storeBinding))))"

end
