(* ===== verification/ReconcileSafe.thy ===== *)
theory ReconcileSafe
  imports Reconcile
begin

text \<open>
  What the reconcile promises of the certificate store, proved once over the interface
  \<open>runner_frame\<close>: the store the job's binding opens, a view of the job's object in it, and operations
  that leave the view alone as long as they work on directories outside the store.
\<close>

subsection \<open>Certificates that fit a job\<close>

definition fits :: "unicode \<Rightarrow> job_spec \<Rightarrow> gotime \<Rightarrow> cert_info \<Rightarrow> bool" where
  "fits u spec now info \<longleftrightarrow>
     sameNames u (ci_DNSNames info) (spec_names spec) \<and> ci_KeyType info = ps_KeyType (js_Policy spec) \<and> \<not> ci_Stale info \<and>
     now < ci_NotAfter info \<and> ci_NotBefore info \<le> now + clockSkewTolerance"

lemma check_issued_fits:
  assumes "check_issued R spec now leaf key = None" "ps_KeyType (js_Policy spec) \<noteq> []"
  shows "fits (op_unicode R) spec now (InfoOf (op_pki R) leaf)"
  using assms KeyTypeOf_iff[of "ps_KeyType (js_Policy spec)" leaf]
  by (auto simp: check_issued_def fits_def InfoOf_def split: if_splits)

lemma up_to_date_fits: "up_to_date u spec now info \<Longrightarrow> 0 \<le> renewBefore spec \<Longrightarrow> fits u spec now info"
  by (auto simp: up_to_date_def fits_def Let_def)

lemma valid_spec:
  assumes "JobSpec_Validate spec = None"
  shows "ps_KeyType (js_Policy spec) \<noteq> []" "0 \<le> renewBefore spec"
  using JobSpec_ValidateD(8)[OF assms]
  by (auto simp: PolicySpec_validate_def go_checks KeyType_Valid_def KeyTypes_def renewBefore_def MinRenewBeforeDays_def)

subsection \<open>The interface\<close>

locale runner_frame =
  fixes R :: "'s runner_ops" and cfg :: runner_config and spec :: job_spec
    and st :: "'s cert_store" and object :: string
    and ok :: "'s \<Rightarrow> bool" and view :: "'s \<Rightarrow> store_error + cert_info"
    and outside :: "string \<Rightarrow> bool" and tick :: "gotime \<Rightarrow> bool"
  assumes valid: "ok s \<Longrightarrow> JobSpec_Validate spec = None"
    and object: "object = st_ObjectName st (tr_FQDN (js_Target spec))"
    and stateDir: "outside (lg_StateDir (rc_Lego cfg))"
    and now: "leaves ok view (op_now R) tick"
    and ctxErr: "leaves ok view (op_ctxErr R) (\<lambda>_. True)"
    and openStore: "map_of (rc_StoreBindings cfg) (js_StoreBinding spec) = Some sb \<Longrightarrow>
      leaves ok view (op_openStore R sb) (\<lambda>r. \<forall>st'. r = Inr st' \<longrightarrow> st' = st)"
    and accountsRoot: "js_ACMEAccount spec = Some acct \<Longrightarrow>
      leaves ok view (op_accountsRoot R (lg_StateDir (rc_Lego cfg)) (js_ACMEBinding spec) acct) (\<lambda>r. \<forall>d. r = Inr d \<longrightarrow> outside d)"
    and prepareWorkDir:
      "leaves ok view (op_prepareWorkDir R (lg_WorkDir (rc_Lego cfg)) (js_RunID spec) age) (\<lambda>r. \<forall>d. r = Inr d \<longrightarrow> outside d)"
    and cleanup: "outside w \<Longrightarrow> leaves ok view (op_cleanup R w) (\<lambda>_. True)"
    and loadAccounts: "outside d \<Longrightarrow> outside w \<Longrightarrow> leaves ok view (op_loadAccounts R d w) (\<lambda>_. True)"
    and accountRegistered: "leaves ok view (op_accountRegistered R w) (\<lambda>_. True)"
    and loadProvisioningKeys: "leaves ok view (op_loadProvisioningKeys R files) (\<lambda>_. True)"
    and runLego: "outside (inv_Dir cmd) \<Longrightarrow> leaves ok view (op_runLego R limit_d cmd) (\<lambda>_. True)"
    and persistAccounts: "outside d \<Longrightarrow> outside w \<Longrightarrow> leaves ok view (op_persistAccounts R w d) (\<lambda>_. True)"
    and publishedAccountRegistered: "outside d \<Longrightarrow> leaves ok view (op_publishedAccountRegistered R d) (\<lambda>_. True)"
    and readOutputs: "leaves ok view (op_readOutputs R w name) (\<lambda>_. True)"
    and Current: "triple (shows_as ok view v) (st_Current st object)
        (\<lambda>r s. (r = v \<or> (\<exists>e. r = Inl (ErrStoreIO e))) \<and> shows_as ok view v s)"
    and Put: "triple (shows_as ok view v) (st_Put st object b) (\<lambda>r s. ok s \<and>
        (r \<noteq> Inr () \<and> view s = v \<or>
         (\<exists>leaf. ParseLeaf (op_pki R) (bd_Certificate b) = Some leaf \<and> view s = Inr (InfoOf (op_pki R) leaf))))"
begin

text \<open>The view is still \<open>v\<close>; or it is a certificate that fits; a reported one is the one in the store.\<close>

definition safe :: "store_error + cert_info \<Rightarrow> failure + outcome \<Rightarrow> 's \<Rightarrow> bool" where
  "safe v r s \<longleftrightarrow> ok s \<and>
     (case r of
        Inl _ \<Rightarrow> view s = v \<or> (\<exists>t info. tick t \<and> view s = Inr info \<and> fits (op_unicode R) spec t info)
      | Inr out \<Rightarrow> view s = Inr (oc_info out) \<and> oc_objectRef out = object \<and>
          (\<exists>t. tick t \<and> fits (op_unicode R) spec t (oc_info out)))"

lemma same_safe: "shows_as ok view v s \<Longrightarrow> safe v (Inl f) s"
  by (simp add: shows_as_def safe_def)

lemma fails_safe: "triple (shows_as ok view v) (State_Monad.return (Inl f)) (safe v)"
  by (auto intro: triple_rules same_safe)

lemma attempt_leaves:
  "leaves ok view m A \<Longrightarrow> (\<And>x. A (Inr x) \<Longrightarrow> triple (shows_as ok view v) (k x) (safe v)) \<Longrightarrow>
   triple (shows_as ok view v) (attempt m k) (safe v)"
  by (rule leaves_attempt[of ok view m A]) (auto intro: same_safe)

lemma or_fail_leaves: "leaves ok view m A \<Longrightarrow> leaves ok view (or_fail m g) (\<lambda>r. \<forall>x. r = Inr x \<longrightarrow> A (Inr x))"
  unfolding or_fail_def by (erule leaves_bind) (auto intro!: leaves_return split: sum.splits)

lemma or_ctx_fail_leaves: "leaves ok view m A \<Longrightarrow> leaves ok view (or_ctx_fail R m g) (\<lambda>r. \<forall>x. r = Inr x \<longrightarrow> A (Inr x))"
  unfolding or_ctx_fail_def
  by (erule leaves_bind) (auto intro!: leaves_return leaves_bind[OF ctxErr] split: sum.splits)

lemma account_root_leaves: "leaves ok view (account_root R cfg spec) (\<lambda>r. \<forall>d. r = Inr d \<longrightarrow> outside d)"
  unfolding account_root_def
  by (auto intro!: leaves_return stateDir or_fail_leaves[OF accountsRoot, simplified] split: option.splits)

lemma weaken: "leaves ok view m A \<Longrightarrow> (\<And>r. A r \<Longrightarrow> B r) \<Longrightarrow> leaves ok view m B"
  unfolding leaves_def by (blast intro: triple_post)

lemma resolve_eab_leaves: "leaves ok view (resolve_eab R cfg spec work) (\<lambda>_. True)"
  unfolding resolve_eab_def attempt_def
  by (auto intro!: leaves_return leaves_bind[OF accountRegistered] leaves_bind[OF or_fail_leaves[OF loadProvisioningKeys]]
      split: option.splits sum.splits)

lemma keep_accounts_leaves: "outside work \<Longrightarrow> outside root \<Longrightarrow> leaves ok view (keep_accounts R spec work root) (\<lambda>_. True)"
  unfolding keep_accounts_def
  by (auto intro!: leaves_return leaves_bind[OF accountRegistered] leaves_bind[OF persistAccounts]
      leaves_bind[OF publishedAccountRegistered] split: sum.splits)

subsubsection \<open>Storing what lego issued\<close>

lemma store_put_safe:
  assumes vs: "JobSpec_Validate spec = None" and "check_issued R spec t leaf key = None" "tick t" "ParseLeaf (op_pki R) (bd_Certificate b) = Some leaf"
    and "oc_info out = InfoOf (op_pki R) leaf" "oc_objectRef out = object"
  shows "triple (shows_as ok view v) (attempt (or_ctx_fail R (st_Put st object b) g) (\<lambda>_. State_Monad.return (Inr out))) (safe v)"
proof -
  let ?A = "\<lambda>s. ok s \<and> view s = Inr (InfoOf (op_pki R) leaf)"
  have fit: "fits (op_unicode R) spec t (InfoOf (op_pki R) leaf)"
    using check_issued_fits[OF assms(2)] valid_spec(1)[OF vs] by blast
  have safe_fail: "safe v' (Inl f) s" if "ok s" "view s = v' \<or> view s = Inr (InfoOf (op_pki R) leaf)" for f s v'
    using that fit assms(3) by (auto simp: safe_def)
  have put: "triple (shows_as ok view v) (st_Put st object b) (\<lambda>r s. ok s \<and> (r \<noteq> Inr () \<and> view s = v \<or> ?A s))"
    by (rule triple_post[OF Put]) (use assms(4) in auto)
  have "triple (shows_as ok view v) (or_ctx_fail R (st_Put st object b) g)
      (\<lambda>r s. case r of Inl f \<Rightarrow> safe v (Inl f) s | Inr x \<Rightarrow> ?A s)"
    unfolding or_ctx_fail_def
  proof (rule triple_bind[OF put])
    fix r :: "io_error + unit"
    have ctx: "triple (shows_as ok view w) (State_Monad.bind (op_ctxErr R) (\<lambda>c. State_Monad.return (Inl (classifyCtx c (g e)))))
        (\<lambda>r s. case r of Inl f \<Rightarrow> safe v (Inl f) s | Inr x \<Rightarrow> ?A s)" if "w = v \<or> w = Inr (InfoOf (op_pki R) leaf)" for w e
      using that by (intro leaves_then[OF ctxErr]) (auto intro!: triple_rules safe_fail simp: shows_as_def)
    show "triple (\<lambda>s. ok s \<and> (r \<noteq> Inr () \<and> view s = v \<or> ?A s))
        (case r of Inl e \<Rightarrow> State_Monad.bind (op_ctxErr R) (\<lambda>c. State_Monad.return (Inl (classifyCtx c (g e))))
         | Inr a \<Rightarrow> State_Monad.return (Inr a)) (\<lambda>r s. case r of Inl f \<Rightarrow> safe v (Inl f) s | Inr x \<Rightarrow> ?A s)"
    proof (cases r)
      case (Inl e)
      show ?thesis
        using ctx[of v e] ctx[of "Inr (InfoOf (op_pki R) leaf)" e] unfolding Inl triple_def shows_as_def by simp blast
    qed (auto intro!: triple_rules)
  qed
  then show ?thesis
  proof (rule triple_attempt)
    fix x :: unit
    show "triple ?A (State_Monad.return (Inr out)) (safe v)"
      by (rule triple_return) (use fit assms(3,5,6) in \<open>unfold safe_def, auto\<close>)
  qed
qed

lemma issued_bundle_checked:
  "issued_bundle R spec t files = Inr (leaf, b) \<Longrightarrow>
   check_issued R spec t leaf (bd_PrivateKey b) = None \<and> ParseLeaf (op_pki R) (bd_Certificate b) = Some leaf"
  by (auto simp: issued_bundle_def Let_def split: prod.splits option.splits)

lemma store_issued_safe:
  "JobSpec_Validate spec = None \<Longrightarrow> tick t \<Longrightarrow> triple (shows_as ok view v) (store_issued R spec st object t current work status) (safe v)"
  unfolding store_issued_def
  by (rule attempt_leaves[OF or_fail_leaves[OF readOutputs]])
    (auto dest!: issued_bundle_checked intro: fails_safe store_put_safe split: sum.splits prod.splits)

lemma after_lego_safe:
  "JobSpec_Validate spec = None \<Longrightarrow> tick t \<Longrightarrow> triple (shows_as ok view v) (after_lego R cfg spec st object t current work status res) (safe v)"
  unfolding after_lego_def by (auto intro: fails_safe store_issued_safe split: sum.splits prod.splits)

lemma Build_dir: "Build p = Inr cmd \<Longrightarrow> inv_Dir cmd = lp_WorkDir p"
  by (auto simp: Build_def Let_def split: if_splits option.splits)

lemma run_in_safe:
  assumes "JobSpec_Validate spec = None" "tick t" "outside root" "outside work"
  shows "triple (shows_as ok view v) (run_in R cfg spec acme dns root st object t current work) (safe v)"
proof -
  have "triple (shows_as ok view v) (invoke_lego R cfg spec acme dns root st object t current work eab) (safe v)" for eab
    unfolding invoke_lego_def using assms
    by (auto intro!: fails_safe leaves_then[OF runLego] leaves_then[OF keep_accounts_leaves] after_lego_safe
        simp: Build_dir lego_params_of_def split: sum.splits)
  then show ?thesis unfolding run_in_def
    by (intro attempt_leaves[OF or_ctx_fail_leaves[OF loadAccounts]] attempt_leaves[OF resolve_eab_leaves] assms)
qed

lemma cleanup_safe: "outside w \<Longrightarrow> triple (\<lambda>s. safe v r s) (op_cleanup R w) (\<lambda>_ s. safe v r s)"
proof (rule tripleI)
  fix s u s' assume w: "outside w" and s: "safe v r s" and run: "run_state (op_cleanup R w) s = (u, s')"
  have "ok s' \<and> view s' = view s"
    using tripleD[OF leavesD[OF cleanup[OF w], of "view s"] _ run] s by (auto simp: shows_as_def safe_def)
  then show "safe v r s'" using s by (auto simp: safe_def split: sum.splits)
qed

lemma issue_safe:
  assumes "JobSpec_Validate spec = None" "tick t" "outside root"
  shows "triple (shows_as ok view v) (issue R cfg spec acme dns root st object t current) (safe v)"
proof -
  have "triple (shows_as ok view v)
      (do { r \<leftarrow> run_in R cfg spec acme dns root st object t current work; _ \<leftarrow> op_cleanup R work; State_Monad.return r }) (safe v)"
    if "outside work" for work
  proof (rule triple_bind[OF run_in_safe[OF assms that]])
    show "triple (safe v r) (State_Monad.bind (op_cleanup R work) (\<lambda>_. State_Monad.return r)) (safe v)" for r
      by (rule triple_bind[OF cleanup_safe[OF that]]) (auto intro: triple_rules)
  qed
  then show ?thesis unfolding issue_def Let_def
    by (auto intro!: leaves_then[OF ctxErr] fails_safe attempt_leaves[OF or_fail_leaves[OF prepareWorkDir]])
qed

lemma examine_safe:
  assumes "JobSpec_Validate spec = None" "tick t" "outside root" "current = v \<or> (\<exists>e. current = Inl (ErrStoreIO e))"
  shows "triple (shows_as ok view v) (examine R cfg spec acme dns root st object t current) (safe v)"
proof (cases current)
  case (Inl e)
  then show ?thesis unfolding examine_def
    by (cases e) (auto intro!: issue_safe[OF assms(1-3)] leaves_then[OF ctxErr] fails_safe)
next
  case (Inr info)
  then have v: "v = Inr info" using assms(4) by auto
  have "fits (op_unicode R) spec t info" if "up_to_date (op_unicode R) spec t info"
    using up_to_date_fits[OF that valid_spec(2)[OF assms(1)]] .
  then show ?thesis unfolding examine_def Inr v using assms(2)
    by (auto intro!: issue_safe[OF assms(1-3)] triple_return simp: safe_def shows_as_def)
qed

lemma reconcile_in_safe:
  "JobSpec_Validate spec = None \<Longrightarrow> outside root \<Longrightarrow> triple (shows_as ok view v) (reconcile_in R cfg spec acme dns root st) (safe v)"
  unfolding reconcile_in_def Let_def object[symmetric]
  by (intro leaves_then[OF now] triple_bind[OF Current] triple_fact examine_safe)

lemma opened_store:
  assumes "map_of (rc_StoreBindings cfg) (js_StoreBinding spec) = Some sb"
  shows "leaves ok view (or_fail (op_openStore R sb) g) (\<lambda>r. \<forall>st'. r = Inr st' \<longrightarrow> st' = st)"
  by (rule weaken[OF or_fail_leaves[OF openStore[OF assms]]]) auto

lemma reconcile_bound_safe:
  assumes "map_of (rc_StoreBindings cfg) (js_StoreBinding spec) = Some sb" "JobSpec_Validate spec = None"
  shows "triple (shows_as ok view v) (reconcile_bound R cfg spec acme dns sb) (safe v)"
  unfolding reconcile_bound_def
  by (intro attempt_leaves[OF account_root_leaves] attempt_leaves[OF opened_store[OF assms(1)]])
    (auto intro: reconcile_in_safe[OF assms(2)])

lemma reconcile_safe: "triple (shows_as ok view v) (reconcile R cfg spec) (safe v)"
proof (rule tripleI)
  fix s r s' assume s: "shows_as ok view v s" and run: "run_state (reconcile R cfg spec) s = (r, s')"
  then have vs: "JobSpec_Validate spec = None" by (auto simp: shows_as_def intro: valid)
  have "triple (shows_as ok view v) (reconcile R cfg spec) (safe v)"
    unfolding reconcile_def by (auto intro!: fails_safe reconcile_bound_safe vs split: option.splits)
  then show "safe v r s'" using s run by (rule tripleD)
qed

subsubsection \<open>A certificate that is up to date is left alone\<close>

lemma bound_quiet:
  assumes sb: "map_of (rc_StoreBindings cfg) (js_StoreBinding spec) = Some sb"
    and fresh: "\<And>t. tick t \<Longrightarrow> up_to_date (op_unicode R) spec t info" and s: "shows_as ok view (Inr info) s"
  shows "run_state (reconcile_bound (R\<lparr>op_runLego := L\<rparr>) cfg spec acme dns sb) s = run_state (reconcile_bound R cfg spec acme dns sb) s"
proof -
  let ?R = "R\<lparr>op_runLego := L\<rparr>"
  have root: "account_root ?R cfg spec = account_root R cfg spec" by (simp add: account_root_def split: option.splits)
  have ops: "op_now ?R = op_now R" "op_openStore ?R = op_openStore R" by simp_all
  have look: "examine ?R cfg spec acme dns root st object t current = examine R cfg spec acme dns root st object t current"
    if "tick t" "current = Inr info \<or> (\<exists>e. current = Inl (ErrStoreIO e))" for root t current
    using that fresh by (auto simp: examine_def)
  have "run_state (reconcile_in ?R cfg spec acme dns root st) s1 = run_state (reconcile_in R cfg spec acme dns root st) s1"
    if "shows_as ok view (Inr info) s1" for root s1
    unfolding reconcile_in_def Let_def object[symmetric] ops
    by (intro bind_agree[OF leavesD[OF now] that], clarify, rule bind_agree[OF Current], assumption) (use look in auto)
  then show ?thesis unfolding reconcile_bound_def root ops
    by (intro attempt_agree[OF leavesD[OF account_root_leaves] s], clarify, intro attempt_agree[OF leavesD[OF opened_store[OF sb]]]) auto
qed

lemma bound_noop:
  assumes sb: "map_of (rc_StoreBindings cfg) (js_StoreBinding spec) = Some sb"
    and fresh: "\<And>t. tick t \<Longrightarrow> up_to_date (op_unicode R) spec t info"
  shows "triple (shows_as ok view (Inr info)) (reconcile_bound R cfg spec acme dns sb)
    (\<lambda>r s. (\<forall>out. r = Inr out \<longrightarrow> oc_action out = ActionNoop \<and> oc_info out = info) \<and> shows_as ok view (Inr info) s)"
proof -
  have "triple (shows_as ok view (Inr info)) (examine R cfg spec acme dns root st object t current)
      (\<lambda>r s. (\<forall>out. r = Inr out \<longrightarrow> oc_action out = ActionNoop \<and> oc_info out = info) \<and> shows_as ok view (Inr info) s)"
    if "tick t" "current = Inr info \<or> (\<exists>e. current = Inl (ErrStoreIO e))" for root t current
    using that fresh by (auto simp: examine_def intro!: triple_return leaves_then[OF ctxErr])
  then have "triple (shows_as ok view (Inr info)) (reconcile_in R cfg spec acme dns root st)
      (\<lambda>r s. (\<forall>out. r = Inr out \<longrightarrow> oc_action out = ActionNoop \<and> oc_info out = info) \<and> shows_as ok view (Inr info) s)" for root
    unfolding reconcile_in_def Let_def object[symmetric]
    by (intro leaves_then[OF now] triple_bind[OF Current] triple_fact)
  then show ?thesis unfolding reconcile_bound_def
    by (intro leaves_attempt[OF account_root_leaves] leaves_attempt[OF opened_store[OF sb]]) auto
qed

lemma reconcile_quiet:
  assumes fresh: "\<And>t. tick t \<Longrightarrow> up_to_date (op_unicode R) spec t info" and s: "shows_as ok view (Inr info) s"
    and run: "run_state (reconcile R cfg spec) s = (r, s')"
  shows "shows_as ok view (Inr info) s' \<and> (\<forall>out. r = Inr out \<longrightarrow> oc_action out = ActionNoop \<and> oc_info out = info) \<and>
    run_state (reconcile (R\<lparr>op_runLego := L\<rparr>) cfg spec) s = (r, s')"
proof -
  have "triple (shows_as ok view (Inr info)) (reconcile R cfg spec)
    (\<lambda>r s. (\<forall>out. r = Inr out \<longrightarrow> oc_action out = ActionNoop \<and> oc_info out = info) \<and> shows_as ok view (Inr info) s)"
    unfolding reconcile_def using bound_noop[OF _ fresh] by (auto intro!: triple_return split: option.splits)
  from tripleD[OF this s run] have noop: "shows_as ok view (Inr info) s'"
    "\<forall>out. r = Inr out \<longrightarrow> oc_action out = ActionNoop \<and> oc_info out = info" by auto
  have "summarize (R\<lparr>op_runLego := L\<rparr>) p e = summarize R p e" for p e by (simp add: summarize_def)
  then have "run_state (reconcile (R\<lparr>op_runLego := L\<rparr>) cfg spec) s = run_state (reconcile R cfg spec) s"
    unfolding reconcile_def using bound_quiet[OF _ fresh s] by (auto split: option.splits)
  with noop run show ?thesis by auto
qed

end

end
