(* ===== verification/Accounts.thy ===== *)
theory Accounts
  imports FileSys Provision
begin

text \<open>
  The Runner's directories, \<^verbatim>\<open>internal/runner/workdir.go\<close> and \<^verbatim>\<open>account.go\<close>: the private work directory of a
  run, the versioned ACME account state behind the link \<^verbatim>\<open>accounts\<close>, and the roots of account
  generations. Errors other than the ones of the file system are \<open>Failed\<close>.
\<close>

subsection \<open>Work directories\<close>

definition maxStateFileSize :: nat where "maxStateFileSize = 2 ^ 20"
definition workDirPrefix :: string where "workDirPrefix = ''run-''"
definition deadlineFile :: string where "deadlineFile = ''.sweep-after''"
definition AccountsDir :: string where "AccountsDir = ''accounts''"

text \<open>Whether the sweep takes the directory away.\<close>

definition work_dir_expired :: "fs_world \<Rightarrow> duration \<Rightarrow> gotime \<Rightarrow> path \<Rightarrow> bool fsm" where
  "work_dir_expired W staleAfter now dir =
     do {
       data \<leftarrow> ReadFile W (dir @ [deadlineFile]);
       case data of
         Inr d \<Rightarrow> give (case ParseInt (TrimSpace d) of None \<Rightarrow> False | Some secs \<Rightarrow> secs < unix_of now)
       | Inl _ \<Rightarrow> State (\<lambda>(n, f). (case fw_mtime W n dir of None \<Rightarrow> False | Some t \<Rightarrow> staleAfter < now - t, (n, f)))
     }"

fun sweep_dirs :: "fs_world \<Rightarrow> path \<Rightarrow> duration \<Rightarrow> gotime \<Rightarrow> string list \<Rightarrow> unit fsm" where
  "sweep_dirs W parent staleAfter now [] = give ()"
| "sweep_dirs W parent staleAfter now (e # es) =
     do {
       nd \<leftarrow> Lstat W (parent @ [e]);
       if nd = Inr NDir \<and> prefix workDirPrefix e then do {
         expired \<leftarrow> work_dir_expired W staleAfter now (parent @ [e]);
         if expired then do { _ \<leftarrow> RemoveAll W (parent @ [e]); sweep_dirs W parent staleAfter now es }
         else sweep_dirs W parent staleAfter now es }
       else sweep_dirs W parent staleAfter now es
     }"

definition entries :: "path list \<Rightarrow> string list" where
  "entries ps = map hd (filter (\<lambda>p. length p = 1) ps)"

definition sweepStaleWorkDirs :: "fs_world \<Rightarrow> path \<Rightarrow> duration \<Rightarrow> gotime \<Rightarrow> unit fsm" where
  "sweepStaleWorkDirs W parent staleAfter now =
     (if staleAfter \<le> 0 then give ()
      else do {
        w \<leftarrow> WalkDir W parent;
        case w of Inl _ \<Rightarrow> give () | Inr ps \<Rightarrow> sweep_dirs W parent staleAfter now (entries ps) })"

text \<open>
  \<^verbatim>\<open>os.MkdirTemp\<close> appends a random number, in decimal, and tries again while the name exists; the
  number is the world's.
\<close>

definition random_number :: "string \<Rightarrow> nat" where
  "random_number bytes = foldl (\<lambda>n c. n * 256 + byte_of c) 0 bytes"

definition prepareWorkDir :: "fs_world \<Rightarrow> path \<Rightarrow> string \<Rightarrow> duration \<Rightarrow> (io_error + path) fsm" where
  "prepareWorkDir W parent runID staleAfter =
     attempt (MkdirAll W parent) (\<lambda>_. do {
       now \<leftarrow> Now W;
       _ \<leftarrow> sweepStaleWorkDirs W parent staleAfter now;
       rnd \<leftarrow> Random W;
       case rnd of
         None \<Rightarrow> give (Inl Failed)
       | Some random \<Rightarrow>
           let dir = parent @ [workDirPrefix @ runID @ ''-'' @ show_nat (random_number random)] in
           attempt (Mkdir W dir) (\<lambda>_.
           attempt (on_failure (Chmod W dir) (RemoveAll W dir)) (\<lambda>_.
             if 0 < staleAfter
             then attempt (on_failure (WriteFile W (dir @ [deadlineFile]) (itoa (unix_of (now + staleAfter)) @ [CHR 10])) (RemoveAll W dir))
                    (\<lambda>_. give (Inr dir))
             else give (Inr dir)))
     })"

subsection \<open>Copying trees\<close>

definition copyFile :: "fs_world \<Rightarrow> path \<Rightarrow> path \<Rightarrow> (io_error + unit) fsm" where
  "copyFile W src dst =
     attempt (ReadFile W src) (\<lambda>d.
       if maxStateFileSize < length d then give (Inl Failed) else WriteFile W dst (take maxStateFileSize d))"

fun copy_entries :: "fs_world \<Rightarrow> path \<Rightarrow> path \<Rightarrow> path list \<Rightarrow> (io_error + unit) fsm" where
  "copy_entries W src dst [] = give (Inr ())"
| "copy_entries W src dst (q # qs) =
     attempt (Lstat W (src @ q)) (\<lambda>nd.
     attempt (case nd of
                NDir \<Rightarrow> MkdirAll W (dst @ q)
              | NFile _ \<Rightarrow> copyFile W (src @ q) (dst @ q)
              | NLink _ \<Rightarrow> give (Inr ())) (\<lambda>_.
     copy_entries W src dst qs))"

definition copyTree :: "fs_world \<Rightarrow> path \<Rightarrow> path \<Rightarrow> (io_error + unit) fsm" where
  "copyTree W src dst =
     attempt (EvalSymlinks W src) (\<lambda>src.
     attempt (Lstat W src) (\<lambda>nd.
       if nd \<noteq> NDir then give (Inl Failed)
       else attempt (WalkDir W src) (\<lambda>ps. copy_entries W src dst ps)))"

subsection \<open>The account state\<close>

definition accountVersionsDir :: string where "accountVersionsDir = ''accounts.d''"
definition stateLockFile :: string where "stateLockFile = ''.lock''"

definition accountVersionRe :: "string \<Rightarrow> bool" where
  "accountVersionRe s \<longleftrightarrow>
     (let d = takeWhile is_digit s; h = drop (length d) s in
      d \<noteq> [] \<and> length h = 9 \<and> hd h = CHR ''-'' \<and> list_all is_lower_hex (tl h))"

definition link_target :: "path \<Rightarrow> string \<Rightarrow> path option" where
  "link_target versions target =
     (let parts = Split sep target in
      if (target \<noteq> [] \<and> hd target = sep) \<or> length parts \<noteq> 2 \<or> parts ! 0 \<noteq> accountVersionsDir \<or> \<not> accountVersionRe (parts ! 1)
      then None else Some (versions @ [parts ! 1]))"

definition validateAccountsLayout :: "fs_world \<Rightarrow> path \<Rightarrow> (io_error + path option) fsm" where
  "validateAccountsLayout W stateDir =
     do {
       let versions = stateDir @ [accountVersionsDir];
       let link = stateDir @ [AccountsDir];
       v \<leftarrow> Lstat W versions;
       if (case v of Inl e \<Rightarrow> e \<noteq> NotExist | Inr nd \<Rightarrow> nd \<noteq> NDir)
       then give (Inl (case v of Inl e \<Rightarrow> e | Inr _ \<Rightarrow> Failed))
       else do {
         l \<leftarrow> Lstat W link;
         case l of
           Inl e \<Rightarrow> give (if e = NotExist then Inr None else Inl e)
         | Inr nd \<Rightarrow>
             (case nd of
                NDir \<Rightarrow> give (Inl Failed)
              | NFile _ \<Rightarrow> give (Inl Failed)
              | NLink _ \<Rightarrow> do {
                  t \<leftarrow> Readlink W link;
                  case t of
                    Inl _ \<Rightarrow> give (Inl Failed)
                  | Inr target \<Rightarrow>
                      (case link_target versions target of
                         None \<Rightarrow> give (Inl Failed)
                       | Some dir \<Rightarrow> do {
                           i \<leftarrow> Lstat W dir;
                           give (if i = Inr NDir then Inr (Some dir) else Inl Failed) }) }) }
     }"

definition loadAccounts :: "fs_world \<Rightarrow> path \<Rightarrow> path \<Rightarrow> (io_error + unit) fsm" where
  "loadAccounts W stateDir work =
     attempt (MkdirAll W stateDir) (\<lambda>_.
     attempt (Lock W (stateDir @ [stateLockFile])) (\<lambda>_.
     attempt (validateAccountsLayout W stateDir) (\<lambda>current.
       case current of
         None \<Rightarrow> give (Inr ())
       | Some dir \<Rightarrow> do {
           c \<leftarrow> copyTree W dir (work @ [AccountsDir]);
           give (case c of Inl _ \<Rightarrow> Inl Failed | Inr _ \<Rightarrow> Inr ()) })))"

fun prune_versions :: "fs_world \<Rightarrow> path \<Rightarrow> string \<Rightarrow> string list \<Rightarrow> unit fsm" where
  "prune_versions W versions keep [] = give ()"
| "prune_versions W versions keep (e # es) =
     do {
       nd \<leftarrow> Lstat W (versions @ [e]);
       if e = keep \<or> nd \<noteq> Inr NDir \<or> \<not> accountVersionRe e then prune_versions W versions keep es
       else do { _ \<leftarrow> RemoveAll W (versions @ [e]); prune_versions W versions keep es }
     }"

text \<open>From the fresh copy to the swapped link; a failure removes what it made.\<close>

definition swap_accounts :: "fs_world \<Rightarrow> path \<Rightarrow> string \<Rightarrow> string \<Rightarrow> (io_error + unit) fsm" where
  "swap_accounts W stateDir version linkTmp =
     (let fresh = stateDir @ [accountVersionsDir, version]; tmp = stateDir @ [linkTmp] in
      attempt (on_failure (fsyncDir W fresh) (RemoveAll W fresh)) (\<lambda>_.
      attempt (on_failure (fsyncDir W (stateDir @ [accountVersionsDir])) (RemoveAll W fresh)) (\<lambda>_.
      attempt (on_failure (Symlink W (accountVersionsDir @ sep # version) tmp) (RemoveAll W fresh)) (\<lambda>_.
      on_failure (Rename W tmp (stateDir @ [AccountsDir])) (do { RemoveAll W tmp; RemoveAll W fresh })))))"

definition settle_accounts :: "fs_world \<Rightarrow> path \<Rightarrow> string \<Rightarrow> (io_error + unit) fsm" where
  "settle_accounts W stateDir version =
     attempt (fsyncDir W stateDir) (\<lambda>_. do {
       w \<leftarrow> WalkDir W (stateDir @ [accountVersionsDir]);
       case w of
         Inl _ \<Rightarrow> give (Inr ())
       | Inr ps \<Rightarrow> do { _ \<leftarrow> prune_versions W (stateDir @ [accountVersionsDir]) version (entries ps); give (Inr ()) } })"

definition publish_accounts :: "fs_world \<Rightarrow> path \<Rightarrow> path \<Rightarrow> string \<Rightarrow> string \<Rightarrow> (io_error + unit) fsm" where
  "publish_accounts W src stateDir version linkTmp =
     (let fresh = stateDir @ [accountVersionsDir, version] in
      attempt (on_failure (copyTree W src fresh) (RemoveAll W fresh)) (\<lambda>_.
      attempt (swap_accounts W stateDir version linkTmp) (\<lambda>_.
      settle_accounts W stateDir version)))"

definition persistAccounts :: "fs_world \<Rightarrow> path \<Rightarrow> path \<Rightarrow> (io_error + unit) fsm" where
  "persistAccounts W work stateDir =
     do {
       let src = work @ [AccountsDir];
       s \<leftarrow> Lstat W src;
       case s of
         Inl e \<Rightarrow> give (if e = NotExist then Inr () else Inl e)
       | Inr _ \<Rightarrow>
           attempt (MkdirAll W stateDir) (\<lambda>_.
           attempt (Lock W (stateDir @ [stateLockFile])) (\<lambda>_.
           attempt (validateAccountsLayout W stateDir) (\<lambda>_. do {
             m \<leftarrow> Mkdir W (stateDir @ [accountVersionsDir]);
             if (case m of Inl e \<Rightarrow> e \<noteq> Exist | Inr _ \<Rightarrow> False) then give m
             else do {
               rnd \<leftarrow> Random W;
               now \<leftarrow> Now W;
               case rnd of
                 None \<Rightarrow> give (Inl Failed)
               | Some nonce \<Rightarrow>
                   publish_accounts W src stateDir (itoa (now - unix_time 0) @ ''-'' @ hex_encode nonce) (''.accounts-'' @ hex_encode nonce) }
           })))
     }"

subsection \<open>Generations\<close>

definition accountGenerationsDir :: string where "accountGenerationsDir = ''acme-accounts''"
definition accountTargetsDir :: string where "accountTargetsDir = ''targets''"

definition mkdirRealComponent :: "fs_world \<Rightarrow> path \<Rightarrow> (io_error + unit) fsm" where
  "mkdirRealComponent W p =
     do {
       l \<leftarrow> Lstat W p;
       case l of
         Inr nd \<Rightarrow> give (if nd = NDir then Inr () else Inl Failed)
       | Inl e \<Rightarrow>
           if e \<noteq> NotExist then give (Inl e)
           else do { m \<leftarrow> Mkdir W p; give (if m = Inl Exist then Inr () else m) }
     }"

fun make_components :: "fs_world \<Rightarrow> path \<Rightarrow> string list \<Rightarrow> (io_error + path) fsm" where
  "make_components W dir [] = give (Inr dir)"
| "make_components W dir (c # cs) =
     attempt (mkdirRealComponent W (join_path dir c)) (\<lambda>_. make_components W (join_path dir c) cs)"

definition accountsRoot :: "fs_world \<Rightarrow> path \<Rightarrow> string \<Rightarrow> account_ref \<Rightarrow> (io_error + path) fsm" where
  "accountsRoot W stateDir binding account =
     attempt (MkdirAll W stateDir) (\<lambda>_.
       make_components W stateDir
         ([accountGenerationsDir, binding] @ (if ar_Scope account \<noteq> [] then [accountTargetsDir, ar_Scope account] else [])
          @ [itoa (ar_Generation account)]))"

text \<open>\<open>uri\<close> reads the member \<^verbatim>\<open>registration.uri\<close> of an account file.\<close>

fun find_registered :: "fs_world \<Rightarrow> (string \<Rightarrow> string option) \<Rightarrow> path \<Rightarrow> path list \<Rightarrow> bool fsm" where
  "find_registered W uri root [] = give False"
| "find_registered W uri root (q # qs) =
     do {
       nd \<leftarrow> Lstat W (root @ q);
       if (case nd of Inl _ \<Rightarrow> True | Inr nd \<Rightarrow> nd = NDir) \<or> last (root @ q) \<noteq> ''account.json'' then find_registered W uri root qs
       else do {
         data \<leftarrow> ReadFile W (root @ q);
         if (case data of Inl _ \<Rightarrow> False | Inr d \<Rightarrow> (case uri (take maxStateFileSize d) of None \<Rightarrow> False | Some u \<Rightarrow> u \<noteq> []))
         then give True else find_registered W uri root qs }
     }"

definition accountsTreeRegistered :: "fs_world \<Rightarrow> (string \<Rightarrow> string option) \<Rightarrow> path \<Rightarrow> bool fsm" where
  "accountsTreeRegistered W uri root =
     do { w \<leftarrow> WalkDir W root; case w of Inl _ \<Rightarrow> give False | Inr ps \<Rightarrow> find_registered W uri root ps }"

definition accountRegistered :: "fs_world \<Rightarrow> (string \<Rightarrow> string option) \<Rightarrow> path \<Rightarrow> bool fsm" where
  "accountRegistered W uri dir = accountsTreeRegistered W uri (dir @ [AccountsDir])"

definition publishedAccountRegistered :: "fs_world \<Rightarrow> (string \<Rightarrow> string option) \<Rightarrow> path \<Rightarrow> (io_error + bool) fsm" where
  "publishedAccountRegistered W uri stateRoot =
     attempt (Lock W (stateRoot @ [stateLockFile])) (\<lambda>_.
     attempt (validateAccountsLayout W stateRoot) (\<lambda>current.
       case current of
         None \<Rightarrow> give (Inr False)
       | Some dir \<Rightarrow> do { b \<leftarrow> accountsTreeRegistered W uri dir; give (Inr b) }))"

definition maxProvisioningKeyFileSize :: nat where "maxProvisioningKeyFileSize = 16 * 1024"

fun load_keys ::
  "fs_world \<Rightarrow> sealing \<Rightarrow> (string \<Rightarrow> string option) \<Rightarrow> (string \<rightharpoonup> string) \<Rightarrow> path list \<Rightarrow> (io_error + (string \<rightharpoonup> string)) fsm" where
  "load_keys W S parse keys [] = give (Inr keys)"
| "load_keys W S parse keys (p # ps) =
     attempt (ReadFile W p) (\<lambda>d.
       case parse (take maxProvisioningKeyFileSize d) of
         None \<Rightarrow> give (Inl Failed)
       | Some key \<Rightarrow> load_keys W S parse (keys(ProvisioningKeyID S (x_public S key) \<mapsto> key)) ps)"

definition loadProvisioningKeys ::
  "fs_world \<Rightarrow> sealing \<Rightarrow> (string \<Rightarrow> string option) \<Rightarrow> path list \<Rightarrow> (io_error + (string \<rightharpoonup> string)) fsm" where
  "loadProvisioningKeys W S parse files = load_keys W S parse Map.empty files"

subsection \<open>Where these operations write\<close>

lemma apart_append: "apart a p \<Longrightarrow> apart a (p @ q)"
  by (rule apart_below) (auto simp: below_def)

lemmas avoid_intros = avoid_rules apart_append

lemma work_dir_expired_avoids: "avoids a (work_dir_expired W staleAfter now dir)"
  unfolding work_dir_expired_def
  by (intro avoid_rules) (auto simp: avoids_def split: sum.splits)

lemma sweep_dirs_avoids: "apart a parent \<Longrightarrow> avoids a (sweep_dirs W parent staleAfter now es)"
  by (induction es) (auto intro!: avoid_intros work_dir_expired_avoids)

lemma prepareWorkDir_avoids:
  assumes "apart a parent"
  shows "avoids a (prepareWorkDir W parent runID staleAfter)"
proof -
  have "\<not> prefix a parent" using assms by (simp add: apart_def)
  then show ?thesis using assms unfolding prepareWorkDir_def sweepStaleWorkDirs_def Let_def
    by (auto intro!: avoid_intros sweep_dirs_avoids split: option.splits sum.splits)
qed

lemma copy_entries_avoids: "apart a dst \<Longrightarrow> avoids a (copy_entries W src dst qs)"
proof (induction qs)
  case (Cons q qs)
  have "\<not> prefix a (dst @ q)" using apart_append[OF Cons.prems, of q] by (simp add: apart_def)
  then show ?case using Cons by (auto simp: copyFile_def intro!: avoid_intros)
qed (simp add: avoid_rules)

lemma copyTree_avoids: "apart a dst \<Longrightarrow> avoids a (copyTree W src dst)"
  unfolding copyTree_def by (auto intro!: avoid_intros copy_entries_avoids)

lemma validateAccountsLayout_avoids: "avoids a (validateAccountsLayout W stateDir)"
  unfolding validateAccountsLayout_def Let_def
  by (auto intro!: avoid_intros split: sum.splits node.splits option.splits)

lemma loadAccounts_avoids:
  assumes "apart a stateDir" "apart a work"
  shows "avoids a (loadAccounts W stateDir work)"
proof -
  have "\<not> prefix a stateDir" using assms by (simp add: apart_def)
  then show ?thesis using assms unfolding loadAccounts_def
    by (auto intro!: avoid_intros validateAccountsLayout_avoids copyTree_avoids split: option.splits)
qed

lemma prune_versions_avoids: "apart a versions \<Longrightarrow> avoids a (prune_versions W versions keep es)"
  by (induction es) (auto intro!: avoid_intros)

lemma publish_accounts_avoids:
  assumes "apart a stateDir"
  shows "avoids a (publish_accounts W src stateDir version linkTmp)"
  using assms unfolding publish_accounts_def swap_accounts_def settle_accounts_def Let_def
  by (auto intro!: avoid_intros copyTree_avoids prune_versions_avoids split: sum.splits)

lemma persistAccounts_avoids:
  assumes "apart a stateDir"
  shows "avoids a (persistAccounts W work stateDir)"
proof -
  have "\<not> prefix a stateDir" using assms by (simp add: apart_def)
  then show ?thesis using assms unfolding persistAccounts_def Let_def
    by (auto intro!: avoid_intros validateAccountsLayout_avoids publish_accounts_avoids split: sum.splits option.splits)
qed

lemma find_registered_avoids: "avoids a (find_registered W uri root ps)"
  by (induction ps) (auto intro!: avoid_intros)

lemma accountsTreeRegistered_avoids: "avoids a (accountsTreeRegistered W uri root)"
  unfolding accountsTreeRegistered_def by (auto intro!: avoid_intros find_registered_avoids split: sum.splits)

lemma publishedAccountRegistered_avoids: "apart a root \<Longrightarrow> avoids a (publishedAccountRegistered W uri root)"
  unfolding publishedAccountRegistered_def
  by (auto intro!: avoid_intros validateAccountsLayout_avoids accountsTreeRegistered_avoids split: option.splits)

lemma loadProvisioningKeys_avoids: "avoids a (loadProvisioningKeys W S parse files)"
proof -
  have "avoids a (load_keys W S parse keys files)" for keys
    by (induction files arbitrary: keys) (auto intro!: avoid_intros split: option.splits)
  then show ?thesis by (simp add: loadProvisioningKeys_def)
qed

text \<open>A name that is one component of a path.\<close>

definition component :: "string \<Rightarrow> bool" where
  "component c \<longleftrightarrow> c \<noteq> [] \<and> c \<noteq> ''.'' \<and> c \<noteq> ''..'' \<and> sep \<notin> set c"

lemma join_component: "component c \<Longrightarrow> join_path p c = p @ [c]"
  by (simp add: component_def join_path_def Split_no_sep clean_step_def)

lemma make_components_avoids:
  "apart a dir \<Longrightarrow> list_all component cs \<Longrightarrow> avoids a (make_components W dir cs)"
  by (induction cs arbitrary: dir) (auto simp: join_component mkdirRealComponent_def intro!: avoid_intros split: sum.splits)

lemma make_components_result:
  "run_state (make_components W dir cs) s = (Inr d, s') \<Longrightarrow> list_all component cs \<Longrightarrow> d = dir @ cs"
  by (induction cs arbitrary: dir s) (fastforce simp: join_component attempt_Inr)+

lemma accountsRoot_avoids:
  assumes "apart a stateDir" "component binding" "ar_Scope acct = [] \<or> component (ar_Scope acct)" "component (itoa (ar_Generation acct))"
  shows "avoids a (accountsRoot W stateDir binding acct)"
    and "run_state (accountsRoot W stateDir binding acct) s = (Inr d, s') \<Longrightarrow> \<exists>cs. d = stateDir @ cs \<and> list_all component cs"
proof -
  let ?cs = "[accountGenerationsDir, binding] @ (if ar_Scope acct \<noteq> [] then [accountTargetsDir, ar_Scope acct] else []) @ [itoa (ar_Generation acct)]"
  have "component accountGenerationsDir" "component accountTargetsDir" by code_simp+
  then have cs: "list_all component ?cs" using assms by auto
  have "\<not> prefix a stateDir" using assms by (simp add: apart_def)
  then show "avoids a (accountsRoot W stateDir binding acct)"
    unfolding accountsRoot_def by (rule avoids_attempt[OF avoids_mkdirall make_components_avoids[OF assms(1) cs]])
  show "\<exists>cs. d = stateDir @ cs \<and> list_all component cs" if "run_state (accountsRoot W stateDir binding acct) s = (Inr d, s')"
    using that make_components_result[OF _ cs] cs unfolding accountsRoot_def attempt_Inr by blast
qed

lemma prepareWorkDir_result:
  assumes "run_state (prepareWorkDir W parent runID age) s = (Inr d, s')"
  shows "\<exists>n. d = parent @ [workDirPrefix @ runID @ ''-'' @ show_nat n]"
proof -
  let ?Q = "\<lambda>r s. \<forall>d. r = Inr d \<longrightarrow> (\<exists>n. d = parent @ [workDirPrefix @ runID @ ''-'' @ show_nat n])"
  have "triple (\<lambda>_. True) (prepareWorkDir W parent runID age) ?Q"
    unfolding prepareWorkDir_def Let_def
    by (intro triple_attempt_any triple_bind_any) (auto intro!: triple_attempt_any triple_return split: option.splits)
  from tripleD[OF this _ assms] show ?thesis by blast
qed

end
