(* ===== verification/RunnerFiles.thy ===== *)
theory RunnerFiles
  imports ReconcileSafe Accounts
begin

text \<open>
  The Runner on a machine with a file system: the store providers (\<^verbatim>\<open>internal/runner/stores\<close> and the
  opening of a filesystem store), lego's output files, and the operations of the reconcile put
  together from the models of the store, the account state and the work directories. The state is
  the system call counter with the file system. lego and other store providers are parameters.
\<close>

subsection \<open>Paths as text\<close>

definition path_of :: "string \<Rightarrow> path" where
  "path_of s = filter (\<lambda>c. c \<noteq> []) (Split sep s)"

definition text_of :: "path \<Rightarrow> string" where
  "text_of p = concat (map (\<lambda>c. sep # c) p)"

subsection \<open>Store providers\<close>

type_synonym 's provider = "string \<Rightarrow> ('s, io_error + 's cert_store) state"

definition Registry_Open :: "(string \<times> 's provider) list \<Rightarrow> store_binding \<Rightarrow> ('s, io_error + 's cert_store) state" where
  "Registry_Open providers b =
     (case map_of providers (sb_Type b) of
        None \<Rightarrow> State_Monad.return (Inl Failed)
      | Some p \<Rightarrow> if sb_Config b = [] then State_Monad.return (Inl Failed) else p (sb_Config b))"

definition filesystemType :: string where "filesystemType = ''filesystem''"

text \<open>\<open>directory\<close> reads the member \<^verbatim>\<open>directory\<close> of the configuration object strictly.\<close>

definition ParseConfig :: "(string \<Rightarrow> string option) \<Rightarrow> string \<Rightarrow> string option" where
  "ParseConfig directory raw =
     (case directory raw of None \<Rightarrow> None | Some d \<Rightarrow> if d = [] \<or> \<not> clean_abs d then None else Some d)"

subsection \<open>Output files\<close>

definition CertificatesDir :: string where "CertificatesDir = ''certificates''"

definition output_file :: "string \<Rightarrow> string \<Rightarrow> string \<Rightarrow> path" where
  "output_file workDir fqdn ext = path_of workDir @ [CertificatesDir, SanitizedDomain fqdn @ ext]"

definition ReadOutputs :: "fs_world \<Rightarrow> string \<Rightarrow> string \<Rightarrow> (io_error + (string \<times> string \<times> string)) fsm" where
  "ReadOutputs W workDir fqdn =
     attempt (ReadFile W (output_file workDir fqdn ''.crt'')) (\<lambda>cert.
     attempt (ReadFile W (output_file workDir fqdn ''.key'')) (\<lambda>key. do {
       issuer \<leftarrow> ReadFile W (output_file workDir fqdn ''.issuer.crt'');
       give (case issuer of
               Inr d \<Rightarrow> Inr (cert, key, d)
             | Inl e \<Rightarrow> if e = NotExist then Inr (cert, key, []) else Inl e) }))"

subsection \<open>The machine\<close>

record site =
  si_world :: fs_world
  si_pki :: pki
  si_unicode :: unicode
  si_errorText :: "run_cause \<Rightarrow> string"
  si_lookupEnv :: "string \<Rightarrow> string option"
  si_grace :: duration
  si_sealing :: sealing
  si_eabCodec :: "provisioning_eab codec"
  si_lego :: "duration \<Rightarrow> invocation \<Rightarrow> (io_error + lego_outcome) fsm"
  si_uri :: "string \<Rightarrow> string option"
  si_parseKey :: "string \<Rightarrow> string option"
  si_order :: "string list"
  si_directory :: "string \<Rightarrow> string option"
  si_providers :: "(string \<times> (nat \<times> fs) provider) list"

definition fs_store :: "site \<Rightarrow> path \<Rightarrow> (nat \<times> fs) cert_store" where
  "fs_store S root =
     \<lparr>st_Type = filesystemType, st_ObjectName = ObjectName (px_sha (si_pki S)),
      st_Current = Current (si_world S) (si_pki S) root,
      st_Put = (\<lambda>object b. do {
        now \<leftarrow> Now (si_world S);
        rnd \<leftarrow> Random (si_world S);
        Put (si_world S) (si_pki S) root (now - unix_time 0) rnd (si_order S) object b })\<rparr>"

definition New :: "site \<Rightarrow> string \<Rightarrow> (io_error + (nat \<times> fs) cert_store) fsm" where
  "New S root =
     (if \<not> is_abs root then give (Inl Failed)
      else attempt (MkdirAll (si_world S) (path_of root)) (\<lambda>_. give (Inr (fs_store S (path_of root)))))"

definition fs_provider :: "site \<Rightarrow> (nat \<times> fs) provider" where
  "fs_provider S raw = (case ParseConfig (si_directory S) raw of None \<Rightarrow> give (Inl Failed) | Some d \<Rightarrow> New S d)"

definition as_text :: "(io_error + path) fsm \<Rightarrow> (io_error + string) fsm" where
  "as_text m = attempt m (\<lambda>p. give (Inr (text_of p)))"

definition file_ops :: "site \<Rightarrow> (nat \<times> fs) runner_ops" where
  "file_ops S =
     \<lparr>op_pki = si_pki S, op_unicode = si_unicode S, op_errorText = si_errorText S, op_lookupEnv = si_lookupEnv S,
      op_grace = si_grace S, op_now = Now (si_world S), op_ctxErr = CtxErr (si_world S),
      op_openStore = Registry_Open ((filesystemType, fs_provider S) # si_providers S),
      op_accountsRoot = (\<lambda>stateDir binding account. as_text (accountsRoot (si_world S) (path_of stateDir) binding account)),
      op_prepareWorkDir = (\<lambda>parent runID age. as_text (prepareWorkDir (si_world S) (path_of parent) runID age)),
      op_cleanup = (\<lambda>work. do { _ \<leftarrow> RemoveAll (si_world S) (path_of work); give () }),
      op_loadAccounts = (\<lambda>stateDir work. loadAccounts (si_world S) (path_of stateDir) (path_of work)),
      op_accountRegistered = (\<lambda>work. accountRegistered (si_world S) (si_uri S) (path_of work)),
      op_loadProvisioningKeys = (\<lambda>files. loadProvisioningKeys (si_world S) (si_sealing S) (si_parseKey S) (map path_of files)),
      op_sealing = si_sealing S, op_eabCodec = si_eabCodec S,
      op_runLego = si_lego S,
      op_persistAccounts = (\<lambda>work stateDir. persistAccounts (si_world S) (path_of work) (path_of stateDir)),
      op_publishedAccountRegistered = (\<lambda>stateDir. publishedAccountRegistered (si_world S) (si_uri S) (path_of stateDir)),
      op_readOutputs = ReadOutputs (si_world S)\<rparr>"

text \<open>
  What a site promises for a job: the job is valid, its store is a filesystem store apart from the
  state and work directories, lego writes in its work directory only, the clock is past the Unix
  epoch, the digest has 32 bytes, and failures do not pass for missing files.
\<close>

definition store_root :: "site \<Rightarrow> runner_config \<Rightarrow> job_spec \<Rightarrow> path" where
  "store_root S cfg spec =
     (case map_of (rc_StoreBindings cfg) (js_StoreBinding spec) of
        None \<Rightarrow> []
      | Some b \<Rightarrow> (case si_directory S (sb_Config b) of None \<Rightarrow> [] | Some d \<Rightarrow> path_of d))"

definition job_object :: "site \<Rightarrow> job_spec \<Rightarrow> string" where
  "job_object S spec = ObjectName (px_sha (si_pki S)) (tr_FQDN (js_Target spec))"

definition site_ok :: "site \<Rightarrow> runner_config \<Rightarrow> job_spec \<Rightarrow> bool" where
  "site_ok S cfg spec \<longleftrightarrow>
     JobSpec_Validate spec = None \<and>
     (\<forall>b. map_of (rc_StoreBindings cfg) (js_StoreBinding spec) = Some b \<longrightarrow> sb_Type b = filesystemType) \<and>
     apart (store_root S cfg spec) (path_of (lg_StateDir (rc_Lego cfg))) \<and>
     apart (store_root S cfg spec) (path_of (lg_WorkDir (rc_Lego cfg))) \<and>
     (\<forall>t cmd. confined {path_of (inv_Dir cmd)} (si_lego S t cmd)) \<and>
     (\<forall>n. unix_time 0 \<le> fw_now (si_world S) n) \<and> (\<forall>s. length (px_sha (si_pki S) s) = 32) \<and>
     honest (si_world S) \<and> bundle_order (si_order S)"

definition job_store_ok :: "site \<Rightarrow> runner_config \<Rightarrow> job_spec \<Rightarrow> nat \<times> fs \<Rightarrow> bool" where
  "job_store_ok S cfg spec s \<longleftrightarrow> site_ok S cfg spec \<and> store_ok (si_pki S) (store_root S cfg spec @ [job_object S spec]) (snd s)"

definition job_view :: "site \<Rightarrow> runner_config \<Rightarrow> job_spec \<Rightarrow> nat \<times> fs \<Rightarrow> store_error + cert_info" where
  "job_view S cfg spec s = store_view (si_pki S) (store_root S cfg spec) (job_object S spec) (snd s)"

definition outside_store :: "site \<Rightarrow> runner_config \<Rightarrow> job_spec \<Rightarrow> string \<Rightarrow> bool" where
  "outside_store S cfg spec d \<longleftrightarrow> (site_ok S cfg spec \<longrightarrow> apart (store_root S cfg spec @ [job_object S spec]) (path_of d))"

definition clock_reads :: "site \<Rightarrow> gotime \<Rightarrow> bool" where
  "clock_reads S t \<longleftrightarrow> t \<in> range (fw_now (si_world S))"

subsection \<open>Paths\<close>

lemma path_of_text: "list_all (\<lambda>c. c \<noteq> [] \<and> sep \<notin> set c) p \<Longrightarrow> path_of (text_of p) = p"
proof -
  have "list_all (\<lambda>c. c \<noteq> [] \<and> sep \<notin> set c) p \<Longrightarrow> filter (\<lambda>c. c \<noteq> []) (Split sep (a @ text_of p)) = filter (\<lambda>c. c \<noteq> []) [a] @ p"
    if "sep \<notin> set a" for a using that
  proof (induction p arbitrary: a)
    case (Cons c p)
    have "a @ text_of (c # p) = a @ sep # (c @ text_of p)" by (simp add: text_of_def)
    then show ?case using Cons.IH[of c] Cons.prems by (simp only: Split_append_sep) (simp add: Split_no_sep)
  qed (simp add: text_of_def Split_no_sep)
  from this[of "[]"] show "list_all (\<lambda>c. c \<noteq> [] \<and> sep \<notin> set c) p \<Longrightarrow> path_of (text_of p) = p" by (simp add: path_of_def)
qed

lemma path_of_components: "list_all (\<lambda>c. c \<noteq> [] \<and> sep \<notin> set c) (path_of s)"
  by (auto simp: path_of_def list_all_iff dest: Split_free)

lemma path_of_below: "list_all component cs \<Longrightarrow> path_of (text_of (path_of s @ cs)) = path_of s @ cs"
  using path_of_components[of s] by (intro path_of_text) (auto simp: list_all_iff component_def)

subsection \<open>The operations leave the job's object alone\<close>

lemma site_facts:
  assumes "site_ok S cfg spec"
  shows "IsStoreObjectRef (job_object S spec)"
    "apart (store_root S cfg spec @ [job_object S spec]) (path_of (lg_StateDir (rc_Lego cfg)))"
    "apart (store_root S cfg spec @ [job_object S spec]) (path_of (lg_WorkDir (rc_Lego cfg)))"
proof -
  have sym: "apart (a @ [c]) p" if "apart a p" for a p and c :: string
    using that apart_append[of p a "[c]"] by (auto simp: apart_def)
  show "apart (store_root S cfg spec @ [job_object S spec]) (path_of (lg_StateDir (rc_Lego cfg)))"
    "apart (store_root S cfg spec @ [job_object S spec]) (path_of (lg_WorkDir (rc_Lego cfg)))"
    using assms by (auto simp: site_ok_def intro: sym)
  show "IsStoreObjectRef (job_object S spec)"
    using assms ObjectNameN_legal[of "px_sha (si_pki S)" "int MaxStoreObjectRefLength"]
    by (simp add: site_ok_def job_object_def ObjectName_def MaxStoreObjectRefLength_def)
qed

lemma same_state_local: "(\<And>q. below dir q \<Longrightarrow> f' q = f q) \<Longrightarrow> same_state P dir f f'"
  by (rule same_agree) (auto simp: below_def dir_ok_def)

lemma job_same:
  assumes "job_store_ok S cfg spec (n, f)" "same_state (si_pki S) (store_root S cfg spec @ [job_object S spec]) f f'"
  shows "job_store_ok S cfg spec (n', f') \<and> job_view S cfg spec (n', f') = job_view S cfg spec (n, f)"
  using view_same[OF site_facts(1)[of S cfg spec] _ assms(2)] assms(1)
  by (simp add: job_store_ok_def job_view_def)

lemma avoids_leaves:
  assumes "site_ok S cfg spec \<Longrightarrow> avoids (store_root S cfg spec @ [job_object S spec]) m"
    and "\<And>s r s'. site_ok S cfg spec \<Longrightarrow> run_state m s = (r, s') \<Longrightarrow> Q r"
  shows "leaves (job_store_ok S cfg spec) (job_view S cfg spec) m Q"
proof (rule leavesI)
  fix s r s' assume ok: "job_store_ok S cfg spec s" and run: "run_state m s = (r, s')"
  obtain n f n' f' where s: "s = (n, f)" "s' = (n', f')" by (cases s; cases s') auto
  have site: "site_ok S cfg spec" using ok by (simp add: job_store_ok_def)
  have "same_state (si_pki S) (store_root S cfg spec @ [job_object S spec]) f f'"
    using avoidsD[OF assms(1)[OF site] run[unfolded s]] by (rule same_state_local)
  then show "Q r \<and> job_store_ok S cfg spec s' \<and> job_view S cfg spec s' = job_view S cfg spec s"
    using job_same[OF ok[unfolded s]] assms(2)[OF site run] by (simp add: s)
qed

lemma as_text_avoids: "avoids a m \<Longrightarrow> avoids a (as_text m)"
  unfolding as_text_def by (auto intro!: avoid_rules)

lemma component_name: "s \<noteq> [] \<Longrightarrow> list_all b64_char s \<Longrightarrow> component s"
proof -
  have no: "\<not> b64_char CHR ''.''" "\<not> b64_char sep" by code_simp+
  show "s \<noteq> [] \<Longrightarrow> list_all b64_char s \<Longrightarrow> component s"
    using no by (auto simp: component_def list_all_iff)
qed

lemma job_components:
  assumes "JobSpec_Validate spec = None"
  shows "component (js_ACMEBinding spec)" "component (js_RunID spec)"
    "js_ACMEAccount spec = Some a \<Longrightarrow> (ar_Scope a = [] \<or> component (ar_Scope a)) \<and> component (itoa (ar_Generation a))"
proof -
  note v = JobSpec_ValidateD[OF assms]
  have ident: "component s" if "identifierRe s" for s
    using that by (cases s) (auto simp: identifierRe_def b64_char_def intro!: component_name)
  show "component (js_RunID spec)" by (rule ident[OF v(1)])
  have "list_all b64_char (js_ACMEBinding spec) \<and> js_ACMEBinding spec \<noteq> []"
  proof -
    have re: "re_ends is_lower_alnum (\<lambda>c. is_lower_alnum c \<or> c = CHR ''-'') 61 (js_ACMEBinding spec)"
      using v(9) by (simp add: IsBindingName_def bindingNameRe_def)
    have low: "is_lower_alnum c \<Longrightarrow> b64_char c" for c by (auto simp: is_lower_alnum_def is_alnum_def b64_char_def)
    then show ?thesis using re_ends_all[OF re] low v(9)
      by (auto simp: list_all_iff IsBindingName_def b64_char_def)
  qed
  then show "component (js_ACMEBinding spec)" by (intro component_name) auto
  assume a: "js_ACMEAccount spec = Some a"
  have "ar_Scope a = [] \<or> component (ar_Scope a)" using v(12)[OF a] ident[OF v(2)] by auto
  moreover have "component (itoa (ar_Generation a))"
  proof -
    have "0 \<le> ar_Generation a" using v(12)[OF a] by (auto simp: ACMEAccountRef_validate_def go_checks)
    then have "is_number (itoa (ar_Generation a))" using show_nat_digits by (simp add: itoa_def)
    then show ?thesis by (auto simp: is_number_def list_all_iff b64_char_def is_alnum_def intro!: component_name)
  qed
  ultimately show "(ar_Scope a = [] \<or> component (ar_Scope a)) \<and> component (itoa (ar_Generation a))" by simp
qed

lemma below_work:
  assumes "site_ok S cfg spec" "list_all component cs" "dir \<in> {lg_StateDir (rc_Lego cfg), lg_WorkDir (rc_Lego cfg)}"
  shows "outside_store S cfg spec (text_of (path_of dir @ cs))"
  using assms site_facts(2,3)[OF assms(1)] by (auto simp: outside_store_def path_of_below intro: apart_append)

lemma outsideD: "site_ok S cfg spec \<Longrightarrow> outside_store S cfg spec d \<Longrightarrow> apart (store_root S cfg spec @ [job_object S spec]) (path_of d)"
  by (simp add: outside_store_def)

lemma as_text_Inr: "run_state (as_text m) s = (Inr d, s') \<longleftrightarrow> (\<exists>p. run_state m s = (Inr p, s') \<and> d = text_of p)"
  by (cases s') (auto simp: as_text_def attempt_Inr)

lemma open_store_result:
  assumes "map_of (rc_StoreBindings cfg) (js_StoreBinding spec) = Some b" "site_ok S cfg spec"
  shows "avoids (store_root S cfg spec @ [job_object S spec]) (op_openStore (file_ops S) b)"
    "run_state (op_openStore (file_ops S) b) s = (Inr st, s') \<Longrightarrow> st = fs_store S (store_root S cfg spec)"
proof -
  have open_def: "op_openStore (file_ops S) b = (if sb_Config b = [] then give (Inl Failed) else fs_provider S (sb_Config b))"
    using assms by (simp add: file_ops_def Registry_Open_def site_ok_def)
  have root: "path_of d = store_root S cfg spec" if "si_directory S (sb_Config b) = Some d" for d
    using that assms(1) by (simp add: store_root_def)
  show "avoids (store_root S cfg spec @ [job_object S spec]) (op_openStore (file_ops S) b)"
    unfolding open_def fs_provider_def New_def ParseConfig_def
    by (auto intro!: avoid_rules simp: root split: option.splits)
  show "st = fs_store S (store_root S cfg spec)" if "run_state (op_openStore (file_ops S) b) s = (Inr st, s')"
    using that unfolding open_def fs_provider_def New_def ParseConfig_def
    by (auto simp: attempt_Inr root split: option.splits if_splits)
qed

lemma Put_leaves:
  "triple (shows_as (job_store_ok S cfg spec) (job_view S cfg spec) v) (st_Put (fs_store S (store_root S cfg spec)) (job_object S spec) b)
    (\<lambda>r s. job_store_ok S cfg spec s \<and> (r \<noteq> Inr () \<and> job_view S cfg spec s = v \<or>
       (\<exists>leaf. ParseLeaf (si_pki S) (bd_Certificate b) = Some leaf \<and> job_view S cfg spec s = Inr (InfoOf (si_pki S) leaf))))"
proof (rule tripleI)
  fix s r s' assume s: "shows_as (job_store_ok S cfg spec) (job_view S cfg spec) v s"
    and run: "run_state (st_Put (fs_store S (store_root S cfg spec)) (job_object S spec) b) s = (r, s')"
  obtain n f n' f' where nf: "s = (n, f)" "s' = (n', f')" by (cases s; cases s') auto
  have site: "site_ok S cfg spec" and ok: "store_ok (si_pki S) (store_root S cfg spec @ [job_object S spec]) f"
    using s by (auto simp: shows_as_def job_store_ok_def nf)
  have p: "run_state (Put (si_world S) (si_pki S) (store_root S cfg spec) (fw_now (si_world S) n - unix_time 0) (fw_random (si_world S) n)
      (si_order S) (job_object S spec) b) (n, f) = (r, (n', f'))"
    using run by (simp add: fs_store_def run_bind Now_def Random_def nf)
  from Put_view[OF p] site ok site_facts(1)[OF site] s
  show "job_store_ok S cfg spec s' \<and> (r \<noteq> Inr () \<and> job_view S cfg spec s' = v \<or>
      (\<exists>leaf. ParseLeaf (si_pki S) (bd_Certificate b) = Some leaf \<and> job_view S cfg spec s' = Inr (InfoOf (si_pki S) leaf)))"
    by (auto simp: site_ok_def job_store_ok_def job_view_def shows_as_def nf)
qed

lemma Current_leaves:
  "triple (shows_as (job_store_ok S cfg spec) (job_view S cfg spec) v) (st_Current (fs_store S (store_root S cfg spec)) (job_object S spec))
    (\<lambda>r s. (r = v \<or> (\<exists>e. r = Inl (ErrStoreIO e))) \<and> shows_as (job_store_ok S cfg spec) (job_view S cfg spec) v s)"
proof (rule tripleI)
  fix s r s' assume s: "shows_as (job_store_ok S cfg spec) (job_view S cfg spec) v s"
    and run: "run_state (st_Current (fs_store S (store_root S cfg spec)) (job_object S spec)) s = (r, s')"
  obtain n f n' f' where nf: "s = (n, f)" "s' = (n', f')" by (cases s; cases s') auto
  have ok: "job_store_ok S cfg spec (n, f)" using s by (simp add: shows_as_def nf)
  then have site: "site_ok S cfg spec" "store_ok (si_pki S) (store_root S cfg spec @ [job_object S spec]) f"
    by (auto simp: job_store_ok_def)
  have c: "run_state (Current (si_world S) (si_pki S) (store_root S cfg spec) (job_object S spec)) (n, f) = (r, (n', f'))"
    using run by (simp add: fs_store_def nf)
  have honest: "honest (si_world S)" using site(1) by (simp add: site_ok_def)
  note view = Current_view[OF c honest site(2) site_facts(1)[OF site(1)]]
  then show "(r = v \<or> (\<exists>e. r = Inl (ErrStoreIO e))) \<and> shows_as (job_store_ok S cfg spec) (job_view S cfg spec) v s'"
    using job_same[OF ok] s by (auto simp: shows_as_def job_view_def nf)
qed

interpretation files: runner_frame "file_ops S" cfg spec "fs_store S (store_root S cfg spec)" "job_object S spec"
    "job_store_ok S cfg spec" "job_view S cfg spec" "outside_store S cfg spec" "clock_reads S"
  for S cfg spec
proof (unfold_locales, goal_cases)
  case 1 then show ?case by (simp add: job_store_ok_def site_ok_def)
next
  case 2 then show ?case by (simp add: fs_store_def job_object_def)
next
  case 3 then show ?case using site_facts(2) by (simp add: outside_store_def)
next
  case 4
  have "clock_reads S t" if "run_state (Now (si_world S)) s = (t, s')" for s t s'
    using that by (cases s) (auto simp: Now_def clock_reads_def)
  then show ?case by (intro avoids_leaves) (auto simp: file_ops_def intro: avoid_rules)
next
  case 5 show ?case by (rule avoids_leaves) (auto simp: file_ops_def intro: avoid_rules)
next
  case (6 b) then show ?case using open_store_result[OF 6] by (auto intro!: avoids_leaves)
next
  case (7 a)
  have r: "avoids (store_root S cfg spec @ [job_object S spec]) (accountsRoot (si_world S) (path_of (lg_StateDir (rc_Lego cfg))) (js_ACMEBinding spec) a)"
    "run_state (accountsRoot (si_world S) (path_of (lg_StateDir (rc_Lego cfg))) (js_ACMEBinding spec) a) s = (Inr d, s') \<Longrightarrow>
      outside_store S cfg spec (text_of d)" if "site_ok S cfg spec" for s d s'
  proof -
    have v: "JobSpec_Validate spec = None" using that by (simp add: site_ok_def)
    note root = accountsRoot_avoids[OF site_facts(2)[OF that] job_components(1)[OF v], of a]
    show "avoids (store_root S cfg spec @ [job_object S spec]) (accountsRoot (si_world S) (path_of (lg_StateDir (rc_Lego cfg))) (js_ACMEBinding spec) a)"
      using root(1) job_components(3)[OF v 7] by blast
    show "outside_store S cfg spec (text_of d)"
      if "run_state (accountsRoot (si_world S) (path_of (lg_StateDir (rc_Lego cfg))) (js_ACMEBinding spec) a) s = (Inr d, s')"
      using root(2)[OF _ _ that] job_components(3)[OF v 7] below_work[OF \<open>site_ok S cfg spec\<close>] by blast
  qed
  show ?case by (rule avoids_leaves) (auto simp: file_ops_def as_text_Inr intro!: as_text_avoids dest: r)
next
  case (8 age)
  have "outside_store S cfg spec (text_of d)" if "site_ok S cfg spec"
    "run_state (prepareWorkDir (si_world S) (path_of (lg_WorkDir (rc_Lego cfg))) (js_RunID spec) age) s = (Inr d, s')" for s d s'
  proof -
    have slash: "\<not> is_digit CHR ''/''" by code_simp
    have "component (workDirPrefix @ js_RunID spec @ ''-'' @ show_nat n)" for n
      using job_components(2)[of spec] that(1) show_nat_digits[of n] slash
      by (auto simp: site_ok_def component_def workDirPrefix_def sep_def is_number_def list_all_iff)
    then show ?thesis using prepareWorkDir_result[OF that(2)] below_work[OF that(1), of "[_]"] by auto
  qed
  then show ?case using site_facts(3) by (intro avoids_leaves) (auto simp: file_ops_def as_text_Inr intro!: as_text_avoids prepareWorkDir_avoids)
next
  case (9 w) then show ?case by (intro avoids_leaves) (auto simp: file_ops_def intro!: avoid_rules outsideD)
next
  case (10 d w) then show ?case by (intro avoids_leaves) (auto simp: file_ops_def intro!: loadAccounts_avoids outsideD)
next
  case (11 w) show ?case by (rule avoids_leaves) (auto simp: file_ops_def accountRegistered_def intro!: accountsTreeRegistered_avoids)
next
  case (12 files) show ?case by (rule avoids_leaves) (auto simp: file_ops_def intro!: loadProvisioningKeys_avoids)
next
  case (13 cmd t)
  have "avoids (store_root S cfg spec @ [job_object S spec]) (si_lego S t cmd)" if "site_ok S cfg spec"
    using that outsideD[OF that 13] by (intro confined_avoids[of "{path_of (inv_Dir cmd)}"]) (auto simp: site_ok_def)
  then show ?case by (intro avoids_leaves) (auto simp: file_ops_def)
next
  case (14 d w) then show ?case by (intro avoids_leaves) (auto simp: file_ops_def intro!: persistAccounts_avoids outsideD)
next
  case (15 d) then show ?case by (intro avoids_leaves) (auto simp: file_ops_def intro!: publishedAccountRegistered_avoids outsideD)
next
  case (16 w name) show ?case
    by (rule avoids_leaves) (auto simp: file_ops_def ReadOutputs_def intro!: avoid_rules)
next
  case (17 v) show ?case by (rule Current_leaves)
next
  case (18 v b) show ?case using Put_leaves by (simp add: file_ops_def)
qed

subsection \<open>The store is safe\<close>

text \<open>
  Property C4: whatever fails while a job is reconciled, system calls, lego, a kill at any point, the
  store shows for the job's object either what it showed before or a certificate that fits the job:
  exactly the target's names, the policy's key type, not expired and not in the future at the run's
  clock, stored with its matching key. When the run reports success the store shows the reported
  certificate, and it fits. A job the Runner's own policy does not authorize changes nothing at all.
\<close>

theorem runner_store_safe:
  assumes run: "run_state (reconcile (file_ops S) cfg spec) (n, f) = (r, (n', f'))"
    and site: "site_ok S cfg spec" and ok: "store_ok (si_pki S) (store_root S cfg spec @ [job_object S spec]) f"
  shows "store_ok (si_pki S) (store_root S cfg spec @ [job_object S spec]) f' \<and>
    (case r of
       Inl _ \<Rightarrow>
         store_view (si_pki S) (store_root S cfg spec) (job_object S spec) f' =
           store_view (si_pki S) (store_root S cfg spec) (job_object S spec) f \<or>
         (\<exists>t info. clock_reads S t \<and> fits (si_unicode S) spec t info \<and>
            store_view (si_pki S) (store_root S cfg spec) (job_object S spec) f' = Inr info)
     | Inr out \<Rightarrow>
         store_view (si_pki S) (store_root S cfg spec) (job_object S spec) f' = Inr (oc_info out) \<and>
         oc_objectRef out = job_object S spec \<and> (\<exists>t. clock_reads S t \<and> fits (si_unicode S) spec t (oc_info out))) \<and>
    (Authorize (Config_Policy cfg) (request_of spec) \<noteq> None \<longrightarrow> f' = f)"
proof -
  let ?v = "job_view S cfg spec (n, f)"
  have u: "op_unicode (file_ops S) = si_unicode S" by (simp add: file_ops_def)
  have "shows_as (job_store_ok S cfg spec) (job_view S cfg spec) ?v (n, f)"
    using site ok by (simp add: shows_as_def job_store_ok_def)
  note tripleD[OF files.reconcile_safe this run]
  moreover have "f' = f" if "Authorize (Config_Policy cfg) (request_of spec) \<noteq> None"
    using run that by (auto simp: reconcile_def)
  ultimately show ?thesis
    by (auto simp: files.safe_def job_store_ok_def job_view_def u split: sum.splits)
qed

definition sample_cert :: x509_cert where
  "sample_cert = sample_leaf\<lparr>crt_DNSNames := [''example.jp'', ''WWW.example.jp''], crt_NotAfter := unix_time 0 + 90 * 24 * hour\<rparr>"

definition sample_spec :: job_spec where
  "sample_spec = sample_job\<lparr>js_ACMEAccount := None, js_StoreBinding := ''fs''\<rparr>"

definition sample_config :: runner_config where
  "sample_config = \<lparr>rc_APIVersion = APIVersion, rc_Kind = RunnerConfigKind,
     rc_Authorization = \<lparr>az_AllowedDnsSuffixes = [''example.jp''], az_AllowWildcard = False, az_AllowedACMEBindings = [''ca''],
       az_AllowedDNSBindings = [''dns''], az_AllowedStoreBindings = [''fs''], az_MaxNames = 5\<rparr>,
     rc_Lego = \<lparr>lg_Binary = ''/lego'', lg_StateDir = ''/state'', lg_WorkDir = ''/work'', lg_TimeoutSeconds = 900\<rparr>,
     rc_ACMEBindings = [(''ca'', lp_ACME sample_params)], rc_DNSBindings = [(''dns'', sample_dns)],
     rc_StoreBindings = [(''fs'', \<lparr>sb_Type = filesystemType, sb_Config = ''{}''\<rparr>)],
     rc_JobSigning = None, rc_ResultSigning = None, rc_AccountProvisioning = None\<rparr>"

definition sample_site :: site where
  "sample_site = \<lparr>si_world = calm\<lparr>fw_now := (\<lambda>_. unix_time 0)\<rparr>, si_pki = sample_pki\<lparr>px_parse := (\<lambda>_. Some sample_cert)\<rparr>,
     si_unicode = ascii_only, si_errorText = (\<lambda>_. []), si_lookupEnv = (\<lambda>_. None), si_grace = 0,
     si_sealing = sample_sealing, si_eabCodec = sample_eab_codec, si_lego = (\<lambda>_ _. give (Inl Failed)),
     si_uri = (\<lambda>_. None), si_parseKey = (\<lambda>_. None), si_order = sample_order, si_directory = (\<lambda>_. Some ''/s''), si_providers = []\<rparr>"

text \<open>The sample certificate as the only version of the object.\<close>

definition sample_store :: fs where
  "sample_store = (let dir = [''s'', job_object sample_site sample_spec]; v = replicate 16 CHR ''0'' @ ''-7'' in
     Map.empty([''s''] \<mapsto> NDir, dir \<mapsto> NDir, dir @ [versionsDir] \<mapsto> NDir, dir @ [currentLink] \<mapsto> NLink (versionsDir @ sep # v),
       dir @ [versionsDir, v] \<mapsto> NDir, dir @ [versionsDir, v, certFile] \<mapsto> NFile ''cert'', dir @ [versionsDir, v, keyFile] \<mapsto> NFile ''key''))"

lemma sample_site_ok: "site_ok sample_site sample_config sample_spec"
proof -
  have "validateBindingName ''store.binding'' ''fs'' = None" by code_simp
  then have v: "JobSpec_Validate sample_spec = None"
    using sample_job_valid unfolding JobSpec_Validate_def check_all_None
    by (simp add: sample_spec_def sample_job_def additional_def spec_names_def spec_policy_def)
  have root: "store_root sample_site sample_config sample_spec = [''s'']"
    by (simp add: store_root_def sample_config_def sample_spec_def sample_site_def path_of_def sep_def Split.simps)
  have "path_of ''/state'' = [''state'']" "path_of ''/work'' = [''work'']" by code_simp+
  then show ?thesis using v
    by (simp add: site_ok_def root) (auto simp: sample_config_def sample_spec_def sample_site_def sample_pki_def sample_digest_def calm_def
        apart_def honest_def bundle_order_def sample_order_def certFile_def chainFile_def fullFile_def keyFile_def intro: confined_rules)
qed

lemma sample_store_published:
  "published (si_pki sample_site) (store_root sample_site sample_config sample_spec @ [job_object sample_site sample_spec])
     (replicate 16 CHR ''0'' @ ''-7'') sample_cert sample_store"
proof -
  have root: "store_root sample_site sample_config sample_spec = [''s'']"
    by (simp add: store_root_def sample_config_def sample_spec_def sample_site_def path_of_def sep_def Split.simps)
  have "versionRe (replicate 16 CHR ''0'' @ ''-7'')" by code_simp
  then show ?thesis
    by (simp add: published_def root sample_store_def Let_def dir_ok_def versionsDir_def currentLink_def lockFile_def certFile_def keyFile_def)
      (simp add: sample_site_def sample_pki_def ParseLeaf_def PrivateKeyMatches_def ParsePrivateKey_def sample_cert_def sample_leaf_def)
qed

theorem runner_store_safe_witness:
  "store_ok (si_pki sample_site) (store_root sample_site sample_config sample_spec @ [job_object sample_site sample_spec])
     (snd (snd (run_state (reconcile (file_ops sample_site) sample_config sample_spec) (0, sample_store))))"
proof -
  obtain r n' f' where run: "run_state (reconcile (file_ops sample_site) sample_config sample_spec) (0, sample_store) = (r, (n', f'))"
    by (metis prod_cases3)
  have "store_ok (si_pki sample_site) (store_root sample_site sample_config sample_spec @ [job_object sample_site sample_spec]) sample_store"
    using sample_store_published by (auto simp: store_ok_def)
  from runner_store_safe[OF run sample_site_ok this] show ?thesis by (simp add: run)
qed

subsection \<open>A certificate that is up to date is left alone\<close>

lemma file_ops_lego: "file_ops (S\<lparr>si_lego := L\<rparr>) = (file_ops S)\<lparr>op_runLego := L\<rparr>"
proof -
  have "fs_provider (S\<lparr>si_lego := L\<rparr>) = fs_provider S"
    by (rule ext) (simp add: fs_provider_def New_def fs_store_def split: option.splits)
  then show ?thesis by (simp add: file_ops_def)
qed



end
