(* ===== verification/RunJob.thy ===== *)
theory RunJob
  imports Reconcile
begin

text \<open>
  One process of the Runner, \<^verbatim>\<open>Reconcile\<close> of \<^verbatim>\<open>internal/runner/reconcile.go\<close> with \<^verbatim>\<open>result.go\<close>: take a
  job from the transport, recover whose job it is, load the configuration, verify or decode the
  job, reconcile, and report. The answer is the exit code with the Result that was delivered.
\<close>

subsection \<open>Operations around one job\<close>

record 's job_ops = "'s runner_ops" +
  op_requiresSignedResults :: bool
  op_acquire :: "('s, io_error + (string \<times> string) option) state"
  op_readBounded :: "string \<Rightarrow> nat \<Rightarrow> ('s, io_error + string) state"
  op_configPath :: string
  op_platform :: platform
  op_crypto :: crypto
  op_configCodec :: "runner_config codec"
  op_headerCodec :: "signed_header codec"
  op_jobCodec :: "job_spec codec"
  op_resultCodec :: "result_doc codec"
  op_signedCodec :: "signed_doc codec"
  op_providerAccepts :: "store_binding \<Rightarrow> bool"
  op_peekKind :: "string \<Rightarrow> string option"
  op_peekIDs :: "string \<Rightarrow> (string \<times> string) option"
  op_recordJob :: "string \<Rightarrow> string \<Rightarrow> gotime \<Rightarrow> gotime \<Rightarrow> duration \<Rightarrow> ('s, ledger_answer) state"
  op_parseSigningPrivateKey :: "string \<Rightarrow> string option"
  op_nonce :: "('s, string) state"
  op_stdout :: "string \<Rightarrow> ('s, bool) state"
  op_commitFile :: "string \<Rightarrow> string \<Rightarrow> ('s, bool) state"

definition ExitSucceeded :: int where "ExitSucceeded = 0"
definition ExitFailed :: int where "ExitFailed = 1"
definition ExitNoResult :: int where "ExitNoResult = 2"

subsection \<open>Identity\<close>

record identity =
  id_RunID :: string
  id_TargetID :: string

definition probe_result :: "string \<Rightarrow> string \<Rightarrow> result_doc" where
  "probe_result runID targetID =
     (let t = unix_time 0 + second in
      \<lparr>rs_APIVersion = APIVersion, rs_Kind = KindCertificateReconcileResult, rs_RunID = runID, rs_TargetID = targetID,
       rs_Status = StatusFailed, rs_Action = ActionFailed, rs_ExpiresAt = None, rs_FingerprintSha256 = [], rs_StoreObjectRef = [],
       rs_StartedAt = t, rs_FinishedAt = t, rs_Error = Some \<lparr>re_Code = ErrorCodeInternal, re_Summary = ''probe''\<rparr>,
       rs_AccountProvisioning = None\<rparr>)"

definition validateIdentifiers :: "unicode \<Rightarrow> string \<Rightarrow> string \<Rightarrow> validation_error option" where
  "validateIdentifiers u runID targetID = Result_Validate u (probe_result runID targetID)"

definition peekIdentity :: "'s job_ops \<Rightarrow> string \<Rightarrow> identity \<times> bool" where
  "peekIdentity R data =
     (let none = (\<lparr>id_RunID = [], id_TargetID = []\<rparr>, False) in
      case op_peekIDs R data of
        None \<Rightarrow> none
      | Some (runID, targetID) \<Rightarrow>
          if validateIdentifiers (op_unicode R) runID targetID \<noteq> None then none
          else (\<lparr>id_RunID = runID, id_TargetID = targetID\<rparr>, True))"

subsection \<open>The Result\<close>

definition buildResult :: "identity \<Rightarrow> gotime \<Rightarrow> gotime \<Rightarrow> failure + outcome \<Rightarrow> result_doc" where
  "buildResult ids started finished out =
     (let res = \<lparr>rs_APIVersion = APIVersion, rs_Kind = KindCertificateReconcileResult, rs_RunID = id_RunID ids,
            rs_TargetID = id_TargetID ids, rs_Status = (case out of Inl _ \<Rightarrow> StatusFailed | Inr _ \<Rightarrow> StatusSucceeded), rs_Action = [],
            rs_ExpiresAt = None, rs_FingerprintSha256 = [], rs_StoreObjectRef = [], rs_StartedAt = started,
            rs_FinishedAt = (if \<not> started < finished then started else finished), rs_Error = None, rs_AccountProvisioning = None\<rparr> in
      case out of
        Inl f \<Rightarrow> res\<lparr>rs_Action := ActionFailed, rs_Error := Some \<lparr>re_Code = f_code f, re_Summary = f_summary f\<rparr>,
                   rs_AccountProvisioning := f_accountProvisioning f\<rparr>
      | Inr r \<Rightarrow> res\<lparr>rs_Action := oc_action r, rs_ExpiresAt := Some (ci_NotAfter (oc_info r)),
                   rs_FingerprintSha256 := ci_FingerprintSHA256 (oc_info r), rs_StoreObjectRef := oc_objectRef r,
                   rs_AccountProvisioning := oc_accountProvisioning r\<rparr>)"

record signer =
  sg_key :: string
  sg_validity :: duration

definition NewResultSigner :: "string \<Rightarrow> duration \<Rightarrow> signer option" where
  "NewResultSigner key validity =
     (if length key \<noteq> PrivateKeySize then None
      else if validity \<le> 0 \<or> MaxSignedJobValidity < validity then None
      else Some \<lparr>sg_key = key, sg_validity = validity\<rparr>)"

text \<open>Whether the document reached standard output, and whether everything was written.\<close>

definition writeDocument :: "'s job_ops \<Rightarrow> string \<Rightarrow> string \<Rightarrow> ('s, bool \<times> bool) state" where
  "writeDocument R line path =
     do {
       printed \<leftarrow> op_stdout R (line @ [CHR 10]);
       if \<not> printed then State_Monad.return (False, False)
       else if path = [] then State_Monad.return (True, True)
       else do { written \<leftarrow> op_commitFile R path (line @ [CHR 10]); State_Monad.return (True, written) }
     }"

definition WriteSignedResult :: "'s job_ops \<Rightarrow> result_doc \<Rightarrow> signer option \<Rightarrow> string \<Rightarrow> ('s, bool \<times> bool) state" where
  "WriteSignedResult R res signer path =
     (case signer of
        None \<Rightarrow> writeDocument R (cd_write (op_resultCodec R) res) path
      | Some g \<Rightarrow> do {
          now \<leftarrow> op_now R;
          rnd \<leftarrow> op_nonce R;
          case SignResult (op_unicode R) (op_crypto R) (op_headerCodec R) (op_resultCodec R) now rnd res (sg_key g)
              \<lparr>so_IssuedAt = now, so_Validity = sg_validity g, so_Nonce = []\<rparr> of
            Inl _ \<Rightarrow> State_Monad.return (False, False)
          | Inr sr \<Rightarrow> writeDocument R (cd_write (op_signedCodec R) sr) path })"

abbreviation no_result :: "('s, int \<times> result_doc option) state" where
  "no_result \<equiv> State_Monad.return (ExitNoResult, None)"

definition reported :: "unicode \<Rightarrow> result_doc \<Rightarrow> failure + outcome \<Rightarrow> result_doc" where
  "reported u res out =
     (if Result_Validate u res = None then res
      else (case out of
              Inl f \<Rightarrow> res\<lparr>rs_Error := Some \<lparr>re_Code = f_code f, re_Summary = genericSummary (f_code f)\<rparr>\<rparr>
            | Inr _ \<Rightarrow> res))"

definition finish_run ::
  "'s job_ops \<Rightarrow> identity \<Rightarrow> gotime \<Rightarrow> signer option \<Rightarrow> string \<Rightarrow> failure + outcome \<Rightarrow> ('s, int \<times> result_doc option) state" where
  "finish_run R ids started signer path out =
     do {
       finished \<leftarrow> op_now R;
       let res = reported (op_unicode R) (buildResult ids started finished out) out;
       if Result_Validate (op_unicode R) res \<noteq> None then no_result
       else do {
         (delivered, complete) \<leftarrow> WriteSignedResult R res signer path;
         if \<not> complete \<and> \<not> delivered then no_result
         else State_Monad.return (case out of Inl _ \<Rightarrow> ExitFailed | Inr _ \<Rightarrow> ExitSucceeded, Some res) }
     }"

subsection \<open>Configuration\<close>

definition loadConfig :: "'s job_ops \<Rightarrow> ('s, io_error + runner_config) state" where
  "loadConfig R =
     attempt (op_readBounded R (op_configPath R) (MaxConfigSize + 1)) (\<lambda>data.
       State_Monad.return (case Config_Read (op_platform R) (op_crypto R) (op_configCodec R) data of
         None \<Rightarrow> Inl Failed
       | Some cfg \<Rightarrow> if list_all (\<lambda>(_, b). op_providerAccepts R b) (rc_StoreBindings cfg) then Inr cfg else Inl Failed))"

definition loadResultSigner :: "'s job_ops \<Rightarrow> result_signing \<Rightarrow> ('s, io_error + signer) state" where
  "loadResultSigner R rs =
     attempt (op_readBounded R (rg_PrivateKeyFile rs) (16 * 1024)) (\<lambda>data.
       State_Monad.return (case op_parseSigningPrivateKey R data of
         None \<Rightarrow> Inl Failed
       | Some key \<Rightarrow>
           (case NewResultSigner key (rg_ValiditySeconds rs * second) of None \<Rightarrow> Inl Failed | Some g \<Rightarrow> Inr g)))"

subsection \<open>The job document\<close>

definition IsSignedJob :: "'s job_ops \<Rightarrow> string \<Rightarrow> bool" where
  "IsSignedJob R data \<longleftrightarrow> op_peekKind R data = Some KindSignedCertificateReconcileJob"

definition unwrapSignedJob :: "'s job_ops \<Rightarrow> runner_config \<Rightarrow> signed_doc \<Rightarrow> ('s, failure + job_spec) state" where
  "unwrapSignedJob R cfg sj =
     (case rc_JobSigning cfg of
        None \<Rightarrow> State_Monad.return (Inl (fail ErrorCodeInvalidJobSpec
          (summarize (runner_ops.truncate R) ''signed job envelope rejected'' CauseNoSigningKeys) (Some Failed)))
      | Some js \<Rightarrow> do {
          now \<leftarrow> op_now R;
          let skew = jg_ClockSkewSeconds js * second;
          case SignedJob_Verify (op_crypto R) (op_headerCodec R) (op_jobCodec R) now (JobSigning_Keys js) \<lparr>vo_Now = now, vo_ClockSkew = skew\<rparr> sj of
            Inl e \<Rightarrow> State_Monad.return (Inl (fail ErrorCodeInvalidJobSpec
              (summarize (runner_ops.truncate R) ''signed job envelope rejected'' (CauseEnvelope e)) (Some Failed)))
          | Inr (spec, hdr) \<Rightarrow> do {
              answer \<leftarrow> op_recordJob R (lg_StateDir (rc_Lego cfg)) (js_RunID spec) (hd_ExpiresAt hdr) now skew;
              case answer of
                Recorded \<Rightarrow> State_Monad.return (Inr spec)
              | Replayed \<Rightarrow> State_Monad.return (Inl (fail ErrorCodeInvalidJobSpec
                  (summarize (runner_ops.truncate R) ''signed job envelope rejected'' CauseReplayed) (Some Failed)))
              | LedgerFailed e \<Rightarrow> do {
                  c \<leftarrow> op_ctxErr R;
                  State_Monad.return (Inl (classifyCtx c (fail ErrorCodeInternal ''replay ledger could not be updated'' (Some e)))) } } })"

definition decode_spec ::
  "'s job_ops \<Rightarrow> io_error + runner_config \<Rightarrow> string \<Rightarrow> signed_doc option \<Rightarrow> ('s, failure + job_spec) state" where
  "decode_spec R cfg jobData envelope =
     (case envelope of
        Some sj \<Rightarrow>
          (case cfg of
             Inl e \<Rightarrow> State_Monad.return (Inl (fail ErrorCodeInternal ''runner configuration could not be loaded'' (Some e)))
           | Inr c \<Rightarrow> unwrapSignedJob R c sj)
      | None \<Rightarrow>
          State_Monad.return
            (if (case cfg of Inl _ \<Rightarrow> False | Inr c \<Rightarrow> rc_JobSigning c \<noteq> None)
             then Inl (fail ErrorCodeInvalidJobSpec (summarize (runner_ops.truncate R) ''unsigned job spec rejected'' CauseUnsigned) (Some Failed))
             else (case DecodeJobSpec (op_jobCodec R) jobData of
                     Inl e \<Rightarrow> Inl (fail ErrorCodeInvalidJobSpec (summarize (runner_ops.truncate R) ''job spec rejected'' (CauseEnvelope e)) (Some Failed))
                   | Inr spec \<Rightarrow> Inr spec)))"

definition run_spec ::
  "'s job_ops \<Rightarrow> io_error + runner_config \<Rightarrow> job_spec \<Rightarrow> ('s, failure + outcome) state" where
  "run_spec R cfg spec =
     (case cfg of
        Inl e \<Rightarrow> State_Monad.return (Inl (fail ErrorCodeInternal ''runner configuration could not be loaded'' (Some e)))
      | Inr c \<Rightarrow> reconcile (runner_ops.truncate R) c spec)"

definition signer_of :: "'s job_ops \<Rightarrow> io_error + runner_config \<Rightarrow> ('s, io_error + signer option) state" where
  "signer_of R cfg =
     (case cfg of
        Inl _ \<Rightarrow> State_Monad.return (Inr None)
      | Inr c \<Rightarrow>
          (case rc_ResultSigning c of
             None \<Rightarrow> State_Monad.return (Inr None)
           | Some rs \<Rightarrow> attempt (loadResultSigner R rs) (\<lambda>g. State_Monad.return (Inr (Some g)))))"

definition handle_job ::
  "'s job_ops \<Rightarrow> gotime \<Rightarrow> string \<Rightarrow> string \<Rightarrow> signed_doc option \<Rightarrow> ('s, int \<times> result_doc option) state" where
  "handle_job R started resultPath jobData envelope =
     (let identityData = (case envelope of None \<Rightarrow> jobData | Some sj \<Rightarrow> payloadBytes (envelope_of sj));
          (ids, idsOK) = peekIdentity R identityData in
      do {
        cfg \<leftarrow> loadConfig R;
        signer \<leftarrow> signer_of R cfg;
        case signer of
          Inl e \<Rightarrow>
            if \<not> idsOK then no_result
            else finish_run R ids started None resultPath (Inl (fail ErrorCodeInternal ''result signing key could not be loaded'' (Some e)))
        | Inr g \<Rightarrow> do {
            spec \<leftarrow> decode_spec R cfg jobData envelope;
            case spec of
              Inl f \<Rightarrow> if \<not> idsOK then no_result else finish_run R ids started g resultPath (Inl f)
            | Inr spec \<Rightarrow> do {
                out \<leftarrow> run_spec R cfg spec;
                finish_run R ids started g resultPath out } } })"

definition Reconcile :: "'s job_ops \<Rightarrow> ('s, int \<times> result_doc option) state" where
  "Reconcile R =
     do {
       started \<leftarrow> op_now R;
       ready \<leftarrow> (if op_requiresSignedResults R
                then do { cfg \<leftarrow> loadConfig R; State_Monad.return (case cfg of Inl _ \<Rightarrow> False | Inr c \<Rightarrow> rc_ResultSigning c \<noteq> None) }
                else State_Monad.return True);
       if \<not> ready then no_result
       else do {
         job \<leftarrow> op_acquire R;
         case job of
           Inl _ \<Rightarrow> no_result
         | Inr None \<Rightarrow> State_Monad.return (ExitSucceeded, None)
         | Inr (Some (jobPath, resultPath)) \<Rightarrow> do {
             data \<leftarrow> op_readBounded R jobPath (MaxSignedDocumentSize + 1);
             case data of
               Inl _ \<Rightarrow> no_result
             | Inr jobData \<Rightarrow>
                 if IsSignedJob R jobData
                 then (case DecodeSignedJob (op_headerCodec R) (op_signedCodec R) jobData of
                         Inl _ \<Rightarrow> no_result
                       | Inr sj \<Rightarrow> handle_job R started resultPath jobData (Some sj))
                 else handle_job R started resultPath jobData None } }
     }"

end
