(* ===== verification/RunReport.thy ===== *)
theory RunReport
  imports RunJob
begin

text \<open>
  What one process of the Runner reports, and which jobs it acts on. A failure is built with a code
  of the contract and an account part that validates, so the generic summary is a report the
  contract accepts whatever the error texts were; a success carries a checked certificate. The
  second half is the gate in front of the reconcile of a Runner that requires signed jobs.
\<close>

subsection \<open>Failures the contract accepts\<close>

definition account_ok :: "account_result option \<Rightarrow> bool" where
  "account_ok a = (case a of
     None \<Rightarrow> True
   | Some a \<Rightarrow> IsBindingName (ap_Binding a) \<and> (ap_Scope a = [] \<or> identifierRe (ap_Scope a)) \<and> 1 \<le> ap_Generation a \<and>
       ap_Generation a \<le> MaxAccountGeneration \<and> AccountProvisioningStatus_Valid (ap_Status a))"

definition failure_ok :: "failure \<Rightarrow> bool" where
  "failure_ok f \<longleftrightarrow> ErrorCode_Valid (f_code f) \<and> account_ok (f_accountProvisioning f)"

definition outcome_ok :: "outcome \<Rightarrow> bool" where
  "outcome_ok out \<longleftrightarrow> oc_action out \<in> {ActionIssued, ActionRenewed, ActionNoop} \<and> 0 < ci_NotAfter (oc_info out) \<and>
     fingerprintRe (ci_FingerprintSHA256 (oc_info out)) \<and> IsStoreObjectRef (oc_objectRef out) \<and> account_ok (oc_accountProvisioning out)"

definition reportable :: "failure + outcome \<Rightarrow> bool" where
  "reportable r = (case r of Inl f \<Rightarrow> failure_ok f | Inr out \<Rightarrow> outcome_ok out)"

lemma reportable_simps [simp]: "reportable (Inl f) \<longleftrightarrow> failure_ok f" "reportable (Inr out) \<longleftrightarrow> outcome_ok out"
  by (simp_all add: reportable_def)

abbreviation fails_well :: "('s, failure + 'a) state \<Rightarrow> bool" where
  "fails_well m \<equiv> triple (\<lambda>_. True) m (\<lambda>r _. \<forall>f. r = Inl f \<longrightarrow> failure_ok f)"

lemma ErrorCodes_valid [simp]:
  "ErrorCode_Valid ErrorCodeInvalidJobSpec" "ErrorCode_Valid ErrorCodePolicyViolation" "ErrorCode_Valid ErrorCodeBindingNotFound"
  "ErrorCode_Valid ErrorCodeACMEFailure" "ErrorCode_Valid ErrorCodeDNSFailure" "ErrorCode_Valid ErrorCodeStoreFailure"
  "ErrorCode_Valid ErrorCodeTimeout" "ErrorCode_Valid ErrorCodeCancelled" "ErrorCode_Valid ErrorCodeInternal"
  by (simp_all add: ErrorCode_Valid_def ErrorCodes_def)

lemma provisioning_status_valid [simp]:
  "AccountProvisioningStatus_Valid AccountProvisioningFailed" "AccountProvisioningStatus_Valid AccountProvisioningRegistered"
  by (simp_all add: AccountProvisioningStatus_Valid_def AccountProvisioningStatuses_def)

lemma fail_ok [simp]: "failure_ok (fail code summary err) \<longleftrightarrow> ErrorCode_Valid code"
  by (simp add: failure_ok_def fail_def account_ok_def)

lemma classifyCtx_ok: "failure_ok f \<Longrightarrow> failure_ok (classifyCtx c f)"
  by (simp add: classifyCtx_def)

lemma provisioning_result_ok:
  assumes "JobSpec_Validate spec = None" "AccountProvisioningStatus_Valid status"
  shows "account_ok (provisioning_result spec status)"
proof (cases "js_ACMEAccount spec")
  case (Some a)
  with JobSpec_ValidateD(2,9)[OF assms(1)] JobSpec_ValidateD(12)[OF assms(1) Some] assms(2) show ?thesis
    by (auto simp: account_ok_def provisioning_result_def ACMEAccountRef_validate_def check_all_None)
qed (simp add: account_ok_def provisioning_result_def)

lemma failAP_ok:
  "JobSpec_Validate spec = None \<Longrightarrow> AccountProvisioningStatus_Valid status \<Longrightarrow> failure_ok (failAP spec status code summary err) \<longleftrightarrow> ErrorCode_Valid code"
  using provisioning_result_ok[of spec status] by (simp add: failAP_def withAP_def failure_ok_def fail_def)

lemma legoFailure_code: "legoFailure lo dns = (code, summary) \<Longrightarrow> ErrorCode_Valid code"
  by (auto simp: legoFailure_def split: failure_class.splits)

subsection \<open>The reconcile fails well\<close>

text \<open>What is relied on: a clock after the zero time, 32-byte digests, and stores that name and describe objects as the contract wants.\<close>

definition store_reports :: "'s cert_store \<Rightarrow> bool" where
  "store_reports st \<longleftrightarrow> (\<forall>fqdn. IsStoreObjectRef (st_ObjectName st fqdn)) \<and>
     (\<forall>object. triple (\<lambda>_. True) (st_Current st object) (\<lambda>r _. \<forall>info. r = Inr info \<longrightarrow> fingerprintRe (ci_FingerprintSHA256 info)))"

definition reports_ok :: "'s runner_ops \<Rightarrow> bool" where
  "reports_ok R \<longleftrightarrow> triple (\<lambda>_. True) (op_now R) (\<lambda>t _. 0 < t) \<and> (\<forall>s. length (px_sha (op_pki R) s) = 32) \<and>
     (\<forall>b. triple (\<lambda>_. True) (op_openStore R b) (\<lambda>r _. \<forall>st. r = Inr st \<longrightarrow> store_reports st))"

lemma or_fail_well: "(\<And>e. failure_ok (g e)) \<Longrightarrow> fails_well (or_fail m g)"
  by (auto simp: triple_def or_fail_def run_bind split: prod.splits sum.splits)

lemma or_ctx_fail_well: "(\<And>e. failure_ok (g e)) \<Longrightarrow> fails_well (or_ctx_fail R m g)"
  by (auto simp: triple_def or_ctx_fail_def run_bind classifyCtx_ok split: prod.splits sum.splits)

lemma attempt_reportable:
  "fails_well m \<Longrightarrow> (\<And>x. triple (\<lambda>_. True) (k x) (\<lambda>r _. reportable r)) \<Longrightarrow> triple (\<lambda>_. True) (attempt m k) (\<lambda>r _. reportable r)"
  by (rule triple_attempt[where A = "\<lambda>_ _. True"]) (auto simp: reportable_def elim!: triple_post split: sum.splits)

lemma return_reportable: "reportable r \<Longrightarrow> triple P (State_Monad.return r) (\<lambda>r _. reportable r)"
  by (rule triple_return)

lemma fingerprint_ok: "(\<And>s. length (px_sha P s) = 32) \<Longrightarrow> fingerprintRe (Fingerprint P c)"
  by (simp add: Fingerprint_def fingerprintRe_def hex_encode_lower)

lemma noop_later: "up_to_date u spec now info \<Longrightarrow> 0 \<le> renewBefore spec \<Longrightarrow> 0 < now \<Longrightarrow> 0 < ci_NotAfter info"
  by (auto simp: up_to_date_def Let_def)

lemma issued_checked:
  "issued_bundle R spec now files = Inr (leaf, b) \<Longrightarrow> now < crt_NotAfter leaf"
  by (auto simp: issued_bundle_def check_issued_def Let_def split: option.splits prod.splits if_splits)

lemma store_action_ok: "store_action current info \<in> {ActionIssued, ActionRenewed, ActionNoop}"
  by (simp add: store_action_def split: option.splits)

lemma renewBefore_nonneg: "JobSpec_Validate spec = None \<Longrightarrow> 0 \<le> renewBefore spec"
  using PolicySpec_validateD(2)[OF JobSpec_ValidateD(8), of spec] by (simp add: renewBefore_def)

lemma account_root_well: "JobSpec_Validate spec = None \<Longrightarrow> fails_well (account_root R cfg spec)"
  unfolding account_root_def by (auto split: option.splits intro!: or_fail_well triple_return simp: failAP_ok)

lemma attempt_fails_well: "fails_well m \<Longrightarrow> (\<And>x. fails_well (k x)) \<Longrightarrow> fails_well (attempt m k)"
  by (rule triple_attempt[where A = "\<lambda>_ _. True"]) (auto elim!: triple_post split: sum.splits)

lemma resolve_eab_well:
  assumes "JobSpec_Validate spec = None"
  shows "fails_well (resolve_eab R cfg spec work)"
  unfolding resolve_eab_def
  by (auto split: option.splits sum.splits if_splits intro!: triple_bind_any triple_return attempt_fails_well or_fail_well simp: failAP_ok assms)

lemma keep_accounts_status: "triple (\<lambda>_. True) (keep_accounts R spec work root) (\<lambda>r _. AccountProvisioningStatus_Valid r)"
  unfolding keep_accounts_def by (auto split: sum.splits intro!: triple_bind_any triple_return)

lemma store_issued_reportable:
  assumes spec: "JobSpec_Validate spec = None" and R: "reports_ok R" and object: "IsStoreObjectRef object"
    and now: "0 < now" and status: "AccountProvisioningStatus_Valid status"
  shows "triple (\<lambda>_. True) (store_issued R spec st object now current work status) (\<lambda>r _. reportable r)"
  unfolding store_issued_def
proof (rule attempt_reportable, goal_cases)
  case 1 show ?case by (rule or_fail_well) (simp add: failAP_ok spec status)
next
  case (2 files)
  show ?case
  proof (cases "issued_bundle R spec now files")
    case (Inl e) then show ?thesis by (cases e) (auto intro!: triple_return simp: failAP_ok spec status)
  next
    case (Inr lb)
    obtain leaf b where lb: "lb = (leaf, b)" by (cases lb)
    have "0 < crt_NotAfter leaf" using issued_checked[OF Inr[unfolded lb]] now by simp
    moreover have "fingerprintRe (Fingerprint (op_pki R) leaf)" using R by (auto simp: reports_ok_def intro: fingerprint_ok)
    ultimately have "reportable (Inr \<lparr>oc_action = store_action current (InfoOf (op_pki R) leaf), oc_info = InfoOf (op_pki R) leaf,
        oc_objectRef = object, oc_storeType = st_Type st, oc_accountProvisioning = provisioning_result spec status\<rparr>)"
      using store_action_ok[of current] object provisioning_result_ok[OF spec status] by (simp add: reportable_def outcome_ok_def InfoOf_def)
    then show ?thesis
      by (auto simp: Inr lb failAP_ok spec status intro!: attempt_reportable or_ctx_fail_well triple_return)
  qed
qed

lemma after_lego_reportable:
  assumes "JobSpec_Validate spec = None" "reports_ok R" "IsStoreObjectRef object" "0 < now" "AccountProvisioningStatus_Valid status"
  shows "triple (\<lambda>_. True) (after_lego R cfg spec st object now current work status res) (\<lambda>r _. reportable r)"
  unfolding after_lego_def using store_issued_reportable[OF assms] legoFailure_code
  by (auto intro!: triple_return split: sum.splits prod.splits simp: failAP_ok assms)

lemma build_failure_ok: "JobSpec_Validate spec = None \<Longrightarrow> failure_ok (build_failure spec e)"
  by (cases e) (simp_all add: build_failure_def failAP_ok)

lemma run_in_reportable:
  assumes spec: "JobSpec_Validate spec = None" and a: "reports_ok R" "IsStoreObjectRef object" "0 < now"
  shows "triple (\<lambda>_. True) (run_in R cfg spec acme dns root st object now current work) (\<lambda>r _. reportable r)"
proof -
  have "triple (\<lambda>_. True) (invoke_lego R cfg spec acme dns root st object now current work eab) (\<lambda>r _. reportable r)" for eab
  proof (cases "Build (lego_params_of R cfg spec acme dns work (fst eab) (snd eab))")
    case (Inl e) then show ?thesis by (simp add: invoke_lego_def triple_return build_failure_ok[OF spec])
  next
    case (Inr cmd)
    have "triple (\<lambda>_. AccountProvisioningStatus_Valid status) (after_lego R cfg spec st object now current work status res) (\<lambda>r _. reportable r)"
      for status res
      using after_lego_reportable[OF spec a, of status] by (auto simp: triple_def)
    then show ?thesis using Inr
      by (simp add: invoke_lego_def) (intro triple_bind_any triple_bind[OF keep_accounts_status])
  qed
  then show ?thesis unfolding run_in_def
    by (auto intro!: attempt_reportable or_ctx_fail_well resolve_eab_well spec simp: failAP_ok[OF spec])
qed

lemma issue_reportable:
  assumes spec: "JobSpec_Validate spec = None" and a: "reports_ok R" "IsStoreObjectRef object" "0 < now"
  shows "triple (\<lambda>_. True) (issue R cfg spec acme dns root st object now current) (\<lambda>r _. reportable r)"
proof -
  have inner: "triple (\<lambda>_. True) (do { r \<leftarrow> run_in R cfg spec acme dns root st object now current work; _ \<leftarrow> op_cleanup R work; State_Monad.return r })
      (\<lambda>r _. reportable r)" for work
    by (rule triple_bind[OF run_in_reportable[OF assms]], rule triple_bind[where A = "\<lambda>_ _. reportable r" for r])
      (auto intro: tripleI triple_return)
  show ?thesis unfolding issue_def Let_def
    by (intro triple_bind_any) (auto intro!: triple_return attempt_reportable or_fail_well inner simp: failAP_ok[OF spec])
qed

lemma examine_reportable:
  assumes spec: "JobSpec_Validate spec = None" and a: "reports_ok R" "IsStoreObjectRef object" "0 < now"
    and info: "\<And>info. current = Inr info \<Longrightarrow> fingerprintRe (ci_FingerprintSHA256 info)"
  shows "triple (\<lambda>_. True) (examine R cfg spec acme dns root st object now current) (\<lambda>r _. reportable r)"
proof (cases current)
  case (Inl e)
  then show ?thesis using issue_reportable[OF spec a] unfolding examine_def
    by (cases e) (auto intro!: triple_bind_any triple_return simp: classifyCtx_ok failAP_ok[OF spec])
next
  case (Inr i)
  show ?thesis
  proof (cases "up_to_date (op_unicode R) spec now i")
    case True
    then have "0 < ci_NotAfter i" using noop_later renewBefore_nonneg[OF spec] a(3) by blast
    then show ?thesis using True Inr a(2) info[OF Inr] unfolding examine_def
      by (auto intro!: triple_return simp: outcome_ok_def account_ok_def)
  next
    case False then show ?thesis using Inr issue_reportable[OF spec a] by (simp add: examine_def)
  qed
qed

lemma reconcile_in_reportable:
  assumes spec: "JobSpec_Validate spec = None" and R: "reports_ok R" and st: "store_reports st"
  shows "triple (\<lambda>_. True) (reconcile_in R cfg spec acme dns root st) (\<lambda>r _. reportable r)"
proof -
  let ?o = "st_ObjectName st (tr_FQDN (js_Target spec))"
  have now: "triple (\<lambda>_. True) (op_now R) (\<lambda>t _. 0 < t)" using R by (simp add: reports_ok_def)
  have cur: "triple (\<lambda>_. 0 < t) (st_Current st ?o) (\<lambda>r _. 0 < t \<and> (\<forall>info. r = Inr info \<longrightarrow> fingerprintRe (ci_FingerprintSHA256 info)))" for t :: gotime
    using st by (auto simp: store_reports_def triple_def)
  have ex: "triple (\<lambda>_. 0 < t \<and> (\<forall>info. c = Inr info \<longrightarrow> fingerprintRe (ci_FingerprintSHA256 info)))
      (examine R cfg spec acme dns root st ?o t c) (\<lambda>r _. reportable r)" for t c
    using examine_reportable[OF spec R, of ?o t c] st by (auto simp: store_reports_def triple_def)
  show ?thesis unfolding reconcile_in_def Let_def by (rule triple_bind[OF now]) (rule triple_bind[OF cur ex])
qed

lemma reconcile_reportable:
  assumes spec: "JobSpec_Validate spec = None" and R: "reports_ok R"
  shows "triple (\<lambda>_. True) (reconcile R cfg spec) (\<lambda>r _. reportable r)"
proof -
  have opened: "triple (\<lambda>_. True) (or_fail (op_openStore R sb) (\<lambda>e.
       failAP spec AccountProvisioningFailed ErrorCodeStoreFailure ''certificate store could not be opened'' (Some e)))
     (\<lambda>r _. case r of Inl f \<Rightarrow> reportable (Inl f) | Inr st \<Rightarrow> store_reports st)" for sb
    using R by (auto simp: reports_ok_def triple_def or_fail_def run_bind failAP_ok[OF spec] split: sum.splits prod.splits)
  have "triple (\<lambda>_. store_reports st) (reconcile_in R cfg spec acme dns root st) (\<lambda>r _. reportable r)" for acme dns root st
    using reconcile_in_reportable[OF spec R, of st] by (auto simp: triple_def)
  then have "triple (\<lambda>_. True) (reconcile_bound R cfg spec acme dns sb) (\<lambda>r _. reportable r)" for acme dns sb
    unfolding reconcile_bound_def by (intro attempt_reportable account_root_well spec triple_attempt[OF opened])
  then show ?thesis unfolding reconcile_def
    by (auto split: option.splits intro!: triple_return simp: no_binding_def)
qed

subsection \<open>What is delivered\<close>

lemma plain_text_ok:
  assumes "length t \<le> mx" "list_all (\<lambda>c. 0x20 \<le> byte_of c \<and> byte_of c < 0x7F \<and> \<not> is_upper c) t"
    and "\<not> list_ex (\<lambda>(needle, _). Contains t needle) secretMarkers"
  shows "validateOpaqueText u f t mx = None"
proof -
  have "runes t = map byte_of t" using assms(2) by (induction t) auto
  moreover have "lower_ascii t = t" using assms(2) by (intro lower_ascii_id) (auto simp: list_all_iff)
  then have "strings_ToLower u t = t" using assms(2) by (auto simp: strings_ToLower_def list_all_iff)
  ultimately show ?thesis using assms
    by (auto simp: validateOpaqueText_def IsPrint_def rune_error_def list_ex_iff list_all_iff split: prod.splits)
qed

definition generic_texts :: "string list" where
  "generic_texts = [''job spec rejected by strict validation'', ''job rejected by runner authorization policy'', ''reconcile failed; see runner log'']"

lemma generic_texts_ok:
  "list_all (\<lambda>t. length t \<le> MaxErrorSummaryLength \<and> list_all (\<lambda>c. 0x20 \<le> byte_of c \<and> byte_of c < 0x7F \<and> \<not> is_upper c) t) generic_texts"
  "list_all (\<lambda>t. \<not> list_ex (\<lambda>(needle, _). Contains t needle) secretMarkers) generic_texts" "list_all (\<lambda>t. TrimSpace t \<noteq> []) generic_texts"
proof -
  show "list_all (\<lambda>t. length t \<le> MaxErrorSummaryLength \<and> list_all (\<lambda>c. 0x20 \<le> byte_of c \<and> byte_of c < 0x7F \<and> \<not> is_upper c) t) generic_texts"
    by code_simp
  show "list_all (\<lambda>t. \<not> list_ex (\<lambda>(needle, _). Contains t needle) secretMarkers) generic_texts"
    by (simp add: generic_texts_def secretMarkers_def Contains_def sublist_Cons_right)
  show "list_all (\<lambda>t. TrimSpace t \<noteq> []) generic_texts" by code_simp
qed

lemma generic_text: "validateOpaqueText u f (genericSummary code) MaxErrorSummaryLength = None" "TrimSpace (genericSummary code) \<noteq> []"
proof -
  have g: "genericSummary code \<in> set generic_texts" by (simp add: genericSummary_def generic_texts_def)
  show "validateOpaqueText u f (genericSummary code) MaxErrorSummaryLength = None" "TrimSpace (genericSummary code) \<noteq> []"
    using generic_texts_ok[unfolded list_all_iff[of _ generic_texts]] g by (auto intro!: plain_text_ok)
qed

text \<open>Signing cannot fail on a report: the signer was checked when it was loaded.\<close>

definition signer_ok :: "signer \<Rightarrow> bool" where
  "signer_ok g \<longleftrightarrow> length (sg_key g) = PrivateKeySize \<and> 0 < sg_validity g \<and> sg_validity g \<le> MaxSignedJobValidity"

definition delivers :: "('s, 'x) job_ops_scheme \<Rightarrow> bool" where
  "delivers R \<longleftrightarrow> (\<forall>line s. fst (run_state (op_stdout R line) s)) \<and> (\<forall>s. nonceRe (b64_encode (fst (run_state (op_nonce R) s)))) \<and>
     (\<forall>res. Result_Validate (op_unicode R) res = None \<longrightarrow> length (cd_write (op_resultCodec R) res) \<le> MaxDocumentSize)"

lemma loaded_signer: "triple (\<lambda>_. True) (signer_of R cfg) (\<lambda>r _. \<forall>g. r = Inr (Some g) \<longrightarrow> signer_ok g)"
  unfolding signer_of_def loadResultSigner_def
  by (auto simp: signer_ok_def NewResultSigner_def triple_def run_attempt split: sum.splits option.splits prod.splits if_splits)

lemma write_delivers:
  assumes "delivers R" "Result_Validate (op_unicode R) res = None" "\<And>g. signer = Some g \<Longrightarrow> signer_ok g"
  shows "triple (\<lambda>_. True) (WriteSignedResult R res signer path) (\<lambda>r _. fst r)"
proof -
  have doc: "triple (\<lambda>_. True) (writeDocument R line path) (\<lambda>r _. fst r)" for line
    using assms(1) unfolding writeDocument_def delivers_def
    by (auto simp: triple_def run_bind split: prod.splits if_splits) (metis fst_conv)
  show ?thesis
  proof (cases signer)
    case (Some g)
    let ?o = "\<lambda>now. \<lparr>so_IssuedAt = now, so_Validity = sg_validity g, so_Nonce = []\<rparr>"
    have "length (cd_write (op_resultCodec R) res) \<le> MaxDocumentSize" using assms(1,2) unfolding delivers_def by blast
    then have "\<exists>sr. SignResult (op_unicode R) (op_crypto R) (op_headerCodec R) (op_resultCodec R) now rnd res (sg_key g) (?o now) = Inr sr"
      if "nonceRe (b64_encode rnd)" for now rnd
      using assms(2) assms(3)[OF Some] that by (auto simp: SignResult_def signEnvelope_def Let_def signer_ok_def)
    note signs = this
    have sign: "triple (\<lambda>_. nonceRe (b64_encode rnd))
        (case SignResult (op_unicode R) (op_crypto R) (op_headerCodec R) (op_resultCodec R) now rnd res (sg_key g) (?o now) of
           Inl _ \<Rightarrow> State_Monad.return (False, False)
         | Inr sr \<Rightarrow> writeDocument R (cd_write (op_signedCodec R) sr) path) (\<lambda>r _. fst r)" for now rnd
    proof (rule tripleI, goal_cases)
      case (1 s r s')
      then obtain sr where "SignResult (op_unicode R) (op_crypto R) (op_headerCodec R) (op_resultCodec R) now rnd res (sg_key g) (?o now) = Inr sr"
        using signs by blast
      with 1(2) show ?case using tripleD[OF doc] by simp
    qed
    have "triple (\<lambda>_. True) (op_nonce R) (\<lambda>rnd _. nonceRe (b64_encode rnd))"
      using assms(1) unfolding delivers_def by (auto simp: triple_def) (metis fst_conv)
    then show ?thesis unfolding WriteSignedResult_def Some option.case by (intro triple_bind_any triple_bind[OF _ sign])
  qed (simp add: WriteSignedResult_def doc)
qed

lemma failure_checks:
  "failure_ok f \<Longrightarrow> identifierRe (id_RunID ids) \<Longrightarrow> identifierRe (id_TargetID ids) \<Longrightarrow> 0 < started \<Longrightarrow>
   validateOpaqueText u ''error.summary'' summary MaxErrorSummaryLength = None \<Longrightarrow> TrimSpace summary \<noteq> [] \<Longrightarrow>
   Result_Validate u (buildResult ids started finished (Inl f)\<lparr>rs_Error := Some \<lparr>re_Code = f_code f, re_Summary = summary\<rparr>\<rparr>) = None"
  unfolding Result_Validate_def check_all_None buildResult_def Let_def
  by (auto simp: go_checks result_status_checks_def check_all_None failure_ok_def account_ok_def validateStoreObjectRef_def split: option.splits)

lemma outcome_checks:
  "outcome_ok out \<Longrightarrow> identifierRe (id_RunID ids) \<Longrightarrow> identifierRe (id_TargetID ids) \<Longrightarrow> 0 < started \<Longrightarrow>
   Result_Validate u (buildResult ids started finished (Inr out)) = None"
  unfolding Result_Validate_def check_all_None buildResult_def Let_def
  by (auto simp: go_checks result_status_checks_def check_all_None outcome_ok_def account_ok_def fingerprintRe_def IsStoreObjectRef_def split: option.splits)

lemma reported_valid:
  assumes "reportable out" "identifierRe (id_RunID ids)" "identifierRe (id_TargetID ids)" "0 < started"
  shows "Result_Validate u (reported u (buildResult ids started finished out) out) = None"
  using assms failure_checks[OF _ assms(2-4) generic_text] outcome_checks[OF _ assms(2-4)]
  by (cases out) (auto simp: reported_def)

lemma reported_fields:
  "rs_RunID (reported u (buildResult ids started finished out) out) = id_RunID ids"
  "rs_TargetID (reported u (buildResult ids started finished out) out) = id_TargetID ids"
  "rs_Status (reported u (buildResult ids started finished out) out) = (case out of Inl _ \<Rightarrow> StatusFailed | Inr _ \<Rightarrow> StatusSucceeded)"
  by (simp_all add: reported_def buildResult_def Let_def split: sum.splits)

definition exit_of :: "result_doc \<Rightarrow> int" where
  "exit_of r = (if rs_Status r = StatusSucceeded then ExitSucceeded else ExitFailed)"

lemma finish_run_reports:
  "triple (\<lambda>_. True) (finish_run R ids started signer path out)
     (\<lambda>(code, res) _. case res of
        None \<Rightarrow> code = ExitNoResult
      | Some r \<Rightarrow> Result_Validate (op_unicode R) r = None \<and> code = exit_of r \<and> rs_Status r \<in> {StatusSucceeded, StatusFailed} \<and>
          rs_RunID r = id_RunID ids \<and> rs_TargetID r = id_TargetID ids)"
  unfolding finish_run_def Let_def
  by (auto intro!: triple_bind_any triple_return simp: exit_of_def reported_fields split: sum.splits)

lemma finish_run_delivers:
  assumes "delivers R" "\<And>g. signer = Some g \<Longrightarrow> signer_ok g" "reportable out"
    and "identifierRe (id_RunID ids)" "identifierRe (id_TargetID ids)" "0 < started"
  shows "triple (\<lambda>_. True) (finish_run R ids started signer path out) (\<lambda>(code, res) _. res \<noteq> None)"
proof -
  have "triple (\<lambda>_. True) (WriteSignedResult R (reported (op_unicode R) (buildResult ids started finished out) out) signer path) (\<lambda>r _. fst r)" for finished
    by (rule write_delivers[OF assms(1) reported_valid[OF assms(3-6)] assms(2)])
  then show ?thesis unfolding finish_run_def Let_def
    by (intro triple_bind_any) (auto simp: reported_valid[OF assms(3-6)] intro!: triple_bind[where A = "\<lambda>r _. fst r"] triple_return)
qed

subsection \<open>One job\<close>

lemma decoded_spec_valid: "triple (\<lambda>_. True) (decode_spec R cfg data env) (\<lambda>r _. case r of Inl f \<Rightarrow> failure_ok f | Inr spec \<Rightarrow> JobSpec_Validate spec = None)"
proof -
  have dec: "JobSpec_Validate spec = None" if "DecodeJobSpec D data = Inr spec" for D data spec
    using that by (simp add: DecodeJobSpec_def decoded_and_valid)
  have "JobSpec_Validate spec = None" if "SignedJob_Verify K H D now keys opts sj = Inr (spec, hdr)" for K H D now keys opts sj spec hdr
    using that dec by (auto simp: SignedJob_Verify_def split: option.splits sum.splits)
  then have "triple (\<lambda>_. True) (unwrapSignedJob R c sj) (\<lambda>r _. case r of Inl f \<Rightarrow> failure_ok f | Inr spec \<Rightarrow> JobSpec_Validate spec = None)" for c sj
    unfolding unwrapSignedJob_def Let_def
    by (auto intro!: triple_bind_any triple_return classifyCtx_ok split: option.splits sum.splits prod.splits ledger_answer.splits)
  then show ?thesis unfolding decode_spec_def
    by (auto intro!: triple_return dec split: option.splits sum.splits)
qed

lemma peeked: "peekIdentity R data = (ids, True) \<Longrightarrow> identifierRe (id_RunID ids) \<and> identifierRe (id_TargetID ids)"
  using Result_ValidateD(7)[of "op_unicode R" "probe_result (id_RunID ids) (id_TargetID ids)"]
    Result_ValidateD(8)[of "op_unicode R" "probe_result (id_RunID ids) (id_TargetID ids)"]
  by (auto simp: peekIdentity_def Let_def validateIdentifiers_def probe_result_def split: option.splits prod.splits if_splits)

lemma run_spec_reportable:
  "JobSpec_Validate spec = None \<Longrightarrow> reports_ok (runner_ops.truncate R) \<Longrightarrow> triple (\<lambda>_. True) (run_spec R cfg spec) (\<lambda>r _. reportable r)"
  unfolding run_spec_def by (auto intro!: triple_return reconcile_reportable split: sum.splits)

definition identity_data :: "string \<Rightarrow> signed_doc option \<Rightarrow> string" where
  "identity_data jobData envelope = (case envelope of None \<Rightarrow> jobData | Some sj \<Rightarrow> payloadBytes (envelope_of sj))"

definition reports :: "('s, 'x) job_ops_scheme \<Rightarrow> identity \<Rightarrow> int \<times> result_doc option \<Rightarrow> bool" where
  "reports R ids = (\<lambda>(code, res). \<exists>r. res = Some r \<and> Result_Validate (op_unicode R) r = None \<and> code = exit_of r \<and>
      rs_Status r \<in> {StatusSucceeded, StatusFailed} \<and> rs_RunID r = id_RunID ids \<and> rs_TargetID r = id_TargetID ids)"

definition known_run :: "'s job_ops \<Rightarrow> identity \<Rightarrow> gotime \<Rightarrow> bool" where
  "known_run R ids started \<longleftrightarrow> identifierRe (id_RunID ids) \<and> identifierRe (id_TargetID ids) \<and> 0 < started \<and>
     reports_ok (runner_ops.truncate R) \<and> delivers R"

lemma finish_reports:
  assumes "known_run R ids started" and signer: "\<And>g. signer = Some g \<Longrightarrow> signer_ok g"
  shows "triple (\<lambda>_. reportable out) (finish_run R ids started signer path out) (\<lambda>r _. reports R ids r)"
proof (rule tripleI)
  fix s r s' assume out: "reportable out" and run: "run_state (finish_run R ids started signer path out) s = (r, s')"
  have "triple (\<lambda>_. True) (finish_run R ids started signer path out) (\<lambda>(code, res) _. res \<noteq> None)"
    using assms(1) by (intro finish_run_delivers signer out) (simp_all add: known_run_def)
  from tripleD[OF this TrueI run] tripleD[OF finish_run_reports TrueI run]
  show "reports R ids r" by (auto simp: reports_def split: option.splits prod.splits)
qed

lemma finish_failure_reports:
  "known_run R ids started \<Longrightarrow> (\<And>g. signer = Some g \<Longrightarrow> signer_ok g) \<Longrightarrow> failure_ok f \<Longrightarrow> triple P (finish_run R ids started signer path (Inl f)) (\<lambda>r _. reports R ids r)"
  by (rule triple_pre[OF finish_reports]) auto

lemma spec_reports:
  assumes R: "known_run R ids started" and g: "\<And>k. g = Some k \<Longrightarrow> signer_ok k"
  shows "triple (\<lambda>_. case r of Inl f \<Rightarrow> failure_ok f | Inr spec \<Rightarrow> JobSpec_Validate spec = None)
      (case r of Inl f \<Rightarrow> finish_run R ids started g path (Inl f)
       | Inr spec \<Rightarrow> do { out \<leftarrow> run_spec R cfg spec; finish_run R ids started g path out }) (\<lambda>r _. reports R ids r)"
proof (cases r)
  case (Inr spec)
  have "triple (\<lambda>_. JobSpec_Validate spec = None) (run_spec R cfg spec) (\<lambda>r _. reportable r)"
    using R by (intro tripleI) (rule tripleD[OF run_spec_reportable TrueI], assumption, simp_all add: known_run_def)
  then show ?thesis using Inr by (simp add: triple_bind[OF _ finish_reports[OF R g]])
next
  case (Inl f)
  have "triple (\<lambda>_. failure_ok f) (finish_run R ids started g path (Inl f)) (\<lambda>r _. reports R ids r)"
    by (rule triple_pre[OF finish_reports[OF R g]]) auto
  then show ?thesis using Inl by simp
qed

lemma signer_reports:
  assumes R: "known_run R ids started"
  shows "triple (\<lambda>_. \<forall>g. sr = Inr (Some g) \<longrightarrow> signer_ok g)
     (case sr of
        Inl e \<Rightarrow> finish_run R ids started None path (Inl (fail ErrorCodeInternal ''result signing key could not be loaded'' (Some e)))
      | Inr g \<Rightarrow> do {
          spec \<leftarrow> decode_spec R cfg data env;
          case spec of Inl f \<Rightarrow> finish_run R ids started g path (Inl f)
          | Inr spec \<Rightarrow> do { out \<leftarrow> run_spec R cfg spec; finish_run R ids started g path out } }) (\<lambda>r _. reports R ids r)"
proof (cases sr)
  case (Inr g)
  show ?thesis
  proof (rule tripleI, goal_cases)
    case (1 s r s')
    then have "\<And>k. g = Some k \<Longrightarrow> signer_ok k" using Inr by blast
    from tripleD[OF triple_bind[OF decoded_spec_valid spec_reports[OF R this]] TrueI] 1(2) show ?case by (simp add: Inr)
  qed
next
  case (Inl e)
  show ?thesis unfolding Inl sum.case by (rule finish_failure_reports[OF R]) auto
qed

lemma handle_job_reports:
  "known_run R ids started \<Longrightarrow> peekIdentity R (identity_data data env) = (ids, True) \<Longrightarrow>
   triple (\<lambda>_. True) (handle_job R started path data env) (\<lambda>r _. reports R ids r)"
  unfolding handle_job_def Let_def identity_data_def[symmetric]
  by (simp only: prod.case not_True_eq_False if_False) (intro triple_bind_any triple_bind[OF loaded_signer signer_reports])

end
