(* ===== verification/RunnerProps.thy ===== *)
theory RunnerProps
  imports RunnerFiles RunReport
begin

text \<open>
  One process of the Runner as a whole: every identified run is reported, and a Runner that requires
  signed jobs acts on nothing else.
\<close>

subsection \<open>The Runner on its file system can report\<close>

lemma Current_fingerprint:
  assumes "\<And>s. length (px_sha P s) = 32"
  shows "triple (\<lambda>_. True) (Current W P root object) (\<lambda>r _. \<forall>info. r = Inr info \<longrightarrow> fingerprintRe (ci_FingerprintSHA256 info))"
  unfolding Current_def Let_def
  by (auto intro!: triple_attempt_any triple_bind_any triple_return fingerprint_ok[OF assms] simp: InfoOf_def split: sum.splits option.splits)

lemma fs_store_reports:
  assumes "\<And>s. length (px_sha (si_pki S) s) = 32"
  shows "store_reports (fs_store S root)"
  using Current_fingerprint[OF assms] ObjectNameN_legal[of "px_sha (si_pki S)" "int MaxStoreObjectRefLength"] assms
  by (simp add: store_reports_def fs_store_def ObjectName_def MaxStoreObjectRefLength_def)

lemma file_ops_reports:
  assumes sha: "\<And>s. length (px_sha (si_pki S) s) = 32" and now: "\<And>n. 0 < fw_now (si_world S) n" and only: "si_providers S = []"
  shows "reports_ok (file_ops S)"
proof -
  have "triple (\<lambda>_. True) (New S root) (\<lambda>r _. \<forall>st. r = Inr st \<longrightarrow> store_reports st)" for root
    unfolding New_def by (auto intro!: triple_attempt_any triple_return fs_store_reports[OF sha])
  then have "triple (\<lambda>_. True) (fs_provider S raw) (\<lambda>r _. \<forall>st. r = Inr st \<longrightarrow> store_reports st)" for raw
    unfolding fs_provider_def by (auto intro!: triple_return split: option.splits)
  then show ?thesis using sha now only
    by (auto simp: reports_ok_def file_ops_def Registry_Open_def triple_def Now_def split: option.splits if_splits)
qed

subsection \<open>Every identified run is reported\<close>

text \<open>
  Property C11: a run whose identity can be read from the job is always reported. Whatever happens
  (the configuration or the signing key does not load, the envelope is rejected or replayed, the
  reconcile fails anywhere or succeeds, an error text the contract refuses), a Result that the
  contract accepts, of this run and this target, is delivered, and the exit code is the one of its
  status; the process needs a standard output that can be written, and documents within the limit.
\<close>

theorem identified_run_reported:
  assumes run: "run_state (handle_job R started path data env) s = ((code, res), s')"
    and known: "peekIdentity R (identity_data data env) = (ids, True)"
    and started: "0 < started" and R: "reports_ok (runner_ops.truncate R)" and deliver: "delivers R"
  shows "\<exists>r. res = Some r \<and> Result_Validate (op_unicode R) r = None \<and> rs_RunID r = id_RunID ids \<and> rs_TargetID r = id_TargetID ids \<and>
    (code = ExitSucceeded \<and> rs_Status r = StatusSucceeded \<or> code = ExitFailed \<and> rs_Status r = StatusFailed)"
proof -
  have job: "known_run R ids started" using peeked[OF known] started R deliver by (simp add: known_run_def)
  from tripleD[OF handle_job_reports[OF job known] TrueI run] show ?thesis
    by (auto simp: exit_of_def reports_def)
qed

text \<open>A Runner whose configuration cannot be read and whose error output is closed.\<close>

definition sample_runner :: "(nat \<times> fs) job_ops" where
  "sample_runner = runner_ops.extend (file_ops sample_site)
     (job_ops.fields False (give (Inr None)) (\<lambda>_ _. give (Inl Failed)) ''/etc/runner.json'' 
        \<lparr>pf_unicode = ascii_only, pf_parseURL = (\<lambda>_. None), pf_parseIP = (\<lambda>_. None), pf_jsonValid = (\<lambda>_. True), pf_parsePublicKey = (\<lambda>_. None)\<rparr>
        sample_crypto
        \<lparr>cd_read = (\<lambda>_. None), cd_write = (\<lambda>_. [])\<rparr> sample_header_codec sample_job_codec
        \<lparr>cd_read = (\<lambda>_. None), cd_write = (\<lambda>_. ''{}'')\<rparr> \<lparr>cd_read = (\<lambda>_. None), cd_write = (\<lambda>_. ''{}'')\<rparr>
        (\<lambda>_. True) (\<lambda>_. None) (\<lambda>_. Some (''R1'', ''T1'')) (\<lambda>_ _ _ _ _. give Replayed) (\<lambda>_. None)
        (give (replicate 16 CHR ''0'')) (\<lambda>_. give True) (\<lambda>_ _. give False))"

lemma sample_runner_ops: "runner_ops.truncate sample_runner = file_ops sample_site"
  by (simp add: sample_runner_def runner_ops.defs)

lemma sample_runner_identity: "peekIdentity sample_runner data = (\<lparr>id_RunID = ''R1'', id_TargetID = ''T1''\<rparr>, True)"
proof -
  have "validateIdentifiers u ''R1'' ''T1'' = None" for u
  proof -
    have "failure_ok (fail ErrorCodeInternal ''probe'' None)" "identifierRe ''R1''" "identifierRe ''T1''" "TrimSpace ''probe'' \<noteq> []"
      by (simp, code_simp+)
    moreover have "validateOpaqueText u ''error.summary'' ''probe'' MaxErrorSummaryLength = None"
    proof (rule plain_text_ok)
      show "list_all (\<lambda>c. 0x20 \<le> byte_of c \<and> byte_of c < 0x7F \<and> \<not> is_upper c) ''probe''" by code_simp
    qed (simp_all add: MaxErrorSummaryLength_def secretMarkers_def Contains_def sublist_Cons_right)
    ultimately show ?thesis
      using failure_checks[of "fail ErrorCodeInternal ''probe'' None" "\<lparr>id_RunID = ''R1'', id_TargetID = ''T1''\<rparr>" "unix_time 0 + second" u "''probe''" 0]
      by (simp add: validateIdentifiers_def probe_result_def buildResult_def Let_def fail_def unix_time_def)
  qed
  then show ?thesis by (simp add: peekIdentity_def sample_runner_def runner_ops.defs job_ops.defs)
qed

lemma sample_runner_delivers: "delivers sample_runner"
proof -
  have "nonceRe (b64_encode (replicate 16 CHR ''0''))" by code_simp
  then show ?thesis by (simp add: delivers_def sample_runner_def runner_ops.defs job_ops.defs MaxDocumentSize_def)
qed

lemma sample_site_reports: "reports_ok (file_ops sample_site)"
  by (rule file_ops_reports) (simp_all add: sample_site_def sample_pki_def sample_digest_def calm_def unix_time_def)

theorem identified_run_reported_witness:
  "\<exists>r. snd (fst (run_state (handle_job sample_runner 5 [] ''{}'' None) (0, Map.empty))) = Some r \<and> rs_RunID r = ''R1''"
proof -
  obtain code res s' where run: "run_state (handle_job sample_runner 5 [] ''{}'' None) (0, Map.empty) = ((code, res), s')" by (metis prod.exhaust)
  from identified_run_reported[OF run sample_runner_identity _ _ sample_runner_delivers] sample_site_reports
  show ?thesis by (auto simp: run sample_runner_ops)
qed

subsection \<open>Only admitted jobs are acted on\<close>

text \<open>What runs in front of the reconcile and after it keeps \<open>I\<close>; the operations of the reconcile itself need not.\<close>

definition keeps :: "('s \<Rightarrow> bool) \<Rightarrow> ('s, 'a) state \<Rightarrow> bool" where
  "keeps I m \<longleftrightarrow> triple I m (\<lambda>_. I)"

definition front_keeps :: "'s job_ops \<Rightarrow> ('s \<Rightarrow> bool) \<Rightarrow> bool" where
  "front_keeps R I \<longleftrightarrow> keeps I (op_now R) \<and> keeps I (op_ctxErr R) \<and> (\<forall>p n. keeps I (op_readBounded R p n)) \<and>
     (\<forall>d i e t k. keeps I (op_recordJob R d i e t k)) \<and> keeps I (op_nonce R) \<and> (\<forall>l. keeps I (op_stdout R l)) \<and>
     (\<forall>p c. keeps I (op_commitFile R p c))"

lemma keeps_return [intro!, simp]: "keeps I (State_Monad.return x)"
  by (simp add: keeps_def triple_return)

lemma keeps_bind [intro!]: "keeps I m \<Longrightarrow> (\<And>x. keeps I (k x)) \<Longrightarrow> keeps I (State_Monad.bind m k)"
  unfolding keeps_def by (rule triple_bind)

lemma keeps_attempt [intro!]: "keeps I m \<Longrightarrow> (\<And>x. keeps I (k x)) \<Longrightarrow> keeps I (attempt m k)"
  unfolding attempt_def by (auto split: sum.splits)

lemma front_procedures:
  assumes "front_keeps R I"
  shows "keeps I (loadConfig R)" "keeps I (signer_of R cfg)" "keeps I (finish_run R ids started signer path out)"
    "keeps I (unwrapSignedJob R c sj)"
  using assms
  by (auto simp: front_keeps_def loadConfig_def signer_of_def loadResultSigner_def finish_run_def WriteSignedResult_def writeDocument_def
      unwrapSignedJob_def Let_def split: sum.splits option.splits prod.splits ledger_answer.splits)

text \<open>The job passed: its envelope verified under the configured keys, and the replay ledger had not seen the run before.\<close>

definition admitted :: "'s job_ops \<Rightarrow> ('s \<Rightarrow> bool) \<Rightarrow> signed_doc option \<Rightarrow> bool" where
  "admitted R I env \<longleftrightarrow> (\<exists>sj (c :: runner_config) js now spec hdr s s'. env = Some sj \<and> rc_JobSigning c = Some js \<and>
     SignedJob_Verify (op_crypto R) (op_headerCodec R) (op_jobCodec R) now (JobSigning_Keys js)
       \<lparr>vo_Now = now, vo_ClockSkew = jg_ClockSkewSeconds js * second\<rparr> sj = Inr (spec, hdr) \<and> I s \<and>
     run_state (op_recordJob R (lg_StateDir (rc_Lego c)) (js_RunID spec) (hd_ExpiresAt hdr) now (jg_ClockSkewSeconds js * second)) s = (Recorded, s'))"

lemma unwrap_admits:
  assumes "front_keeps R I" "\<not> admitted R I (Some sj)"
  shows "triple I (unwrapSignedJob R c sj) (\<lambda>r s. I s \<and> (\<exists>f. r = Inl f))"
proof -
  have "\<exists>f. r = Inl f" if "I s" "run_state (unwrapSignedJob R c sj) s = (r, s')" for r s s'
    using that assms unfolding unwrapSignedJob_def admitted_def front_keeps_def keeps_def Let_def
    by (auto simp: run_bind dest: tripleD split: option.splits sum.splits prod.splits ledger_answer.splits)
  with front_procedures(4)[OF assms(1), of c sj] show ?thesis unfolding keeps_def triple_def by blast
qed


text \<open>A Runner that reads a configuration with signing keys and receives an unsigned job.\<close>

definition sample_gated :: "(nat \<times> fs) job_ops" where
  "sample_gated = sample_runner\<lparr>op_readBounded := (\<lambda>_ _. give (Inr ''{}'')),
     op_configCodec := \<lparr>cd_read = (\<lambda>_. Some (sample_config\<lparr>rc_JobSigning := Some \<lparr>jg_PublicKeys = [''k''], jg_ClockSkewSeconds = 60, jg_keys = []\<rparr>\<rparr>)),
       cd_write = (\<lambda>_. [])\<rparr>\<rparr>"

lemma checked_section_Some: "checked_section f (Some x) = Some y \<Longrightarrow> y \<noteq> None"
  by (cases "f x") (auto simp: checked_section_def)

lemma sample_gated_required:
  assumes "run_state (loadConfig sample_gated) s = (Inr c, s')"
  shows "rc_JobSigning c \<noteq> None"
proof -
  have "Config_Read (op_platform sample_gated) (op_crypto sample_gated) (op_configCodec sample_gated) ''{}'' = Some c"
    using assms by (auto simp: loadConfig_def run_attempt sample_gated_def split: option.splits if_splits)
  then show ?thesis
    by (auto simp: Config_Read_def Config_Validate_def sample_gated_def dest: checked_section_Some split: option.splits if_splits)
qed


end
