(* ===== verification/ApiCore.thy ===== *)
theory ApiCore
  imports SchedProps Provision RunnerConfig Effects
begin

text \<open>
  The Conductor's REST API (\<^verbatim>\<open>internal/conductor/api\<close>): what every endpoint shares. A handler is a
  program over the registry, reached through the same calls as the scheduler's (\<open>Sched\<close>: other
  writers may act before each call, and a call may fail before or after it commits), the cache of
  display names and the signals sent to the scheduler. Error responses carry status, code and
  details; the texts of their messages are left out, as are the log lines.
\<close>

subsection \<open>Requests and principals\<close>

record request =
  rq_Method :: string
  rq_Path :: "string list"
  rq_RemoteAddr :: string
  rq_Host :: string
  rq_Header :: "string \<Rightarrow> string"
  rq_Query :: "string \<Rightarrow> string"
  rq_Body :: "(unit + string) option"

record principal =
  pr_Name :: string
  pr_Authority :: string
  pr_Role :: string
  pr_DisplayName :: string

definition RoleAdmin :: string where "RoleAdmin = ''admin''"
definition RoleViewer :: string where "RoleViewer = ''viewer''"

datatype auth_error = ErrUnauthenticated | ErrForbidden

definition LocalhostDevPrincipal :: string where "LocalhostDevPrincipal = ''localhost-dev''"
definition LocalhostDevAuthority :: string where "LocalhostDevAuthority = ''localhost-dev''"

subsection \<open>Errors of a handler\<close>

datatype api_err = ApiErr int string "(string \<times> string) list" | RegErr reg_error

definition badRequest :: api_err where "badRequest = ApiErr 400 ''invalid_request'' []"

definition errRetired :: api_err where "errRetired = ApiErr 409 ''target_retired'' []"

subsection \<open>Inputs\<close>

record target_create_input =
  ti_FQDN :: string
  ti_AdditionalNames :: "string list"
  ti_Owner :: string
  ti_PolicyRef :: string
  ti_ExecutionBinding :: string
  ti_DNSBinding :: string
  ti_StoreBinding :: string
  ti_Enabled :: "bool option"

record target_update_input =
  tu_Revision :: int
  tu_AdditionalNames :: "string list option"
  tu_Owner :: "string option"
  tu_PolicyRef :: "string option"
  tu_ExecutionBinding :: "string option"
  tu_DNSBinding :: "string option"
  tu_StoreBinding :: "string option"
  tu_Enabled :: "bool option"

record policy_input =
  pi_Name :: "string option"
  pi_AllowedDnsSuffixes :: "string list"
  pi_AllowWildcard :: bool
  pi_ACMEBinding :: string
  pi_RenewBeforeDays :: int
  pi_KeyType :: string
  pi_MaxSANs :: "int option"
  pi_Enabled :: "bool option"

record consumers_input =
  ci_Version :: int
  ci_Items :: "consumer list"

record provisioning_input =
  vi_AccountGeneration :: int
  vi_EncryptedCredential :: sealed_provisioning

subsection \<open>Resources\<close>

record certificate_summary =
  cm_ExpiresAt :: "gotime option"
  cm_FingerprintSha256 :: string
  cm_StoreObjectRef :: string
  cm_LastSucceededAt :: "gotime option"
  cm_LastSucceededRun :: string

record run_brief =
  rb_ID :: string
  rb_Status :: run_status
  rb_RequestedAt :: gotime
  rb_FinishedAt :: "gotime option"
  rb_ErrorCode :: string

record target_resource =
  tx_ID :: string
  tx_FQDN :: string
  tx_AdditionalNames :: "string list"
  tx_Enabled :: bool
  tx_Owner :: string
  tx_PolicyRef :: string
  tx_ExecutionBinding :: string
  tx_DNSBinding :: string
  tx_StoreBinding :: string
  tx_CreatedAt :: gotime
  tx_UpdatedAt :: gotime
  tx_Revision :: int
  tx_Retired :: bool
  tx_RetiredAt :: "gotime option"
  tx_RetiredBy :: string
  tx_RetiredByAuthority :: string
  tx_Certificate :: "certificate_summary option"
  tx_LastRun :: "run_brief option"

record run_resource =
  rx_ID :: string
  rx_TargetID :: string
  rx_TargetRevision :: int
  rx_Status :: run_status
  rx_RequestedBy :: string
  rx_RequestedByAuthority :: string
  rx_RequestedAt :: gotime
  rx_StartedAt :: "gotime option"
  rx_FinishedAt :: "gotime option"
  rx_Action :: string
  rx_ExpiresAt :: "gotime option"
  rx_FingerprintSha256 :: string
  rx_StoreObjectRef :: string
  rx_Error :: "(string \<times> string) option"
  rx_ExternalExecutionID :: string

record account_resource =
  ax_Generation :: int
  ax_Status :: account_status
  ax_KeyID :: string
  ax_RunID :: string
  ax_RequestedBy :: string
  ax_RequestedByAuthority :: string
  ax_CreatedAt :: gotime
  ax_UpdatedAt :: gotime
  ax_ActivatedAt :: "gotime option"

record target_account_resource =
  ay_TargetID :: string
  ay_ActiveGeneration :: int
  ay_Pending :: "account_resource option"
  ay_Generations :: "account_resource list"

record binding_resource =
  bx_Name :: string
  bx_TargetScoped :: bool
  bx_ExternalAccountBinding :: bool
  bx_ActiveGeneration :: int
  bx_Pending :: "account_resource option"
  bx_Generations :: "account_resource list"
  bx_Targets :: "target_account_resource list"

record provisioning_run =
  pv_Started :: bool
  pv_RunID :: string
  pv_TargetID :: string
  pv_Status :: "run_status option"
  pv_Reason :: string

record bindings =
  bn_Execution :: "string list"
  bn_ACME :: "string list"
  bn_DNS :: "string list"
  bn_Store :: "string list"

text \<open>
  A policy, an audit event, a principal's name and a consumer ledger are answered with the fields
  of their rows, an account generation without its sealed payload.
\<close>

datatype body =
    BError string "(string \<times> string) list"
  | BStatus string
  | BBindings bindings
  | BPolicy reg_policy | BPolicies "reg_policy list"
  | BTarget target_resource | BTargets "target_resource list"
  | BConsumers consumers
  | BRun run_resource | BRuns "run_resource list"
  | BAudit "audit_event list"
  | BPrincipals "principal_name list"
  | BProvisioningKey string string
  | BAcmeBinding binding_resource | BAcmeBindings "binding_resource list"
  | BTargetAccount target_account_resource
  | BProvisioning account_resource provisioning_run
  | BCancelled string string int
  | BDelegation string

record response =
  rp_Status :: int
  rp_Location :: "string option"
  rp_Challenge :: "string option"
  rp_Body :: body

definition writeJSON :: "int \<Rightarrow> body \<Rightarrow> response" where
  "writeJSON status v = \<lparr>rp_Status = status, rp_Location = None, rp_Challenge = None, rp_Body = v\<rparr>"

definition writeError :: "int \<Rightarrow> string \<Rightarrow> (string \<times> string) list \<Rightarrow> response" where
  "writeError status code details = writeJSON status (BError code details)"

text \<open>\<^verbatim>\<open>fail\<close> of \<^verbatim>\<open>api.go\<close>: the response to an error of a handler.\<close>

definition fail_response :: "api_err \<Rightarrow> response" where
  "fail_response err =
     (case err of
        ApiErr status code details \<Rightarrow> writeError status code details
      | RegErr ErrNotFound \<Rightarrow> writeError 404 ''not_found'' []
      | RegErr ErrStaleRevision \<Rightarrow> writeError 409 ''stale_revision'' []
      | RegErr ErrStaleConsumers \<Rightarrow> writeError 409 ''stale_version'' []
      | RegErr ErrRunActive \<Rightarrow> writeError 409 ''run_active'' []
      | RegErr ErrRetired \<Rightarrow> writeError 409 ''target_retired'' []
      | RegErr ErrPolicyNameTaken \<Rightarrow> writeError 409 ''policy_name_taken'' []
      | RegErr ErrTargetEnabled \<Rightarrow> writeError 409 ''target_enabled'' []
      | RegErr ErrConflict \<Rightarrow> writeError 409 ''conflict'' []
      | RegErr ErrOther \<Rightarrow> writeError 500 ''internal'' [])"

subsection \<open>The server\<close>

text \<open>
  The fields of \<^verbatim>\<open>Server\<close>, with what the handlers take from elsewhere: the authenticator and its
  challenge, the answer of the scheduler's \<^verbatim>\<open>Cancel\<close>, readiness, the DNS check, and the parsers and
  tables of the standard library (media types, hosts, URLs, JSON, Unicode, \<^verbatim>\<open>%q\<close>, error texts).
\<close>

record server =
  sv_bind :: bindings
  sv_auth :: "(request \<Rightarrow> auth_error + principal) option"
  sv_challenge :: "string option"
  sv_cancel :: "nat \<Rightarrow> string \<Rightarrow> bool"
  sv_ready :: "nat \<Rightarrow> bool"
  sv_provisioning :: "string option"
  sv_eabBindings :: "string list"
  sv_targetScoped :: "string list"
  sv_dnsCheck :: "string \<Rightarrow> string list \<Rightarrow> bool \<Rightarrow> string"
  sv_sealing :: sealing
  sv_platform :: platform
  sv_fold :: "nat \<Rightarrow> nat"
  sv_quote :: "string \<Rightarrow> string"
  sv_policyText :: "policy_error \<Rightarrow> string"
  sv_mediaType :: "string \<Rightarrow> string option"
  sv_targetCreate :: "target_create_input codec"
  sv_targetUpdate :: "target_update_input codec"
  sv_policyInput :: "policy_input codec"
  sv_consumersInput :: "consumers_input codec"
  sv_runRequest :: "int codec"
  sv_provisioningInput :: "provisioning_input codec"
  sv_sealedCodec :: "sealed_provisioning codec"

datatype signal = Wake | CancelRun string

record api_vars =
  av_names :: "((string \<times> string) \<times> string) list"
  av_signals :: "signal list"

type_synonym api_state = "(nat \<times> db) \<times> api_vars"
type_synonym 'a api = "(api_state, api_err + 'a) state"

abbreviation done_with :: "'a \<Rightarrow> 'a api" where "done_with x \<equiv> State_Monad.return (Inr x)"
abbreviation refuse :: "api_err \<Rightarrow> 'a api" where "refuse e \<equiv> State_Monad.return (Inl e)"

definition api_call :: "world \<Rightarrow> call_kind \<Rightarrow> (op_env \<Rightarrow> db \<Rightarrow> reg_error + ('a \<times> db)) \<Rightarrow> (api_state, reg_error + 'a) state" where
  "api_call W k op = State (\<lambda>(s, v). case run_state (call W k op) s of (a, s') \<Rightarrow> (a, (s', v)))"

definition or_registry :: "(api_state, reg_error + 'a) state \<Rightarrow> 'a api" where
  "or_registry m = do { r \<leftarrow> m; State_Monad.return (case r of Inl e \<Rightarrow> Inl (RegErr e) | Inr a \<Rightarrow> Inr a) }"

definition query :: "world \<Rightarrow> (db \<Rightarrow> reg_error + 'a) \<Rightarrow> 'a api" where
  "query W q = or_registry (api_call W KRead (read q))"

definition command :: "world \<Rightarrow> (op_env \<Rightarrow> db \<Rightarrow> reg_error + ('a \<times> db)) \<Rightarrow> 'a api" where
  "command W op = or_registry (api_call W KAudit op)"

definition emit :: "signal \<Rightarrow> unit api" where
  "emit x = State (\<lambda>(s, v). (Inr (), (s, v\<lparr>av_signals := av_signals v @ [x]\<rparr>)))"

definition api_now :: "world \<Rightarrow> gotime api" where
  "api_now W = State (\<lambda>((n, d), v). (Inr (w_now W n), ((n, d), v)))"

text \<open>A check that does not touch the state.\<close>

definition check :: "api_err + 'a \<Rightarrow> 'a api" where
  "check r = State_Monad.return r"

end
