(* ===== verification/ConductorConfig.thy ===== *)
theory ConductorConfig
  imports RunnerConfig AuditLog
begin

text \<open>
  The Conductor's configuration, \<^verbatim>\<open>internal/conductor/config/config.go\<close>: a record per section, the
  defaults and every check of \<^verbatim>\<open>Validate\<close>. \<open>None\<close> is an error; which one it is only shows in its text.
  Maps of the document are association lists. Parsing of URLs, addresses, keys and JSON belongs to
  other packages and is a parameter.
\<close>

subsection \<open>Parameters\<close>

record issuer_url = parsed_url +
  u_Opaque :: string
  u_RawQuery :: string
  u_ForceQuery :: bool

record config_libs =
  cl_platform :: platform
  cl_crypto :: crypto
  cl_fold :: "nat \<Rightarrow> nat"
  cl_issuerURL :: "string \<Rightarrow> issuer_url option"
  cl_splitHostPort :: "string \<Rightarrow> (string \<times> string) option"
  cl_provisioningKey :: "string \<Rightarrow> string option"

subsection \<open>Sections\<close>

record oidc_section =
  oi_Issuer :: string
  oi_Audience :: string
  oi_ClientID :: string
  oi_Scopes :: "string list"
  oi_PrincipalClaim :: string
  oi_DisplayNameClaim :: string
  oi_RolesClaim :: string
  oi_AdminRoles :: "string list"
  oi_ViewerRoles :: "string list"
  oi_ClockSkewSeconds :: int
  oi_KeyCacheSeconds :: int

record tls_section =
  tl_CertFile :: string
  tl_KeyFile :: string

record server_section =
  se_Listen :: string
  se_AuthMode :: string
  se_OIDC :: "oidc_section option"
  se_TLS :: "tls_section option"
  se_BehindTLSProxy :: bool
  se_ShutdownGraceSeconds :: int

record scheduler_section =
  sc_TickSeconds :: int
  sc_MaxConcurrentRuns :: int
  sc_RetryBackoffSeconds :: int
  sc_MaxRetryBackoffSeconds :: int

record execution_binding =
  xb_Type :: string
  xb_Config :: string

record conductor_signing =
  cj_PrivateKeyFile :: string
  cj_ValiditySeconds :: int

record conductor_results =
  cr_PublicKeys :: "string list"
  cr_ClockSkewSeconds :: int
  cr_keys :: "(string \<times> string) list"

record conductor_provisioning =
  cv_PublicKey :: string
  cv_Bindings :: "string list"
  cv_TargetScopedBindings :: "string list"
  cv_pub :: "string option"

record conductor_config =
  co_APIVersion :: string
  co_Kind :: string
  co_Server :: server_section
  co_DatabasePath :: string
  co_Scheduler :: scheduler_section
  co_ExecutionBindings :: "(string \<times> execution_binding) list"
  co_ACMEBindings :: "string list"
  co_DNSBindings :: "string list"
  co_StoreBindings :: "string list"
  co_DNSChallengeZones :: "(string \<times> string) list"
  co_JobSigning :: "conductor_signing option"
  co_ResultSigning :: "conductor_results option"
  co_RemovedMigration :: "string option"
  co_AccountProvisioning :: "conductor_provisioning option"

subsection \<open>Limits and defaults\<close>

definition ConductorConfigKind :: string where "ConductorConfigKind = ''ConductorConfig''"
definition ConductorMaxConfigSize :: nat where "ConductorMaxConfigSize = 256 * 1024"
definition DefaultListen :: string where "DefaultListen = ''127.0.0.1:8080''"
definition DefaultShutdownGraceSeconds :: int where "DefaultShutdownGraceSeconds = 900"
definition MaxShutdownGraceSeconds :: int where "MaxShutdownGraceSeconds = 86400"
definition DefaultTickSeconds :: int where "DefaultTickSeconds = 60"
definition MaxTickSeconds :: int where "MaxTickSeconds = 86400"
definition DefaultMaxConcurrentRuns :: int where "DefaultMaxConcurrentRuns = 2"
definition MaxMaxConcurrentRuns :: int where "MaxMaxConcurrentRuns = 64"
definition DefaultRetryBackoffSeconds :: int where "DefaultRetryBackoffSeconds = 300"
definition DefaultMaxRetryBackoffSeconds :: int where "DefaultMaxRetryBackoffSeconds = 6 * 3600"
definition MaxRetryBackoffSeconds :: int where "MaxRetryBackoffSeconds = 7 * 86400"
definition DefaultSigningValiditySeconds :: int where "DefaultSigningValiditySeconds = 900"
definition MaxSigningValiditySeconds :: int where "MaxSigningValiditySeconds = 86400"
definition ConductorMaxSigningKeys :: nat where "ConductorMaxSigningKeys = 8"
definition ConductorDefaultClockSkewSeconds :: int where "ConductorDefaultClockSkewSeconds = 300"
definition ConductorMaxClockSkewSeconds :: int where "ConductorMaxClockSkewSeconds = 3600"
definition DefaultOIDCClockSkewSeconds :: int where "DefaultOIDCClockSkewSeconds = 60"
definition MaxOIDCClockSkewSeconds :: int where "MaxOIDCClockSkewSeconds = 300"
definition DefaultOIDCKeyCacheSeconds :: int where "DefaultOIDCKeyCacheSeconds = 3600"
definition MinOIDCKeyCacheSeconds :: int where "MinOIDCKeyCacheSeconds = 60"
definition MaxOIDCKeyCacheSeconds :: int where "MaxOIDCKeyCacheSeconds = 86400"
definition MaxOIDCRoleValues :: nat where "MaxOIDCRoleValues = 32"
definition MaxOIDCScopes :: nat where "MaxOIDCScopes = 16"
definition MaxOIDCValueLength :: nat where "MaxOIDCValueLength = 256"
definition MaxOIDCIssuerLength :: nat where "MaxOIDCIssuerLength = 512"
definition AuthLocalhostDev :: string where "AuthLocalhostDev = ''localhost-dev''"
definition AuthOIDC :: string where "AuthOIDC = ''oidc''"
definition DefaultOIDCPrincipalClaim :: string where "DefaultOIDCPrincipalClaim = ''sub''"
definition DefaultOIDCDisplayNameClaim :: string where "DefaultOIDCDisplayNameClaim = ''name''"
definition NoOIDCDisplayNameClaim :: string where "NoOIDCDisplayNameClaim = ''-''"
definition DefaultOIDCRolesClaim :: string where "DefaultOIDCRolesClaim = ''roles''"

definition default_int :: "int \<Rightarrow> int \<Rightarrow> int" where
  "default_int d v = (if v = 0 then d else v)"

definition default_text :: "string \<Rightarrow> string \<Rightarrow> string" where
  "default_text d v = (if v = [] then d else v)"

subsection \<open>Hosts and URLs\<close>

definition IsLoopbackHost :: "(nat \<Rightarrow> nat) \<Rightarrow> platform \<Rightarrow> string \<Rightarrow> bool" where
  "IsLoopbackHost tbl N host \<longleftrightarrow>
     EqualFold tbl host ''localhost'' \<or>
     pf_parseIP N (TrimRight (TrimLeft host ''[]'') ''[]'') = Some IPLoopback"

definition ValidateIssuerURL :: "config_libs \<Rightarrow> string \<Rightarrow> bool" where
  "ValidateIssuerURL L raw =
     (case cl_issuerURL L raw of
        None \<Rightarrow> False
      | Some u \<Rightarrow>
          if u_Host u = [] \<or> u_Opaque u \<noteq> [] \<or> u_User u \<or> u_RawQuery u \<noteq> [] \<or> u_Fragment u \<noteq> [] \<or> u_ForceQuery u then False
          else if u_Scheme u = ''https'' then True
          else if u_Scheme u = ''http'' then IsLoopbackHost (cl_fold L) (cl_platform L) (u_Hostname u)
          else False)"

subsection \<open>Checks of the sections\<close>

definition claimNameRe :: "string \<Rightarrow> bool" where
  "claimNameRe s \<longleftrightarrow>
     s \<noteq> [] \<and> (is_lower (hd s) \<or> is_upper (hd s) \<or> hd s = CHR ''_'') \<and> length (tl s) \<le> 63 \<and>
     list_all (\<lambda>c. is_lower c \<or> is_upper c \<or> is_digit c \<or> c \<in> set ''_.:/-'') (tl s)"

definition oidcValue :: "string \<Rightarrow> bool \<Rightarrow> bool" where
  "oidcValue v required =
     (if v = [] then \<not> required
      else length v \<le> MaxOIDCValueLength \<and> list_all (\<lambda>c. 0x20 < byte_of c \<and> byte_of c < 0x7F) v)"

definition OIDC_defaults :: "oidc_section \<Rightarrow> oidc_section" where
  "OIDC_defaults s =
     s\<lparr>oi_PrincipalClaim := default_text DefaultOIDCPrincipalClaim (oi_PrincipalClaim s),
       oi_DisplayNameClaim := default_text DefaultOIDCDisplayNameClaim (oi_DisplayNameClaim s),
       oi_RolesClaim := default_text DefaultOIDCRolesClaim (oi_RolesClaim s),
       oi_ClockSkewSeconds := default_int DefaultOIDCClockSkewSeconds (oi_ClockSkewSeconds s),
       oi_KeyCacheSeconds := default_int DefaultOIDCKeyCacheSeconds (oi_KeyCacheSeconds s)\<rparr>"

definition OIDC_ok :: "config_libs \<Rightarrow> oidc_section \<Rightarrow> bool" where
  "OIDC_ok L s \<longleftrightarrow>
     length (oi_Issuer s) \<le> MaxOIDCIssuerLength \<and> ValidateIssuerURL L (oi_Issuer s) \<and>
     oidcValue (oi_Audience s) True \<and> oidcValue (oi_ClientID s) False \<and>
     length (oi_Scopes s) \<le> MaxOIDCScopes \<and> (oi_Scopes s \<noteq> [] \<longrightarrow> oi_ClientID s \<noteq> []) \<and>
     list_all (\<lambda>sc. oidcValue sc True) (oi_Scopes s) \<and> distinct (oi_Scopes s) \<and>
     (oi_ClientID s \<noteq> [] \<longrightarrow> oi_Scopes s \<noteq> []) \<and>
     claimNameRe (oi_PrincipalClaim s) \<and> claimNameRe (oi_RolesClaim s) \<and>
     (oi_DisplayNameClaim s \<noteq> NoOIDCDisplayNameClaim \<longrightarrow> claimNameRe (oi_DisplayNameClaim s)) \<and>
     oi_AdminRoles s \<noteq> [] \<and> length (oi_AdminRoles s) \<le> MaxOIDCRoleValues \<and> length (oi_ViewerRoles s) \<le> MaxOIDCRoleValues \<and>
     list_all (\<lambda>v. oidcValue v True) (oi_AdminRoles s @ oi_ViewerRoles s) \<and> distinct (oi_AdminRoles s @ oi_ViewerRoles s) \<and>
     1 \<le> oi_ClockSkewSeconds s \<and> oi_ClockSkewSeconds s \<le> MaxOIDCClockSkewSeconds \<and>
     MinOIDCKeyCacheSeconds \<le> oi_KeyCacheSeconds s \<and> oi_KeyCacheSeconds s \<le> MaxOIDCKeyCacheSeconds"

definition OIDC_validate :: "config_libs \<Rightarrow> oidc_section \<Rightarrow> oidc_section option" where
  "OIDC_validate L s = (let s = OIDC_defaults s in if OIDC_ok L s then Some s else None)"

definition TLS_validate :: "tls_section \<Rightarrow> bool" where
  "TLS_validate t \<longleftrightarrow> clean_abs (tl_CertFile t) \<and> clean_abs (tl_KeyFile t)"

definition Server_validate :: "config_libs \<Rightarrow> server_section \<Rightarrow> server_section option" where
  "Server_validate L s =
     (let s = s\<lparr>se_Listen := default_text DefaultListen (se_Listen s)\<rparr> in
      case cl_splitHostPort L (se_Listen s) of
        None \<Rightarrow> None
      | Some (host, port) \<Rightarrow>
          if port = [] then None
          else
            let s = s\<lparr>se_AuthMode := default_text AuthLocalhostDev (se_AuthMode s)\<rparr>;
                loopback = IsLoopbackHost (cl_fold L) (cl_platform L) host;
                checked =
                  (if se_AuthMode s = AuthLocalhostDev
                   then (if \<not> loopback \<or> se_OIDC s \<noteq> None \<or> se_TLS s \<noteq> None \<or> se_BehindTLSProxy s then None else Some s)
                   else if se_AuthMode s = AuthOIDC
                   then (case se_OIDC s of
                           None \<Rightarrow> None
                         | Some oi \<Rightarrow>
                             (case OIDC_validate L oi of
                                None \<Rightarrow> None
                              | Some oi \<Rightarrow>
                                  if (case se_TLS s of None \<Rightarrow> False | Some t \<Rightarrow> se_BehindTLSProxy s \<or> \<not> TLS_validate t) then None
                                  else if \<not> loopback \<and> se_TLS s = None \<and> \<not> se_BehindTLSProxy s then None
                                  else Some (s\<lparr>se_OIDC := Some oi\<rparr>)))
                   else None) in
            (case checked of
               None \<Rightarrow> None
             | Some s \<Rightarrow>
                 let s = s\<lparr>se_ShutdownGraceSeconds := default_int DefaultShutdownGraceSeconds (se_ShutdownGraceSeconds s)\<rparr> in
                 if se_ShutdownGraceSeconds s < 1 \<or> MaxShutdownGraceSeconds < se_ShutdownGraceSeconds s then None else Some s))"

definition Database_validate :: "string \<Rightarrow> bool" where
  "Database_validate p \<longleftrightarrow> clean_abs p"

definition Scheduler_validate :: "scheduler_section \<Rightarrow> scheduler_section option" where
  "Scheduler_validate s =
     (let s = s\<lparr>sc_TickSeconds := default_int DefaultTickSeconds (sc_TickSeconds s)\<rparr> in
      if sc_TickSeconds s < 1 \<or> MaxTickSeconds < sc_TickSeconds s then None
      else
        let s = s\<lparr>sc_MaxConcurrentRuns := default_int DefaultMaxConcurrentRuns (sc_MaxConcurrentRuns s)\<rparr> in
        if sc_MaxConcurrentRuns s < 1 \<or> MaxMaxConcurrentRuns < sc_MaxConcurrentRuns s then None
        else
          let s = s\<lparr>sc_RetryBackoffSeconds := default_int DefaultRetryBackoffSeconds (sc_RetryBackoffSeconds s),
                    sc_MaxRetryBackoffSeconds := default_int DefaultMaxRetryBackoffSeconds (sc_MaxRetryBackoffSeconds s)\<rparr> in
          if sc_RetryBackoffSeconds s < 1 \<or> MaxRetryBackoffSeconds < sc_RetryBackoffSeconds s then None
          else if sc_MaxRetryBackoffSeconds s < sc_RetryBackoffSeconds s \<or> MaxRetryBackoffSeconds < sc_MaxRetryBackoffSeconds s then None
          else Some s)"

definition ExecutionBinding_validate :: "platform \<Rightarrow> execution_binding \<Rightarrow> bool" where
  "ExecutionBinding_validate N b \<longleftrightarrow> ValidateBindingShape N (xb_Type b) (xb_Config b)"

definition validateNames :: "string list \<Rightarrow> bool" where
  "validateNames names \<longleftrightarrow> names \<noteq> [] \<and> list_all IsBindingName names \<and> distinct names"

definition ConductorSigning_validate :: "conductor_signing \<Rightarrow> conductor_signing option" where
  "ConductorSigning_validate j =
     (if \<not> clean_abs (cj_PrivateKeyFile j) then None
      else
        let j = j\<lparr>cj_ValiditySeconds := default_int DefaultSigningValiditySeconds (cj_ValiditySeconds j)\<rparr> in
        if cj_ValiditySeconds j < 1 \<or> MaxSigningValiditySeconds < cj_ValiditySeconds j then None else Some j)"

definition ConductorResults_validate :: "config_libs \<Rightarrow> conductor_results \<Rightarrow> conductor_results option" where
  "ConductorResults_validate L r =
     (if cr_PublicKeys r = [] \<or> ConductorMaxSigningKeys < length (cr_PublicKeys r) then None
      else (case index_keys (cl_platform L) (cl_crypto L) [] (cr_PublicKeys r) of
              None \<Rightarrow> None
            | Some keys \<Rightarrow>
                let r = r\<lparr>cr_keys := keys, cr_ClockSkewSeconds := default_int ConductorDefaultClockSkewSeconds (cr_ClockSkewSeconds r)\<rparr> in
                if cr_ClockSkewSeconds r < 1 \<or> ConductorMaxClockSkewSeconds < cr_ClockSkewSeconds r then None else Some r))"

definition ConductorProvisioning_validate :: "config_libs \<Rightarrow> string list \<Rightarrow> conductor_provisioning \<Rightarrow> conductor_provisioning option" where
  "ConductorProvisioning_validate L acme a =
     (case cl_provisioningKey L (cv_PublicKey a) of
        None \<Rightarrow> None
      | Some pub \<Rightarrow>
          if \<not> validateNames (cv_Bindings a) then None
          else if \<not> list_all (\<lambda>n. n \<in> set acme) (cv_Bindings a) then None
          else if cv_TargetScopedBindings a \<noteq> [] \<and> \<not> validateNames (cv_TargetScopedBindings a) then None
          else if \<not> list_all (\<lambda>n. n \<in> set (cv_Bindings a)) (cv_TargetScopedBindings a) then None
          else Some (a\<lparr>cv_pub := Some pub\<rparr>))"

fun validate_zones :: "string list \<Rightarrow> (string \<times> string) list \<Rightarrow> (string \<times> string) list option" where
  "validate_zones dns [] = Some []"
| "validate_zones dns ((n, z) # zs) =
     (if n \<notin> set dns then None
      else (case NormalizeSuffix z of
              Inl _ \<Rightarrow> None
            | Inr z' \<Rightarrow> (case validate_zones dns zs of None \<Rightarrow> None | Some zs' \<Rightarrow> Some ((n, z') # zs'))))"

subsection \<open>The whole configuration\<close>

definition ConductorConfig_Validate :: "config_libs \<Rightarrow> conductor_config \<Rightarrow> conductor_config option" where
  "ConductorConfig_Validate L c =
     (if co_APIVersion c \<noteq> APIVersion \<or> co_Kind c \<noteq> ConductorConfigKind then None
      else
        Option.bind (Server_validate L (co_Server c)) (\<lambda>srv.
        if \<not> Database_validate (co_DatabasePath c) then None
        else
        Option.bind (Scheduler_validate (co_Scheduler c)) (\<lambda>sch.
        if co_ExecutionBindings c = [] then None
        else if \<not> list_all (\<lambda>(n, b). IsBindingName n \<and> ExecutionBinding_validate (cl_platform L) b) (co_ExecutionBindings c) then None
        else if \<not> list_all validateNames [co_ACMEBindings c, co_DNSBindings c, co_StoreBindings c] then None
        else
        Option.bind (validate_zones (co_DNSBindings c) (co_DNSChallengeZones c)) (\<lambda>zones.
        Option.bind (checked_section ConductorSigning_validate (co_JobSigning c)) (\<lambda>js.
        Option.bind (checked_section (ConductorResults_validate L) (co_ResultSigning c)) (\<lambda>rs.
        if co_RemovedMigration c \<noteq> None then None
        else
        Option.bind (checked_section (ConductorProvisioning_validate L (co_ACMEBindings c)) (co_AccountProvisioning c)) (\<lambda>ap.
        Some (c\<lparr>co_Server := srv, co_Scheduler := sch, co_DNSChallengeZones := zones, co_JobSigning := js, co_ResultSigning := rs,
               co_AccountProvisioning := ap\<rparr>))))))))"

definition ConductorConfig_Read :: "config_libs \<Rightarrow> conductor_config codec \<Rightarrow> string \<Rightarrow> conductor_config option" where
  "ConductorConfig_Read L D data =
     (if ConductorMaxConfigSize < length data then None
      else (case cd_read D data of None \<Rightarrow> None | Some c \<Rightarrow> ConductorConfig_Validate L c))"

definition RequiresEAB :: "conductor_provisioning option \<Rightarrow> string \<Rightarrow> bool" where
  "RequiresEAB a binding = (case a of None \<Rightarrow> False | Some a \<Rightarrow> binding \<in> set (cv_Bindings a))"

definition EABBindings :: "conductor_provisioning option \<Rightarrow> string list" where
  "EABBindings a = (case a of None \<Rightarrow> [] | Some a \<Rightarrow> cv_Bindings a)"

definition TargetScoped :: "conductor_provisioning option \<Rightarrow> string list" where
  "TargetScoped a = (case a of None \<Rightarrow> [] | Some a \<Rightarrow> cv_TargetScopedBindings a)"

definition Provisioning_Key :: "conductor_provisioning option \<Rightarrow> string option" where
  "Provisioning_Key a = Option.bind a cv_pub"

end
