(* ===== verification/ApiRequest.thy ===== *)
theory ApiRequest
  imports ApiCore ConductorConfig "HOL-Library.AList"
begin

text \<open>
  Reading a request (\<^verbatim>\<open>api.go\<close>), who it comes from (\<^verbatim>\<open>auth.go\<close>) and the display names of principals
  (\<^verbatim>\<open>principals.go\<close>).
\<close>

subsection \<open>Path, body and query\<close>

definition MaxBodySize :: nat where "MaxBodySize = MaxDocumentSize"

definition pathID :: "string \<Rightarrow> api_err + string" where
  "pathID v = (if identifierRe v then Inr v else Inl (RegErr ErrNotFound))"

text \<open>
  \<open>zero\<close> is the input as declared, which an absent optional body leaves. A body that is nil or
  empty by its length is \<open>None\<close>; reading it fails or gives its bytes.
\<close>

definition decodeBody :: "server \<Rightarrow> 'a codec \<Rightarrow> 'a \<Rightarrow> bool \<Rightarrow> request \<Rightarrow> api_err + 'a" where
  "decodeBody S D zero optional r =
     (case rq_Body r of
        None \<Rightarrow> if optional then Inr zero else Inl badRequest
      | Some content \<Rightarrow>
          if sv_mediaType S (rq_Header r ''Content-Type'') \<noteq> Some ''application/json''
          then Inl (ApiErr 415 ''unsupported_media_type'' [])
          else (case content of
                  Inl _ \<Rightarrow> Inl badRequest
                | Inr content \<Rightarrow>
                    let data = take (MaxBodySize + 1) content in
                    if MaxBodySize < length data then Inl (ApiErr 413 ''too_large'' [])
                    else if data = [] then (if optional then Inr zero else Inl badRequest)
                    else (case cd_read D data of None \<Rightarrow> Inl badRequest | Some v \<Rightarrow> Inr v)))"

definition queryLimit :: "request \<Rightarrow> api_err + int" where
  "queryLimit r =
     (let v = rq_Query r ''limit'' in
      if v = [] then Inr DefaultListLimit
      else (case ParseInt v of
              None \<Rightarrow> Inl badRequest
            | Some n \<Rightarrow> if n < 1 \<or> MaxListLimit < n then Inl badRequest else Inr n))"

definition queryID :: "request \<Rightarrow> string \<Rightarrow> api_err + string" where
  "queryID r name =
     (let v = rq_Query r name in
      if v = [] then Inr [] else if \<not> identifierRe v then Inl badRequest else Inr v)"

definition ParseBool :: "string \<Rightarrow> bool option" where
  "ParseBool s =
     (if s \<in> set [''1'', ''t'', ''T'', ''true'', ''TRUE'', ''True''] then Some True
      else if s \<in> set [''0'', ''f'', ''F'', ''false'', ''FALSE'', ''False''] then Some False
      else None)"

definition queryBool :: "request \<Rightarrow> string \<Rightarrow> api_err + bool option" where
  "queryBool r name =
     (let v = rq_Query r name in
      if v = [] then Inr None
      else (case ParseBool v of None \<Rightarrow> Inl badRequest | Some b \<Rightarrow> Inr (Some b)))"

definition run_status_of :: "string \<Rightarrow> run_status" where
  "run_status_of s =
     (if s = ''queued'' then RunQueued else if s = ''starting'' then RunStarting else if s = ''running'' then RunRunning
      else if s = ''succeeded'' then RunSucceeded else if s = ''failed'' then RunFailed
      else if s = ''cancelled'' then RunCancelled else RunOther s)"

fun parse_statuses :: "string list \<Rightarrow> api_err + run_status list" where
  "parse_statuses [] = Inr []"
| "parse_statuses (p # ps) =
     (let st = run_status_of (TrimSpace p) in
      if \<not> RunStatus_Valid st then Inl badRequest
      else (case parse_statuses ps of Inl e \<Rightarrow> Inl e | Inr sts \<Rightarrow> Inr (st # sts)))"

definition queryStatuses :: "request \<Rightarrow> api_err + run_status list" where
  "queryStatuses r =
     (let v = rq_Query r ''status'' in if v = [] then Inr [] else parse_statuses (Split (CHR '','') v))"

definition bindings_has :: "string list \<Rightarrow> string \<Rightarrow> bool" where
  "bindings_has list name \<longleftrightarrow> list_ex (\<lambda>n. n = name) list"

subsection \<open>The development authentication mode\<close>

definition checkHost :: "server \<Rightarrow> (string \<Rightarrow> (string \<times> string) option) \<Rightarrow> string \<Rightarrow> string \<Rightarrow> auth_error option" where
  "checkHost S split port hostport =
     (let (host, p) = (case split hostport of None \<Rightarrow> (hostport, []) | Some hp \<Rightarrow> hp) in
      if \<not> IsLoopbackHost (sv_fold S) (sv_platform S) host then Some ErrUnauthenticated
      else if port \<noteq> [] \<and> p \<noteq> [] \<and> p \<noteq> port then Some ErrUnauthenticated
      else if contains_any host (''/?#@'' @ [CHR 92]) then Some ErrUnauthenticated
      else None)"

text \<open>\<open>split\<close> is \<^verbatim>\<open>net.SplitHostPort\<close>, \<open>port\<close> the field \<^verbatim>\<open>Port\<close>.\<close>

definition LocalhostDev_Authenticate ::
  "server \<Rightarrow> (string \<Rightarrow> (string \<times> string) option) \<Rightarrow> string \<Rightarrow> request \<Rightarrow> auth_error + principal" where
  "LocalhostDev_Authenticate S split port r =
     (case split (rq_RemoteAddr r) of
        None \<Rightarrow> Inl ErrUnauthenticated
      | Some (host, _) \<Rightarrow>
          if pf_parseIP (sv_platform S) host \<noteq> Some IPLoopback then Inl ErrUnauthenticated
          else (case checkHost S split port (rq_Host r) of
                  Some e \<Rightarrow> Inl e
                | None \<Rightarrow>
                    let origin = rq_Header r ''Origin''; site = rq_Header r ''Sec-Fetch-Site'' in
                    (case (if origin = [] then None
                           else (case pf_parseURL (sv_platform S) origin of
                                   None \<Rightarrow> Some ErrUnauthenticated
                                 | Some u \<Rightarrow> if u_Scheme u \<noteq> ''http'' \<or> u_Host u = [] then Some ErrUnauthenticated
                                            else checkHost S split port (u_Host u))) of
                       Some e \<Rightarrow> Inl e
                     | None \<Rightarrow>
                         if site \<noteq> [] \<and> site \<noteq> ''same-origin'' \<and> site \<noteq> ''none'' then Inl ErrUnauthenticated
                         else Inr \<lparr>pr_Name = LocalhostDevPrincipal, pr_Authority = LocalhostDevAuthority, pr_Role = RoleAdmin,
                                   pr_DisplayName = []\<rparr>)))"

subsection \<open>Display names\<close>

definition maxCachedNames :: nat where "maxCachedNames = 4096"

definition recordDisplayName :: "world \<Rightarrow> principal \<Rightarrow> (api_state, unit) state" where
  "recordDisplayName W p =
     (if pr_DisplayName p = [] \<or> pr_Name p = [] \<or> pr_Authority p = [] then State_Monad.return ()
      else do {
        names \<leftarrow> State (\<lambda>(s, v). (av_names v, (s, v)));
        let k = (pr_Authority p, pr_Name p);
        if map_of names k = Some (pr_DisplayName p) then State_Monad.return ()
        else do {
          r \<leftarrow> api_call W KAudit (mutate (\<lambda>E. SetPrincipalName E
                 \<lparr>pn_Authority = pr_Authority p, pn_Name = pr_Name p, pn_DisplayName = pr_DisplayName p, pn_UpdatedAt = 0\<rparr>));
          case r of
            Inl _ \<Rightarrow> State_Monad.return ()
          | Inr _ \<Rightarrow>
              (let kept = (if maxCachedNames \<le> length names then [] else names) in
               State (\<lambda>(s, v). ((), (s, v\<lparr>av_names := AList.update k (pr_DisplayName p) kept\<rparr>)))) } })"

subsection \<open>The middleware\<close>

text \<open>\<open>h\<close> is the handler, which learns who calls; an error of its own becomes its response.\<close>

definition answer :: "response api \<Rightarrow> (api_state, response) state" where
  "answer m = do { r \<leftarrow> m; State_Monad.return (case r of Inl e \<Rightarrow> fail_response e | Inr rsp \<Rightarrow> rsp) }"

definition authenticated :: "server \<Rightarrow> world \<Rightarrow> request \<Rightarrow> (principal \<Rightarrow> response api) \<Rightarrow> (api_state, response) state" where
  "authenticated S W r h =
     (case sv_auth S of
        None \<Rightarrow> State_Monad.return (writeError 403 ''forbidden'' [])
      | Some auth \<Rightarrow>
          (case auth r of
             Inl e \<Rightarrow> State_Monad.return
               (if sv_challenge S \<noteq> None \<and> e \<noteq> ErrForbidden
                then (writeError 401 ''unauthenticated'' [])\<lparr>rp_Challenge := sv_challenge S\<rparr>
                else writeError 403 ''forbidden'' [])
           | Inr p \<Rightarrow>
               if pr_Role p \<noteq> RoleAdmin \<and> rq_Method r \<noteq> ''GET'' \<and> rq_Method r \<noteq> ''HEAD''
               then State_Monad.return (writeError 403 ''forbidden'' [])
               else do { _ \<leftarrow> recordDisplayName W p; answer (h p) }))"

definition handleListPrincipals :: "world \<Rightarrow> response api" where
  "handleListPrincipals W =
     attempt (query W (\<lambda>d. Inr (ListPrincipalNames d))) (\<lambda>list. done_with (writeJSON 200 (BPrincipals list)))"

definition handleBindings :: "server \<Rightarrow> response api" where
  "handleBindings S = done_with (writeJSON 200 (BBindings (sv_bind S)))"

end
