(* ===== verification/ApiPolicies.thy ===== *)
theory ApiPolicies
  imports ApiRequest
begin

text \<open>
  Policies (\<^verbatim>\<open>policies.go\<close>). An edit that a target under the policy would not satisfy is refused.
\<close>

definition MaxPolicyNameLen :: nat where "MaxPolicyNameLen = 64"

text \<open>\<^verbatim>\<open>unicode.IsControl\<close>\<close>

definition IsControl :: "nat \<Rightarrow> bool" where
  "IsControl r \<longleftrightarrow> r < 0x20 \<or> (0x7F \<le> r \<and> r < 0xA0)"

fun normalize_input_suffixes :: "string set \<Rightarrow> string list \<Rightarrow> api_err + string list" where
  "normalize_input_suffixes seen [] = Inr []"
| "normalize_input_suffixes seen (raw # rest) =
     (case NormalizeSuffix raw of
        Inl _ \<Rightarrow> Inl badRequest
      | Inr n \<Rightarrow>
          if n \<in> seen then Inl badRequest
          else (case normalize_input_suffixes (insert n seen) rest of Inl e \<Rightarrow> Inl e | Inr ns \<Rightarrow> Inr (n # ns)))"

definition zero_policy :: reg_policy where
  "zero_policy = \<lparr>pol_ID = [], pol_Name = [], pol_AllowedDnsSuffixes = [], pol_AllowWildcard = False, pol_ACMEBinding = [],
     pol_RenewBeforeDays = 0, pol_KeyType = [], pol_MaxSANs = 0, pol_Enabled = False, pol_CreatedAt = 0, pol_UpdatedAt = 0\<rparr>"

definition applyPolicyInput :: "server \<Rightarrow> policy_input \<Rightarrow> reg_policy \<Rightarrow> bool \<Rightarrow> api_err + reg_policy" where
  "applyPolicyInput S inp p create =
     (let name = (case pi_Name inp of None \<Rightarrow> pol_Name p | Some n \<Rightarrow> TrimSpace n) in
      if MaxPolicyNameLen < length (runes name) then Inl badRequest
      else if list_ex IsControl (runes name) \<or> \<not> valid_utf8 name then Inl badRequest
      else if pi_AllowedDnsSuffixes inp = [] then Inl badRequest
      else if MaxAllowedSuffixes < length (pi_AllowedDnsSuffixes inp) then Inl badRequest
      else (case normalize_input_suffixes {} (pi_AllowedDnsSuffixes inp) of
        Inl e \<Rightarrow> Inl e
      | Inr sufs \<Rightarrow>
          if \<not> IsBindingName (pi_ACMEBinding inp) then Inl badRequest
          else if \<not> bindings_has (bn_ACME (sv_bind S)) (pi_ACMEBinding inp) then Inl badRequest
          else if pi_RenewBeforeDays inp < MinRenewBeforeDays \<or> MaxRenewBeforeDays < pi_RenewBeforeDays inp then Inl badRequest
          else if \<not> KeyType_Valid (pi_KeyType inp) then Inl badRequest
          else
            let maxSANs = (case pi_MaxSANs inp of Some m \<Rightarrow> m | None \<Rightarrow> if create then 1 else pol_MaxSANs p) in
            if maxSANs < 1 \<or> int MaxNames < maxSANs then Inl badRequest
            else Inr (p\<lparr>pol_Name := name, pol_AllowedDnsSuffixes := sufs, pol_AllowWildcard := pi_AllowWildcard inp,
                 pol_ACMEBinding := pi_ACMEBinding inp, pol_RenewBeforeDays := pi_RenewBeforeDays inp,
                 pol_KeyType := pi_KeyType inp, pol_MaxSANs := maxSANs,
                 pol_Enabled := (case pi_Enabled inp of Some b \<Rightarrow> b | None \<Rightarrow> if create then True else pol_Enabled p)\<rparr>)))"

definition show_bool :: "bool \<Rightarrow> string" where
  "show_bool b = (if b then ''true'' else ''false'')"

definition policyDetail :: "server \<Rightarrow> reg_policy \<Rightarrow> string" where
  "policyDetail S p = ''name='' @ sv_quote S (pol_Name p) @ '' suffixes=['' @ Join (CHR '' '') (pol_AllowedDnsSuffixes p)
     @ ''] wildcard='' @ show_bool (pol_AllowWildcard p) @ '' acme='' @ pol_ACMEBinding p
     @ '' renewBeforeDays='' @ itoa (pol_RenewBeforeDays p) @ '' keyType='' @ pol_KeyType p @ '' maxSANs='' @ itoa (pol_MaxSANs p)
     @ '' enabled='' @ show_bool (pol_Enabled p)"

definition caller_event :: "principal \<Rightarrow> audit_action \<Rightarrow> string \<Rightarrow> audit_event" where
  "caller_event p action detail = new_event (pr_Name p) (pr_Authority p) action detail"

text \<open>The names of a target under a policy: each allowed, no two the same, no more than the policy has.\<close>

definition checkNames :: "target \<Rightarrow> reg_policy \<Rightarrow> policy_error option" where
  "checkNames t p =
     (let names = Names (tgt_FQDN t) (tgt_AdditionalNames t);
          pol = \<lparr>AllowedDnsSuffixes = pol_AllowedDnsSuffixes p, AllowWildcard = pol_AllowWildcard p\<rparr> in
      check_all (map (\<lambda>n. err_of (Evaluate n pol)) names @
        [CheckDistinct names, CheckCount (int (length names)) (pol_MaxSANs p)]))"

definition zero_policy_input :: policy_input where
  "zero_policy_input = \<lparr>pi_Name = None, pi_AllowedDnsSuffixes = [], pi_AllowWildcard = False, pi_ACMEBinding = [],
     pi_RenewBeforeDays = 0, pi_KeyType = [], pi_MaxSANs = None, pi_Enabled = None\<rparr>"

definition handleListPolicies :: "world \<Rightarrow> response api" where
  "handleListPolicies W =
     attempt (query W (\<lambda>d. Inr (ListPolicies d))) (\<lambda>list. done_with (writeJSON 200 (BPolicies list)))"

definition handleGetPolicy :: "world \<Rightarrow> string \<Rightarrow> response api" where
  "handleGetPolicy W v =
     attempt (check (pathID v)) (\<lambda>i.
     attempt (query W (GetPolicy i)) (\<lambda>p. done_with (writeJSON 200 (BPolicy p))))"

definition handleCreatePolicy :: "server \<Rightarrow> world \<Rightarrow> request \<Rightarrow> principal \<Rightarrow> response api" where
  "handleCreatePolicy S W r caller =
     attempt (check (decodeBody S (sv_policyInput S) zero_policy_input False r)) (\<lambda>inp.
     attempt (check (applyPolicyInput S inp zero_policy True)) (\<lambda>p.
     attempt (command W (\<lambda>E. CreatePolicy (sv_fold S) E p
       (Some (caller_event caller AuditPolicyCreated (''policy created: '' @ policyDetail S p))))) (\<lambda>p.
     done_with ((writeJSON 201 (BPolicy p))\<lparr>rp_Location := Some (''/api/v1alpha1/policies/'' @ pol_ID p)\<rparr>))))"

definition handleUpdatePolicy :: "server \<Rightarrow> world \<Rightarrow> request \<Rightarrow> string \<Rightarrow> principal \<Rightarrow> response api" where
  "handleUpdatePolicy S W r v caller =
     attempt (check (pathID v)) (\<lambda>i.
     attempt (check (decodeBody S (sv_policyInput S) zero_policy_input False r)) (\<lambda>inp.
     attempt (query W (GetPolicy i)) (\<lambda>p.
     attempt (check (applyPolicyInput S inp p False)) (\<lambda>p.
     attempt (query W (\<lambda>d. Inr (ListTargets \<lparr>lto_Enabled = None, lto_PolicyRef = pol_ID p, lto_IncludeRetired = False\<rparr> d))) (\<lambda>ts.
     if list_ex (\<lambda>t. checkNames t p \<noteq> None) ts then refuse (ApiErr 409 ''conflict'' [])
     else
       attempt (command W (\<lambda>E. UpdatePolicy (sv_fold S) E p
         (Some (caller_event caller AuditPolicyUpdated (''policy updated: '' @ policyDetail S p))))) (\<lambda>p.
       done_with (writeJSON 200 (BPolicy p))))))))"

end
