(* ===== verification/ApiTargets.thy ===== *)
theory ApiTargets
  imports ApiPolicies
begin

text \<open>
  Targets (\<^verbatim>\<open>targets.go\<close>) and their consumer ledgers (\<^verbatim>\<open>consumers.go\<close>).
\<close>

subsection \<open>Checks\<close>

definition MaxOwnerLength :: nat where "MaxOwnerLength = 128"

definition printable :: "server \<Rightarrow> string \<Rightarrow> bool" where
  "printable S v \<longleftrightarrow> \<not> list_ex (\<lambda>r. r = rune_error \<or> \<not> IsPrint (pf_unicode (sv_platform S)) r) (runes v)"

definition validateOwner :: "server \<Rightarrow> string \<Rightarrow> api_err + string" where
  "validateOwner S owner =
     (let owner = TrimSpace owner in
      if owner = [] then Inl badRequest
      else if MaxOwnerLength < length owner \<or> \<not> valid_utf8 owner then Inl badRequest
      else if \<not> printable S owner then Inl badRequest
      else Inr owner)"

definition checkBindings :: "server \<Rightarrow> target \<Rightarrow> api_err option" where
  "checkBindings S t =
     check_all (concat (map (\<lambda>(name, list).
       [reject_if (\<not> IsBindingName name) badRequest, reject_if (\<not> bindings_has list name) badRequest])
       [(tgt_ExecutionBinding t, bn_Execution (sv_bind S)), (tgt_DNSBinding t, bn_DNS (sv_bind S)),
        (tgt_StoreBinding t, bn_Store (sv_bind S))]))"

fun normalize_all :: "string list \<Rightarrow> api_err + string list" where
  "normalize_all [] = Inr []"
| "normalize_all (raw # rest) =
     (case NormalizeFQDN raw of
        Inl _ \<Rightarrow> Inl badRequest
      | Inr n \<Rightarrow> (case normalize_all rest of Inl e \<Rightarrow> Inl e | Inr ns \<Rightarrow> Inr (n # ns)))"

definition normalizeAdditionalNames :: "string list \<Rightarrow> api_err + string list" where
  "normalizeAdditionalNames inp =
     (if inp = [] then Inr [] else if MaxNames - 1 < length inp then Inl badRequest else normalize_all inp)"

definition rejected_event :: "server \<Rightarrow> principal \<Rightarrow> target \<Rightarrow> reg_policy \<Rightarrow> policy_error \<Rightarrow> audit_event" where
  "rejected_event S caller t p err =
     (caller_event caller AuditPolicyRejected
        (''target '' @ tgt_FQDN t @ '' rejected by policy '' @ pol_ID p @ '': '' @ sv_policyText S err))
     \<lparr>ev_TargetID := tgt_ID t, ev_PolicyID := pol_ID p\<rparr>"

definition checkPolicy :: "server \<Rightarrow> world \<Rightarrow> principal \<Rightarrow> target \<Rightarrow> reg_policy api" where
  "checkPolicy S W caller t =
     (if \<not> identifierRe (tgt_PolicyRef t) then refuse badRequest
      else do {
        got \<leftarrow> query W (GetPolicy (tgt_PolicyRef t));
        case got of
          Inl _ \<Rightarrow> refuse badRequest
        | Inr p \<Rightarrow>
            (case checkNames t p of
               None \<Rightarrow> done_with p
             | Some err \<Rightarrow>
                 attempt (command W (mutate (\<lambda>E. AppendAudit E (Some (rejected_event S caller t p err))))) (\<lambda>_.
                 refuse (ApiErr 400 ''policy_violation'' []))) })"

subsection \<open>Resources\<close>

definition targetResource :: "world \<Rightarrow> target \<Rightarrow> target_resource api" where
  "targetResource W t =
     attempt (query W (\<lambda>d. Inr (RunSummary (tgt_ID t) d))) (\<lambda>sm.
     done_with \<lparr>tx_ID = tgt_ID t, tx_FQDN = tgt_FQDN t, tx_AdditionalNames = tgt_AdditionalNames t, tx_Enabled = tgt_Enabled t,
       tx_Owner = tgt_Owner t, tx_PolicyRef = tgt_PolicyRef t, tx_ExecutionBinding = tgt_ExecutionBinding t,
       tx_DNSBinding = tgt_DNSBinding t, tx_StoreBinding = tgt_StoreBinding t, tx_CreatedAt = tgt_CreatedAt t,
       tx_UpdatedAt = tgt_UpdatedAt t, tx_Revision = tgt_Revision t, tx_Retired = Retired t,
       tx_RetiredAt = (if Retired t then tgt_RetiredAt t else None), tx_RetiredBy = (if Retired t then tgt_RetiredBy t else []),
       tx_RetiredByAuthority = (if Retired t then tgt_RetiredByAuthority t else []),
       tx_Certificate = map_option (\<lambda>k. \<lparr>cm_ExpiresAt = run_ExpiresAt k, cm_FingerprintSha256 = run_FingerprintSha256 k,
         cm_StoreObjectRef = run_StoreObjectRef k, cm_LastSucceededAt = run_FinishedAt k, cm_LastSucceededRun = run_ID k\<rparr>) (LastSucceeded sm),
       tx_LastRun = map_option (\<lambda>l. \<lparr>rb_ID = run_ID l, rb_Status = run_Status l, rb_RequestedAt = run_RequestedAt l,
         rb_FinishedAt = run_FinishedAt l, rb_ErrorCode = run_ErrorCode l\<rparr>) (LastRun sm)\<rparr>)"

fun targetResources :: "world \<Rightarrow> target list \<Rightarrow> target_resource list api" where
  "targetResources W [] = done_with []"
| "targetResources W (t # ts) =
     attempt (targetResource W t) (\<lambda>x. attempt (targetResources W ts) (\<lambda>xs. done_with (x # xs)))"

definition targetDetail :: "target \<Rightarrow> string" where
  "targetDetail t = ''fqdn='' @ tgt_FQDN t @ '' additionalNames=['' @ Join (CHR '' '') (tgt_AdditionalNames t)
     @ ''] policy='' @ tgt_PolicyRef t @ '' execution='' @ tgt_ExecutionBinding t @ '' dns='' @ tgt_DNSBinding t
     @ '' store='' @ tgt_StoreBinding t @ '' enabled='' @ show_bool (tgt_Enabled t) @ '' owner='' @ tgt_Owner t"

subsection \<open>Handlers\<close>

definition target_answer :: "world \<Rightarrow> int \<Rightarrow> target \<Rightarrow> response api" where
  "target_answer W status t = attempt (targetResource W t) (\<lambda>x. done_with (writeJSON status (BTarget x)))"

definition handleListTargets :: "world \<Rightarrow> request \<Rightarrow> response api" where
  "handleListTargets W r =
     attempt (check (queryBool r ''enabled'')) (\<lambda>enabled.
     attempt (check (queryID r ''policyRef'')) (\<lambda>policyRef.
     attempt (check (let v = rq_Query r ''retired'' in
         if v = [] \<or> v = ''exclude'' then Inr False else if v = ''include'' then Inr True else Inl badRequest)) (\<lambda>retired.
     attempt (query W (\<lambda>d. Inr (ListTargets \<lparr>lto_Enabled = enabled, lto_PolicyRef = policyRef, lto_IncludeRetired = retired\<rparr> d))) (\<lambda>list.
     attempt (targetResources W list) (\<lambda>items. done_with (writeJSON 200 (BTargets items)))))))"

definition zero_target_create :: target_create_input where
  "zero_target_create = \<lparr>ti_FQDN = [], ti_AdditionalNames = [], ti_Owner = [], ti_PolicyRef = [], ti_ExecutionBinding = [],
     ti_DNSBinding = [], ti_StoreBinding = [], ti_Enabled = None\<rparr>"

definition new_target :: "target_create_input \<Rightarrow> string \<Rightarrow> string list \<Rightarrow> string \<Rightarrow> target" where
  "new_target inp fqdn others owner =
     \<lparr>tgt_ID = [], tgt_FQDN = fqdn, tgt_AdditionalNames = others,
      tgt_Enabled = (case ti_Enabled inp of None \<Rightarrow> True | Some b \<Rightarrow> b), tgt_Owner = owner, tgt_PolicyRef = ti_PolicyRef inp,
      tgt_ExecutionBinding = ti_ExecutionBinding inp, tgt_DNSBinding = ti_DNSBinding inp, tgt_StoreBinding = ti_StoreBinding inp,
      tgt_CreatedAt = 0, tgt_UpdatedAt = 0, tgt_Revision = 0, tgt_RetiredAt = None, tgt_RetiredBy = [], tgt_RetiredByAuthority = []\<rparr>"

definition require :: "api_err option \<Rightarrow> unit api" where
  "require e = (case e of None \<Rightarrow> done_with () | Some e \<Rightarrow> refuse e)"

definition handleCreateTarget :: "server \<Rightarrow> world \<Rightarrow> request \<Rightarrow> principal \<Rightarrow> response api" where
  "handleCreateTarget S W r caller =
     attempt (check (decodeBody S (sv_targetCreate S) zero_target_create False r)) (\<lambda>inp.
     attempt (check (case NormalizeFQDN (ti_FQDN inp) of Inl _ \<Rightarrow> Inl badRequest | Inr n \<Rightarrow> Inr n)) (\<lambda>fqdn.
     attempt (check (normalizeAdditionalNames (ti_AdditionalNames inp))) (\<lambda>others.
     attempt (check (validateOwner S (ti_Owner inp))) (\<lambda>owner.
     let t = new_target inp fqdn others owner in
     attempt (require (checkBindings S t)) (\<lambda>_.
     attempt (checkPolicy S W caller t) (\<lambda>_.
     attempt (command W (\<lambda>E. CreateTarget E t
       (Some (caller_event caller AuditTargetCreated (''target created: '' @ targetDetail t))))) (\<lambda>t.
     attempt (emit Wake) (\<lambda>_.
     attempt (target_answer W 201 t) (\<lambda>rsp.
     done_with (rsp\<lparr>rp_Location := Some (''/api/v1alpha1/targets/'' @ tgt_ID t)\<rparr>))))))))))"

definition handleGetTarget :: "world \<Rightarrow> string \<Rightarrow> response api" where
  "handleGetTarget W v =
     attempt (check (pathID v)) (\<lambda>i. attempt (query W (GetTarget i)) (\<lambda>t. target_answer W 200 t))"

definition zero_target_update :: target_update_input where
  "zero_target_update = \<lparr>tu_Revision = 0, tu_AdditionalNames = None, tu_Owner = None, tu_PolicyRef = None,
     tu_ExecutionBinding = None, tu_DNSBinding = None, tu_StoreBinding = None, tu_Enabled = None\<rparr>"

text \<open>The fields of the input that are present, in the order of the code: the target, and what changed.\<close>

definition apply_update :: "server \<Rightarrow> target_update_input \<Rightarrow> target \<Rightarrow> api_err + (target \<times> string list)" where
  "apply_update S inp t =
     and_then (case tu_AdditionalNames inp of
         None \<Rightarrow> Inr (t, [])
       | Some ns \<Rightarrow> and_then (normalizeAdditionalNames ns) (\<lambda>ns. Inr (t\<lparr>tgt_AdditionalNames := ns\<rparr>, [''additionalNames'']))) (\<lambda>(t, ch).
     and_then (case tu_Owner inp of
         None \<Rightarrow> Inr (t, ch)
       | Some own \<Rightarrow> and_then (validateOwner S own) (\<lambda>own. Inr (t\<lparr>tgt_Owner := own\<rparr>, ch @ [''owner'']))) (\<lambda>(t, ch).
     let (t, ch) = (case tu_PolicyRef inp of None \<Rightarrow> (t, ch) | Some v \<Rightarrow> (t\<lparr>tgt_PolicyRef := v\<rparr>, ch @ [''policyRef'']));
         (t, ch) = (case tu_ExecutionBinding inp of None \<Rightarrow> (t, ch) | Some v \<Rightarrow> (t\<lparr>tgt_ExecutionBinding := v\<rparr>, ch @ [''executionBinding'']));
         (t, ch) = (case tu_DNSBinding inp of None \<Rightarrow> (t, ch) | Some v \<Rightarrow> (t\<lparr>tgt_DNSBinding := v\<rparr>, ch @ [''dnsBinding'']));
         (t, ch) = (case tu_StoreBinding inp of None \<Rightarrow> (t, ch) | Some v \<Rightarrow> (t\<lparr>tgt_StoreBinding := v\<rparr>, ch @ [''storeBinding'']));
         (t, ch) = (case tu_Enabled inp of None \<Rightarrow> (t, ch) | Some v \<Rightarrow> (t\<lparr>tgt_Enabled := v\<rparr>, ch @ [''enabled'']))
     in if ch = [] then Inl badRequest else Inr (t, ch)))"

definition in_service :: "target \<Rightarrow> target api" where
  "in_service t = (if Retired t then refuse errRetired else done_with t)"

definition handleUpdateTarget :: "server \<Rightarrow> world \<Rightarrow> request \<Rightarrow> string \<Rightarrow> principal \<Rightarrow> response api" where
  "handleUpdateTarget S W r v caller =
     attempt (check (pathID v)) (\<lambda>i.
     attempt (check (decodeBody S (sv_targetUpdate S) zero_target_update False r)) (\<lambda>inp.
     if tu_Revision inp < 1 then refuse badRequest
     else
       attempt (query W (GetTarget i)) (\<lambda>t.
       attempt (in_service t) (\<lambda>t.
       if tgt_Revision t \<noteq> tu_Revision inp then refuse (RegErr ErrStaleRevision)
       else
         attempt (check (apply_update S inp t)) (\<lambda>(t, ch).
         attempt (require (checkBindings S t)) (\<lambda>_.
         attempt (checkPolicy S W caller t) (\<lambda>_.
         attempt (command W (\<lambda>E. UpdateTarget E t (tu_Revision inp)
           (Some (caller_event caller AuditTargetUpdated (''target updated ('' @ Join (CHR '','') ch @ ''): '' @ targetDetail t))))) (\<lambda>t.
         attempt (emit Wake) (\<lambda>_. target_answer W 200 t)))))))))"

definition handleSetTargetEnabled :: "world \<Rightarrow> bool \<Rightarrow> string \<Rightarrow> principal \<Rightarrow> response api" where
  "handleSetTargetEnabled W enabled v caller =
     attempt (check (pathID v)) (\<lambda>i.
     attempt (query W (GetTarget i)) (\<lambda>t.
     attempt (in_service t) (\<lambda>t.
     attempt (if tgt_Enabled t = enabled then done_with t
        else
          attempt (command W (\<lambda>E. UpdateTarget E (t\<lparr>tgt_Enabled := enabled\<rparr>) (tgt_Revision t)
            (Some (if enabled then caller_event caller AuditTargetEnabled (''target enabled: fqdn='' @ tgt_FQDN t)
                   else caller_event caller AuditTargetDisabled (''target disabled: fqdn='' @ tgt_FQDN t))))) (\<lambda>t.
          if enabled then attempt (emit Wake) (\<lambda>_. done_with t) else done_with t)) (\<lambda>t.
     target_answer W 200 t))))"

definition handleRetireTarget :: "world \<Rightarrow> string \<Rightarrow> principal \<Rightarrow> response api" where
  "handleRetireTarget W v caller =
     attempt (check (pathID v)) (\<lambda>i.
     attempt (query W (GetTarget i)) (\<lambda>t.
     attempt (command W (\<lambda>E. RetireTarget E i (pr_Name caller) (pr_Authority caller)
       (Some (caller_event caller AuditTargetRetired (''target retired: '' @ targetDetail t))))) (\<lambda>t.
     target_answer W 200 t)))"

subsection \<open>Consumer ledgers\<close>

definition MaxConsumers :: nat where "MaxConsumers = 20"
definition MaxConsumerServiceLength :: nat where "MaxConsumerServiceLength = 256"
definition MaxConsumerContactLength :: nat where "MaxConsumerContactLength = 256"
definition MaxConsumerNoteLength :: nat where "MaxConsumerNoteLength = 512"

definition ledgerText :: "server \<Rightarrow> string \<Rightarrow> nat \<Rightarrow> bool \<Rightarrow> api_err + string" where
  "ledgerText S v mx required =
     (let v = TrimSpace v in
      if v = [] then (if required then Inl badRequest else Inr [])
      else if mx < length v \<or> \<not> valid_utf8 v then Inl badRequest
      else if \<not> printable S v then Inl badRequest
      else Inr v)"

fun validate_entries :: "server \<Rightarrow> consumer list \<Rightarrow> api_err + consumer list" where
  "validate_entries S [] = Inr []"
| "validate_entries S (e # es) =
     and_then (ledgerText S (con_Service e) MaxConsumerServiceLength True) (\<lambda>svc.
     and_then (ledgerText S (con_Contact e) MaxConsumerContactLength True) (\<lambda>contact.
     and_then (ledgerText S (con_Note e) MaxConsumerNoteLength False) (\<lambda>note.
     and_then (validate_entries S es) (\<lambda>rest.
     Inr (\<lparr>con_Service = svc, con_Contact = contact, con_Note = note\<rparr> # rest)))))"

definition validateConsumers :: "server \<Rightarrow> consumer list \<Rightarrow> api_err + consumer list" where
  "validateConsumers S es = (if MaxConsumers < length es then Inl badRequest else validate_entries S es)"

definition handleGetTargetConsumers :: "world \<Rightarrow> string \<Rightarrow> response api" where
  "handleGetTargetConsumers W v =
     attempt (check (pathID v)) (\<lambda>i.
     attempt (query W (GetTargetConsumers i)) (\<lambda>c. done_with (writeJSON 200 (BConsumers c))))"

definition handlePutTargetConsumers :: "server \<Rightarrow> world \<Rightarrow> request \<Rightarrow> string \<Rightarrow> principal \<Rightarrow> response api" where
  "handlePutTargetConsumers S W r v caller =
     attempt (check (pathID v)) (\<lambda>i.
     attempt (check (decodeBody S (sv_consumersInput S) \<lparr>ci_Version = 0, ci_Items = []\<rparr> False r)) (\<lambda>inp.
     if ci_Version inp < 0 then refuse badRequest
     else
       attempt (check (validateConsumers S (ci_Items inp))) (\<lambda>items.
       attempt (query W (GetTargetConsumers i)) (\<lambda>prev.
       attempt (command W (\<lambda>E. SetTargetConsumers E
           \<lparr>cs_TargetID = i, cs_Version = 0, cs_Items = items, cs_UpdatedAt = None, cs_UpdatedBy = pr_Name caller,
            cs_UpdatedByAuthority = pr_Authority caller\<rparr> (ci_Version inp)
           (Some (caller_event caller AuditTargetConsumersUpdated
             (''consumers updated: '' @ itoa (int (length (cs_Items prev))) @ '' -> '' @ itoa (int (length items))
               @ '' entries (version '' @ itoa (ci_Version inp + 1) @ '')''))))) (\<lambda>c.
       done_with (writeJSON 200 (BConsumers c)))))))"

end
