(* ===== verification/ApiRuns.thy ===== *)
theory ApiRuns
  imports ApiTargets
begin

text \<open>
  Runs and the audit log (\<^verbatim>\<open>runs.go\<close>), and the DNS delegation report (\<^verbatim>\<open>dns_delegation.go\<close>).
\<close>

definition runResource :: "run \<Rightarrow> run_resource" where
  "runResource r =
     \<lparr>rx_ID = run_ID r, rx_TargetID = run_TargetID r, rx_TargetRevision = run_TargetRevision r, rx_Status = run_Status r,
      rx_RequestedBy = run_RequestedBy r, rx_RequestedByAuthority = run_RequestedByAuthority r, rx_RequestedAt = run_RequestedAt r,
      rx_StartedAt = run_StartedAt r, rx_FinishedAt = run_FinishedAt r, rx_Action = run_Action r, rx_ExpiresAt = run_ExpiresAt r,
      rx_FingerprintSha256 = run_FingerprintSha256 r, rx_StoreObjectRef = run_StoreObjectRef r,
      rx_Error = (if run_ErrorCode r = [] then None else Some (run_ErrorCode r, run_ErrorSummary r)),
      rx_ExternalExecutionID = run_ExternalExecutionID r\<rparr>"

definition listRuns :: "world \<Rightarrow> request \<Rightarrow> string \<Rightarrow> response api" where
  "listRuns W r targetID =
     attempt (check (queryLimit r)) (\<lambda>lim.
     attempt (check (queryID r ''before'')) (\<lambda>before.
     attempt (check (queryStatuses r)) (\<lambda>statuses.
     attempt (check (if targetID = [] then queryID r ''targetId'' else Inr targetID)) (\<lambda>targetID.
     attempt (query W (\<lambda>d. Inr (ListRuns \<lparr>lro_TargetID = targetID, lro_Statuses = statuses, lro_Before = before, lro_Limit = lim\<rparr> d))) (\<lambda>list.
     done_with (writeJSON 200 (BRuns (map runResource list))))))))"

definition handleListRuns :: "world \<Rightarrow> request \<Rightarrow> response api" where
  "handleListRuns W r = listRuns W r []"

definition handleListTargetRuns :: "world \<Rightarrow> request \<Rightarrow> string \<Rightarrow> response api" where
  "handleListTargetRuns W r v =
     attempt (check (pathID v)) (\<lambda>i. attempt (query W (GetTarget i)) (\<lambda>_. listRuns W r i))"

definition handleGetRun :: "world \<Rightarrow> string \<Rightarrow> response api" where
  "handleGetRun W v =
     attempt (check (pathID v)) (\<lambda>i.
     attempt (query W (GetRun i)) (\<lambda>r. done_with (writeJSON 200 (BRun (runResource r)))))"

definition ActiveRunStatuses :: "run_status list" where
  "ActiveRunStatuses = [RunQueued, RunStarting, RunRunning]"

definition activeRun :: "world \<Rightarrow> string \<Rightarrow> (api_state, run option) state" where
  "activeRun W targetID =
     do {
       r \<leftarrow> query W (\<lambda>d. Inr (ListRuns \<lparr>lro_TargetID = targetID, lro_Statuses = ActiveRunStatuses, lro_Before = [], lro_Limit = 1\<rparr> d));
       State_Monad.return (case r of Inl _ \<Rightarrow> None | Inr list \<Rightarrow> (case list of [] \<Rightarrow> None | x # _ \<Rightarrow> Some x))
     }"

definition requested_run :: "principal \<Rightarrow> target \<Rightarrow> run" where
  "requested_run caller t = (new_run t)\<lparr>run_RequestedBy := pr_Name caller, run_RequestedByAuthority := pr_Authority caller\<rparr>"

definition show_status :: "run_status \<Rightarrow> string" where
  "show_status s =
     (case s of RunQueued \<Rightarrow> ''queued'' | RunStarting \<Rightarrow> ''starting'' | RunRunning \<Rightarrow> ''running'' | RunSucceeded \<Rightarrow> ''succeeded''
      | RunFailed \<Rightarrow> ''failed'' | RunCancelled \<Rightarrow> ''cancelled'' | RunOther x \<Rightarrow> x)"

definition create_run :: "world \<Rightarrow> principal \<Rightarrow> target \<Rightarrow> string \<Rightarrow> (api_state, reg_error + run) state" where
  "create_run W caller t detail =
     api_call W KCreateRun (\<lambda>E. CreateRun E (requested_run caller t) (Some (caller_event caller AuditRunRequested detail)))"

definition handleRequestRun :: "server \<Rightarrow> world \<Rightarrow> request \<Rightarrow> string \<Rightarrow> principal \<Rightarrow> response api" where
  "handleRequestRun S W r v caller =
     attempt (check (pathID v)) (\<lambda>i.
     attempt (check (decodeBody S (sv_runRequest S) 0 True r)) (\<lambda>revision.
     attempt (query W (GetTarget i)) (\<lambda>t.
     attempt (in_service t) (\<lambda>t.
     if revision \<noteq> 0 \<and> revision \<noteq> tgt_Revision t then refuse (RegErr ErrStaleRevision)
     else if \<not> tgt_Enabled t then refuse (ApiErr 409 ''target_disabled'' [])
     else do {
       res \<leftarrow> create_run W caller t (''run requested by '' @ pr_Name caller @ '' for fqdn='' @ tgt_FQDN t);
       case res of
         Inl e \<Rightarrow> do {
           active \<leftarrow> activeRun W (tgt_ID t);
           case active of
             Some a \<Rightarrow> refuse (ApiErr 409 ''run_active'' [(''activeRunId'', run_ID a), (''status'', show_status (run_Status a))])
           | None \<Rightarrow> refuse (RegErr e) }
       | Inr run \<Rightarrow>
           attempt (emit Wake) (\<lambda>_.
           done_with ((writeJSON 202 (BRun (runResource run)))\<lparr>rp_Location := Some (''/api/v1alpha1/runs/'' @ run_ID run)\<rparr>)) }))))"

definition cancel_queued :: "principal \<Rightarrow> gotime \<Rightarrow> run \<Rightarrow> run" where
  "cancel_queued caller now r = r\<lparr>run_Status := RunCancelled, run_FinishedAt := Some now, run_Action := ActionFailed,
     run_ErrorCode := ErrorCodeCancelled, run_ErrorSummary := ''run cancelled by '' @ pr_Name caller @ '' while queued''\<rparr>"

definition sched_cancel :: "server \<Rightarrow> string \<Rightarrow> bool api" where
  "sched_cancel S i = State (\<lambda>((n, d), v). (Inr (sv_cancel S n i), ((n, d), v\<lparr>av_signals := av_signals v @ [CancelRun i]\<rparr>)))"

definition handleCancelRun :: "server \<Rightarrow> world \<Rightarrow> string \<Rightarrow> principal \<Rightarrow> response api" where
  "handleCancelRun S W v caller =
     attempt (check (pathID v)) (\<lambda>i.
     attempt (query W (GetRun i)) (\<lambda>run.
     if run_Status run = RunQueued then
       attempt (api_now W) (\<lambda>now.
       let run = cancel_queued caller now run in
       attempt (command W (mutate (\<lambda>E. UpdateRun E run RunQueued
         (Some (caller_event caller AuditRunCancelled (''run cancelled: '' @ run_ErrorSummary run)))))) (\<lambda>_.
       done_with (writeJSON 200 (BRun (runResource run)))))
     else if run_Status run = RunStarting \<or> run_Status run = RunRunning then
       attempt (sched_cancel S (run_ID run)) (\<lambda>stopping.
       if \<not> stopping then refuse (ApiErr 409 ''conflict'' [])
       else done_with (writeJSON 202 (BRun (runResource run))))
     else refuse (ApiErr 409 ''conflict'' [])))"

definition handleListAudit :: "world \<Rightarrow> request \<Rightarrow> response api" where
  "handleListAudit W r =
     attempt (check (queryLimit r)) (\<lambda>lim.
     attempt (check (queryID r ''before'')) (\<lambda>before.
     attempt (check (queryID r ''targetId'')) (\<lambda>targetID.
     attempt (check (queryID r ''runId'')) (\<lambda>runID.
     attempt (check (queryID r ''policyId'')) (\<lambda>policyID.
     attempt (query W (\<lambda>d. Inr (ListAudit \<lparr>lao_TargetID = targetID, lao_RunID = runID, lao_PolicyID = policyID,
         lao_Before = before, lao_Limit = lim\<rparr> d))) (\<lambda>list.
     done_with (writeJSON 200 (BAudit list))))))))"

definition handleTargetDNSDelegation :: "server \<Rightarrow> world \<Rightarrow> request \<Rightarrow> string \<Rightarrow> response api" where
  "handleTargetDNSDelegation S W r v =
     attempt (check (pathID v)) (\<lambda>i.
     attempt (check (queryBool r ''refresh'')) (\<lambda>refresh.
     attempt (query W (GetTarget i)) (\<lambda>t.
     done_with (writeJSON 200 (BDelegation (sv_dnsCheck S (tgt_DNSBinding t) (tgt_FQDN t # tgt_AdditionalNames t) (refresh = Some True)))))))"

end
