(* ===== verification/ApiAccounts.thy ===== *)
theory ApiAccounts
  imports ApiRuns
begin

text \<open>
  Provisioning of ACME accounts (\<^verbatim>\<open>acme_accounts.go\<close>) and the run that carries a request
  (\<^verbatim>\<open>provisioning_run.go\<close>). The Conductor checks the shape of the sealed credential and the key it
  claims to be sealed to, and stores ciphertext only.
\<close>

subsection \<open>Resources\<close>

definition acmeAccountResource :: "acme_account \<Rightarrow> account_resource" where
  "acmeAccountResource a =
     \<lparr>ax_Generation = acc_Generation a, ax_Status = acc_Status a, ax_KeyID = acc_KeyID a,
      ax_RunID = (case acc_RunID a of None \<Rightarrow> [] | Some i \<Rightarrow> i), ax_RequestedBy = acc_RequestedBy a,
      ax_RequestedByAuthority = acc_RequestedByAuthority a, ax_CreatedAt = acc_CreatedAt a, ax_UpdatedAt = acc_UpdatedAt a,
      ax_ActivatedAt = acc_ActivatedAt a\<rparr>"

fun summarize_from :: "int \<Rightarrow> account_resource option \<Rightarrow> acme_account list \<Rightarrow> int \<times> account_resource option" where
  "summarize_from active pending [] = (active, pending)"
| "summarize_from active pending (a # as) =
     summarize_from (if acc_Status a = ACMEAccountActive then acc_Generation a else active)
       (if acc_Status a = ACMEAccountProvisioning then Some (acmeAccountResource a) else pending) as"

definition summarizeGenerations :: "acme_account list \<Rightarrow> int \<times> account_resource option \<times> account_resource list" where
  "summarizeGenerations list =
     (let (active, pending) = summarize_from 0 None list in (active, pending, map acmeAccountResource list))"

definition target_account :: "string \<Rightarrow> acme_account list \<Rightarrow> target_account_resource" where
  "target_account targetID list =
     (let (active, pending, gens) = summarizeGenerations list in
      \<lparr>ay_TargetID = targetID, ay_ActiveGeneration = active, ay_Pending = pending, ay_Generations = gens\<rparr>)"

function group_scopes :: "acme_account list \<Rightarrow> target_account_resource list" where
  "group_scopes [] = []"
| "group_scopes (a # as) =
     target_account (acc_Scope a) (a # takeWhile (\<lambda>b. acc_Scope b = acc_Scope a) as)
       # group_scopes (dropWhile (\<lambda>b. acc_Scope b = acc_Scope a) as)"
  by pat_completeness auto
termination
  by (relation "measure length") (simp_all add: length_dropWhile_le le_imp_less_Suc)

definition acmeBindingResource :: "server \<Rightarrow> world \<Rightarrow> string \<Rightarrow> binding_resource api" where
  "acmeBindingResource S W name =
     attempt (query W (\<lambda>d. Inr (ListACMEAccounts name [] d))) (\<lambda>list.
     let (active, pending, gens) = summarizeGenerations list in
     attempt (query W (\<lambda>d. Inr (ListScopedACMEAccounts name d))) (\<lambda>scoped.
     done_with \<lparr>bx_Name = name, bx_TargetScoped = bindings_has (sv_targetScoped S) name,
       bx_ExternalAccountBinding = bindings_has (sv_eabBindings S) name, bx_ActiveGeneration = active, bx_Pending = pending,
       bx_Generations = gens, bx_Targets = group_scopes scoped\<rparr>))"

definition targetAccountResource :: "world \<Rightarrow> string \<Rightarrow> string \<Rightarrow> target_account_resource api" where
  "targetAccountResource W binding targetID =
     attempt (query W (\<lambda>d. Inr (ListACMEAccounts binding targetID d))) (\<lambda>list. done_with (target_account targetID list))"

fun acmeBindingResources :: "server \<Rightarrow> world \<Rightarrow> string list \<Rightarrow> binding_resource list api" where
  "acmeBindingResources S W [] = done_with []"
| "acmeBindingResources S W (n # ns) =
     attempt (acmeBindingResource S W n) (\<lambda>x. attempt (acmeBindingResources S W ns) (\<lambda>xs. done_with (x # xs)))"

subsection \<open>Which account\<close>

definition pathBinding :: "server \<Rightarrow> string \<Rightarrow> api_err + string" where
  "pathBinding S name =
     (if \<not> IsBindingName name \<or> \<not> bindings_has (bn_ACME (sv_bind S)) name then Inl (RegErr ErrNotFound) else Inr name)"

definition pathScopedTarget :: "server \<Rightarrow> world \<Rightarrow> string \<Rightarrow> string \<Rightarrow> target api" where
  "pathScopedTarget S W v binding =
     (if \<not> bindings_has (sv_targetScoped S) binding then refuse (ApiErr 409 ''not_target_scoped'' [])
      else
        attempt (check (pathID v)) (\<lambda>i.
        attempt (query W (GetTarget i)) (\<lambda>t.
        attempt (query W (GetPolicy (tgt_PolicyRef t))) (\<lambda>p.
        if pol_ACMEBinding p \<noteq> binding then refuse (ApiErr 409 ''conflict'' []) else done_with t))))"

definition handleProvisioningKey :: "server \<Rightarrow> response api" where
  "handleProvisioningKey S =
     (case sv_provisioning S of
        None \<Rightarrow> done_with (writeError 404 ''not_configured'' [])
      | Some key \<Rightarrow> done_with (writeJSON 200 (BProvisioningKey (ProvisioningKeyID (sv_sealing S) key) (b64_encode key))))"

definition handleGetTargetACMEAccount :: "server \<Rightarrow> world \<Rightarrow> string \<Rightarrow> string \<Rightarrow> response api" where
  "handleGetTargetACMEAccount S W b v =
     attempt (check (pathBinding S b)) (\<lambda>binding.
     attempt (pathScopedTarget S W v binding) (\<lambda>t.
     attempt (targetAccountResource W binding (tgt_ID t)) (\<lambda>x. done_with (writeJSON 200 (BTargetAccount x)))))"

definition handleListACMEBindings :: "server \<Rightarrow> world \<Rightarrow> response api" where
  "handleListACMEBindings S W =
     attempt (acmeBindingResources S W (bn_ACME (sv_bind S))) (\<lambda>items. done_with (writeJSON 200 (BAcmeBindings items)))"

definition handleGetACMEBinding :: "server \<Rightarrow> world \<Rightarrow> string \<Rightarrow> response api" where
  "handleGetACMEBinding S W b =
     attempt (check (pathBinding S b)) (\<lambda>name.
     attempt (acmeBindingResource S W name) (\<lambda>x. done_with (writeJSON 200 (BAcmeBinding x))))"

subsection \<open>The run that carries a request\<close>

definition no_run :: "string \<Rightarrow> provisioning_run" where
  "no_run reason = \<lparr>pv_Started = False, pv_RunID = [], pv_TargetID = [], pv_Status = None, pv_Reason = reason\<rparr>"

fun target_expiries :: "world \<Rightarrow> target list \<Rightarrow> (target \<times> int) list api" where
  "target_expiries W [] = done_with []"
| "target_expiries W (t # ts) =
     attempt (query W (\<lambda>d. Inr (RunSummary (tgt_ID t) d))) (\<lambda>sm.
     attempt (target_expiries W ts) (\<lambda>rest.
     done_with ((t, case LastSucceeded sm of None \<Rightarrow> 0 | Some k \<Rightarrow> (case run_ExpiresAt k of None \<Rightarrow> 0 | Some e \<Rightarrow> unix_of e)) # rest)))"

fun policy_candidates :: "world \<Rightarrow> string \<Rightarrow> reg_policy list \<Rightarrow> (target \<times> int) list api" where
  "policy_candidates W binding [] = done_with []"
| "policy_candidates W binding (p # ps) =
     (if pol_ACMEBinding p \<noteq> binding \<or> \<not> pol_Enabled p then policy_candidates W binding ps
      else
        attempt (query W (\<lambda>d. Inr (ListTargets \<lparr>lto_Enabled = Some True, lto_PolicyRef = pol_ID p, lto_IncludeRetired = False\<rparr> d))) (\<lambda>ts.
        attempt (target_expiries W ts) (\<lambda>cs.
        attempt (policy_candidates W binding ps) (\<lambda>rest. done_with (cs @ rest)))))"

definition provisioningCandidates :: "world \<Rightarrow> string \<Rightarrow> target option \<Rightarrow> (target list \<times> string) api" where
  "provisioningCandidates W binding t =
     (case t of
        Some t \<Rightarrow>
          if \<not> tgt_Enabled t then done_with ([], ''the target is disabled'')
          else
            attempt (query W (GetPolicy (tgt_PolicyRef t))) (\<lambda>p.
            if \<not> pol_Enabled p then done_with ([], ''the target's policy '' @ pol_ID p @ '' is disabled'')
            else done_with ([t], []))
      | None \<Rightarrow>
          attempt (query W (\<lambda>d. Inr (ListPolicies d))) (\<lambda>ps.
          attempt (policy_candidates W binding ps) (\<lambda>cs.
          if cs = [] then done_with ([], ''no enabled target under an enabled policy uses acme binding '' @ quoted binding)
          else done_with (map fst (sort_key snd (sort_key (\<lambda>c. tgt_ID (fst c)) cs)), []))))"

fun try_candidates ::
  "world \<Rightarrow> principal \<Rightarrow> string \<Rightarrow> int \<Rightarrow> (run \<times> target) option \<Rightarrow> target list \<Rightarrow> (api_state, provisioning_run) state" where
  "try_candidates W caller binding generation busy [] =
     State_Monad.return (case busy of
        None \<Rightarrow> no_run ''no run could be requested; the next run of an eligible target carries the request''
      | Some (b, t) \<Rightarrow>
          \<lparr>pv_Started = False, pv_RunID = run_ID b, pv_TargetID = tgt_ID t, pv_Status = Some (run_Status b),
           pv_Reason = (if run_Status b = RunQueued then ''a queued run of the target carries the request when it starts''
             else ''a run of the target is already in flight without the request; the scheduler starts another run for it once that one ends'')\<rparr>)"
| "try_candidates W caller binding generation busy (t # ts) =
     do {
       res \<leftarrow> create_run W caller t (''run requested by '' @ pr_Name caller @ '' for fqdn='' @ tgt_FQDN t
                @ '' to carry acme account provisioning binding='' @ binding @ '' generation='' @ itoa generation);
       case res of
         Inr run \<Rightarrow> do {
           _ \<leftarrow> emit Wake;
           State_Monad.return \<lparr>pv_Started = True, pv_RunID = run_ID run, pv_TargetID = tgt_ID t, pv_Status = Some (run_Status run), pv_Reason = []\<rparr> }
       | Inl _ \<Rightarrow> do {
           active \<leftarrow> activeRun W (tgt_ID t);
           try_candidates W caller binding generation
             (case active of None \<Rightarrow> busy | Some a \<Rightarrow> (case busy of None \<Rightarrow> Some (a, t) | Some b \<Rightarrow> Some b)) ts }
     }"

definition startProvisioningRun :: "world \<Rightarrow> principal \<Rightarrow> string \<Rightarrow> target option \<Rightarrow> int \<Rightarrow> (api_state, provisioning_run) state" where
  "startProvisioningRun W caller binding t generation =
     do {
       cands \<leftarrow> provisioningCandidates W binding t;
       case cands of
         Inl _ \<Rightarrow> State_Monad.return (no_run ''the targets that could carry the request could not be listed; the next run of one will'')
       | Inr (ts, reason) \<Rightarrow>
           if ts = [] then State_Monad.return (no_run reason) else try_candidates W caller binding generation None ts
     }"

subsection \<open>Requesting and cancelling\<close>

definition account_where :: "string \<Rightarrow> target option \<Rightarrow> string" where
  "account_where binding t =
     (case t of None \<Rightarrow> ''binding='' @ binding
      | Some t \<Rightarrow> ''binding='' @ binding @ '' scope='' @ tgt_ID t @ '' fqdn='' @ tgt_FQDN t)"

definition account_scope :: "target option \<Rightarrow> string" where
  "account_scope t = (case t of None \<Rightarrow> [] | Some t \<Rightarrow> tgt_ID t)"

definition account_event :: "principal \<Rightarrow> audit_action \<Rightarrow> target option \<Rightarrow> string \<Rightarrow> audit_event" where
  "account_event caller action t detail = (caller_event caller action detail)\<lparr>ev_TargetID := account_scope t\<rparr>"

definition provisioning_location :: "string \<Rightarrow> target option \<Rightarrow> int \<Rightarrow> string" where
  "provisioning_location binding t g =
     ''/api/v1alpha1/acme-bindings/'' @ binding @ (case t of None \<Rightarrow> [] | Some t \<Rightarrow> ''/targets/'' @ tgt_ID t) @ ''/provisioning/'' @ itoa g"

definition zero_provisioning_input :: provisioning_input where
  "zero_provisioning_input = \<lparr>vi_AccountGeneration = 0,
     vi_EncryptedCredential = \<lparr>sp_Version = [], sp_KeyID = [], sp_EphemeralPublicKey = [], sp_Nonce = [], sp_Ciphertext = []\<rparr>\<rparr>"

definition provisioning_checks :: "server \<Rightarrow> string \<Rightarrow> target option \<Rightarrow> provisioning_input \<Rightarrow> api_err option" where
  "provisioning_checks S key t inp =
     (let c = vi_EncryptedCredential inp in
      check_all
        [reject_if (vi_AccountGeneration inp < 1 \<or> MaxAccountGeneration < vi_AccountGeneration inp) badRequest,
         reject_if (SealedProvisioning_validate ''encryptedCredential'' c \<noteq> None) badRequest,
         reject_if (sp_Version c \<noteq> (if t = None then ProvisioningVersion else ProvisioningVersionScoped)) badRequest,
         reject_if (sp_KeyID c \<noteq> ProvisioningKeyID (sv_sealing S) key) badRequest])"

definition requested_account :: "principal \<Rightarrow> string \<Rightarrow> target option \<Rightarrow> provisioning_input \<Rightarrow> acme_account" where
  "requested_account caller binding t inp =
     \<lparr>acc_Binding = binding, acc_Scope = account_scope t, acc_Generation = vi_AccountGeneration inp,
      acc_Status = ACMEAccountProvisioning, acc_KeyID = sp_KeyID (vi_EncryptedCredential inp), acc_sealed_payload = None,
      acc_RunID = None, acc_RequestedBy = pr_Name caller, acc_RequestedByAuthority = pr_Authority caller,
      acc_CreatedAt = 0, acc_UpdatedAt = 0, acc_ActivatedAt = None\<rparr>"

definition requestProvisioning :: "server \<Rightarrow> world \<Rightarrow> request \<Rightarrow> principal \<Rightarrow> string \<Rightarrow> string \<Rightarrow> target option \<Rightarrow> response api" where
  "requestProvisioning S W r caller key binding t =
     (if \<not> bindings_has (sv_eabBindings S) binding then refuse (ApiErr 409 ''eab_not_required'' [])
      else
        attempt (check (decodeBody S (sv_provisioningInput S) zero_provisioning_input False r)) (\<lambda>inp.
        attempt (require (provisioning_checks S key t inp)) (\<lambda>_.
        attempt (command W (\<lambda>E. RequestACMEAccountProvisioning E (requested_account caller binding t inp)
          (cd_write (sv_sealedCodec S) (vi_EncryptedCredential inp))
          (Some (account_event caller AuditACMEAccountProvisioningRequested t
            (''acme account provisioning requested: '' @ account_where binding t @ '' generation='' @ itoa (vi_AccountGeneration inp)
              @ '' keyId='' @ sp_KeyID (vi_EncryptedCredential inp)))))) (\<lambda>acct.
        attempt (emit Wake) (\<lambda>_. do {
          run \<leftarrow> startProvisioningRun W caller binding t (acc_Generation acct);
          done_with ((writeJSON 201 (BProvisioning (acmeAccountResource acct) run))
            \<lparr>rp_Location := Some (provisioning_location binding t (acc_Generation acct))\<rparr>) })))))"

definition handleRequestACMEProvisioning :: "server \<Rightarrow> world \<Rightarrow> request \<Rightarrow> string \<Rightarrow> principal \<Rightarrow> response api" where
  "handleRequestACMEProvisioning S W r b caller =
     (case sv_provisioning S of
        None \<Rightarrow> refuse (ApiErr 404 ''not_configured'' [])
      | Some key \<Rightarrow>
          attempt (check (pathBinding S b)) (\<lambda>binding.
          if bindings_has (sv_targetScoped S) binding then refuse (ApiErr 409 ''target_scoped'' [])
          else requestProvisioning S W r caller key binding None))"

definition handleRequestTargetACMEProvisioning :: "server \<Rightarrow> world \<Rightarrow> request \<Rightarrow> string \<Rightarrow> string \<Rightarrow> principal \<Rightarrow> response api" where
  "handleRequestTargetACMEProvisioning S W r b v caller =
     (case sv_provisioning S of
        None \<Rightarrow> refuse (ApiErr 404 ''not_configured'' [])
      | Some key \<Rightarrow>
          attempt (check (pathBinding S b)) (\<lambda>binding.
          attempt (pathScopedTarget S W v binding) (\<lambda>t.
          attempt (in_service t) (\<lambda>t. requestProvisioning S W r caller key binding (Some t)))))"

definition cancelProvisioning :: "world \<Rightarrow> string \<Rightarrow> principal \<Rightarrow> string \<Rightarrow> target option \<Rightarrow> response api" where
  "cancelProvisioning W g caller binding t =
     (case ParseInt g of
        None \<Rightarrow> refuse badRequest
      | Some generation \<Rightarrow>
          if generation < 1 \<or> MaxAccountGeneration < generation then refuse badRequest
          else
            attempt (command W (mutate (\<lambda>E. CancelACMEAccountProvisioning E binding (account_scope t) generation
              (Some (account_event caller AuditACMEAccountProvisioningCancelled t
                (''acme account provisioning cancelled: '' @ account_where binding t @ '' generation='' @ itoa generation)))))) (\<lambda>_.
            done_with (writeJSON 200 (BCancelled binding (account_scope t) generation))))"

definition handleCancelACMEProvisioning :: "server \<Rightarrow> world \<Rightarrow> string \<Rightarrow> string \<Rightarrow> principal \<Rightarrow> response api" where
  "handleCancelACMEProvisioning S W b g caller =
     attempt (check (pathBinding S b)) (\<lambda>binding. cancelProvisioning W g caller binding None)"

definition handleCancelTargetACMEProvisioning :: "server \<Rightarrow> world \<Rightarrow> string \<Rightarrow> string \<Rightarrow> string \<Rightarrow> principal \<Rightarrow> response api" where
  "handleCancelTargetACMEProvisioning S W b v g caller =
     attempt (check (pathBinding S b)) (\<lambda>binding.
     attempt (check (pathID v)) (\<lambda>i.
     attempt (query W (GetTarget i)) (\<lambda>t. cancelProvisioning W g caller binding (Some t))))"

end
