(* ===== verification/ApiServer.thy ===== *)
theory ApiServer
  imports ApiAccounts
begin

text \<open>
  The routes of \<^verbatim>\<open>api.go\<close> and one request from its arrival to its response. A path is the list of
  its segments; a pattern for GET also takes HEAD, and what no pattern takes is not found. The
  pages of the embedded GUI are not modelled.
\<close>

datatype seg = Lit string | Var

fun match_path :: "seg list \<Rightarrow> string list \<Rightarrow> string list option" where
  "match_path [] [] = Some []"
| "match_path (Lit a # ps) (s # ss) = (if a = s then match_path ps ss else None)"
| "match_path (Var # ps) (s # ss) = (if s = [] then None else map_option (Cons s) (match_path ps ss))"
| "match_path _ _ = None"

definition match_method :: "string \<Rightarrow> string \<Rightarrow> bool" where
  "match_method pattern m \<longleftrightarrow> m = pattern \<or> pattern = ''GET'' \<and> m = ''HEAD''"

datatype endpoint =
    EBindings | EListPolicies | ECreatePolicy | EGetPolicy | EUpdatePolicy
  | EListTargets | ECreateTarget | EGetTarget | EUpdateTarget | EEnableTarget | EDisableTarget | ERetireTarget
  | EListTargetRuns | EDNSDelegation | EGetConsumers | EPutConsumers | ERequestRun
  | EListRuns | EGetRun | ECancelRun | EListAudit | EListPrincipals
  | EProvisioningKey | EListACMEBindings | EGetACMEBinding | ERequestProvisioning | ECancelProvisioning
  | EGetTargetAccount | ERequestTargetProvisioning | ECancelTargetProvisioning

definition api_routes :: "(string \<times> seg list \<times> endpoint) list" where
  "api_routes =
     [(''GET'', [Lit ''bindings''], EBindings),
      (''GET'', [Lit ''policies''], EListPolicies),
      (''POST'', [Lit ''policies''], ECreatePolicy),
      (''GET'', [Lit ''policies'', Var], EGetPolicy),
      (''PUT'', [Lit ''policies'', Var], EUpdatePolicy),
      (''GET'', [Lit ''targets''], EListTargets),
      (''POST'', [Lit ''targets''], ECreateTarget),
      (''GET'', [Lit ''targets'', Var], EGetTarget),
      (''PUT'', [Lit ''targets'', Var], EUpdateTarget),
      (''POST'', [Lit ''targets'', Var, Lit ''enable''], EEnableTarget),
      (''POST'', [Lit ''targets'', Var, Lit ''disable''], EDisableTarget),
      (''POST'', [Lit ''targets'', Var, Lit ''retire''], ERetireTarget),
      (''GET'', [Lit ''targets'', Var, Lit ''runs''], EListTargetRuns),
      (''GET'', [Lit ''targets'', Var, Lit ''dns-delegation''], EDNSDelegation),
      (''GET'', [Lit ''targets'', Var, Lit ''consumers''], EGetConsumers),
      (''PUT'', [Lit ''targets'', Var, Lit ''consumers''], EPutConsumers),
      (''POST'', [Lit ''targets'', Var, Lit ''runs''], ERequestRun),
      (''GET'', [Lit ''runs''], EListRuns),
      (''GET'', [Lit ''runs'', Var], EGetRun),
      (''POST'', [Lit ''runs'', Var, Lit ''cancel''], ECancelRun),
      (''GET'', [Lit ''audit''], EListAudit),
      (''GET'', [Lit ''principals''], EListPrincipals),
      (''GET'', [Lit ''account-provisioning'', Lit ''key''], EProvisioningKey),
      (''GET'', [Lit ''acme-bindings''], EListACMEBindings),
      (''GET'', [Lit ''acme-bindings'', Var], EGetACMEBinding),
      (''POST'', [Lit ''acme-bindings'', Var, Lit ''provisioning''], ERequestProvisioning),
      (''DELETE'', [Lit ''acme-bindings'', Var, Lit ''provisioning'', Var], ECancelProvisioning),
      (''GET'', [Lit ''acme-bindings'', Var, Lit ''targets'', Var], EGetTargetAccount),
      (''POST'', [Lit ''acme-bindings'', Var, Lit ''targets'', Var, Lit ''provisioning''], ERequestTargetProvisioning),
      (''DELETE'', [Lit ''acme-bindings'', Var, Lit ''targets'', Var, Lit ''provisioning'', Var], ECancelTargetProvisioning)]"

fun find_route :: "(string \<times> seg list \<times> endpoint) list \<Rightarrow> string \<Rightarrow> string list \<Rightarrow> (endpoint \<times> string list) option" where
  "find_route [] m path = None"
| "find_route ((pm, pat, e) # rs) m path =
     (case (if match_method pm m then match_path pat path else None) of
        Some vars \<Rightarrow> Some (e, vars)
      | None \<Rightarrow> find_route rs m path)"

text \<open>\<open>i\<close>, \<open>j\<close> and \<open>k\<close> are the path values in their order.\<close>

definition run_endpoint :: "server \<Rightarrow> world \<Rightarrow> request \<Rightarrow> endpoint \<Rightarrow> string \<Rightarrow> string \<Rightarrow> string \<Rightarrow> principal \<Rightarrow> response api" where
  "run_endpoint S W r e i j k caller =
     (case e of
        EBindings \<Rightarrow> handleBindings S
      | EListPolicies \<Rightarrow> handleListPolicies W
      | ECreatePolicy \<Rightarrow> handleCreatePolicy S W r caller
      | EGetPolicy \<Rightarrow> handleGetPolicy W i
      | EUpdatePolicy \<Rightarrow> handleUpdatePolicy S W r i caller
      | EListTargets \<Rightarrow> handleListTargets W r
      | ECreateTarget \<Rightarrow> handleCreateTarget S W r caller
      | EGetTarget \<Rightarrow> handleGetTarget W i
      | EUpdateTarget \<Rightarrow> handleUpdateTarget S W r i caller
      | EEnableTarget \<Rightarrow> handleSetTargetEnabled W True i caller
      | EDisableTarget \<Rightarrow> handleSetTargetEnabled W False i caller
      | ERetireTarget \<Rightarrow> handleRetireTarget W i caller
      | EListTargetRuns \<Rightarrow> handleListTargetRuns W r i
      | EDNSDelegation \<Rightarrow> handleTargetDNSDelegation S W r i
      | EGetConsumers \<Rightarrow> handleGetTargetConsumers W i
      | EPutConsumers \<Rightarrow> handlePutTargetConsumers S W r i caller
      | ERequestRun \<Rightarrow> handleRequestRun S W r i caller
      | EListRuns \<Rightarrow> handleListRuns W r
      | EGetRun \<Rightarrow> handleGetRun W i
      | ECancelRun \<Rightarrow> handleCancelRun S W i caller
      | EListAudit \<Rightarrow> handleListAudit W r
      | EListPrincipals \<Rightarrow> handleListPrincipals W
      | EProvisioningKey \<Rightarrow> handleProvisioningKey S
      | EListACMEBindings \<Rightarrow> handleListACMEBindings S W
      | EGetACMEBinding \<Rightarrow> handleGetACMEBinding S W i
      | ERequestProvisioning \<Rightarrow> handleRequestACMEProvisioning S W r i caller
      | ECancelProvisioning \<Rightarrow> handleCancelACMEProvisioning S W i j caller
      | EGetTargetAccount \<Rightarrow> handleGetTargetACMEAccount S W i j
      | ERequestTargetProvisioning \<Rightarrow> handleRequestTargetACMEProvisioning S W r i j caller
      | ECancelTargetProvisioning \<Rightarrow> handleCancelTargetACMEProvisioning S W i j k caller)"

definition nth_value :: "nat \<Rightarrow> string list \<Rightarrow> string" where
  "nth_value n vars = (if n < length vars then vars ! n else [])"

definition handleHealthz :: response where
  "handleHealthz = writeJSON 200 (BStatus ''ok'')"

definition handleReadyz :: "server \<Rightarrow> (api_state, response) state" where
  "handleReadyz S = State (\<lambda>((n, d), v).
     (if sv_ready S n then writeJSON 200 (BStatus ''ok'') else writeJSON 503 (BStatus ''unavailable''), ((n, d), v)))"

definition route :: "request \<Rightarrow> (endpoint \<times> string list) option" where
  "route r =
     (case rq_Path r of
        a # b # rest \<Rightarrow> if a = ''api'' \<and> b = ''v1alpha1'' then find_route api_routes (rq_Method r) rest else None
      | _ \<Rightarrow> None)"

definition ServeHTTP :: "server \<Rightarrow> world \<Rightarrow> request \<Rightarrow> (api_state, response) state" where
  "ServeHTTP S W r =
     (if match_method ''GET'' (rq_Method r) \<and> rq_Path r = [''healthz''] then State_Monad.return handleHealthz
      else if match_method ''GET'' (rq_Method r) \<and> rq_Path r = [''readyz''] then handleReadyz S
      else (case route r of
              None \<Rightarrow> State_Monad.return (writeError 404 ''not_found'' [])
            | Some (e, vars) \<Rightarrow>
                authenticated S W r (run_endpoint S W r e (nth_value 0 vars) (nth_value 1 vars) (nth_value 2 vars))))"

end
