(* ===== verification/ApiFrame.thy ===== *)
theory ApiFrame
  imports ApiServer
begin

text \<open>
  What a request can do to the registry, proved once over an interface: \<open>api_frame\<close> has a relation
  on databases that other writers respect, \<open>api_commands\<close> adds that every operation a handler calls
  on behalf of the caller respects it too.
\<close>

subsection \<open>Reading\<close>

text \<open>The endpoints that GET and HEAD reach.\<close>

definition reading :: "endpoint \<Rightarrow> bool" where
  "reading e \<longleftrightarrow> e \<in> {EBindings, EListPolicies, EGetPolicy, EListTargets, EGetTarget, EListTargetRuns, EDNSDelegation, EGetConsumers,
     EListRuns, EGetRun, EListAudit, EListPrincipals, EProvisioningKey, EListACMEBindings, EGetACMEBinding, EGetTargetAccount}"

locale api_frame =
  fixes W :: world and G :: "db \<Rightarrow> db \<Rightarrow> bool"
  assumes refl: "G d d" and trans: "G d d1 \<Longrightarrow> G d1 d2 \<Longrightarrow> G d d2" and others: "G d (w_interfere W n d)"
begin

definition within :: "(api_state, 'a) state \<Rightarrow> bool" where
  "within m \<longleftrightarrow> (\<forall>s v a s' v'. run_state m (s, v) = (a, (s', v')) \<longrightarrow> G (snd s) (snd s'))"

lemma withinD: "within m \<Longrightarrow> run_state m ((n, d), v) = (a, ((n', d'), v')) \<Longrightarrow> G d d'"
  unfolding within_def by fastforce

lemma within_still:
  "(\<And>s v. snd (fst (snd (run_state m (s, v)))) = snd s) \<Longrightarrow> within m"
  unfolding within_def by (metis fst_conv snd_conv refl)

lemma within_return [simp, intro!]: "within (State_Monad.return x)"
  by (rule within_still) simp

lemma within_bind [intro!]: "within m \<Longrightarrow> (\<And>x. within (k x)) \<Longrightarrow> within (State_Monad.bind m k)"
  unfolding within_def run_bind by (fastforce intro: trans split: prod.splits)

lemma within_attempt [intro!]: "within m \<Longrightarrow> (\<And>x. within (k x)) \<Longrightarrow> within (attempt m k)"
  unfolding attempt_def by (auto split: sum.splits)

lemma within_or_registry [intro!]: "within m \<Longrightarrow> within (or_registry m)"
  unfolding or_registry_def by auto

lemma within_call:
  assumes "\<And>n d a d'. op (w_env W n) d = Inr (a, d') \<Longrightarrow> G d d'"
  shows "within (api_call W k op)"
  unfolding within_def
proof (intro allI impI)
  fix s v a s' v' assume "run_state (api_call W k op) (s, v) = (a, (s', v'))"
  then have "run_state (call W k op) (fst s, snd s) = (a, s')" by (simp add: api_call_def split: prod.splits)
  moreover let ?d = "w_interfere W (fst s) (snd s)"
  have "G (snd s) ?d" by (rule others)
  ultimately show "G (snd s) (snd s')" using assms refl trans
    by (auto simp: call_def Let_def split: fault.splits sum.splits prod.splits)
qed

lemma within_read [intro!]: "within (api_call W k (read q))"
  by (rule within_call) (auto simp: read_def refl split: sum.splits)

lemma within_query [intro!]: "within (query W q)"
  unfolding query_def by auto

lemma within_pure [intro!]: "within (check r)" "within (require e)" "within (in_service t)" "within (emit x)" "within (api_now W)"
    "within (sched_cancel S i)" "within (handleReadyz S)"
  by (auto simp: check_def require_def in_service_def split: option.splits)
    (rule within_still, auto simp: emit_def api_now_def sched_cancel_def handleReadyz_def)+

lemma within_targets [intro!]: "within (targetResource W t)" "within (targetResources W ts)" "within (target_answer W status t)"
proof -
  show t: "within (targetResource W t)" for t unfolding targetResource_def by auto
  show "within (targetResources W ts)" using t by (induction ts) auto
  show "within (target_answer W status t)" unfolding target_answer_def using t by auto
qed

lemma within_active [intro!]: "within (activeRun W i)"
  unfolding activeRun_def by auto

lemma within_listRuns [intro!]: "within (listRuns W r i)"
  unfolding listRuns_def by auto

lemma within_accounts [intro!]: "within (acmeBindingResource S W n)" "within (acmeBindingResources S W ns)"
    "within (targetAccountResource W b i)" "within (pathScopedTarget S W v b)"
proof -
  show b: "within (acmeBindingResource S W n)" for n unfolding acmeBindingResource_def by (auto split: prod.splits)
  show "within (acmeBindingResources S W ns)" using b by (induction ns) auto
qed (auto simp: targetAccountResource_def pathScopedTarget_def)

lemma within_candidates [intro!]: "within (provisioningCandidates W b t)"
proof -
  have "within (target_expiries W ts)" for ts by (induction ts) auto
  then have "within (policy_candidates W b ps)" for ps by (induction ps) auto
  then show ?thesis unfolding provisioningCandidates_def by (auto split: option.splits)
qed

lemma reading_within: "reading e \<Longrightarrow> within (run_endpoint S W r e i j k p)"
  unfolding reading_def run_endpoint_def
  by (auto simp: handleBindings_def handleListPolicies_def handleGetPolicy_def handleListTargets_def handleGetTarget_def
      handleListTargetRuns_def handleTargetDNSDelegation_def handleGetTargetConsumers_def handleListRuns_def handleGetRun_def
      handleListAudit_def handleListPrincipals_def handleProvisioningKey_def handleListACMEBindings_def handleGetACMEBinding_def
      handleGetTargetACMEAccount_def split: option.splits)

end

subsection \<open>Acting for a caller\<close>

definition attributed :: "principal \<Rightarrow> audit_event \<Rightarrow> bool" where
  "attributed p ev \<longleftrightarrow> ev_Actor ev = pr_Name p \<and> ev_ActorAuthority ev = pr_Authority p"

lemma attributed_events [simp]:
  "attributed p (caller_event p action detail)" "attributed p (rejected_event S p t q err)" "attributed p (account_event p action u detail)"
  by (simp_all add: attributed_def caller_event_def rejected_event_def account_event_def new_event_def)

locale api_commands = api_frame +
  fixes p :: principal and tbl :: "nat \<Rightarrow> nat"
  assumes principal: "SetPrincipalName (w_env W n) pn d = Inr d' \<Longrightarrow> G d d'"
    and audit: "attributed p ev \<Longrightarrow> AppendAudit (w_env W n) (Some ev) d = Inr d' \<Longrightarrow> G d d'"
    and create_policy: "attributed p ev \<Longrightarrow> CreatePolicy tbl (w_env W n) pol (Some ev) d = Inr (x, d') \<Longrightarrow> G d d'"
    and update_policy: "attributed p ev \<Longrightarrow> UpdatePolicy tbl (w_env W n) pol (Some ev) d = Inr (x, d') \<Longrightarrow> G d d'"
    and create_target: "attributed p ev \<Longrightarrow> CreateTarget (w_env W n) t (Some ev) d = Inr (t', d') \<Longrightarrow> G d d'"
    and update_target: "attributed p ev \<Longrightarrow> UpdateTarget (w_env W n) t revision (Some ev) d = Inr (t', d') \<Longrightarrow> G d d'"
    and retire_target: "attributed p ev \<Longrightarrow>
      RetireTarget (w_env W n) i (pr_Name p) (pr_Authority p) (Some ev) d = Inr (t', d') \<Longrightarrow> G d d'"
    and set_consumers: "attributed p ev \<Longrightarrow> SetTargetConsumers (w_env W n) c ver (Some ev) d = Inr (c', d') \<Longrightarrow> G d d'"
    and create_run: "attributed p ev \<Longrightarrow> CreateRun (w_env W n) (requested_run p t) (Some ev) d = Inr (r', d') \<Longrightarrow> G d d'"
    and cancel_run: "attributed p ev \<Longrightarrow> UpdateRun (w_env W n) (cancel_queued p now r) RunQueued (Some ev) d = Inr d' \<Longrightarrow> G d d'"
    and request: "attributed p ev \<Longrightarrow>
      RequestACMEAccountProvisioning (w_env W n) (requested_account p b u inp) payload (Some ev) d = Inr (a', d') \<Longrightarrow> G d d'"
    and cancel: "attributed p ev \<Longrightarrow> CancelACMEAccountProvisioning (w_env W n) b sc g (Some ev) d = Inr d' \<Longrightarrow> G d d'"
begin

lemma within_mutate:
  "(\<And>n d d'. f (w_env W n) d = Inr d' \<Longrightarrow> G d d') \<Longrightarrow> within (api_call W k (mutate f))"
  by (rule within_call) (auto simp: mutate_def split: sum.splits)

lemma within_command: "(\<And>n d a d'. op (w_env W n) d = Inr (a, d') \<Longrightarrow> G d d') \<Longrightarrow> within (command W op)"
  unfolding command_def by (intro within_or_registry within_call)

lemma within_commands [intro!]:
  "attributed p ev \<Longrightarrow> within (command W (mutate (\<lambda>E. AppendAudit E (Some ev))))"
  "attributed p ev \<Longrightarrow> within (command W (\<lambda>E. CreatePolicy tbl E pol (Some ev)))"
  "attributed p ev \<Longrightarrow> within (command W (\<lambda>E. UpdatePolicy tbl E pol (Some ev)))"
  "attributed p ev \<Longrightarrow> within (command W (\<lambda>E. CreateTarget E t (Some ev)))"
  "attributed p ev \<Longrightarrow> within (command W (\<lambda>E. UpdateTarget E t revision (Some ev)))"
  "attributed p ev \<Longrightarrow> within (command W (\<lambda>E. RetireTarget E i (pr_Name p) (pr_Authority p) (Some ev)))"
  "attributed p ev \<Longrightarrow> within (command W (\<lambda>E. SetTargetConsumers E c ver (Some ev)))"
  "attributed p ev \<Longrightarrow> within (command W (mutate (\<lambda>E. UpdateRun E (cancel_queued p now r) RunQueued (Some ev))))"
  "attributed p ev \<Longrightarrow> within (command W (\<lambda>E. RequestACMEAccountProvisioning E (requested_account p b u inp) payload (Some ev)))"
  "attributed p ev \<Longrightarrow> within (command W (mutate (\<lambda>E. CancelACMEAccountProvisioning E b sc g (Some ev))))"
  "within (create_run W p t detail)"
  unfolding command_def create_run_def
  by (rule within_or_registry, (rule within_mutate | rule within_call),
      erule (1) audit create_policy update_policy create_target update_target retire_target set_consumers cancel_run request cancel)+
    (rule within_call, erule create_run[rotated], simp)

lemma within_checkPolicy [intro!]: "within (checkPolicy S W p t)"
  unfolding checkPolicy_def by (auto split: option.splits sum.splits)

lemma within_try [intro!]: "within (try_candidates W p b g busy ts)"
  by (induction ts arbitrary: busy) (auto split: sum.splits)

lemma within_startProvisioningRun [intro!]: "within (startProvisioningRun W p b t g)"
  unfolding startProvisioningRun_def by (auto split: sum.splits prod.splits)

lemma within_requestProvisioning [intro!]: "within (requestProvisioning S W r p key b t)"
  unfolding requestProvisioning_def by auto

lemma within_cancelProvisioning [intro!]: "within (cancelProvisioning W g p b t)"
  unfolding cancelProvisioning_def by (auto split: option.splits)

lemma within_policies [intro!]:
  assumes "sv_fold S = tbl"
  shows "within (handleCreatePolicy S W r p)" "within (handleUpdatePolicy S W r i p)"
  unfolding handleCreatePolicy_def handleUpdatePolicy_def assms by auto

lemma within_targets_of [intro!]: "within (handleCreateTarget S W r p)" "within (handleUpdateTarget S W r i p)"
    "within (handleSetTargetEnabled W b i p)" "within (handleRetireTarget W i p)" "within (handlePutTargetConsumers S W r i p)"
  unfolding handleCreateTarget_def handleUpdateTarget_def handleSetTargetEnabled_def handleRetireTarget_def
    handlePutTargetConsumers_def Let_def by (auto split: prod.splits)

lemma within_runs [intro!]: "within (handleRequestRun S W r i p)" "within (handleCancelRun S W i p)"
  unfolding handleRequestRun_def handleCancelRun_def Let_def by (auto split: sum.splits option.splits)

lemma within_provisioning [intro!]: "within (handleRequestACMEProvisioning S W r b p)" "within (handleCancelACMEProvisioning S W b g p)"
    "within (handleRequestTargetACMEProvisioning S W r b i p)" "within (handleCancelTargetACMEProvisioning S W b i g p)"
  unfolding handleRequestACMEProvisioning_def handleCancelACMEProvisioning_def handleRequestTargetACMEProvisioning_def
    handleCancelTargetACMEProvisioning_def by (auto split: option.splits)

lemma writing_within:
  assumes "sv_fold S = tbl"
  shows "within (run_endpoint S W r e i j k p)"
proof (cases "reading e")
  case False
  then show ?thesis using assms unfolding reading_def run_endpoint_def by (cases e) auto
qed (rule reading_within)

lemma within_recordDisplayName [intro!]: "within (recordDisplayName W q)"
proof -
  have "within (State (\<lambda>(s, v). (av_names v, (s, v))))" "within (State (\<lambda>(s, v). ((), (s, v\<lparr>av_names := f v\<rparr>))))" for f
    by (auto intro!: within_still)
  moreover have "within (api_call W KAudit (mutate (\<lambda>E. SetPrincipalName E pn)))" for pn
    by (rule within_mutate) (rule principal)
  ultimately show ?thesis unfolding recordDisplayName_def Let_def by (auto split: sum.splits)
qed

lemma within_answer [intro!]: "within m \<Longrightarrow> within (answer m)"
  unfolding answer_def by auto

lemma within_authenticated:
  assumes "sv_fold S = tbl" "\<And>a q. sv_auth S = Some a \<Longrightarrow> a r = Inr q \<Longrightarrow> q = p"
  shows "within (authenticated S W r (run_endpoint S W r e i j k))"
  using assms writing_within[OF assms(1)] unfolding authenticated_def by (auto split: option.splits sum.splits)

lemma within_ServeHTTP:
  assumes "sv_fold S = tbl" "\<And>a q. sv_auth S = Some a \<Longrightarrow> a r = Inr q \<Longrightarrow> q = p"
  shows "within (ServeHTTP S W r)"
  using within_authenticated[OF assms] unfolding ServeHTTP_def by (auto split: option.splits prod.splits)

end

end
