(* ===== verification/ApiProps.thy ===== *)
theory ApiProps
  imports ApiFrame
begin

text \<open>
  What the API guarantees, by interpreting the interface of \<open>ApiFrame\<close> on the registry: requests
  keep the registry's invariant and history, and readers and strangers change nothing.
\<close>

subsection \<open>The registry's guarantees carry over\<close>

lemma step_cancel_queued: "UpdateRun E (cancel_queued p now r) RunQueued ev d = Inr d' \<Longrightarrow> reg_step tbl d d'"
  by (rule step_update_run) (auto simp: cancel_queued_def Active_def)

interpretation recorded: api_commands W "\<lambda>d d'. world_ok tbl W \<longrightarrow> (reg_step tbl)\<^sup>*\<^sup>* d d'" p tbl for W tbl p
proof (unfold_locales, goal_cases)
  case (2 d d1 d2) then show ?case by (auto intro: rtranclp_trans)
next
  case (3 d n) show ?case by (simp add: world_ok_def)
next
  case (8 ev n t d t' d') then show ?case by (auto simp: world_ok_def intro!: r_into_rtranclp intro: step_create_target)
next
  case (12 ev n t d r' d') then show ?case by (auto simp: world_ok_def intro!: r_into_rtranclp intro: step_create_run)
next
  case (13 ev n now r d d') then show ?case by (auto intro!: r_into_rtranclp intro: step_cancel_queued)
qed (auto intro!: r_into_rtranclp intro: reg_step.intros)


definition sample_caller :: "string \<Rightarrow> principal" where
  "sample_caller role = \<lparr>pr_Name = ''alice'', pr_Authority = ''https://idp.example'', pr_Role = role, pr_DisplayName = []\<rparr>"

definition no_codec :: "'a codec" where
  "no_codec = \<lparr>cd_read = (\<lambda>_. None), cd_write = (\<lambda>_. [])\<rparr>"

definition sample_server :: "string \<Rightarrow> server" where
  "sample_server role = \<lparr>sv_bind = \<lparr>bn_Execution = [''exec''], bn_ACME = [''ca''], bn_DNS = [''dns''], bn_Store = [''fs'']\<rparr>,
     sv_auth = Some (\<lambda>_. Inr (sample_caller role)), sv_challenge = None, sv_cancel = (\<lambda>_ _. False), sv_ready = (\<lambda>_. True),
     sv_provisioning = None, sv_eabBindings = [], sv_targetScoped = [], sv_dnsCheck = (\<lambda>_ _ _. []), sv_sealing = sample_sealing,
     sv_platform = \<lparr>pf_unicode = ascii_only, pf_parseURL = (\<lambda>_. None), pf_parseIP = (\<lambda>_. None), pf_jsonValid = (\<lambda>_. True),
       pf_parsePublicKey = (\<lambda>_. None)\<rparr>,
     sv_fold = (\<lambda>r. r), sv_quote = (\<lambda>s. s), sv_policyText = (\<lambda>_. []), sv_mediaType = Some,
     sv_targetCreate = no_codec, sv_targetUpdate = no_codec, sv_policyInput = no_codec, sv_consumersInput = no_codec,
     sv_runRequest = no_codec, sv_provisioningInput = no_codec, sv_sealedCodec = no_codec\<rparr>"

definition sample_retire :: request where
  "sample_retire = \<lparr>rq_Method = ''POST'', rq_Path = [''api'', ''v1alpha1'', ''targets'', ''t1'', ''retire''],
     rq_RemoteAddr = [], rq_Host = [], rq_Header = (\<lambda>_. []), rq_Query = (\<lambda>_. []), rq_Body = None\<rparr>"

definition sample_vars :: api_vars where
  "sample_vars = \<lparr>av_names = [], av_signals = []\<rparr>"

definition served :: "string \<Rightarrow> response \<times> db" where
  "served role = (case run_state (ServeHTTP (sample_server role) sample_world sample_retire) ((0, sample_db2), sample_vars) of
     (rsp, ((n, d), v)) \<Rightarrow> (rsp, d))"

lemma served_run: "\<exists>n v. run_state (ServeHTTP (sample_server role) sample_world sample_retire) ((0, sample_db2), sample_vars) =
    (fst (served role), ((n, snd (served role)), v))"
  by (auto simp: served_def split: prod.splits)

lemma served_admin: "rp_Status (fst (served RoleAdmin)) = 200 \<and> map tgt_RetiredBy (filter Retired (targets (snd (served RoleAdmin)))) = [''alice'']"
  by code_simp


subsection \<open>Who may change what\<close>

text \<open>The request's effects alone: nobody else writes while it is handled. Calls may still fail.\<close>

definition alone :: "world \<Rightarrow> bool" where
  "alone W \<longleftrightarrow> (\<forall>n d. w_interfere W n d = d)"

text \<open>The caller the middleware lets through.\<close>

definition allowed :: "server \<Rightarrow> request \<Rightarrow> principal option" where
  "allowed S r =
     (case sv_auth S of
        None \<Rightarrow> None
      | Some auth \<Rightarrow>
          (case auth r of
             Inl _ \<Rightarrow> None
           | Inr p \<Rightarrow> if pr_Role p \<noteq> RoleAdmin \<and> rq_Method r \<noteq> ''GET'' \<and> rq_Method r \<noteq> ''HEAD'' then None else Some p))"

definition same_but_names :: "db \<Rightarrow> db \<Rightarrow> bool" where
  "same_but_names d d' \<longleftrightarrow> d' = d\<lparr>principal_names := principal_names d'\<rparr>"

lemma allowedD:
  "allowed S r = Some p \<Longrightarrow> \<exists>auth. sv_auth S = Some auth \<and> auth r = Inr p \<and>
     (pr_Role p = RoleAdmin \<or> rq_Method r = ''GET'' \<or> rq_Method r = ''HEAD'')"
  by (auto simp: allowed_def split: option.splits sum.splits if_splits)

interpretation still: api_frame W "\<lambda>d d'. alone W \<longrightarrow> d' = d" for W
  by unfold_locales (auto simp: alone_def)

lemma routes_reading:
  assumes "find_route rs m path = Some (e, vars)" "list_all (\<lambda>(pm, pat, e). pm \<noteq> ''HEAD'' \<and> (pm = ''GET'' \<longrightarrow> reading e)) rs"
    "m = ''GET'' \<or> m = ''HEAD''"
  shows "reading e"
  using assms by (induction rs m path rule: find_route.induct) (auto simp: match_method_def split: if_splits option.splits)

lemma api_routes_reading: "list_all (\<lambda>(pm, pat, e). pm \<noteq> ''HEAD'' \<and> (pm = ''GET'' \<longrightarrow> reading e)) api_routes"
  by (simp add: api_routes_def reading_def)

lemma get_reads: "route r = Some (e, vars) \<Longrightarrow> rq_Method r = ''GET'' \<or> rq_Method r = ''HEAD'' \<Longrightarrow> reading e"
  using routes_reading[OF _ api_routes_reading] unfolding route_def by (simp split: list.splits if_splits)

lemma route_path: "route r = Some x \<Longrightarrow> rq_Path r \<noteq> [''healthz''] \<and> rq_Path r \<noteq> [''readyz'']"
  by (auto simp: route_def split: list.splits)

lemma recordDisplayName_names:
  assumes "run_state (recordDisplayName W p) ((n, d), v) = (u, ((n', d'), v'))" "alone W"
  shows "same_but_names d d'"
  using assms
  by (auto simp: recordDisplayName_def same_but_names_def alone_def api_call_def call_def mutate_def SetPrincipalName_def Let_def run_bind
      split: if_splits sum.splits fault.splits prod.splits)

lemma answer_still: "still.within W m \<Longrightarrow> still.within W (answer m)"
  unfolding answer_def by auto

lemma refused_request:
  assumes "run_state (ServeHTTP S W r) ((n, d), v) = (rsp, ((n', d'), v'))" "allowed S r = None"
  shows "d' = d \<and> (route r \<noteq> None \<longrightarrow> rp_Status rsp \<in> {401, 403})"
  using assms by (auto simp: ServeHTTP_def route_def handleReadyz_def authenticated_def allowed_def writeError_def writeJSON_def
      split: if_splits option.splits sum.splits list.splits prod.splits)

lemma get_changes_names:
  assumes run: "run_state (ServeHTTP S W r) ((n, d), v) = (rsp, ((n', d'), v'))" and alone: "alone W"
    and get: "rq_Method r = ''GET'' \<or> rq_Method r = ''HEAD''" and p: "allowed S r = Some p"
  shows "same_but_names d d'"
proof (cases "route r")
  case None
  then show ?thesis using run by (auto simp: ServeHTTP_def handleReadyz_def same_but_names_def split: if_splits)
next
  case (Some x)
  obtain e vars where x: "x = (e, vars)" by (cases x)
  note e = Some[unfolded x] route_path[OF Some]
  let ?h = "run_endpoint S W r e (nth_value 0 vars) (nth_value 1 vars) (nth_value 2 vars) p"
  have "run_state (do { _ \<leftarrow> recordDisplayName W p; answer ?h }) ((n, d), v) = (rsp, ((n', d'), v'))"
    using run e get p by (auto simp: ServeHTTP_def authenticated_def allowed_def split: if_splits option.splits sum.splits)
  then obtain u n1 d1 v1 where name: "run_state (recordDisplayName W p) ((n, d), v) = (u, ((n1, d1), v1))"
    and rest: "run_state (answer ?h) ((n1, d1), v1) = (rsp, ((n', d'), v'))"
    by (auto simp: run_bind split: prod.splits)
  have "d' = d1"
    using still.withinD[OF answer_still[OF still.reading_within[OF get_reads[OF e(1) get]]] rest] alone by simp
  with recordDisplayName_names[OF name alone] show ?thesis by simp
qed

lemma change_by_admin:
  assumes "run_state (ServeHTTP S W r) ((n, d), v) = (rsp, ((n', d'), v'))" "alone W" "\<not> same_but_names d d'"
  shows "\<exists>auth p. sv_auth S = Some auth \<and> auth r = Inr p \<and> pr_Role p = RoleAdmin"
proof (cases "allowed S r")
  case None
  then show ?thesis using refused_request[OF assms(1)] assms(3) by (simp add: same_but_names_def)
next
  case (Some p)
  then show ?thesis using get_changes_names[OF assms(1,2) _ Some] allowedD[OF Some] assms(3) by auto
qed

text \<open>
  Property C17: what a request may change depends on its caller. A caller who is not identified, or
  who is no administrator and uses another method than GET or HEAD, gets a refusal and changes
  nothing. A GET or HEAD changes at most the display name of a principal. So every other table of
  the registry changes only for an authenticated administrator.
\<close>

theorem api_authorization:
  assumes run: "run_state (ServeHTTP S W r) ((n, d), v) = (rsp, ((n', d'), v'))" and alone: "alone W"
  shows "(allowed S r = None \<longrightarrow> d' = d \<and> (route r \<noteq> None \<longrightarrow> rp_Status rsp \<in> {401, 403})) \<and>
    (rq_Method r = ''GET'' \<or> rq_Method r = ''HEAD'' \<longrightarrow> same_but_names d d') \<and>
    (\<not> same_but_names d d' \<longrightarrow> (\<exists>auth p. sv_auth S = Some auth \<and> auth r = Inr p \<and> pr_Role p = RoleAdmin))"
proof -
  have "same_but_names d d'" if "rq_Method r = ''GET'' \<or> rq_Method r = ''HEAD''"
  proof (cases "allowed S r")
    case None
    then show ?thesis using refused_request[OF run] by (simp add: same_but_names_def)
  next
    case (Some p)
    then show ?thesis by (rule get_changes_names[OF run alone that])
  qed
  then show ?thesis using refused_request[OF run] change_by_admin[OF run alone] by blast
qed

lemma sample_alone: "alone sample_world"
  by (simp add: alone_def sample_world_def)

theorem api_authorization_witness:
  "snd (served RoleViewer) = sample_db2 \<and> rp_Status (fst (served RoleViewer)) \<in> {401, 403}"
proof -
  obtain n' v' where run: "run_state (ServeHTTP (sample_server RoleViewer) sample_world sample_retire) ((0, sample_db2), sample_vars) =
    (fst (served RoleViewer), ((n', snd (served RoleViewer)), v'))" using served_run by blast
  have "allowed (sample_server RoleViewer) sample_retire = None" "route sample_retire \<noteq> None" by code_simp+
  with api_authorization[OF run sample_alone] show ?thesis by blast
qed

end
