(* ===== verification/ApiCallers.thy ===== *)
theory ApiCallers
  imports ApiProps
begin

text \<open>
  Everything a request leaves in the registry names its authenticated caller.
\<close>

subsection \<open>Who is named\<close>

definition run_origin :: "run \<Rightarrow> string \<times> string \<times> string" where
  "run_origin r = (run_ID r, run_RequestedBy r, run_RequestedByAuthority r)"

definition account_origin :: "acme_account \<Rightarrow> (string \<times> string \<times> int) \<times> string \<times> string" where
  "account_origin a = (acc_key a, acc_RequestedBy a, acc_RequestedByAuthority a)"

definition retirement :: "target \<Rightarrow> string \<times> gotime option \<times> string \<times> string" where
  "retirement t = (tgt_ID t, tgt_RetiredAt t, tgt_RetiredBy t, tgt_RetiredByAuthority t)"

text \<open>Every new audit event, run, account generation and retirement is the caller's.\<close>

definition by_caller :: "principal \<Rightarrow> db \<Rightarrow> db \<Rightarrow> bool" where
  "by_caller p d d' \<longleftrightarrow>
     (\<exists>evs. audit_events d' = audit_events d @ evs \<and> list_all (attributed p) evs) \<and>
     (\<forall>r \<in> set (runs d'). run_origin r \<in> run_origin ` set (runs d) \<or>
        run_RequestedBy r = pr_Name p \<and> run_RequestedByAuthority r = pr_Authority p) \<and>
     (\<forall>a \<in> set (acme_accounts d'). account_origin a \<in> account_origin ` set (acme_accounts d) \<or>
        acc_RequestedBy a = pr_Name p \<and> acc_RequestedByAuthority a = pr_Authority p) \<and>
     (\<forall>t \<in> set (targets d'). Retired t \<longrightarrow> retirement t \<in> retirement ` set (targets d) \<or>
        tgt_RetiredBy t = pr_Name p \<and> tgt_RetiredByAuthority t = pr_Authority p)"

lemma by_caller_refl: "by_caller p d d"
  by (auto simp: by_caller_def)

lemma retirement_Retired: "retirement t = retirement u \<Longrightarrow> Retired t \<longleftrightarrow> Retired u"
  by (simp add: retirement_def Retired_def)

lemma by_caller_trans:
  assumes "by_caller p d d1" "by_caller p d1 d2"
  shows "by_caller p d d2"
proof -
  have "\<exists>evs. audit_events d2 = audit_events d @ evs \<and> list_all (attributed p) evs"
    using assms unfolding by_caller_def by (metis append_assoc list_all_append)
  moreover have "run_origin r \<in> run_origin ` set (runs d) \<or> run_RequestedBy r = pr_Name p \<and> run_RequestedByAuthority r = pr_Authority p"
    if "r \<in> set (runs d2)" for r
    using assms that unfolding by_caller_def by (fastforce simp: run_origin_def)
  moreover have "account_origin a \<in> account_origin ` set (acme_accounts d) \<or> acc_RequestedBy a = pr_Name p \<and> acc_RequestedByAuthority a = pr_Authority p"
    if "a \<in> set (acme_accounts d2)" for a
    using assms that unfolding by_caller_def by (fastforce simp: account_origin_def)
  moreover have "retirement t \<in> retirement ` set (targets d) \<or> tgt_RetiredBy t = pr_Name p \<and> tgt_RetiredByAuthority t = pr_Authority p"
    if t: "t \<in> set (targets d2)" "Retired t" for t
  proof (cases "retirement t \<in> retirement ` set (targets d1)")
    case True
    then obtain u where u: "u \<in> set (targets d1)" "retirement t = retirement u" by blast
    then show ?thesis using assms(1) t retirement_Retired[OF u(2)] unfolding by_caller_def by (auto simp: retirement_def)
  next
    case False then show ?thesis using assms(2) t unfolding by_caller_def by blast
  qed
  ultimately show ?thesis unfolding by_caller_def by blast
qed

text \<open>A change of the tables that only adds or keeps, followed by an event of the caller.\<close>

lemma by_caller_tables:
  assumes "\<And>r. r \<in> set (runs d') \<Longrightarrow> run_origin r \<in> run_origin ` set (runs d) \<or>
      run_RequestedBy r = pr_Name p \<and> run_RequestedByAuthority r = pr_Authority p"
    and "\<And>a. a \<in> set (acme_accounts d') \<Longrightarrow> account_origin a \<in> account_origin ` set (acme_accounts d) \<or>
      acc_RequestedBy a = pr_Name p \<and> acc_RequestedByAuthority a = pr_Authority p"
    and "\<And>t. t \<in> set (targets d') \<Longrightarrow> Retired t \<Longrightarrow> retirement t \<in> retirement ` set (targets d) \<or>
      tgt_RetiredBy t = pr_Name p \<and> tgt_RetiredByAuthority t = pr_Authority p"
    and "audit_events d' = audit_events d"
  shows "by_caller p d d'"
  using assms by (auto simp: by_caller_def)

lemma by_caller_audit: "insertAudit E k (Some ev) d = Inr d' \<Longrightarrow> attributed p ev \<Longrightarrow> by_caller p d d'"
  by (auto dest!: insertAudit_Inr simp: by_caller_def logged_def attributed_def)

lemma by_caller_then: "by_caller p d d1 \<Longrightarrow> insertAudit E k (Some ev) d1 = Inr d' \<Longrightarrow> attributed p ev \<Longrightarrow> by_caller p d d'"
  using by_caller_trans by_caller_audit by blast

lemma attributed_upd [simp]:
  "attributed p (ev\<lparr>ev_TargetID := x\<rparr>) = attributed p ev" "attributed p (ev\<lparr>ev_PolicyID := x\<rparr>) = attributed p ev"
  "attributed p (ev\<lparr>ev_RunID := x\<rparr>) = attributed p ev"
  by (simp_all add: attributed_def)

lemma claimNames_tables:
  assumes "claimNames i ns d = Inr d'"
  shows "targets d' = targets d" "runs d' = runs d" "acme_accounts d' = acme_accounts d" "audit_events d' = audit_events d"
    "policies d' = policies d"
  using assms by (auto simp: claimNames_def Let_def dest!: insert_names_Inr(1) split: if_splits)

lemma upd_kept: "x \<in> set (upd_where Q f xs) \<Longrightarrow> (\<And>a. k (f a) = k a) \<Longrightarrow> k x \<in> k ` set xs"
  using upd_where_image[of xs Q k f] by blast

lemma kept_rows:
  "r' \<in> set (upd_where Q (set_run r) (runs d)) \<Longrightarrow> run_origin r' \<in> run_origin ` set (runs d)"
  "t' \<in> set (upd_where Q' (set_target t) (targets d)) \<Longrightarrow> retirement t' \<in> retirement ` set (targets d)"
  "a' \<in> set (upd_where Q'' (\<lambda>a. a\<lparr>acc_Status := ACMEAccountCancelled, acc_sealed_payload := None, acc_UpdatedAt := now\<rparr>) (acme_accounts d)) \<Longrightarrow>
     account_origin a' \<in> account_origin ` set (acme_accounts d)"
  by (erule upd_kept; simp add: run_origin_def set_run_def retirement_def set_target_def account_origin_def acc_key_def)+

lemma by_caller_ops:
  assumes "attributed p ev"
  shows "CreatePolicy tbl E pol (Some ev) d = Inr (x, d') \<Longrightarrow> by_caller p d d'"
    "UpdatePolicy tbl E pol (Some ev) d = Inr (x, d') \<Longrightarrow> by_caller p d d'"
    "CreateTarget E t (Some ev) d = Inr (t', d') \<Longrightarrow> by_caller p d d'"
    "UpdateTarget E t v (Some ev) d = Inr (t', d') \<Longrightarrow> by_caller p d d'"
    "SetTargetConsumers E c v (Some ev) d = Inr (c', d') \<Longrightarrow> by_caller p d d'"
    "UpdateRun E r st (Some ev) d = Inr d' \<Longrightarrow> by_caller p d d'"
    "CancelACMEAccountProvisioning E b sc g (Some ev) d = Inr d' \<Longrightarrow> by_caller p d d'"
proof -
  show "by_caller p d d'" if "CreatePolicy tbl E pol (Some ev) d = Inr (x, d')"
    using that assms by (auto simp: CreatePolicy_def Let_def elim!: by_caller_then[rotated] intro!: by_caller_tables)
  show "by_caller p d d'" if "UpdatePolicy tbl E pol (Some ev) d = Inr (x, d')"
    using that assms by (auto simp: UpdatePolicy_def Let_def split: if_splits elim!: by_caller_then[rotated] intro!: by_caller_tables)
  show "by_caller p d d'" if "SetTargetConsumers E c v (Some ev) d = Inr (c', d')"
    using that assms
    by (auto simp: SetTargetConsumers_def Let_def split: if_splits option.splits elim!: by_caller_then[rotated] intro!: by_caller_tables)
  show "by_caller p d d'" if "UpdateRun E r st (Some ev) d = Inr d'"
    using that assms
    by (rule_tac UpdateRun_effect[OF that])
      (auto elim!: by_caller_then[rotated] intro!: by_caller_tables dest: kept_rows)
  show "by_caller p d d'" if "CancelACMEAccountProvisioning E b sc g (Some ev) d = Inr d'"
    using that assms
    by (auto simp: CancelACMEAccountProvisioning_def Let_def split: if_splits
        elim!: by_caller_then[rotated] intro!: by_caller_tables dest: kept_rows)
  show "by_caller p d d'" if "CreateTarget E t (Some ev) d = Inr (t', d')"
    using that
    by (rule CreateTarget_effect)
      (use assms in \<open>auto elim!: by_caller_then[rotated] intro!: by_caller_tables simp: claimNames_tables Retired_def\<close>)
  show "by_caller p d d'" if "UpdateTarget E t v (Some ev) d = Inr (t', d')"
    using that assms
    by (auto simp: UpdateTarget_def Let_def claimNames_tables split: if_splits option.splits
        elim!: by_caller_then[rotated] intro!: by_caller_tables dest: kept_rows)
qed

lemma by_caller_run:
  assumes "attributed p ev" "CreateRun E (requested_run p t) (Some ev) d = Inr (r', d')"
  shows "by_caller p d d'"
  using assms(2)
proof (rule CreateRun_effect, goal_cases)
  case (1 d1)
  have "run_RequestedBy r' = pr_Name p" "run_RequestedByAuthority r' = pr_Authority p"
    using arg_cong[OF 1(7), of run_RequestedBy] arg_cong[OF 1(7), of run_RequestedByAuthority] by (simp_all add: requested_run_def)
  then have "by_caller p d d1" unfolding 1(1) by (intro by_caller_tables) (auto simp: queued_row_def)
  with 1(3) assms(1) show ?case by (auto intro: by_caller_then)
qed

lemma by_caller_request:
  assumes "attributed p ev" "RequestACMEAccountProvisioning E (requested_account p b u inp) payload (Some ev) d = Inr (a', d')"
  shows "by_caller p d d'"
  using assms(2)
proof (rule RequestACMEAccountProvisioning_effect, goal_cases)
  case (1 d1)
  have "acc_RequestedBy a' = pr_Name p" "acc_RequestedByAuthority a' = pr_Authority p"
    by (simp_all add: 1(6) requested_account_def)
  then have "by_caller p d d1" unfolding 1(1) by (intro by_caller_tables) auto
  with 1(3) assms(1) show ?case by (auto intro: by_caller_then)
qed

lemma by_caller_retire:
  assumes "attributed p ev" "RetireTarget E i (pr_Name p) (pr_Authority p) (Some ev) d = Inr (t', d')"
  shows "by_caller p d d'"
  using assms(2)
proof (rule RetireTarget_effect, goal_cases)
  case (1 t)
  let ?evs = "log_all E 1 (map (cancelled_event i (pr_Name p) (pr_Authority p)) (pending_of i d)) @
    logged E (Suc (length (pending_of i d))) (Some (ev\<lparr>ev_TargetID := i\<rparr>))"
  have "list_all (attributed p) (log_all E k (map (cancelled_event i (pr_Name p) (pr_Authority p)) as))" for k as
    by (induction as arbitrary: k) (simp_all add: attributed_def cancelled_event_def new_event_def)
  moreover have "list_all (attributed p) (logged E k (Some (ev\<lparr>ev_TargetID := i\<rparr>)))" for k
    using assms(1) by (simp add: logged_def attributed_def)
  ultimately have "list_all (attributed p) ?evs" by simp
  then have "\<exists>evs. audit_events d' = audit_events d @ evs \<and> list_all (attributed p) evs"
    unfolding 1(5) retired_db_def by (intro exI[of _ ?evs]) simp
  moreover have "account_origin a \<in> account_origin ` set (acme_accounts d)"
    if "a \<in> set (upd_where Q (cancel_row E) (acme_accounts d))" for a Q
    using that by (rule upd_kept) (simp add: account_origin_def cancel_row_def acc_key_def)
  moreover have "retirement u \<in> retirement ` set (targets d) \<or> tgt_RetiredBy u = pr_Name p \<and> tgt_RetiredByAuthority u = pr_Authority p"
    if "u \<in> set (upd_where Q (retire_row now (pr_Name p) (pr_Authority p)) (targets d))" for u Q now
    using that by (auto simp: upd_where_def retire_row_def)
  ultimately show ?case unfolding by_caller_def by (auto simp: 1(5) retired_db_def)
qed

interpretation callers: api_commands W "\<lambda>d d'. alone W \<longrightarrow> by_caller p d d'" p tbl for W p tbl
proof (unfold_locales, goal_cases)
  case (2 d d1 d2) then show ?case using by_caller_trans by blast
next
  case (4 n pn d d') then show ?case
    by (auto simp: SetPrincipalName_def Let_def split: if_splits intro!: by_caller_tables)
next
  case (5 ev n d d') then show ?case unfolding AppendAudit_def by (auto intro: by_caller_audit)
qed (auto simp: alone_def by_caller_refl intro: by_caller_ops by_caller_run by_caller_request by_caller_retire)

text \<open>
  Property C18: everything a request leaves behind names its caller. As far as nobody else writes
  meanwhile, the audit log only grows, each new event carries the authenticated caller's name and
  authority as its actor, and so do every new run, every new account generation and every new
  retirement as the one who asked for it; the body of a request cannot claim another identity.
\<close>

theorem api_attribution:
  assumes run: "run_state (ServeHTTP S W r) ((n, d), v) = (rsp, ((n', d'), v'))" and alone: "alone W"
    and caller: "sv_auth S = Some auth" "auth r = Inr p"
  shows "by_caller p d d'"
proof -
  have "callers.within W p (ServeHTTP S W r)" by (rule callers.within_ServeHTTP[OF refl]) (use caller in auto)
  from callers.withinD[OF this run] alone show ?thesis by simp
qed

theorem api_attribution_witness:
  "by_caller (sample_caller RoleAdmin) sample_db2 (snd (served RoleAdmin)) \<and>
   map tgt_RetiredBy (filter Retired (targets (snd (served RoleAdmin)))) = [''alice'']"
proof -
  obtain n' v' where run: "run_state (ServeHTTP (sample_server RoleAdmin) sample_world sample_retire) ((0, sample_db2), sample_vars) =
    (fst (served RoleAdmin), ((n', snd (served RoleAdmin)), v'))" using served_run by blast
  show ?thesis using api_attribution[OF run sample_alone, of "\<lambda>_. Inr (sample_caller RoleAdmin)"] served_admin
    by (simp add: sample_server_def)
qed

end
