(* ===== verification/Exchange.thy ===== *)
theory Exchange
  imports FileSys
begin

text \<open>
  The exchange directory, \<^verbatim>\<open>internal/exchange/exchange.go\<close>, and the transport of a Runner that takes
  its job from it, \<^verbatim>\<open>internal/runner/transport/claim/claim.go\<close>. Several processes on several machines
  share the directory, so a procedure is a program that yields one system call after the other and
  continues with the answer; other processes run between any two of its calls. \<open>interleave\<close> runs a
  list of such programs on one file system in the order of a schedule. A process that is never
  scheduled again has crashed.
\<close>

subsection \<open>Programs of system calls\<close>

datatype call =
    CLstat path | CMkdir path | CMkdirAll path | CReadDir path | CReadFile path
  | CCreate path | CWrite path string | CSync path | CClose path
  | CRename path path | CRemove path | CRemoveAll path

datatype answer = Refused io_error | Completed | Node node | Data string | Listing "(string \<times> bool) list"

datatype 'a proc = Ret 'a | Sys call "answer \<Rightarrow> 'a proc"

primrec then_do :: "'a proc \<Rightarrow> ('a \<Rightarrow> 'b proc) \<Rightarrow> 'b proc" where
  "then_do (Ret r) h = h r"
| "then_do (Sys c k) h = Sys c (\<lambda>a. then_do (k a) h)"

text \<open>A call whose refusal is handled by \<open>bad\<close>.\<close>

definition must :: "call \<Rightarrow> (io_error \<Rightarrow> 'a proc) \<Rightarrow> 'a proc \<Rightarrow> 'a proc" where
  "must c bad k = Sys c (\<lambda>a. case a of Refused e \<Rightarrow> bad e | _ \<Rightarrow> k)"

subsection \<open>What a system call does\<close>

text \<open>
  Opening a new file, and writing to a file that is open: a file whose name was removed meanwhile
  is written without effect on the tree.
\<close>

definition Create :: "fs_world \<Rightarrow> path \<Rightarrow> (io_error + unit) fsm" where
  "Create W p = sys W sound_failure (\<lambda>_ f.
     if f p \<noteq> None then Inl Exist else if \<not> is_dir f (butlast p) then Inl NotExist else Inr ((), f(p \<mapsto> NFile [])))"

definition write_open :: "path \<Rightarrow> string \<Rightarrow> fs \<Rightarrow> fs" where
  "write_open p content f = (case f p of Some (NFile _) \<Rightarrow> f(p \<mapsto> NFile content) | _ \<Rightarrow> f)"

definition WriteOpen :: "fs_world \<Rightarrow> path \<Rightarrow> string \<Rightarrow> (io_error + unit) fsm" where
  "WriteOpen W p content = sys W
     (\<lambda>n f. case fw_left W n of None \<Rightarrow> f | Some part \<Rightarrow> write_open p part f)
     (\<lambda>_ f. Inr ((), write_open p content f))"

definition FileOp :: "fs_world \<Rightarrow> (io_error + unit) fsm" where
  "FileOp W = sys W sound_failure (\<lambda>_ f. Inr ((), f))"

definition Remove_file :: "fs_world \<Rightarrow> path \<Rightarrow> (io_error + unit) fsm" where
  "Remove_file W p = sys W sound_failure (\<lambda>_ f. case f p of
     None \<Rightarrow> Inl NotExist | Some NDir \<Rightarrow> Inl Failed | Some _ \<Rightarrow> Inr ((), f(p := None)))"

definition ReadDir :: "fs_world \<Rightarrow> path \<Rightarrow> (io_error + (string \<times> bool) list) fsm" where
  "ReadDir W p = sys W sound_failure (\<lambda>_ f.
     if f p = None then Inl NotExist
     else if f p \<noteq> Some NDir then Inl Failed
     else Inr (map (\<lambda>q. (hd q, f (p @ q) = Some NDir)) (filter (\<lambda>q. length q = 1) (fw_walk W f p)), f))"

definition answered :: "('a \<Rightarrow> answer) \<Rightarrow> (io_error + 'a) \<times> (nat \<times> fs) \<Rightarrow> answer \<times> (nat \<times> fs)" where
  "answered h r = (case r of (Inl e, s) \<Rightarrow> (Refused e, s) | (Inr x, s) \<Rightarrow> (h x, s))"

fun perform :: "fs_world \<Rightarrow> call \<Rightarrow> nat \<times> fs \<Rightarrow> answer \<times> (nat \<times> fs)" where
  "perform W (CLstat p) s = answered Node (run_state (Lstat W p) s)"
| "perform W (CMkdir p) s = answered (\<lambda>_. Completed) (run_state (Mkdir W p) s)"
| "perform W (CMkdirAll p) s = answered (\<lambda>_. Completed) (run_state (MkdirAll W p) s)"
| "perform W (CReadDir p) s = answered Listing (run_state (ReadDir W p) s)"
| "perform W (CReadFile p) s = answered Data (run_state (ReadFile W p) s)"
| "perform W (CCreate p) s = answered (\<lambda>_. Completed) (run_state (Create W p) s)"
| "perform W (CWrite p d) s = answered (\<lambda>_. Completed) (run_state (WriteOpen W p d) s)"
| "perform W (CSync p) s = answered (\<lambda>_. Completed) (run_state (FileOp W) s)"
| "perform W (CClose p) s = answered (\<lambda>_. Completed) (run_state (FileOp W) s)"
| "perform W (CRename a b) s = answered (\<lambda>_. Completed) (run_state (Rename W a b) s)"
| "perform W (CRemove p) s = answered (\<lambda>_. Completed) (run_state (Remove_file W p) s)"
| "perform W (CRemoveAll p) s = answered (\<lambda>_. Completed) (run_state (RemoveAll W p) s)"

subsection \<open>The protocol\<close>

definition DirStaging :: string where "DirStaging = ''staging''"
definition DirPending :: string where "DirPending = ''pending''"
definition DirClaimed :: string where "DirClaimed = ''claimed''"
definition DirWithdrawn :: string where "DirWithdrawn = ''withdrawn''"
definition JobFile :: string where "JobFile = ''job.json''"
definition ResultFile :: string where "ResultFile = ''result.json''"
definition ExecutionFile :: string where "ExecutionFile = ''execution''"
definition MaxExecutionNameLength :: nat where "MaxExecutionNameLength = 64"

definition RunDirName :: "string \<Rightarrow> string" where
  "RunDirName runID = ''run-'' @ runID"

definition ValidRunID :: "string \<Rightarrow> bool" where
  "ValidRunID s \<longleftrightarrow> length s = 26 \<and> list_all (\<lambda>c. is_digit c \<or> is_upper c) s"

definition execution_end :: "char \<Rightarrow> bool" where
  "execution_end c \<longleftrightarrow> is_lower c \<or> is_digit c"

definition ValidExecutionName :: "string \<Rightarrow> bool" where
  "ValidExecutionName s \<longleftrightarrow>
     length s \<le> MaxExecutionNameLength \<and> s \<noteq> [] \<and> execution_end (hd s) \<and> execution_end (last s) \<and>
     list_all (\<lambda>c. execution_end c \<or> c = CHR ''-'') s \<and> length s \<le> 64"

datatype exchange_error = InvalidRunID | ErrExists | InvalidExecution | ExchangeIO io_error

definition writeFile :: "path \<Rightarrow> string \<Rightarrow> (io_error + unit) proc" where
  "writeFile p content =
     (let tmp = butlast p @ [last p @ ''.tmp'']; undo = (\<lambda>e. Sys (CRemove tmp) (\<lambda>_. Ret (Inl e))) in
      must (CCreate tmp) (\<lambda>e. Ret (Inl e))
     (must (CWrite tmp content) (\<lambda>e. Sys (CClose tmp) (\<lambda>_. undo e))
     (must (CSync tmp) (\<lambda>e. Sys (CClose tmp) (\<lambda>_. undo e))
     (must (CClose tmp) undo
     (must (CRename tmp p) undo (Ret (Inr ())))))))"

fun make_dirs :: "path \<Rightarrow> string list \<Rightarrow> (exchange_error + unit) proc \<Rightarrow> (exchange_error + unit) proc" where
  "make_dirs root [] k = k"
| "make_dirs root (d # ds) k = must (CMkdirAll (root @ [d])) (\<lambda>e. Ret (Inl (ExchangeIO e))) (make_dirs root ds k)"

fun unless_present :: "path list \<Rightarrow> (exchange_error + unit) proc \<Rightarrow> (exchange_error + unit) proc" where
  "unless_present [] k = k"
| "unless_present (p # ps) k = Sys (CLstat p) (\<lambda>a. case a of Refused _ \<Rightarrow> unless_present ps k | _ \<Rightarrow> Ret (Inl ErrExists))"

definition Publish :: "path \<Rightarrow> string \<Rightarrow> string \<Rightarrow> (exchange_error + unit) proc" where
  "Publish root runID job =
     (if \<not> ValidRunID runID then Ret (Inl InvalidRunID)
      else
        let name = RunDirName runID; staging = root @ [DirStaging, name];
            drop_it = (\<lambda>e. Sys (CRemoveAll staging) (\<lambda>_. Ret (Inl (ExchangeIO e)))) in
        make_dirs root [DirStaging, DirPending, DirClaimed, DirWithdrawn]
       (unless_present (map (\<lambda>d. root @ [d, name]) [DirPending, DirClaimed])
       (must (CMkdir staging) (\<lambda>e. Ret (Inl (if e = Exist then ErrExists else ExchangeIO e)))
       (then_do (writeFile (staging @ [JobFile]) job) (\<lambda>r. case r of
          Inl e \<Rightarrow> drop_it e
        | Inr _ \<Rightarrow> must (CRename staging (root @ [DirPending, name])) drop_it (Ret (Inr ())))))))"

datatype run_place = StateAbsent | StatePending | StateClaimed

fun look_for :: "path \<Rightarrow> string \<Rightarrow> (string \<times> run_place) list \<Rightarrow> (exchange_error + run_place) proc" where
  "look_for root name [] = Ret (Inr StateAbsent)"
| "look_for root name ((d, st) # rest) = Sys (CLstat (root @ [d, name])) (\<lambda>a. case a of
     Refused e \<Rightarrow> if e \<noteq> NotExist then Ret (Inl (ExchangeIO e)) else look_for root name rest
   | _ \<Rightarrow> Ret (Inr st))"

definition StateOf :: "path \<Rightarrow> string \<Rightarrow> (exchange_error + run_place) proc" where
  "StateOf root runID = look_for root (RunDirName runID) [(DirPending, StatePending), (DirClaimed, StateClaimed)]"

definition Withdraw :: "path \<Rightarrow> string \<Rightarrow> (bool \<times> exchange_error option) proc" where
  "Withdraw root runID =
     (let name = RunDirName runID; dst = root @ [DirWithdrawn, name] in
      must (CRename (root @ [DirPending, name]) dst)
        (\<lambda>e. if e = NotExist then Ret (False, None) else Ret (False, Some (ExchangeIO e)))
     (must (CRemoveAll dst) (\<lambda>e. Ret (True, Some (ExchangeIO e))) (Ret (True, None))))"

definition ClaimedDir :: "path \<Rightarrow> string \<Rightarrow> path" where
  "ClaimedDir root runID = root @ [DirClaimed, RunDirName runID]"

definition Remove :: "path \<Rightarrow> string \<Rightarrow> (exchange_error + unit) proc" where
  "Remove root runID = must (CRemoveAll (ClaimedDir root runID)) (\<lambda>e. Ret (Inl (ExchangeIO e))) (Ret (Inr ()))"

record claim =
  cl_RunID :: string
  cl_Dir :: path
  cl_JobPath :: path
  cl_ResultPath :: path

definition claim_of :: "path \<Rightarrow> string \<Rightarrow> claim" where
  "claim_of root name =
     (let dst = root @ [DirClaimed, name] in
      \<lparr>cl_RunID = drop 4 name, cl_Dir = dst, cl_JobPath = dst @ [JobFile], cl_ResultPath = dst @ [ResultFile]\<rparr>)"

definition job_entry :: "string \<times> bool \<Rightarrow> bool" where
  "job_entry e \<longleftrightarrow> prefix ''run-'' (fst e) \<and> snd e \<and> ValidRunID (drop 4 (fst e))"

fun take_first :: "path \<Rightarrow> string list \<Rightarrow> (exchange_error + claim option) proc" where
  "take_first root [] = Ret (Inr None)"
| "take_first root (name # names) =
     must (CRename (root @ [DirPending, name]) (root @ [DirClaimed, name]))
       (\<lambda>e. if e = NotExist then take_first root names else Ret (Inl (ExchangeIO e)))
       (Ret (Inr (Some (claim_of root name))))"

definition Take :: "path \<Rightarrow> (exchange_error + claim option) proc" where
  "Take root = Sys (CReadDir (root @ [DirPending])) (\<lambda>a. case a of
     Refused e \<Rightarrow> Ret (if e = NotExist then Inr None else Inl (ExchangeIO e))
   | Listing es \<Rightarrow>
       must (CMkdirAll (root @ [DirClaimed])) (\<lambda>e. Ret (Inl (ExchangeIO e)))
         (take_first root (sort (map fst (filter job_entry es))))
   | _ \<Rightarrow> Ret (Inl (ExchangeIO Failed)))"

definition MarkExecution :: "claim \<Rightarrow> string \<Rightarrow> (exchange_error + unit) proc" where
  "MarkExecution c name =
     (if \<not> ValidExecutionName name then Ret (Inl InvalidExecution)
      else then_do (writeFile (cl_Dir c @ [ExecutionFile]) (name @ [CHR 0x0A]))
             (\<lambda>r. Ret (case r of Inl e \<Rightarrow> Inl (ExchangeIO e) | Inr u \<Rightarrow> Inr u)))"

definition ReadExecution :: "path \<Rightarrow> string \<Rightarrow> (exchange_error + string) proc" where
  "ReadExecution root runID = Sys (CReadFile (ClaimedDir root runID @ [ExecutionFile])) (\<lambda>a. case a of
     Refused e \<Rightarrow> Ret (Inl (ExchangeIO e))
   | Data d \<Rightarrow> (let name = TrimSpace d in Ret (if ValidExecutionName name then Inr name else Inl InvalidExecution))
   | _ \<Rightarrow> Ret (Inl (ExchangeIO Failed)))"

subsection \<open>The Runner's side\<close>

datatype claim_error = NoExchangeDir | NoIdentitySource | TakeFailed exchange_error | TakenError string "exchange_error option"

text \<open>
  \<^verbatim>\<open>Acquire\<close> with the identity the platform gives: \<open>None\<close> when no source of it is configured, an error
  when the platform did not provide one.
\<close>

definition Acquire :: "path option \<Rightarrow> (unit + string) option \<Rightarrow> (claim_error + (path \<times> path) option) proc" where
  "Acquire root identity =
     (case (root, identity) of
        (None, _) \<Rightarrow> Ret (Inl NoExchangeDir)
      | (_, None) \<Rightarrow> Ret (Inl NoIdentitySource)
      | (Some root, Some ident) \<Rightarrow>
          then_do (Take root) (\<lambda>r. case r of
            Inl e \<Rightarrow> Ret (Inl (TakeFailed e))
          | Inr None \<Rightarrow> Ret (Inr None)
          | Inr (Some c) \<Rightarrow>
              (case ident of
                 Inl _ \<Rightarrow> Ret (Inl (TakenError (cl_RunID c) None))
               | Inr name \<Rightarrow>
                   then_do (MarkExecution c name) (\<lambda>m. Ret (case m of
                     Inl e \<Rightarrow> Inl (TakenError (cl_RunID c) (Some e))
                   | Inr _ \<Rightarrow> Inr (Some (cl_JobPath c, cl_ResultPath c)))))))"

subsection \<open>Several processes on one directory\<close>

record 'a shared =
  sh_state :: "nat \<times> fs"
  sh_procs :: "'a proc list"
  sh_log :: "(nat \<times> call \<times> answer) list"

definition turn :: "fs_world \<Rightarrow> nat \<Rightarrow> 'a shared \<Rightarrow> 'a shared" where
  "turn W i s =
     (if i < length (sh_procs s)
      then (case sh_procs s ! i of
              Ret _ \<Rightarrow> s
            | Sys c k \<Rightarrow>
                (case perform W c (sh_state s) of
                   (a, st) \<Rightarrow> \<lparr>sh_state = st, sh_procs = (sh_procs s)[i := k a], sh_log = sh_log s @ [(i, c, a)]\<rparr>))
      else s)"

definition interleave :: "fs_world \<Rightarrow> nat list \<Rightarrow> 'a shared \<Rightarrow> 'a shared" where
  "interleave W schedule s = foldl (\<lambda>s i. turn W i s) s schedule"

end
