(* ===== verification/ExchangeProps.thy ===== *)
theory ExchangeProps
  imports Exchange
begin

text \<open>
  One job, one taker. Whatever processes share the exchange directory, in whatever order their
  system calls happen and whichever of them fail or never run again, a run is taken by a Runner or
  withdrawn by the Conductor at most as often as it was offered. The locale \<open>exchange_parties\<close> holds the
  argument for any set of programs that keep to the protocol; it is interpreted on the procedures of
  the package.
\<close>

subsection \<open>Calls that keep to the protocol\<close>

definition in_run_dir :: "path \<Rightarrow> path \<Rightarrow> bool" where
  "in_run_dir root p \<longleftrightarrow> (\<exists>d \<in> {DirStaging, DirClaimed}. \<exists>name q. q \<noteq> [] \<and> p = root @ [d, name] @ q)"

fun lawful :: "path \<Rightarrow> call \<Rightarrow> bool" where
  "lawful root (CRename a b) \<longleftrightarrow>
     in_run_dir root a \<and> in_run_dir root b \<or>
     (\<exists>name. a = root @ [DirStaging, name] \<and> b = root @ [DirPending, name]) \<or>
     (\<exists>name. \<exists>d \<in> {DirClaimed, DirWithdrawn}. a = root @ [DirPending, name] \<and> b = root @ [d, name])"
| "lawful root (CMkdir p) \<longleftrightarrow> (\<exists>name. p = root @ [DirStaging, name])"
| "lawful root (CMkdirAll p) \<longleftrightarrow> (\<exists>d. p = root @ [d])"
| "lawful root (CCreate p) \<longleftrightarrow> in_run_dir root p"
| "lawful root (CWrite p d) \<longleftrightarrow> in_run_dir root p"
| "lawful root (CRemove p) \<longleftrightarrow> in_run_dir root p"
| "lawful root (CRemoveAll p) \<longleftrightarrow> (\<exists>name. \<exists>d \<in> {DirStaging, DirClaimed, DirWithdrawn}. p = root @ [d, name])"
| "lawful root _ \<longleftrightarrow> True"

definition pending :: "path \<Rightarrow> string \<Rightarrow> fs \<Rightarrow> bool" where
  "pending root name f \<longleftrightarrow> f (root @ [DirPending, name]) \<noteq> None"

definition offers :: "path \<Rightarrow> string \<Rightarrow> call \<times> answer \<Rightarrow> bool" where
  "offers root name e \<longleftrightarrow> e = (CRename (root @ [DirStaging, name]) (root @ [DirPending, name]), Completed)"

definition ends_offer :: "path \<Rightarrow> string \<Rightarrow> call \<times> answer \<Rightarrow> bool" where
  "ends_offer root name e \<longleftrightarrow> (\<exists>d \<in> {DirClaimed, DirWithdrawn}. e = (CRename (root @ [DirPending, name]) (root @ [d, name]), Completed))"

lemma offers_pair: "offers root name (c, a) \<longleftrightarrow> c = CRename (root @ [DirStaging, name]) (root @ [DirPending, name]) \<and> a = Completed"
  by (simp add: offers_def)

lemma ends_offer_pair:
  "ends_offer root name (c, a) \<longleftrightarrow> (\<exists>d \<in> {DirClaimed, DirWithdrawn}. c = CRename (root @ [DirPending, name]) (root @ [d, name])) \<and> a = Completed"
  by (auto simp: ends_offer_def)

lemmas exchange_dirs = DirStaging_def DirPending_def DirClaimed_def DirWithdrawn_def

lemma in_run_dir_apart: "in_run_dir root p \<Longrightarrow> \<not> below p (root @ [DirPending, name]) \<and> p \<noteq> root @ [DirPending, name]"
  by (auto simp: in_run_dir_def below_def exchange_dirs)

lemma perform_offer:
  assumes "lawful root c" "perform W c (n, f) = (a, (n', f'))"
  shows "of_bool (pending root name f') + of_bool (ends_offer root name (c, a)) \<le> of_bool (pending root name f) + (of_bool (offers root name (c, a)) :: nat)"
proof (cases c)
  case (CRename p q)
  show ?thesis
  proof (cases "a = Completed")
    case False
    then show ?thesis using assms CRename
      by (auto simp: answered_def Rename_def sys_def offers_def ends_offer_def split: sum.splits option.splits if_splits)
  next
    case True
    then have f': "f' = move_tree p q f" "f p \<noteq> None"
      using assms(2) CRename by (auto simp: answered_def Rename_def sys_def split: sum.splits option.splits if_splits)
    from assms(1) CRename consider
        "in_run_dir root p" "in_run_dir root q"
      | nm where "p = root @ [DirStaging, nm]" "q = root @ [DirPending, nm]"
      | nm d where "d \<in> {DirClaimed, DirWithdrawn}" "p = root @ [DirPending, nm]" "q = root @ [d, nm]" by auto
    then show ?thesis
    proof cases
      case 1
      then show ?thesis using in_run_dir_apart[of root p name] in_run_dir_apart[of root q name] f' CRename
        by (auto simp: pending_def offers_def ends_offer_def move_tree_def)
    next
      case 2
      then show ?thesis using f' True CRename
        by (cases "nm = name") (auto simp: pending_def offers_def ends_offer_def move_tree_def below_def exchange_dirs)
    next
      case 3
      then show ?thesis using f' True CRename
        by (cases "nm = name") (auto simp: pending_def offers_def ends_offer_def move_tree_def below_def exchange_dirs)
    qed
  qed
next
  case (CMkdirAll p)
  have "\<not> prefix (root @ [DirPending, name]) (root @ [d])" for d by (auto dest: prefix_length_le)
  then show ?thesis using assms CMkdirAll
    by (auto simp: answered_def MkdirAll_def sys_def pending_def offers_def ends_offer_def mkdir_all_def
        split: prod.splits sum.splits option.splits if_splits)
qed (use assms in \<open>auto simp: answered_def Lstat_def Mkdir_def ReadDir_def ReadFile_def Create_def WriteOpen_def write_open_def FileOp_def
      Remove_file_def RemoveAll_def remove_tree_def below_def sys_def pending_def offers_def ends_offer_def exchange_dirs
      dest!: in_run_dir_apart[of root _ name] split: prod.splits sum.splits option.splits if_splits node.splits\<close>)

subsection \<open>Programs and what they log\<close>

primrec lawful_proc :: "path \<Rightarrow> 'a proc \<Rightarrow> bool" where
  "lawful_proc root (Ret r) \<longleftrightarrow> True"
| "lawful_proc root (Sys c k) \<longleftrightarrow> lawful root c \<and> (\<forall>a. lawful_proc root (k a))"

definition fits :: "call \<Rightarrow> answer \<Rightarrow> bool" where
  "fits c a \<longleftrightarrow> (\<forall>p q. c = CRename p q \<longrightarrow> a = Completed \<or> (\<exists>e. a = Refused e))"

lemma perform_fits: "perform W c s = (a, s') \<Longrightarrow> fits c a"
  by (auto simp: fits_def answered_def split: prod.splits sum.splits)

text \<open>\<open>keeps B P q l\<close>: after the calls \<open>l\<close>, whatever answers \<open>q\<close> gets, \<open>B\<close> holds of its calls at every moment and \<open>P\<close> of its result.\<close>

primrec keeps :: "((call \<times> answer) list \<Rightarrow> bool) \<Rightarrow> ((call \<times> answer) list \<Rightarrow> 'a \<Rightarrow> bool) \<Rightarrow> 'a proc \<Rightarrow> (call \<times> answer) list \<Rightarrow> bool" where
  "keeps B P (Ret r) l \<longleftrightarrow> B l \<and> P l r"
| "keeps B P (Sys c k) l \<longleftrightarrow> B l \<and> (\<forall>a. fits c a \<longrightarrow> keeps B P (k a) (l @ [(c, a)]))"

lemma keeps_now: "keeps B P q l \<Longrightarrow> B l"
  by (cases q) auto

definition own :: "nat \<Rightarrow> (nat \<times> call \<times> answer) list \<Rightarrow> (call \<times> answer) list" where
  "own i log = map snd (filter (\<lambda>e. fst e = i) log)"

lemma own_step [simp]: "own i (log @ [(j, e)]) = (if i = j then own i log @ [e] else own i log)"
  by (simp add: own_def)

definition number :: "('a \<Rightarrow> bool) \<Rightarrow> 'a list \<Rightarrow> nat" where
  "number P xs = length (filter P xs)"

lemma number_simps [simp]: "number P [] = 0" "number P (x # xs) = of_bool (P x) + number P xs" "number P (xs @ ys) = number P xs + number P ys"
  by (simp_all add: number_def)

lemma number_pos: "0 < number P xs \<longleftrightarrow> (\<exists>x \<in> set xs. P x)"
  by (auto simp: number_def filter_empty_conv)

lemma number_own: "(\<Sum>i<m. number Q (own i log)) \<le> number (\<lambda>e. Q (snd e)) log"
proof (induction log rule: rev_induct)
  case (snoc e log)
  obtain j x where e: "e = (j, x)" by (cases e)
  have "(\<Sum>i<m. number Q (own i (log @ [e]))) = (\<Sum>i<m. number Q (own i log) + (if i = j then of_bool (Q x) else 0))"
    unfolding e by (intro sum.cong) auto
  also have "\<dots> = (\<Sum>i<m. number Q (own i log)) + (if j < m then of_bool (Q x) else 0)" by (simp add: sum.distrib)
  also have "\<dots> \<le> number (\<lambda>e. Q (snd e)) (log @ [e])" using snoc e by auto
  finally show ?case .
qed (simp add: own_def)

lemma number_own_all:
  "\<forall>e \<in> set log. fst e < m \<Longrightarrow> number (\<lambda>e. Q (snd e)) log = (\<Sum>i<m. number Q (own i log))"
proof (induction log rule: rev_induct)
  case (snoc e log)
  obtain j x where e: "e = (j, x)" by (cases e)
  have "(\<Sum>i<m. number Q (own i (log @ [e]))) = (\<Sum>i<m. number Q (own i log) + (if i = j then of_bool (Q x) else 0))"
    unfolding e by (intro sum.cong) auto
  also have "\<dots> = (\<Sum>i<m. number Q (own i log)) + (if j < m then of_bool (Q x) else 0)" by (simp add: sum.distrib)
  finally show ?case using snoc e by auto
qed (simp add: own_def)

lemma number_zip: "length xs = length ys \<Longrightarrow> (\<And>x y. P x y \<Longrightarrow> Q x) \<Longrightarrow> number (\<lambda>(x, y). P x y) (zip xs ys) \<le> number Q xs"
  by (induction xs ys rule: list_induct2) (auto intro: add_mono)

lemma number_zip_strict:
  assumes "length xs = length ys" "\<And>x y. P x y \<Longrightarrow> Q x" "i < length xs" "Q (xs ! i)" "\<not> P (xs ! i) (ys ! i)"
  shows "number (\<lambda>(x, y). P x y) (zip xs ys) < number Q xs"
  using assms
proof (induction xs ys arbitrary: i rule: list_induct2)
  case (Cons x xs y ys)
  have le: "number (\<lambda>(x, y). P x y) (zip xs ys) \<le> number Q xs" by (rule number_zip[OF Cons.hyps(1)]) (rule Cons.prems(1))
  show ?case
  proof (cases i)
    case 0
    then show ?thesis using le Cons.prems by auto
  next
    case (Suc j)
    then have "number (\<lambda>(x, y). P x y) (zip xs ys) < number Q xs" using Cons.IH[of j] Cons.prems by auto
    then show ?thesis using Cons.prems(1)[of x y] by auto
  qed
qed simp

subsection \<open>Any processes that keep to the protocol\<close>

definition started :: "('p \<Rightarrow> 'o proc) \<Rightarrow> nat \<times> fs \<Rightarrow> 'p list \<Rightarrow> 'o shared" where
  "started program st ps = \<lparr>sh_state = st, sh_procs = map program ps, sh_log = []\<rparr>"

fun ended :: "('o \<Rightarrow> bool) \<Rightarrow> 'o proc \<Rightarrow> bool" where
  "ended P (Ret r) \<longleftrightarrow> P r"
| "ended P (Sys c k) \<longleftrightarrow> False"

locale exchange_parties =
  fixes root :: path
    and program :: "'p \<Rightarrow> 'o proc"
    and publishes :: "'p \<Rightarrow> string \<Rightarrow> bool"
    and refused :: "'o \<Rightarrow> bool"
    and took :: "string \<Rightarrow> 'o \<Rightarrow> bool"
  assumes to_the_rules: "lawful_proc root (program p)"
    and accounts: "keeps (\<lambda>l. number (offers root name) l \<le> of_bool (publishes p name))
      (\<lambda>l r. (took name r \<longrightarrow> 0 < number (ends_offer root name) l) \<and> (refused r \<longrightarrow> number (offers root name) l = 0)) (program p) []"
begin

definition may_offer :: "'p \<Rightarrow> string \<Rightarrow> 'o proc \<Rightarrow> bool" where
  "may_offer p name q \<longleftrightarrow> publishes p name \<and> \<not> ended refused q"

definition consistent :: "'p list \<Rightarrow> string \<Rightarrow> fs \<Rightarrow> 'o shared \<Rightarrow> bool" where
  "consistent ps name f0 s \<longleftrightarrow>
     length (sh_procs s) = length ps \<and> (\<forall>e \<in> set (sh_log s). fst e < length ps) \<and>
     (\<forall>i < length ps. lawful_proc root (sh_procs s ! i) \<and>
        keeps (\<lambda>l. number (offers root name) l \<le> of_bool (publishes (ps ! i) name))
          (\<lambda>l r. (took name r \<longrightarrow> 0 < number (ends_offer root name) l) \<and> (refused r \<longrightarrow> number (offers root name) l = 0))
          (sh_procs s ! i) (own i (sh_log s))) \<and>
     of_bool (pending root name (snd (sh_state s))) + number (\<lambda>e. ends_offer root name (snd e)) (sh_log s)
       \<le> of_bool (pending root name f0) + number (\<lambda>e. offers root name (snd e)) (sh_log s)"

lemma consistent_started: "consistent ps name f (started program (n, f) ps)"
  using to_the_rules accounts by (simp add: consistent_def started_def own_def)

lemma consistent_turn:
  assumes "consistent ps name f0 s"
  shows "consistent ps name f0 (turn W i s)"
proof (cases "i < length ps")
  case True
  show ?thesis
  proof (cases "sh_procs s ! i")
    case (Ret r)
    then show ?thesis using assms True by (simp add: turn_def consistent_def)
  next
    case (Sys c k)
    obtain n f where st: "sh_state s = (n, f)" by (cases "sh_state s")
    obtain a n' f' where p: "perform W c (n, f) = (a, (n', f'))" by (metis prod_cases3)
    have "lawful root c" using assms True Sys by (auto simp: consistent_def)
    from perform_offer[OF this p, of name] show ?thesis
      using assms True Sys st p perform_fits[OF p] by (auto simp: turn_def consistent_def nth_list_update)
  qed
qed (use assms in \<open>auto simp: turn_def consistent_def\<close>)

lemma consistent_interleave: "consistent ps name f0 s \<Longrightarrow> consistent ps name f0 (interleave W schedule s)"
  unfolding interleave_def by (induction schedule arbitrary: s) (auto simp: consistent_turn)

lemma number_index: "length xs = m \<Longrightarrow> number P xs = (\<Sum>i<m. of_bool (P (xs ! i)))"
  by (auto simp: number_def length_filter_conv_card Int_def intro!: arg_cong[where f = card])

theorem takers_bounded:
  assumes "s = interleave W schedule (started program (n, f) ps)"
  shows "number (ended (took name)) (sh_procs s) + of_bool (pending root name (snd (sh_state s)))
     \<le> of_bool (pending root name f) + number (\<lambda>(p, q). may_offer p name q) (zip ps (sh_procs s))"
proof -
  have c: "consistent ps name f s" unfolding assms by (rule consistent_interleave[OF consistent_started])
  let ?l = "\<lambda>i. own i (sh_log s)" and ?q = "\<lambda>i. sh_procs s ! i"
  have len: "length (sh_procs s) = length ps" using c by (simp add: consistent_def)
  have k: "keeps (\<lambda>l. number (offers root name) l \<le> of_bool (publishes (ps ! i) name))
      (\<lambda>l r. (took name r \<longrightarrow> 0 < number (ends_offer root name) l) \<and> (refused r \<longrightarrow> number (offers root name) l = 0)) (?q i) (?l i)"
    if "i < length ps" for i using c that by (simp add: consistent_def)
  have "number (ended (took name)) (sh_procs s) = (\<Sum>i<length ps. of_bool (ended (took name) (?q i)))"
    by (rule number_index[OF len])
  also have "\<dots> \<le> (\<Sum>i<length ps. number (ends_offer root name) (?l i))"
  proof (rule sum_mono)
    fix i assume "i \<in> {..<length ps}"
    then show "of_bool (ended (took name) (?q i)) \<le> number (ends_offer root name) (?l i)"
      using k[of i] by (cases "?q i") auto
  qed
  also have "\<dots> \<le> number (\<lambda>e. ends_offer root name (snd e)) (sh_log s)" by (rule number_own)
  finally have takers: "number (ended (took name)) (sh_procs s) \<le> number (\<lambda>e. ends_offer root name (snd e)) (sh_log s)" .
  have "number (\<lambda>e. offers root name (snd e)) (sh_log s) = (\<Sum>i<length ps. number (offers root name) (?l i))"
    by (rule number_own_all) (use c in \<open>simp add: consistent_def\<close>)
  also have "\<dots> \<le> (\<Sum>i<length ps. of_bool (may_offer (ps ! i) name (?q i)))"
  proof (rule sum_mono)
    fix i assume "i \<in> {..<length ps}"
    then show "number (offers root name) (?l i) \<le> of_bool (may_offer (ps ! i) name (?q i))"
      using k[of i] keeps_now[OF k, of i] by (cases "?q i") (auto simp: may_offer_def)
  qed
  also have "\<dots> = number (\<lambda>(p, q). may_offer p name q) (zip ps (sh_procs s))"
    using number_index[of "zip ps (sh_procs s)" "length ps" "\<lambda>(p, q). may_offer p name q"] len by simp
  finally show ?thesis using takers c by (simp add: consistent_def)
qed

end

subsection \<open>The procedures keep to the protocol\<close>

lemma lawful_then [simp]: "lawful_proc root (then_do p h) \<longleftrightarrow> lawful_proc root p \<and> (\<forall>r \<in> set_proc p. lawful_proc root (h r))"
  by (induction p) auto

lemma keeps_then: "keeps B P (then_do p h) l \<longleftrightarrow> keeps B (\<lambda>l r. keeps B P (h r) l) p l"
  by (induction p arbitrary: l) (auto dest: keeps_now)

lemma keeps_mono: "keeps B P p l \<Longrightarrow> (\<And>l r. B l \<Longrightarrow> P l r \<Longrightarrow> Q l r) \<Longrightarrow> keeps B Q p l"
  by (induction p arbitrary: l) auto

lemma all_answers: "(\<forall>a. Q a) \<longleftrightarrow> (\<forall>e. Q (Refused e)) \<and> (\<forall>a. (\<forall>e. a \<noteq> Refused e) \<longrightarrow> Q a)"
  by metis

lemma accepted_answer: "(\<forall>e. a \<noteq> Refused e) \<Longrightarrow> (case a of Refused e \<Rightarrow> bad e | _ \<Rightarrow> k) = k"
  by (cases a) auto

lemma lawful_must [simp]: "lawful_proc root (must c bad k) \<longleftrightarrow> lawful root c \<and> (\<forall>e. lawful_proc root (bad e)) \<and> lawful_proc root k"
  by (auto simp: must_def split: answer.splits)

lemma keeps_must: "keeps B P (must c bad k) l \<longleftrightarrow>
    B l \<and> (\<forall>e. keeps B P (bad e) (l @ [(c, Refused e)])) \<and> (\<forall>a. (\<forall>e. a \<noteq> Refused e) \<longrightarrow> fits c a \<longrightarrow> keeps B P k (l @ [(c, a)]))"
  unfolding must_def keeps.simps by (subst all_answers) (simp add: accepted_answer fits_def)

lemma set_must [simp]: "r \<in> set_proc (must c bad k) \<longleftrightarrow> (\<exists>e. r \<in> set_proc (bad e)) \<or> r \<in> set_proc k"
proof -
  have "(\<exists>a. r \<in> set_proc (case a of Refused e \<Rightarrow> bad e | _ \<Rightarrow> k)) \<longleftrightarrow> (\<exists>e. r \<in> set_proc (bad e)) \<or> r \<in> set_proc k" (is "?L \<longleftrightarrow> ?R")
  proof
    assume ?L
    then obtain a where "r \<in> set_proc (case a of Refused e \<Rightarrow> bad e | _ \<Rightarrow> k)" by blast
    then show ?R by (cases a) auto
  next
    assume ?R
    then show ?L by (metis answer.case(1) answer.case(2))
  qed
  then show ?thesis by (simp add: must_def)
qed

lemma keeps_results: "keeps B P p l \<Longrightarrow> keeps B (\<lambda>l r. P l r \<and> r \<in> set_proc p) p l"
proof (induction p arbitrary: l)
  case (Sys c k)
  then have "keeps B (\<lambda>l r. P l r \<and> r \<in> set_proc (k a)) (k a) (l @ [(c, a)])" if "fits c a" for a using that by auto
  then have "keeps B (\<lambda>l r. P l r \<and> (\<exists>x. r \<in> set_proc (k x))) (k a) (l @ [(c, a)])" if "fits c a" for a
    by (rule keeps_mono[OF _ conj_forward]) (use that in auto)
  then show ?case using Sys.prems by auto
qed simp

text \<open>Writing a file neither offers nor ends an offer.\<close>

lemma lawful_writeFile: "in_run_dir root p \<Longrightarrow> lawful_proc root (writeFile p d)"
  by (auto simp: writeFile_def in_run_dir_def butlast_append Let_def)

definition moves_no_run :: "path \<Rightarrow> string \<Rightarrow> (call \<times> answer) list \<Rightarrow> (call \<times> answer) list \<Rightarrow> bool" where
  "moves_no_run root name l l' \<longleftrightarrow>
     number (offers root name) l' = number (offers root name) l \<and> number (ends_offer root name) l' = number (ends_offer root name) l"

lemma moves_no_run_refl [simp]: "moves_no_run root name l l"
  by (simp add: moves_no_run_def)

lemma moves_no_run_step: "moves_no_run root name (l @ [(c, a)]) l' \<Longrightarrow> (\<forall>p q. c \<noteq> CRename p q) \<or> a \<noteq> Completed \<or> (\<exists>p q. c = CRename p q \<and> in_run_dir root p)
   \<Longrightarrow> moves_no_run root name l l'"
  by (auto simp: moves_no_run_def offers_pair ends_offer_pair in_run_dir_def)

lemma keeps_writeFile:
  assumes "in_run_dir root p" "\<And>l'. moves_no_run root name l l' \<Longrightarrow> B l'" "\<And>l' r. moves_no_run root name l l' \<Longrightarrow> P l' r"
  shows "keeps B P (writeFile p d) l"
  using assms by (auto simp: writeFile_def keeps_must Let_def moves_no_run_def offers_pair ends_offer_pair in_run_dir_def)

lemma keeps_make_dirs:
  assumes "\<And>l'. moves_no_run root name l l' \<Longrightarrow> B l' \<and> (\<forall>e. P l' (Inl e)) \<and> keeps B P k l'"
  shows "keeps B P (make_dirs root ds k) l"
  using assms
proof (induction ds arbitrary: l)
  case (Cons d ds)
  have step: "moves_no_run root name l l'" if "moves_no_run root name (l @ [(CMkdirAll (root @ [d]), a)]) l'" for a l'
    by (rule moves_no_run_step[OF that]) simp
  show ?case using Cons.prems Cons.IH[OF Cons.prems] step[OF moves_no_run_refl] step by (auto simp: keeps_must)
qed (use assms in simp)

lemma keeps_unless_present:
  assumes "\<And>l'. moves_no_run root name l l' \<Longrightarrow> B l' \<and> (\<forall>e. P l' (Inl e)) \<and> keeps B P k l'"
  shows "keeps B P (unless_present ps k) l"
  using assms
proof (induction ps arbitrary: l)
  case (Cons p ps)
  have step: "moves_no_run root name l l'" if "moves_no_run root name (l @ [(CLstat p, a)]) l'" for a l'
    by (rule moves_no_run_step[OF that]) simp
  show ?case using Cons.prems Cons.IH[OF Cons.prems] step[OF moves_no_run_refl] step by (auto split: answer.splits)
qed (use assms in simp)

text \<open>What a procedure that serves run directory \<open>name\<close> is accountable for, from the log it has so far.\<close>

abbreviation accountable ::
  "path \<Rightarrow> string \<Rightarrow> bool \<Rightarrow> ('a \<Rightarrow> bool) \<Rightarrow> ('a \<Rightarrow> bool) \<Rightarrow> 'a proc \<Rightarrow> (call \<times> answer) list \<Rightarrow> bool" where
  "accountable root name offering refusal taking q l \<equiv>
     keeps (\<lambda>l. number (offers root name) l \<le> of_bool offering)
       (\<lambda>l r. (taking r \<longrightarrow> 0 < number (ends_offer root name) l) \<and> (refusal r \<longrightarrow> number (offers root name) l = 0)) q l"

lemma in_run_dirI: "d \<in> {DirStaging, DirClaimed} \<Longrightarrow> in_run_dir root (root @ [d, name, x])"
  unfolding in_run_dir_def by (metis append_Cons append_Nil list.distinct(1))

lemma lawful_Publish: "lawful_proc root (Publish root r j)"
  using in_run_dirI[of DirStaging root "RunDirName r" JobFile]
  by (auto simp: Publish_def Let_def intro!: lawful_writeFile split: answer.splits sum.splits)

lemma lawful_take_first: "lawful_proc root (take_first root ns)"
  by (induction ns) auto

lemma lawful_Take: "lawful_proc root (Take root)"
  by (auto simp: Take_def lawful_take_first split: answer.splits)

lemma lawful_reads: "lawful_proc root (StateOf root r)" "lawful_proc root (ReadExecution root r)"
  by (auto simp: StateOf_def ReadExecution_def Let_def split: answer.splits)

lemma lawful_ends: "lawful_proc root (Withdraw root r)" "lawful_proc root (Remove root r)"
  by (auto simp: Withdraw_def Remove_def ClaimedDir_def Let_def)

lemma lawful_Mark: "lawful_proc root (MarkExecution (claim_of root nm) x)"
  using in_run_dirI[of DirClaimed root nm ExecutionFile]
  by (auto simp: MarkExecution_def claim_of_def Let_def intro!: lawful_writeFile)

lemma take_first_claims: "Inr (Some c) \<in> set_proc (take_first root ns) \<Longrightarrow> \<exists>nm \<in> set ns. c = claim_of root nm"
  by (induction ns) (auto split: if_splits)

lemma Take_claims:
  assumes "Inr (Some c) \<in> set_proc (Take root)"
  shows "\<exists>nm. c = claim_of root nm \<and> RunDirName (cl_RunID c) = nm"
proof -
  from assms obtain a where "Inr (Some c) \<in> set_proc (case a of
      Refused e \<Rightarrow> Ret (if e = NotExist then Inr None else Inl (ExchangeIO e))
    | Listing es \<Rightarrow> must (CMkdirAll (root @ [DirClaimed])) (\<lambda>e. Ret (Inl (ExchangeIO e))) (take_first root (sort (map fst (filter job_entry es))))
    | _ \<Rightarrow> Ret (Inl (ExchangeIO Failed)))" by (auto simp: Take_def)
  then obtain nm where "c = claim_of root nm" "prefix ''run-'' nm"
    by (cases a) (auto simp: job_entry_def split: if_splits dest!: take_first_claims)
  then show ?thesis by (auto simp: claim_of_def RunDirName_def prefix_def Let_def)
qed

lemma lawful_Acquire: "lawful_proc root (Acquire (Some root) ident)"
  by (auto simp: Acquire_def lawful_Take lawful_Mark dest!: Take_claims split: option.splits sum.splits)

lemma accounts_offer:
  assumes "number (offers root name) l = 0" and staging: "staging = root @ [DirStaging, RunDirName r]"
  shows "accountable root name (name = RunDirName r) (\<lambda>x. \<exists>e. x = Inl e) (\<lambda>_. False)
    (then_do (writeFile (staging @ [JobFile]) job) (\<lambda>x. case x of
       Inl e \<Rightarrow> Sys (CRemoveAll staging) (\<lambda>_. Ret (Inl (ExchangeIO e)))
     | Inr _ \<Rightarrow> must (CRename staging (root @ [DirPending, RunDirName r]))
         (\<lambda>e. Sys (CRemoveAll staging) (\<lambda>_. Ret (Inl (ExchangeIO e)))) (Ret (Inr ())))) l"
  unfolding keeps_then
proof (rule keeps_writeFile[of root _ name])
  show "in_run_dir root (staging @ [JobFile])" using in_run_dirI[of DirStaging root "RunDirName r" JobFile] staging by simp
qed (use assms in \<open>auto simp: moves_no_run_def keeps_must offers_pair exchange_dirs split: sum.splits\<close>)

lemma accounts_Publish:
  "accountable root name (name = RunDirName r) (\<lambda>x. \<exists>e. x = Inl e) (\<lambda>_. False) (Publish root r j) []"
proof (cases "ValidRunID r")
  case True
  define staging where "staging = root @ [DirStaging, RunDirName r]"
  show ?thesis unfolding Publish_def Let_def staging_def[symmetric] if_not_P[OF iffD2[OF not_not True]]
  proof (intro keeps_make_dirs[of root name] keeps_unless_present[of root name] conjI allI; (unfold keeps_must)?; (intro conjI allI impI)?)
    fix l l' a
    assume "moves_no_run root name [] l" "moves_no_run root name l l'"
    then have l: "number (offers root name) (l' @ [(CMkdir staging, a)]) = 0" by (simp add: moves_no_run_def offers_pair)
    show "accountable root name (name = RunDirName r) (\<lambda>x. \<exists>e. x = Inl e) (\<lambda>_. False)
      (then_do (writeFile (staging @ [JobFile]) j) (\<lambda>x. case x of
         Inl e \<Rightarrow> Sys (CRemoveAll staging) (\<lambda>_. Ret (Inl (ExchangeIO e)))
       | Inr _ \<Rightarrow> must (CRename staging (root @ [DirPending, RunDirName r]))
           (\<lambda>e. Sys (CRemoveAll staging) (\<lambda>_. Ret (Inl (ExchangeIO e)))) (Ret (Inr ())))) (l' @ [(CMkdir staging, a)])"
      by (rule accounts_offer[OF l staging_def])
  qed (auto simp: moves_no_run_def offers_pair)
qed (simp add: Publish_def)

lemma accounts_take_first:
  assumes "\<forall>nm \<in> set ns. prefix ''run-'' nm" "number (offers root name) l = 0"
  shows "accountable root name False (\<lambda>_. False) (\<lambda>x. \<exists>c. x = Inr (Some c) \<and> RunDirName (cl_RunID c) = name) (take_first root ns) l"
  using assms
proof (induction ns arbitrary: l)
  case (Cons nm ns)
  have nm: "RunDirName (drop 4 nm) = nm" using Cons.prems(1) by (auto simp: RunDirName_def prefix_def)
  show ?case using Cons nm
    by (auto simp: keeps_must offers_pair ends_offer_pair claim_of_def Let_def fits_def exchange_dirs)
qed simp

lemma accounts_Take:
  "accountable root name False (\<lambda>_. False) (\<lambda>x. \<exists>c. x = Inr (Some c) \<and> RunDirName (cl_RunID c) = name) (Take root) []"
  using accounts_take_first[of "sort (map fst (filter job_entry es))" for es]
  by (auto simp: Take_def keeps_must offers_pair job_entry_def split: answer.splits)

lemma accounts_Mark:
  assumes "number (offers root name) l = 0" "P \<Longrightarrow> 0 < number (ends_offer root name) l"
  shows "accountable root name False (\<lambda>_. False) (\<lambda>_. P) (MarkExecution (claim_of root nm) x) l"
  using assms in_run_dirI[of DirClaimed root nm ExecutionFile]
  by (auto simp: MarkExecution_def keeps_then claim_of_def Let_def moves_no_run_def intro!: keeps_writeFile[of root _ name])

fun acquired :: "path \<Rightarrow> string \<Rightarrow> claim_error + (path \<times> path) option \<Rightarrow> bool" where
  "acquired root name (Inl (TakenError r _)) \<longleftrightarrow> RunDirName r = name"
| "acquired root name (Inr (Some (j, _))) \<longleftrightarrow> j = root @ [DirClaimed, name, JobFile]"
| "acquired root name _ \<longleftrightarrow> False"

lemma accounts_Acquire:
  "accountable root name False (\<lambda>_. False) (acquired root name) (Acquire (Some root) ident) []"
proof (cases ident)
  case (Some idn)
  let ?B = "\<lambda>l. number (offers root name) l \<le> of_bool False"
  let ?P = "\<lambda>l x. (acquired root name x \<longrightarrow> 0 < number (ends_offer root name) l) \<and> (False \<longrightarrow> number (offers root name) l = 0)"
  have mark: "keeps ?B ?P (then_do (MarkExecution c x) (\<lambda>m. Ret (case m of
        Inl e \<Rightarrow> Inl (TakenError (cl_RunID c) (Some e)) | Inr _ \<Rightarrow> Inr (Some (cl_JobPath c, cl_ResultPath c))))) l"
    if "number (offers root name) l = 0" "c = claim_of root nm" "RunDirName (cl_RunID c) = nm" "nm = name \<longrightarrow> 0 < number (ends_offer root name) l" for c nm l x
    using accounts_Mark[of root name l "nm = name" nm x] that
    by (auto simp: keeps_then claim_of_def Let_def elim!: keeps_mono split: sum.splits)
  show ?thesis unfolding Some Acquire_def prod.case option.case keeps_then
    by (rule keeps_mono[OF keeps_results[OF accounts_Take]])
      (use mark in \<open>auto dest!: Take_claims split: sum.splits option.splits\<close>)
qed (simp add: Acquire_def)

subsection \<open>The parties\<close>

text \<open>What a process at the exchange does: the Conductor's procedures and the Runner's.\<close>

datatype party =
    PPublish string string | PStateOf string | PWithdraw string | PRemove string | PReadExecution string
  | PTake | PAcquire "(unit + string) option"

datatype exchange_outcome =
    OPublished "exchange_error + unit" | OState "exchange_error + run_place" | OWithdrew string "bool \<times> exchange_error option"
  | ORemoved "exchange_error + unit" | OExecution "exchange_error + string"
  | OTook "exchange_error + claim option" | OAcquired "claim_error + (path \<times> path) option"

fun party_program :: "path \<Rightarrow> party \<Rightarrow> exchange_outcome proc" where
  "party_program root (PPublish r j) = then_do (Publish root r j) (\<lambda>x. Ret (OPublished x))"
| "party_program root (PStateOf r) = then_do (StateOf root r) (\<lambda>x. Ret (OState x))"
| "party_program root (PWithdraw r) = then_do (Withdraw root r) (\<lambda>x. Ret (OWithdrew r x))"
| "party_program root (PRemove r) = then_do (Remove root r) (\<lambda>x. Ret (ORemoved x))"
| "party_program root (PReadExecution r) = then_do (ReadExecution root r) (\<lambda>x. Ret (OExecution x))"
| "party_program root PTake = then_do (Take root) (\<lambda>x. Ret (OTook x))"
| "party_program root (PAcquire idn) = then_do (Acquire (Some root) idn) (\<lambda>x. Ret (OAcquired x))"

fun publishes :: "party \<Rightarrow> string \<Rightarrow> bool" where
  "publishes (PPublish r j) name \<longleftrightarrow> name = RunDirName r"
| "publishes _ name \<longleftrightarrow> False"

fun refused_offer :: "exchange_outcome \<Rightarrow> bool" where
  "refused_offer (OPublished (Inl _)) \<longleftrightarrow> True"
| "refused_offer _ \<longleftrightarrow> False"

text \<open>The run directory an outcome says was taken, or taken back.\<close>

fun took_run :: "path \<Rightarrow> string \<Rightarrow> exchange_outcome \<Rightarrow> bool" where
  "took_run root name (OTook (Inr (Some c))) \<longleftrightarrow> RunDirName (cl_RunID c) = name"
| "took_run root name (OAcquired x) \<longleftrightarrow> acquired root name x"
| "took_run root name (OWithdrew r (b, _)) \<longleftrightarrow> b \<and> RunDirName r = name"
| "took_run root name _ \<longleftrightarrow> False"

lemma refused_offer_iff [simp]: "refused_offer (OPublished x) \<longleftrightarrow> (\<exists>e. x = Inl e)"
  by (cases x) auto

lemma lawful_party: "lawful_proc root (party_program root p)"
  by (cases p) (simp_all add: lawful_Publish lawful_reads lawful_ends lawful_Take lawful_Acquire)

lemma accounts_reads:
  "accountable root name False (\<lambda>_. False) (\<lambda>_. False) (StateOf root r) []"
  "accountable root name False (\<lambda>_. False) (\<lambda>_. False) (ReadExecution root r) []"
  "accountable root name False (\<lambda>_. False) (\<lambda>_. False) (Remove root r) []"
  by (auto simp: StateOf_def ReadExecution_def Remove_def Let_def keeps_must offers_pair split: answer.splits)

lemma accounts_Withdraw:
  "accountable root name False (\<lambda>_. False) (\<lambda>x. fst x \<and> RunDirName r = name) (Withdraw root r) []"
  by (auto simp: Withdraw_def Let_def keeps_must offers_pair ends_offer_pair fits_def exchange_dirs)

lemma accounts_party:
  "accountable root name (publishes p name) refused_offer (took_run root name) (party_program root p) []"
proof (cases p)
  case (PPublish r j)
  then show ?thesis using accounts_Publish[of root name r j] by (auto simp: keeps_then elim!: keeps_mono)
next
  case (PWithdraw r)
  then show ?thesis using accounts_Withdraw[of root name r] by (auto simp: keeps_then elim!: keeps_mono)
next
  case PTake
  then show ?thesis using accounts_Take[of root name] by (auto simp: keeps_then elim!: keeps_mono elim: took_run.elims)
next
  case (PAcquire idn)
  then show ?thesis using accounts_Acquire[of root name idn] by (auto simp: keeps_then elim!: keeps_mono)
next
  case (PStateOf r)
  then show ?thesis using accounts_reads(1)[of root name r] by (auto simp: keeps_then elim!: keeps_mono)
next
  case (PReadExecution r)
  then show ?thesis using accounts_reads(2)[of root name r] by (auto simp: keeps_then elim!: keeps_mono)
next
  case (PRemove r)
  then show ?thesis using accounts_reads(3)[of root name r] by (auto simp: keeps_then elim!: keeps_mono)
qed

interpretation exchange: exchange_parties root "party_program root" publishes refused_offer "took_run root" for root
  by unfold_locales (rule lawful_party, rule accounts_party)

subsection \<open>One job, one taker\<close>

definition exchange_run :: "fs_world \<Rightarrow> path \<Rightarrow> fs \<Rightarrow> party list \<Rightarrow> nat list \<Rightarrow> exchange_outcome shared" where
  "exchange_run W root f ps schedule = interleave W schedule (started (party_program root) (0, f) ps)"

text \<open>
  Property C13: at the exchange directory a job goes to one taker. Any number of processes offer,
  look for, withdraw, remove and take jobs there, their system calls in any order, any of them
  failing or stopping for ever. If a run is offered at the start and none of the processes publishes
  it, or it is not and at most one of them does, then at most one process ends having taken it (as a Runner, whether or not it could
  then record its execution) or having withdrawn it (as the Conductor), and as long as it is still
  offered none has. A job whose publication failed is never taken.
\<close>

theorem exchange_exclusive:
  assumes "s = exchange_run W root f ps schedule"
    and "of_bool (pending root (RunDirName runID) f) + number (\<lambda>p. publishes p (RunDirName runID)) ps \<le> 1"
  shows "number (ended (took_run root (RunDirName runID))) (sh_procs s) + of_bool (pending root (RunDirName runID) (snd (sh_state s))) \<le> 1
    \<and> (\<forall>i job. i < length ps \<longrightarrow> ps ! i = PPublish runID job \<longrightarrow> ended refused_offer (sh_procs s ! i) \<longrightarrow>
         number (ended (took_run root (RunDirName runID))) (sh_procs s) = 0)"
proof -
  let ?name = "RunDirName runID"
  let ?may = "\<lambda>(p, q). exchange.may_offer p ?name q"
  have len: "length (sh_procs s) = length ps"
    using exchange.consistent_interleave[OF exchange.consistent_started, where schedule = schedule and ps = ps]
    by (auto simp: assms(1) exchange_run_def exchange.consistent_def)
  have bound: "number (ended (took_run root ?name)) (sh_procs s) + of_bool (pending root ?name (snd (sh_state s)))
      \<le> of_bool (pending root ?name f) + number ?may (zip ps (sh_procs s))"
    using exchange.takers_bounded[of s W schedule root 0 f ps ?name] assms(1) by (simp add: exchange_run_def)
  have "number ?may (zip ps (sh_procs s)) \<le> number (\<lambda>p. publishes p ?name) ps"
    by (rule number_zip[OF len[symmetric]]) (simp add: exchange.may_offer_def)
  moreover have "number ?may (zip ps (sh_procs s)) < number (\<lambda>p. publishes p ?name) ps"
    if "i < length ps" "ps ! i = PPublish runID job" "ended refused_offer (sh_procs s ! i)" for i job
    by (rule number_zip_strict[OF len[symmetric] _ that(1)]) (use that in \<open>auto simp: exchange.may_offer_def\<close>)
  ultimately show ?thesis using bound assms(2) by fastforce
qed

definition sample_exchange_run :: string where
  "sample_exchange_run = replicate 26 (CHR ''A'')"

text \<open>A world in which no call fails, with the one run directory a listing can show.\<close>

definition sample_share :: fs_world where
  "sample_share = \<lparr>fw_fail = (\<lambda>_. None), fw_left = (\<lambda>_. None), fw_removed = (\<lambda>_ _. False),
     fw_walk = (\<lambda>f p. if f (p @ [RunDirName sample_exchange_run]) = None then [] else [[RunDirName sample_exchange_run]]),
     fw_mtime = (\<lambda>_ _. None), fw_now = (\<lambda>_. 0), fw_random = (\<lambda>_. None), fw_ctx = (\<lambda>_. None)\<rparr>"

definition sample_parties :: "party list" where
  "sample_parties = [PTake, PTake, PWithdraw sample_exchange_run]"

definition sample_offered :: fs where
  "sample_offered = Map.empty([''x''] \<mapsto> NDir, [''x'', ''pending''] \<mapsto> NDir, [''x'', ''claimed''] \<mapsto> NDir, [''x'', ''withdrawn''] \<mapsto> NDir,
     [''x'', ''pending'', RunDirName sample_exchange_run] \<mapsto> NDir,
     [''x'', ''pending'', RunDirName sample_exchange_run, JobFile] \<mapsto> NFile ''job'')"

text \<open>Two Runners list the job, the second takes it first, then the Conductor tries to withdraw it.\<close>

definition sample_meeting :: "exchange_outcome shared" where
  "sample_meeting = exchange_run sample_share [''x''] sample_offered sample_parties [0, 0, 1, 1, 1, 0, 2]"

lemma sample_meeting_takers:
  "map (ended (took_run [''x''] (RunDirName sample_exchange_run))) (sh_procs sample_meeting) = [False, True, False]"
  by code_simp

theorem exchange_exclusive_witness:
  "number (ended (took_run [''x''] (RunDirName sample_exchange_run))) (sh_procs sample_meeting) = 1"
proof -
  have "of_bool (pending [''x''] (RunDirName sample_exchange_run) sample_offered) +
      number (\<lambda>p. publishes p (RunDirName sample_exchange_run)) sample_parties \<le> 1"
    by (simp add: sample_parties_def)
  then have "number (ended (took_run [''x''] (RunDirName sample_exchange_run))) (sh_procs sample_meeting) \<le> 1"
    using exchange_exclusive[OF sample_meeting_def] by (metis add_leD1)
  moreover have "0 < number (ended (took_run [''x''] (RunDirName sample_exchange_run))) (sh_procs sample_meeting)"
    using sample_meeting_takers by (auto simp: number_def map_eq_Cons_conv)
  ultimately show ?thesis by simp
qed

end
