(* ===== verification/KeyVault.thy ===== *)
theory KeyVault
  imports RunnerFiles ConductorConfig
begin

text \<open>
  The certificate store on Azure Key Vault, \<^verbatim>\<open>internal/store/keyvault/keyvault.go\<close>: the vault's address,
  the choice of a credential, object names, the import and the reading of a certificate, and the
  reduction of errors to what may be logged. The vault itself and the client library are parameters
  of the model: \<open>vx_get\<close> and \<open>vx_import\<close> are its two requests, over a state of any type. An error of the
  library is given by what \<^verbatim>\<open>errors.Is\<close> and \<^verbatim>\<open>errors.As\<close> find in it.
\<close>

subsection \<open>Parameters\<close>

record vault_url = issuer_url +
  u_Path :: string
  u_Port :: string

record sdk_error =
  sx_Canceled :: bool
  sx_DeadlineExceeded :: bool
  sx_Response :: "(int \<times> string) option"
  sx_AuthFailed :: "int option option"
  sx_Unavailable :: bool
  sx_Net :: "bool option"
  sx_RootType :: string

record kv_certificate =
  kc_Enabled :: "bool option"
  kc_ID :: "string option"
  kc_CER :: string
  kc_ContentType :: "string option"

record import_params =
  ip_Value :: string
  ip_Enabled :: bool
  ip_ContentType :: string
  ip_Tags :: "(string \<times> string) list"

record vault_config =
  vc_VaultURL :: string
  vc_Credential :: string
  vc_ManagedIdentityClientID :: string
  vc_ContentType :: string

datatype azure_cloud = AzurePublic | AzureChina | AzureGovernment

text \<open>
  \<open>vx_config\<close> is the strict decoding of a binding's configuration object, \<open>vx_credential\<close> says whether a
  credential can be built, \<open>vx_pkcs8\<close> is \<^verbatim>\<open>x509.MarshalPKCS8PrivateKey\<close> of the key in a PEM text,
  \<open>vx_pkcs12\<close> the encoding of a PKCS #12 file, \<open>vx_trailing\<close> what \<^verbatim>\<open>pem.Decode\<close> leaves after the last block.
\<close>

record 'v vault_site =
  vx_site :: site
  vx_fold :: "nat \<Rightarrow> nat"
  vx_url :: "string \<Rightarrow> vault_url option"
  vx_config :: "string \<Rightarrow> vault_config option"
  vx_credential :: "string \<Rightarrow> string \<Rightarrow> azure_cloud \<Rightarrow> bool"
  vx_client :: "string \<Rightarrow> bool"
  vx_pkcs8 :: "string \<Rightarrow> string option"
  vx_pkcs12 :: "string \<Rightarrow> x509_cert \<Rightarrow> x509_cert list \<Rightarrow> string option"
  vx_trailing :: "string \<Rightarrow> string"
  vx_get :: "string \<Rightarrow> string \<Rightarrow> ('v, sdk_error + kv_certificate) state"
  vx_import :: "string \<Rightarrow> string \<Rightarrow> import_params \<Rightarrow> ('v, sdk_error + kv_certificate) state"

abbreviation vx_pki :: "'v vault_site \<Rightarrow> pki" where "vx_pki X \<equiv> si_pki (vx_site X)"

subsection \<open>Constants\<close>

definition keyvaultType :: string where "keyvaultType = ''azure-keyvault''"
definition CredentialDefault :: string where "CredentialDefault = ''default''"
definition CredentialManagedIdentity :: string where "CredentialManagedIdentity = ''managed-identity''"
definition MaxCertificateNameLength :: nat where "MaxCertificateNameLength = 127"
definition TagManagedBy :: string where "TagManagedBy = ''managed-by''"
definition TagManagedByValue :: string where "TagManagedByValue = ''acme-conductor''"
definition ContentTypePEM :: string where "ContentTypePEM = ''pem''"
definition ContentTypePKCS12 :: string where "ContentTypePKCS12 = ''pkcs12''"
definition mimePEM :: string where "mimePEM = ''application/x-pem-file''"
definition mimePKCS12 :: string where "mimePKCS12 = ''application/x-pkcs12''"

definition contentTypeMIME :: "(string \<times> string) list" where
  "contentTypeMIME = [(ContentTypePEM, mimePEM), (ContentTypePKCS12, mimePKCS12)]"

definition certificateNameRe :: "string \<Rightarrow> bool" where
  "certificateNameRe s \<longleftrightarrow> 1 \<le> length s \<and> length s \<le> 127 \<and> list_all (\<lambda>c. is_alnum c \<or> c = CHR ''-'') s"

definition vaultNameRe :: "string \<Rightarrow> bool" where
  "vaultNameRe s \<longleftrightarrow>
     3 \<le> length s \<and> length s \<le> 24 \<and> is_lower (hd s) \<and> is_lower_alnum (last s) \<and>
     list_all (\<lambda>c. is_lower_alnum c \<or> c = CHR ''-'') s"

definition is_hex :: "char \<Rightarrow> bool" where
  "is_hex c \<longleftrightarrow> is_digit c \<or> in_range CHR ''a'' CHR ''f'' c \<or> in_range CHR ''A'' CHR ''F'' c"

definition clientIDRe :: "string \<Rightarrow> bool" where
  "clientIDRe s \<longleftrightarrow> map length (Split CHR ''-'' s) = [8, 4, 4, 4, 12] \<and> list_all (list_all is_hex) (Split CHR ''-'' s)"

definition vaultHostSuffixes :: "(string \<times> azure_cloud) list" where
  "vaultHostSuffixes =
     [(''.vault.azure.net'', AzurePublic), (''.vault.azure.cn'', AzureChina), (''.vault.usgovcloudapi.net'', AzureGovernment)]"

subsection \<open>The vault's address\<close>

record vault =
  va_URL :: string
  va_Host :: string
  va_Name :: string
  va_Cloud :: azure_cloud

fun under_suffix :: "string \<Rightarrow> (string \<times> azure_cloud) list \<Rightarrow> vault option" where
  "under_suffix host [] = None"
| "under_suffix host ((suff, cloud) # rest) =
     (if \<not> suffix suff host then under_suffix host rest
      else
        let name = take (length host - length suff) host in
        if \<not> vaultNameRe name \<or> Contains name ''--'' then None
        else Some \<lparr>va_URL = ''https://'' @ host, va_Host = host, va_Name = name, va_Cloud = cloud\<rparr>)"

definition ParseVaultURL :: "'v vault_site \<Rightarrow> string \<Rightarrow> vault option" where
  "ParseVaultURL X raw =
     (if raw = [] then None
      else if contains_any raw [CHR '' '', CHR 9, CHR 13, CHR 10] then None
      else case vx_url X raw of
        None \<Rightarrow> None
      | Some u \<Rightarrow>
          if u_Scheme u \<noteq> ''https'' then None
          else if u_User u then None
          else if u_Opaque u \<noteq> [] \<or> u_RawQuery u \<noteq> [] \<or> u_Fragment u \<noteq> [] \<or> u_ForceQuery u \<or> (u_Path u \<noteq> [] \<and> u_Path u \<noteq> ''/'') then None
          else if u_Port u \<noteq> [] then None
          else
            let host = strings_ToLower (si_unicode (vx_site X)) (u_Hostname u) in
            if host = [] \<or> host \<noteq> strings_ToLower (si_unicode (vx_site X)) (u_Host u) then None
            else under_suffix host vaultHostSuffixes)"

subsection \<open>Credentials and configuration\<close>

definition ValidateCredential :: "string \<Rightarrow> string \<Rightarrow> bool" where
  "ValidateCredential kind clientID \<longleftrightarrow>
     (if kind = CredentialDefault then clientID = []
      else if kind = CredentialManagedIdentity then clientID = [] \<or> clientIDRe clientID
      else False)"

definition NewCredential :: "'v vault_site \<Rightarrow> string \<Rightarrow> string \<Rightarrow> azure_cloud \<Rightarrow> bool" where
  "NewCredential X kind clientID c \<longleftrightarrow> ValidateCredential kind clientID \<and> vx_credential X kind clientID c"

definition vault_ParseConfig :: "'v vault_site \<Rightarrow> string \<Rightarrow> vault_config option" where
  "vault_ParseConfig X raw =
     (case vx_config X raw of
        None \<Rightarrow> None
      | Some c \<Rightarrow>
          if ParseVaultURL X (vc_VaultURL c) = None then None
          else
            let c = c\<lparr>vc_Credential := default_text CredentialDefault (vc_Credential c)\<rparr> in
            if \<not> ValidateCredential (vc_Credential c) (vc_ManagedIdentityClientID c) then None
            else
              let c = c\<lparr>vc_ContentType := default_text ContentTypePEM (vc_ContentType c)\<rparr> in
              if map_of contentTypeMIME (vc_ContentType c) = None then None else Some c)"

record vault_store =
  vs_URL :: string
  vs_ContentType :: string
  vs_mime :: string

text \<open>Without the options that only tests set.\<close>

definition vault_New :: "'v vault_site \<Rightarrow> string \<Rightarrow> string \<Rightarrow> vault_store option" where
  "vault_New X vaultURL contentType =
     (let contentType = default_text ContentTypePEM contentType in
      case map_of contentTypeMIME contentType of
        None \<Rightarrow> None
      | Some mime \<Rightarrow>
          (case ParseVaultURL X vaultURL of
             None \<Rightarrow> None
           | Some v \<Rightarrow>
               if \<not> vx_client X (va_URL v) then None
               else Some \<lparr>vs_URL = va_URL v, vs_ContentType = contentType, vs_mime = mime\<rparr>))"

definition vault_Open :: "'v vault_site \<Rightarrow> vault_config \<Rightarrow> vault_store option" where
  "vault_Open X cfg =
     (case ParseVaultURL X (vc_VaultURL cfg) of
        None \<Rightarrow> None
      | Some v \<Rightarrow>
          if \<not> NewCredential X (vc_Credential cfg) (vc_ManagedIdentityClientID cfg) (va_Cloud v) then None
          else vault_New X (va_URL v) (vc_ContentType cfg))"

subsection \<open>Names\<close>

definition certificate_rune :: "nat \<Rightarrow> nat option" where
  "certificate_rune r = (if r < 0x80 \<and> (is_alnum (char_of r) \<or> r = 45) then Some r else Some 45)"

definition CertificateName :: "string \<Rightarrow> string" where
  "CertificateName object = take MaxCertificateNameLength (strings_Map certificate_rune object)"

definition vault_ObjectName :: "(string \<Rightarrow> string) \<Rightarrow> string \<Rightarrow> string" where
  "vault_ObjectName sha fqdn = CertificateName (ObjectNameN sha fqdn (int MaxCertificateNameLength))"

subsection \<open>Errors\<close>

datatype request_kind = KindVault | KindAuthentication | KindTimeout | KindConnection | KindOther

datatype vault_error =
    VaultCanceled string
  | VaultDeadline string
  | RequestError string request_kind int string
  | InvalidCertificateName
  | BadBundle
  | CertificateDisabled
  | NotTheCertificate
  | NoCertificateBody
  | UnreadableCertificate
  | DifferentCertificate
  | OtherContentType string

definition RequestError_text :: "string \<Rightarrow> request_kind \<Rightarrow> int \<Rightarrow> string \<Rightarrow> string" where
  "RequestError_text op k status code =
     ''key vault '' @ op @ '': '' @
     (case k of
        KindVault \<Rightarrow> ''HTTP '' @ itoa status @ '' ('' @ (if code = [] then ''no error code'' else code) @ '')''
      | KindAuthentication \<Rightarrow>
          if 0 < status then ''authentication failed (identity endpoint HTTP '' @ itoa status @ '')''
          else if code \<noteq> [] then ''authentication failed ('' @ code @ '')''
          else ''authentication failed''
      | KindTimeout \<Rightarrow> ''request timed out''
      | KindConnection \<Rightarrow> ''connection failed''
      | KindOther \<Rightarrow> ''request failed ('' @ code @ '')'')"

definition wrap :: "string \<Rightarrow> sdk_error \<Rightarrow> vault_error" where
  "wrap op e =
     (if sx_Canceled e then VaultCanceled op
      else if sx_DeadlineExceeded e then VaultDeadline op
      else case sx_Response e of
        Some (status, code) \<Rightarrow> RequestError op KindVault status code
      | None \<Rightarrow>
          (case sx_AuthFailed e of
             Some status \<Rightarrow> RequestError op KindAuthentication (case status of None \<Rightarrow> 0 | Some n \<Rightarrow> n) []
           | None \<Rightarrow>
               if sx_Unavailable e then RequestError op KindAuthentication 0 ''credential unavailable''
               else (case sx_Net e of
                       Some timeout \<Rightarrow> RequestError op (if timeout then KindTimeout else KindConnection) 0 []
                     | None \<Rightarrow> RequestError op KindOther 0 (sx_RootType e))))"

text \<open>What the Runner distinguishes in an error.\<close>

definition vault_cause :: "vault_error \<Rightarrow> io_error" where
  "vault_cause e = (case e of VaultCanceled _ \<Rightarrow> Canceled | VaultDeadline _ \<Rightarrow> DeadlineExceeded | _ \<Rightarrow> Failed)"

subsection \<open>What the vault returned\<close>

definition idName :: "'v vault_site \<Rightarrow> string \<Rightarrow> string" where
  "idName X i =
     (case vx_url X i of
        None \<Rightarrow> []
      | Some u \<Rightarrow>
          if u_Scheme u \<noteq> ''https'' then []
          else
            let parts = Split CHR ''/'' (TrimRight (TrimLeft (u_Path u) ''/'') ''/'') in
            if length parts < 2 \<or> parts ! 0 \<noteq> ''certificates'' then [] else parts ! 1)"

definition checkBundle :: "'v vault_site \<Rightarrow> string \<Rightarrow> kv_certificate \<Rightarrow> vault_error + x509_cert" where
  "checkBundle X name c =
     (if kc_Enabled c = Some False then Inl CertificateDisabled
      else if (case kc_ID c of None \<Rightarrow> True | Some i \<Rightarrow> idName X i \<noteq> name) then Inl NotTheCertificate
      else if kc_CER c = [] then Inl NoCertificateBody
      else (case px_parse (vx_pki X) (kc_CER c) of None \<Rightarrow> Inl UnreadableCertificate | Some leaf \<Rightarrow> Inr leaf))"

definition secretContentType :: "kv_certificate \<Rightarrow> string" where
  "secretContentType c = (case kc_ContentType c of None \<Rightarrow> [] | Some t \<Rightarrow> t)"

text \<open>The content type is reported and is not the binding's.\<close>

definition other_form :: "'v vault_site \<Rightarrow> vault_store \<Rightarrow> kv_certificate \<Rightarrow> bool" where
  "other_form X s c \<longleftrightarrow> secretContentType c \<noteq> [] \<and> \<not> EqualFold (vx_fold X) (secretContentType c) (vs_mime s)"

definition certificateName :: "string \<Rightarrow> string option" where
  "certificateName object = (if certificateNameRe object then Some object else None)"

subsection \<open>Current\<close>

definition vault_Current :: "'v vault_site \<Rightarrow> vault_store \<Rightarrow> string \<Rightarrow> ('v, vault_error option + cert_info) state" where
  "vault_Current X s object =
     (case certificateName object of
        None \<Rightarrow> State_Monad.return (Inl (Some InvalidCertificateName))
      | Some name \<Rightarrow> do {
          resp \<leftarrow> vx_get X (vs_URL s) name;
          case resp of
            Inl e \<Rightarrow>
              State_Monad.return (Inl (case sx_Response e of
                  Some (status, _) \<Rightarrow> if status = 404 then None else Some (wrap ''get'' e)
                | None \<Rightarrow> Some (wrap ''get'' e)))
          | Inr c \<Rightarrow>
              State_Monad.return (case checkBundle X name c of
                Inl e \<Rightarrow> Inl (Some e)
              | Inr leaf \<Rightarrow>
                  let info = InfoOf (vx_pki X) leaf in
                  Inr (if other_form X s c then info\<lparr>ci_Stale := True\<rparr> else info)) })"

subsection \<open>Put\<close>

definition PrivateKeyToPKCS8 :: "'v vault_site \<Rightarrow> string \<Rightarrow> string option" where
  "PrivateKeyToPKCS8 X keyPEM =
     (if ParsePrivateKey (vx_pki X) keyPEM = None then None
      else map_option (\<lambda>der. px_encode (vx_pki X) \<lparr>pb_Type = ''PRIVATE KEY'', pb_Bytes = der\<rparr>) (vx_pkcs8 X keyPEM))"

definition onlyCertificates :: "'v vault_site \<Rightarrow> string \<Rightarrow> bool" where
  "onlyCertificates X d \<longleftrightarrow>
     list_all (\<lambda>b. pb_Type b = ''CERTIFICATE'') (px_blocks (vx_pki X) d) \<and> TrimSpace (vx_trailing X d) = []"

definition pemValue :: "'v vault_site \<Rightarrow> cert_bundle \<Rightarrow> string option" where
  "pemValue X b = map_option (\<lambda>key. bd_Certificate b @ bd_Chain b @ key) (PrivateKeyToPKCS8 X (bd_PrivateKey b))"

text \<open>\<^verbatim>\<open>base64.StdEncoding\<close>: the other two symbols, and padding.\<close>

definition b64_std_encode :: "string \<Rightarrow> string" where
  "b64_std_encode d =
     map (\<lambda>c. if c = CHR ''-'' then CHR ''+'' else if c = CHR ''_'' then CHR ''/'' else c) (b64_encode d) @
     replicate (if length d mod 3 = 0 then 0 else 3 - length d mod 3) CHR ''=''"

definition pkcs12Value :: "'v vault_site \<Rightarrow> x509_cert \<Rightarrow> cert_bundle \<Rightarrow> string option" where
  "pkcs12Value X leaf b =
     (if ParsePrivateKey (vx_pki X) (bd_PrivateKey b) = None then None
      else case those (map (\<lambda>blk. px_parse (vx_pki X) (pb_Bytes blk)) (px_blocks (vx_pki X) (bd_Chain b))) of
        None \<Rightarrow> None
      | Some chain \<Rightarrow> map_option b64_std_encode (vx_pkcs12 X (bd_PrivateKey b) leaf chain))"

definition import_value :: "'v vault_site \<Rightarrow> vault_store \<Rightarrow> x509_cert \<Rightarrow> cert_bundle \<Rightarrow> string option" where
  "import_value X s leaf b = (if vs_ContentType s = ContentTypePKCS12 then pkcs12Value X leaf b else pemValue X b)"

definition import_request :: "vault_store \<Rightarrow> string \<Rightarrow> import_params" where
  "import_request s value =
     \<lparr>ip_Value = value, ip_Enabled = True, ip_ContentType = vs_mime s, ip_Tags = [(TagManagedBy, TagManagedByValue)]\<rparr>"

definition confirm_import :: "'v vault_site \<Rightarrow> vault_store \<Rightarrow> string \<Rightarrow> x509_cert \<Rightarrow> kv_certificate \<Rightarrow> vault_error + unit" where
  "confirm_import X s name leaf c =
     (case checkBundle X name c of
        Inl e \<Rightarrow> Inl e
      | Inr stored \<Rightarrow>
          if Fingerprint (vx_pki X) stored \<noteq> Fingerprint (vx_pki X) leaf then Inl DifferentCertificate
          else if other_form X s c then Inl (OtherContentType (secretContentType c))
          else Inr ())"

definition vault_Put :: "'v vault_site \<Rightarrow> vault_store \<Rightarrow> string \<Rightarrow> cert_bundle \<Rightarrow> ('v, vault_error + unit) state" where
  "vault_Put X s object b =
     (case certificateName object of
        None \<Rightarrow> State_Monad.return (Inl InvalidCertificateName)
      | Some name \<Rightarrow>
          (case ParseLeaf (vx_pki X) (bd_Certificate b) of
             None \<Rightarrow> State_Monad.return (Inl BadBundle)
           | Some leaf \<Rightarrow>
               if bd_PrivateKey b = [] then State_Monad.return (Inl BadBundle)
               else if \<not> PrivateKeyMatches (vx_pki X) leaf (bd_PrivateKey b) then State_Monad.return (Inl BadBundle)
               else if \<not> onlyCertificates X (bd_Chain b) then State_Monad.return (Inl BadBundle)
               else (case import_value X s leaf b of
                       None \<Rightarrow> State_Monad.return (Inl BadBundle)
                     | Some value \<Rightarrow> do {
                         resp \<leftarrow> vx_import X (vs_URL s) name (import_request s value);
                         State_Monad.return (case resp of
                           Inl e \<Rightarrow> Inl (wrap ''import'' e)
                         | Inr c \<Rightarrow> confirm_import X s name leaf c) })))"

subsection \<open>The store among the Runner's providers\<close>

text \<open>The Runner's file system and the vault side by side.\<close>

definition on_files :: "('s, 'a) state \<Rightarrow> ('s \<times> 'v, 'a) state" where
  "on_files m = State (\<lambda>(s, v). case run_state m s of (a, s') \<Rightarrow> (a, (s', v)))"

definition on_vault :: "('v, 'a) state \<Rightarrow> ('s \<times> 'v, 'a) state" where
  "on_vault m = State (\<lambda>(s, v). case run_state m v of (a, v') \<Rightarrow> (a, (s, v')))"

definition store_on_files :: "'s cert_store \<Rightarrow> ('s \<times> 'v) cert_store" where
  "store_on_files st =
     \<lparr>st_Type = st_Type st, st_ObjectName = st_ObjectName st,
      st_Current = (\<lambda>object. on_files (st_Current st object)), st_Put = (\<lambda>object b. on_files (st_Put st object b))\<rparr>"

definition kv_store :: "'v vault_site \<Rightarrow> vault_store \<Rightarrow> ((nat \<times> fs) \<times> 'v) cert_store" where
  "kv_store X s =
     \<lparr>st_Type = keyvaultType, st_ObjectName = vault_ObjectName (px_sha (vx_pki X)),
      st_Current = (\<lambda>object. do {
        r \<leftarrow> on_vault (vault_Current X s object);
        State_Monad.return (case r of
          Inl None \<Rightarrow> Inl ErrStoreNotFound
        | Inl (Some e) \<Rightarrow> Inl (ErrStoreIO (vault_cause e))
        | Inr info \<Rightarrow> Inr info) }),
      st_Put = (\<lambda>object b. do {
        r \<leftarrow> on_vault (vault_Put X s object b);
        State_Monad.return (case r of Inl e \<Rightarrow> Inl (vault_cause e) | Inr u \<Rightarrow> Inr u) })\<rparr>"

definition kv_open :: "'v vault_site \<Rightarrow> string \<Rightarrow> vault_store option" where
  "kv_open X raw = (case vault_ParseConfig X raw of None \<Rightarrow> None | Some c \<Rightarrow> vault_Open X c)"

definition kv_provider :: "'v vault_site \<Rightarrow> ((nat \<times> fs) \<times> 'v) provider" where
  "kv_provider X raw =
     State_Monad.return (case kv_open X raw of None \<Rightarrow> Inl Failed | Some s \<Rightarrow> Inr (kv_store X s))"

definition fs_provider_on_files :: "'v vault_site \<Rightarrow> ((nat \<times> fs) \<times> 'v) provider" where
  "fs_provider_on_files X raw =
     do { r \<leftarrow> on_files (fs_provider (vx_site X) raw);
          State_Monad.return (case r of Inl e \<Rightarrow> Inl e | Inr st \<Rightarrow> Inr (store_on_files st)) }"

definition official_stores :: "'v vault_site \<Rightarrow> (string \<times> ((nat \<times> fs) \<times> 'v) provider) list" where
  "official_stores X = [(filesystemType, fs_provider_on_files X), (keyvaultType, kv_provider X)]"

definition vault_ops :: "'v vault_site \<Rightarrow> ((nat \<times> fs) \<times> 'v) runner_ops" where
  "vault_ops X =
     (let R = file_ops (vx_site X) in
      \<lparr>op_pki = op_pki R, op_unicode = op_unicode R, op_errorText = op_errorText R, op_lookupEnv = op_lookupEnv R,
       op_grace = op_grace R, op_now = on_files (op_now R), op_ctxErr = on_files (op_ctxErr R),
       op_openStore = Registry_Open (official_stores X),
       op_accountsRoot = (\<lambda>stateDir binding account. on_files (op_accountsRoot R stateDir binding account)),
       op_prepareWorkDir = (\<lambda>parent runID age. on_files (op_prepareWorkDir R parent runID age)),
       op_cleanup = (\<lambda>work. on_files (op_cleanup R work)),
       op_loadAccounts = (\<lambda>stateDir work. on_files (op_loadAccounts R stateDir work)),
       op_accountRegistered = (\<lambda>work. on_files (op_accountRegistered R work)),
       op_loadProvisioningKeys = (\<lambda>files. on_files (op_loadProvisioningKeys R files)),
       op_sealing = op_sealing R, op_eabCodec = op_eabCodec R,
       op_runLego = (\<lambda>t cmd. on_files (op_runLego R t cmd)),
       op_persistAccounts = (\<lambda>work stateDir. on_files (op_persistAccounts R work stateDir)),
       op_publishedAccountRegistered = (\<lambda>stateDir. on_files (op_publishedAccountRegistered R stateDir)),
       op_readOutputs = (\<lambda>work name. on_files (op_readOutputs R work name))\<rparr>)"

end
