(* ===== verification/KeyVaultProps.thy ===== *)
theory KeyVaultProps
  imports KeyVault
begin

text \<open>
  The names the Key Vault store gives its objects, and the reconcile of a job whose binding is a Key
  Vault: the contract of a certificate store that the filesystem store meets holds of the vault as
  well, so that the reconcile is as safe there.
\<close>

subsection \<open>Names\<close>

definition certificate_char :: "char \<Rightarrow> char" where
  "certificate_char c = (if is_alnum c \<or> c = CHR ''-'' then c else CHR ''-'')"

lemma object_char_ascii: "object_char c \<Longrightarrow> byte_of c < 128"
  by (auto simp: object_char_def is_alnum_def in_range_def byte_of_def)

lemma strings_Map_certificate:
  "list_all object_char s \<Longrightarrow> strings_Map certificate_rune s = map certificate_char s"
proof (induction s)
  case (Cons c s)
  have a: "byte_of c < 128" using Cons.prems object_char_ascii by simp
  have dash: "byte_of c = 45 \<longleftrightarrow> c = CHR ''-''" using byte_of_inject[of c "CHR ''-''"] by (simp add: byte_of_def)
  have "char_of (45 :: nat) = CHR ''-''" by (simp flip: byte_of_inject add: byte_of_def)
  then have "(case certificate_rune (byte_of c) of None \<Rightarrow> [] | Some r \<Rightarrow> encode_rune r) = [certificate_char c]"
    using a dash by (auto simp: certificate_rune_def certificate_char_def encode_rune_def byte_of_def)
  then show ?case using Cons a by (simp add: strings_Map_def)
qed (simp add: strings_Map_def)

lemma vault_name_shape:
  assumes sha: "\<And>s. length (sha s) = 32"
  obtains r where "vault_ObjectName sha f = r @ ''-'' @ hex_encode (take ObjectNameHashBytes (sha f))"
    "readable_name r" "\<not> Contains r ''..''" "length r \<le> 110" "list_all (\<lambda>c. is_alnum c \<or> c = CHR ''-'') r"
proof -
  let ?h = "hex_encode (take ObjectNameHashBytes (sha f))"
  have h: "length ?h = 16" by (simp add: sha ObjectNameHashBytes_def)
  obtain r where r: "ObjectNameN sha f 127 = r @ ''-'' @ ?h" "readable_name r" "length r \<le> max 6 (nat (127 - int (length ?h) - 1))"
    by (rule ObjectNameN_shape[OF refl])
  have hex: "list_all (\<lambda>c. is_alnum c) ?h" using hex_encode_lower lower_hex_alnum by (auto simp: list_all_iff)
  then have "list_all object_char (r @ ''-'' @ ?h)" using r(2) by (auto simp: readable_name_def list_all_iff object_char_def)
  moreover have "map certificate_char ?h = ?h" using hex by (intro map_idI) (auto simp: certificate_char_def list_all_iff)
  ultimately have "strings_Map certificate_rune (r @ ''-'' @ ?h) = map certificate_char r @ ''-'' @ ?h"
    by (simp only: strings_Map_certificate) (simp add: certificate_char_def)
  moreover have len: "length r \<le> 110" using r(3) h by simp
  ultimately have "vault_ObjectName sha f = map certificate_char r @ ''-'' @ ?h"
    using h by (simp add: vault_ObjectName_def CertificateName_def MaxCertificateNameLength_def r(1) del: length_hex_encode)
  moreover have all: "list_all (\<lambda>c. is_alnum c \<or> c = CHR ''-'') (map certificate_char r)"
    by (auto simp: list_all_iff certificate_char_def)
  moreover have "readable_name (map certificate_char r)"
  proof -
    have "r \<noteq> []" "is_alnum (hd r)" "is_alnum (last r)" using r(2) by (auto simp: readable_name_def)
    moreover have "list_all object_char (map certificate_char r)" using all by (auto simp: list_all_iff object_char_def)
    ultimately show ?thesis by (simp add: readable_name_def hd_map last_map certificate_char_def)
  qed
  moreover have "\<not> Contains (map certificate_char r) ''..''"
  proof
    assume "Contains (map certificate_char r) ''..''"
    then have "CHR ''.'' \<in> set (map certificate_char r)" by (auto simp: Contains_def dest!: set_mono_sublist)
    then have "is_alnum CHR ''.'' \<or> CHR ''.'' = CHR ''-''" using all unfolding list_all_iff by blast
    then show False by (simp add: is_alnum_def in_range_def byte_of_def)
  qed
  ultimately show thesis using that len by simp
qed

lemma vault_name_sound:
  assumes sha: "\<And>s. length (sha s) = 32"
  shows "certificateNameRe (vault_ObjectName sha f)" "IsStoreObjectRef (vault_ObjectName sha f)"
    "vault_ObjectName sha f = vault_ObjectName sha g \<Longrightarrow> take ObjectNameHashBytes (sha f) = take ObjectNameHashBytes (sha g)"
proof -
  let ?h = "\<lambda>s. hex_encode (take ObjectNameHashBytes (sha s))"
  have h: "length (?h s) = 16" for s by (simp add: sha ObjectNameHashBytes_def)
  obtain r where r: "vault_ObjectName sha f = r @ ''-'' @ ?h f" "readable_name r" "\<not> Contains r ''..''" "length r \<le> 110"
    "list_all (\<lambda>c. is_alnum c \<or> c = CHR ''-'') r" by (rule vault_name_shape[OF sha])
  obtain q where q: "vault_ObjectName sha g = q @ ''-'' @ ?h g" by (rule vault_name_shape[OF sha])
  have "list_all is_alnum (?h f)" using hex_encode_lower lower_hex_alnum by (auto simp: list_all_iff)
  then show "certificateNameRe (vault_ObjectName sha f)"
    using r h by (auto simp: certificateNameRe_def list_all_iff simp del: length_hex_encode)
  have "?h f \<noteq> []" using h[of f] by force
  then show "IsStoreObjectRef (vault_ObjectName sha f)"
    unfolding r(1) using r(4) h[of f]
    by (intro joined_name_ok[OF r(2,3) hex_encode_lower]) (auto simp: MaxStoreObjectRefLength_def simp del: length_hex_encode)
  assume "vault_ObjectName sha f = vault_ObjectName sha g"
  then have "(r @ ''-'') @ ?h f = (q @ ''-'') @ ?h g" using r(1) q by simp
  then have "?h f = ?h g" by (simp add: append_eq_append_conv h del: length_hex_encode)
  then show "take ObjectNameHashBytes (sha f) = take ObjectNameHashBytes (sha g)" by (simp add: hex_encode_inject)
qed

subsection \<open>What the code relies on of the vault\<close>

text \<open>
  \<open>held v\<close> is what a state of the vault holds. Reading changes nothing and tells what is held, or
  fails; only an object that is not held is reported missing. An import that fails may have taken
  effect; one that takes effect makes a new version of that object alone: enabled, under its name,
  the certificate the vault reads in the value, in the form that was asked for.
\<close>

definition tells_what_it_holds :: "'v vault_site \<Rightarrow> string \<Rightarrow> ('v \<Rightarrow> string \<Rightarrow> kv_certificate option) \<Rightarrow> bool" where
  "tells_what_it_holds X url held \<longleftrightarrow>
     (\<forall>name v r v'. run_state (vx_get X url name) v = (r, v') \<longrightarrow>
        held v' = held v \<and>
        (case r of
           Inr c \<Rightarrow> held v name = Some c
         | Inl e \<Rightarrow> (\<forall>code. sx_Response e = Some (404, code) \<longrightarrow> held v name = None)))"

definition stored_as :: "'v vault_site \<Rightarrow> (string \<Rightarrow> string \<Rightarrow> string) \<Rightarrow> string \<Rightarrow> import_params \<Rightarrow> kv_certificate \<Rightarrow> bool" where
  "stored_as X reads name p c \<longleftrightarrow>
     kc_Enabled c \<noteq> Some (\<not> ip_Enabled p) \<and> (\<exists>i. kc_ID c = Some i \<and> idName X i = name) \<and>
     kc_CER c = reads (ip_ContentType p) (ip_Value p) \<and> kc_ContentType c \<in> {None, Some (ip_ContentType p)}"

definition takes_imports ::
  "'v vault_site \<Rightarrow> string \<Rightarrow> ('v \<Rightarrow> string \<Rightarrow> kv_certificate option) \<Rightarrow> (string \<Rightarrow> string \<Rightarrow> string) \<Rightarrow> bool" where
  "takes_imports X url held reads \<longleftrightarrow>
     (\<forall>name p v r v'. certificateNameRe name \<longrightarrow> run_state (vx_import X url name p) v = (r, v') \<longrightarrow>
        held v' = held v \<and> (\<exists>e. r = Inl e) \<or>
        (\<exists>c. held v' = (held v)(name \<mapsto> c) \<and> stored_as X reads name p c \<and> (r = Inr c \<or> (\<exists>e. r = Inl e))))"

text \<open>The certificate of an import value is the leaf; a certificate's raw bytes are what it was parsed from.\<close>

definition reads_leaf :: "'v vault_site \<Rightarrow> vault_store \<Rightarrow> (string \<Rightarrow> string \<Rightarrow> string) \<Rightarrow> bool" where
  "reads_leaf X s reads \<longleftrightarrow>
     (\<forall>leaf b val. ParseLeaf (vx_pki X) (bd_Certificate b) = Some leaf \<longrightarrow> PrivateKeyMatches (vx_pki X) leaf (bd_PrivateKey b) \<longrightarrow>
        import_value X s leaf b = Some val \<longrightarrow> reads (vs_mime s) val = crt_Raw leaf)"

definition raw_bytes :: "pki \<Rightarrow> bool" where
  "raw_bytes P \<longleftrightarrow> (\<forall>d c. px_parse P d = Some c \<longrightarrow> crt_Raw c = d \<and> d \<noteq> [])"

definition vault_object :: "'v vault_site \<Rightarrow> job_spec \<Rightarrow> string" where
  "vault_object X spec = vault_ObjectName (px_sha (vx_pki X)) (tr_FQDN (js_Target spec))"

definition vault_job ::
  "'v vault_site \<Rightarrow> runner_config \<Rightarrow> job_spec \<Rightarrow> vault_store \<Rightarrow> ('v \<Rightarrow> string \<Rightarrow> kv_certificate option) \<Rightarrow>
   (string \<Rightarrow> string \<Rightarrow> string) \<Rightarrow> bool" where
  "vault_job X cfg spec s held reads \<longleftrightarrow>
     JobSpec_Validate spec = None \<and>
     (\<forall>b. map_of (rc_StoreBindings cfg) (js_StoreBinding spec) = Some b \<longrightarrow>
        sb_Type b = keyvaultType \<and> kv_open X (sb_Config b) \<in> {None, Some s}) \<and>
     (\<forall>d. length (px_sha (vx_pki X) d) = 32) \<and> raw_bytes (vx_pki X) \<and>
     tells_what_it_holds X (vs_URL s) held \<and> takes_imports X (vs_URL s) held reads \<and> reads_leaf X s reads"

definition vault_view ::
  "'v vault_site \<Rightarrow> vault_store \<Rightarrow> (string \<Rightarrow> kv_certificate option) \<Rightarrow> string \<Rightarrow> store_error + cert_info" where
  "vault_view X s objects name =
     (case objects name of
        None \<Rightarrow> Inl ErrStoreNotFound
      | Some c \<Rightarrow>
          (case checkBundle X name c of
             Inl e \<Rightarrow> Inl (ErrStoreIO (vault_cause e))
           | Inr leaf \<Rightarrow> Inr ((InfoOf (vx_pki X) leaf)\<lparr>ci_Stale := other_form X s c\<rparr>)))"

subsection \<open>The store's operations\<close>

lemma run_on_files: "run_state (on_files m) (s, v) = (case run_state m s of (a, s') \<Rightarrow> (a, (s', v)))"
  by (simp add: on_files_def)

lemma run_on_vault: "run_state (on_vault m) (s, v) = (case run_state m v of (a, v') \<Rightarrow> (a, (s, v')))"
  by (simp add: on_vault_def)

lemma EqualFold_refl: "EqualFold tbl s s"
  by (simp add: EqualFold_def fold_rune_def list.rel_refl)

lemma info_not_stale: "(InfoOf P leaf)\<lparr>ci_Stale := False\<rparr> = InfoOf P leaf"
  by (simp add: InfoOf_def)

lemma ParseLeaf_raw: "raw_bytes P \<Longrightarrow> ParseLeaf P d = Some leaf \<Longrightarrow> px_parse P (crt_Raw leaf) = Some leaf \<and> crt_Raw leaf \<noteq> []"
proof -
  have "\<exists>x. px_parse P x = Some leaf" if "leaf_of P bs = Some leaf" for bs
    using that by (induction bs) (auto split: if_splits)
  then show "raw_bytes P \<Longrightarrow> ParseLeaf P d = Some leaf \<Longrightarrow> px_parse P (crt_Raw leaf) = Some leaf \<and> crt_Raw leaf \<noteq> []"
    by (fastforce simp: ParseLeaf_def raw_bytes_def)
qed

lemma stored_view:
  assumes "stored_as X reads name (import_request s val) c" "reads (vs_mime s) val = crt_Raw leaf"
    and "px_parse (vx_pki X) (crt_Raw leaf) = Some leaf" "crt_Raw leaf \<noteq> []"
  shows "checkBundle X name c = Inr leaf" "\<not> other_form X s c"
  using assms EqualFold_refl
  by (auto simp: stored_as_def import_request_def checkBundle_def other_form_def secretContentType_def)

lemma Current_answers:
  assumes "tells_what_it_holds X (vs_URL s) held" "certificateNameRe name"
    and "run_state (vault_Current X s name) v = (r, v')"
  shows "held v' = held v \<and>
    (case r of
       Inl None \<Rightarrow> vault_view X s (held v) name = Inl ErrStoreNotFound
     | Inl (Some e) \<Rightarrow> True
     | Inr info \<Rightarrow> vault_view X s (held v) name = Inr info)"
proof -
  obtain a where a: "run_state (vx_get X (vs_URL s) name) v = (a, v')"
    using assms(2,3) by (auto simp: vault_Current_def certificateName_def run_bind split: prod.splits sum.splits)
  note told = assms(1)[unfolded tells_what_it_holds_def, rule_format, OF a]
  have stale: "(if b then i\<lparr>ci_Stale := True\<rparr> else i) = i\<lparr>ci_Stale := b\<rparr>" if "\<not> ci_Stale i" for b i
    using that by (cases i) auto
  show ?thesis
  proof (cases a)
    case (Inl e)
    then show ?thesis using told assms(2,3) a
      by (auto simp: vault_Current_def certificateName_def run_bind vault_view_def split: option.splits prod.splits if_splits)
  next
    case (Inr c)
    then show ?thesis using told assms(2,3) a
      by (auto simp: vault_Current_def certificateName_def run_bind vault_view_def Let_def stale InfoOf_def split: sum.splits)
  qed
qed

lemma Put_outcomes:
  assumes "takes_imports X (vs_URL s) held reads" "reads_leaf X s reads" "raw_bytes (vx_pki X)" "certificateNameRe name"
    and run: "run_state (vault_Put X s name b) v = (r, v')"
  shows "held v' = held v \<and> r \<noteq> Inr () \<or>
    (\<exists>leaf c. ParseLeaf (vx_pki X) (bd_Certificate b) = Some leaf \<and> held v' = (held v)(name \<mapsto> c) \<and>
       vault_view X s (held v') name = Inr (InfoOf (vx_pki X) leaf))"
proof (cases "\<exists>leaf val. ParseLeaf (vx_pki X) (bd_Certificate b) = Some leaf \<and> PrivateKeyMatches (vx_pki X) leaf (bd_PrivateKey b) \<and>
    import_value X s leaf b = Some val \<and> bd_PrivateKey b \<noteq> [] \<and> onlyCertificates X (bd_Chain b)")
  case True
  then obtain leaf val where l: "ParseLeaf (vx_pki X) (bd_Certificate b) = Some leaf" "PrivateKeyMatches (vx_pki X) leaf (bd_PrivateKey b)"
    "import_value X s leaf b = Some val" "bd_PrivateKey b \<noteq> []" "onlyCertificates X (bd_Chain b)" by blast
  obtain a where a: "run_state (vx_import X (vs_URL s) name (import_request s val)) v = (a, v')"
    and r: "r = (case a of Inl e \<Rightarrow> Inl (wrap ''import'' e) | Inr c \<Rightarrow> confirm_import X s name leaf c)"
    using run l assms(4) by (auto simp: vault_Put_def certificateName_def run_bind split: prod.splits)
  have read: "reads (vs_mime s) val = crt_Raw leaf" using assms(2) l(1-3) by (auto simp: reads_leaf_def)
  note raw = ParseLeaf_raw[OF assms(3) l(1)]
  from assms(1)[unfolded takes_imports_def, rule_format, OF assms(4) a] show ?thesis
  proof
    assume "held v' = held v \<and> (\<exists>e. a = Inl e)"
    then show ?thesis using r by auto
  next
    assume "\<exists>c. held v' = (held v)(name \<mapsto> c) \<and> stored_as X reads name (import_request s val) c \<and> (a = Inr c \<or> (\<exists>e. a = Inl e))"
    then obtain c where c: "held v' = (held v)(name \<mapsto> c)" "stored_as X reads name (import_request s val) c" by blast
    have "vault_view X s (held v') name = Inr (InfoOf (vx_pki X) leaf)"
      using stored_view[OF c(2) read conjunct1[OF raw] conjunct2[OF raw]] by (simp add: vault_view_def c(1) info_not_stale)
    then show ?thesis using l(1) c(1) by blast
  qed
next
  case False
  then show ?thesis using run assms(4)
    by (auto simp: vault_Put_def certificateName_def split: option.splits if_splits)
qed

subsection \<open>The contract of a certificate store\<close>

definition vault_state_ok ::
  "'v vault_site \<Rightarrow> runner_config \<Rightarrow> job_spec \<Rightarrow> vault_store \<Rightarrow> ('v \<Rightarrow> string \<Rightarrow> kv_certificate option) \<Rightarrow>
   (string \<Rightarrow> string \<Rightarrow> string) \<Rightarrow> (string \<Rightarrow> kv_certificate option) \<Rightarrow> (nat \<times> fs) \<times> 'v \<Rightarrow> bool" where
  "vault_state_ok X cfg spec s held reads others w \<longleftrightarrow>
     vault_job X cfg spec s held reads \<and> (\<forall>name. name \<noteq> vault_object X spec \<longrightarrow> held (snd w) name = others name)"

definition vault_state_view ::
  "'v vault_site \<Rightarrow> job_spec \<Rightarrow> vault_store \<Rightarrow> ('v \<Rightarrow> string \<Rightarrow> kv_certificate option) \<Rightarrow> (nat \<times> fs) \<times> 'v \<Rightarrow> store_error + cert_info" where
  "vault_state_view X spec s held w = vault_view X s (held (snd w)) (vault_object X spec)"

lemma on_files_leaves:
  "(\<And>t r t'. run_state m t = (r, t') \<Longrightarrow> Q r) \<Longrightarrow>
   leaves (vault_state_ok X cfg spec s held reads others) (vault_state_view X spec s held) (on_files m) Q"
  by (rule leavesI) (auto simp: run_on_files vault_state_ok_def vault_state_view_def split: prod.splits)

lemma vault_object_name: "vault_job X cfg spec s held reads \<Longrightarrow> certificateNameRe (vault_object X spec)"
  using vault_name_sound(1)[of "px_sha (vx_pki X)"] by (simp add: vault_job_def vault_object_def)

interpretation kv: runner_frame "vault_ops X" cfg spec "kv_store X s" "vault_object X spec"
    "vault_state_ok X cfg spec s held reads others" "vault_state_view X spec s held" "\<lambda>_. True" "clock_reads (vx_site X)"
  for X cfg spec s held reads others
proof (unfold_locales, goal_cases)
  case 1 then show ?case by (simp add: vault_state_ok_def vault_job_def)
next
  case 2 show ?case by (simp add: kv_store_def vault_object_def)
next
  case 4 show ?case
    by (auto simp: vault_ops_def file_ops_def Let_def Now_def clock_reads_def intro!: on_files_leaves)
next
  case (6 b)
  show ?case
  proof (rule leavesI)
    fix w r w' assume ok: "vault_state_ok X cfg spec s held reads others w" and run: "run_state (op_openStore (vault_ops X) b) w = (r, w')"
    have "sb_Type b = keyvaultType" "kv_open X (sb_Config b) \<in> {None, Some s}"
      using ok 6 by (auto simp: vault_state_ok_def vault_job_def)
    then show "(\<forall>st'. r = Inr st' \<longrightarrow> st' = kv_store X s) \<and> vault_state_ok X cfg spec s held reads others w' \<and>
        vault_state_view X spec s held w' = vault_state_view X spec s held w"
      using run ok by (auto simp: vault_ops_def Let_def Registry_Open_def official_stores_def kv_provider_def keyvaultType_def filesystemType_def
          split: if_splits)
  qed
next
  case (17 v)
  show ?case
  proof (rule tripleI)
    fix w r w' assume sh: "shows_as (vault_state_ok X cfg spec s held reads others) (vault_state_view X spec s held) v w"
      and run: "run_state (st_Current (kv_store X s) (vault_object X spec)) w = (r, w')"
    obtain t x t' x' where w: "w = (t, x)" "w' = (t', x')" by (cases w; cases w') auto
    obtain a where a: "run_state (vault_Current X s (vault_object X spec)) x = (a, x')"
      and r: "r = (case a of Inl None \<Rightarrow> Inl ErrStoreNotFound | Inl (Some e) \<Rightarrow> Inl (ErrStoreIO (vault_cause e)) | Inr info \<Rightarrow> Inr info)"
      using run by (auto simp: kv_store_def run_bind run_on_vault w split: prod.splits)
    have job: "vault_job X cfg spec s held reads" using sh by (simp add: shows_as_def vault_state_ok_def)
    then have "tells_what_it_holds X (vs_URL s) held" by (simp add: vault_job_def)
    from Current_answers[OF this vault_object_name[OF job] a]
    show "(r = v \<or> (\<exists>e. r = Inl (ErrStoreIO e))) \<and> shows_as (vault_state_ok X cfg spec s held reads others) (vault_state_view X spec s held) v w'"
      using sh r by (auto simp: shows_as_def vault_state_ok_def vault_state_view_def w split: sum.splits option.splits)
  qed
next
  case (18 v b)
  show ?case
  proof (rule tripleI)
    fix w r w' assume sh: "shows_as (vault_state_ok X cfg spec s held reads others) (vault_state_view X spec s held) v w"
      and run: "run_state (st_Put (kv_store X s) (vault_object X spec) b) w = (r, w')"
    obtain t x t' x' where w: "w = (t, x)" "w' = (t', x')" by (cases w; cases w') auto
    obtain a where a: "run_state (vault_Put X s (vault_object X spec) b) x = (a, x')"
      and r: "r = (case a of Inl e \<Rightarrow> Inl (vault_cause e) | Inr u \<Rightarrow> Inr u)"
      using run by (auto simp: kv_store_def run_bind run_on_vault w split: prod.splits)
    have job: "vault_job X cfg spec s held reads" using sh by (simp add: shows_as_def vault_state_ok_def)
    then have "takes_imports X (vs_URL s) held reads" "reads_leaf X s reads" "raw_bytes (vx_pki X)" by (auto simp: vault_job_def)
    from Put_outcomes[OF this vault_object_name[OF job] a]
    show "vault_state_ok X cfg spec s held reads others w' \<and>
        (r \<noteq> Inr () \<and> vault_state_view X spec s held w' = v \<or>
         (\<exists>leaf. ParseLeaf (op_pki (vault_ops X)) (bd_Certificate b) = Some leaf \<and>
            vault_state_view X spec s held w' = Inr (InfoOf (op_pki (vault_ops X)) leaf)))"
      using sh r job
      by (auto simp: shows_as_def vault_state_ok_def vault_state_view_def w vault_ops_def file_ops_def Let_def split: sum.splits)
  qed
qed (simp_all add: vault_ops_def Let_def on_files_leaves)


text \<open>A vault that keeps the last certificate imported under each name, and the sample site with a binding to it.\<close>

definition sample_vault_pki :: pki where
  "sample_vault_pki = sample_pki\<lparr>px_parse := (\<lambda>d. if d = ''der'' then Some sample_cert else None)\<rparr>"

definition sample_id :: "string \<Rightarrow> string" where
  "sample_id name = ''https://kv-acme.vault.azure.net/certificates/'' @ name"

definition sample_version :: "string \<Rightarrow> import_params \<Rightarrow> kv_certificate" where
  "sample_version name p = \<lparr>kc_Enabled = Some (ip_Enabled p), kc_ID = Some (sample_id name), kc_CER = ''der'', kc_ContentType = Some (ip_ContentType p)\<rparr>"

definition sample_missing :: sdk_error where
  "sample_missing = \<lparr>sx_Canceled = False, sx_DeadlineExceeded = False, sx_Response = Some (404, ''CertificateNotFound''),
     sx_AuthFailed = None, sx_Unavailable = False, sx_Net = None, sx_RootType = []\<rparr>"

definition sample_vault_url :: "string \<Rightarrow> vault_url option" where
  "sample_vault_url raw =
     (let pre = ''https://kv-acme.vault.azure.net'' in
      if prefix pre raw
      then Some \<lparr>u_Scheme = ''https'', u_Host = drop 8 pre, u_Hostname = drop 8 pre, u_User = False, u_Fragment = [], u_Opaque = [],
             u_RawQuery = [], u_ForceQuery = False, u_Path = drop (length pre) raw, u_Port = []\<rparr>
      else None)"

definition sample_vault_site :: "(string \<rightharpoonup> kv_certificate) vault_site" where
  "sample_vault_site =
     \<lparr>vx_site = sample_site\<lparr>si_pki := sample_vault_pki\<rparr>, vx_fold = id, vx_url = sample_vault_url,
      vx_config = (\<lambda>_. Some \<lparr>vc_VaultURL = ''https://kv-acme.vault.azure.net'', vc_Credential = ''managed-identity'',
        vc_ManagedIdentityClientID = [], vc_ContentType = []\<rparr>),
      vx_credential = (\<lambda>_ _ _. True), vx_client = (\<lambda>_. True), vx_pkcs8 = Some, vx_pkcs12 = (\<lambda>_ _ _. None), vx_trailing = (\<lambda>_. []),
      vx_get = (\<lambda>_ name. State (\<lambda>v. (case v name of None \<Rightarrow> Inl sample_missing | Some c \<Rightarrow> Inr c, v))),
      vx_import = (\<lambda>_ name p. State (\<lambda>v. (Inr (sample_version name p), v(name \<mapsto> sample_version name p))))\<rparr>"

definition sample_vault_config :: runner_config where
  "sample_vault_config = sample_config\<lparr>rc_StoreBindings := [(''fs'', \<lparr>sb_Type = keyvaultType, sb_Config = ''{}''\<rparr>)]\<rparr>"

definition sample_vault_store :: vault_store where
  "sample_vault_store = \<lparr>vs_URL = ''https://kv-acme.vault.azure.net'', vs_ContentType = ContentTypePEM, vs_mime = mimePEM\<rparr>"

lemma sample_vault_fields:
  "vx_config sample_vault_site = (\<lambda>_. Some \<lparr>vc_VaultURL = ''https://kv-acme.vault.azure.net'', vc_Credential = ''managed-identity'',
     vc_ManagedIdentityClientID = [], vc_ContentType = []\<rparr>)"
  "vx_credential sample_vault_site = (\<lambda>_ _ _. True)" "vx_client sample_vault_site = (\<lambda>_. True)"
  "vx_import sample_vault_site = (\<lambda>_ name p. State (\<lambda>v. (Inr (sample_version name p), v(name \<mapsto> sample_version name p))))"
  by (simp_all add: sample_vault_site_def)

lemma sample_id_name: "certificateNameRe name \<Longrightarrow> idName sample_vault_site (sample_id name) = name"
proof -
  assume n: "certificateNameRe name"
  have slash: "CHR ''/'' \<notin> set name"
    using n by (auto simp: certificateNameRe_def list_all_iff is_alnum_def in_range_def byte_of_def)
  have ne: "name \<noteq> []" using n by (auto simp: certificateNameRe_def)
  let ?p = "''certificates'' @ CHR ''/'' # name"
  have "last name \<noteq> CHR ''/''" using slash last_in_set[OF ne] by metis
  then have "last ?p \<noteq> CHR ''/''" using ne by simp
  then have right: "TrimRight ?p ''/'' = ?p"
    unfolding TrimRight_def using ne by (subst dropWhile_eq_self_iff[THEN iffD2]) (auto simp: hd_rev hd_append)
  have "vx_url sample_vault_site (sample_id name) =
      Some \<lparr>u_Scheme = ''https'', u_Host = ''kv-acme.vault.azure.net'', u_Hostname = ''kv-acme.vault.azure.net'', u_User = False,
        u_Fragment = [], u_Opaque = [], u_RawQuery = [], u_ForceQuery = False, u_Path = CHR ''/'' # ?p, u_Port = []\<rparr>"
    by (simp add: sample_vault_site_def sample_vault_url_def sample_id_def)
  moreover have "TrimLeft (CHR ''/'' # ?p) ''/'' = ?p" by (simp add: TrimLeft_def)
  moreover have "Split CHR ''/'' ?p = [''certificates'', name]"
    using slash by (subst Split_append_sep) (auto simp: Split_no_sep)
  ultimately show ?thesis using right by (simp add: idName_def Let_def)
qed

lemma sample_vault_open: "kv_open sample_vault_site raw = Some sample_vault_store"
proof -
  have "ParseVaultURL sample_vault_site ''https://kv-acme.vault.azure.net'' =
      Some \<lparr>va_URL = ''https://kv-acme.vault.azure.net'', va_Host = ''kv-acme.vault.azure.net'', va_Name = ''kv-acme'', va_Cloud = AzurePublic\<rparr>"
    by code_simp
  then show ?thesis
    by (simp add: kv_open_def vault_ParseConfig_def vault_Open_def vault_New_def NewCredential_def ValidateCredential_def default_text_def
        contentTypeMIME_def CredentialDefault_def CredentialManagedIdentity_def ContentTypePEM_def sample_vault_store_def
        sample_vault_fields)
qed

lemma sample_vault_job: "vault_job sample_vault_site sample_vault_config sample_spec sample_vault_store (\<lambda>v. v) (\<lambda>_ _. ''der'')"
proof -
  have pki: "vx_pki sample_vault_site = sample_vault_pki" by (simp add: sample_vault_site_def)
  have "JobSpec_Validate sample_spec = None" using sample_site_ok by (simp add: site_ok_def)
  moreover have raw: "raw_bytes sample_vault_pki"
    by (auto simp: raw_bytes_def sample_vault_pki_def sample_cert_def sample_leaf_def split: if_splits)
  moreover have "reads_leaf sample_vault_site sample_vault_store (\<lambda>_ _. ''der'')"
  proof -
    have "crt_Raw leaf = ''der''" if "ParseLeaf sample_vault_pki d = Some leaf" for d leaf
      using ParseLeaf_raw[OF raw that] by (auto simp: sample_vault_pki_def split: if_splits)
    then show ?thesis by (auto simp: reads_leaf_def pki)
  qed
  moreover have "takes_imports sample_vault_site url (\<lambda>v. v) (\<lambda>_ _. ''der'')" for url
    using sample_id_name by (auto simp: takes_imports_def stored_as_def sample_vault_fields sample_version_def)
  moreover have "tells_what_it_holds sample_vault_site url (\<lambda>v. v)" for url
    by (auto simp: tells_what_it_holds_def sample_vault_site_def sample_missing_def split: option.splits)
  moreover have "\<forall>d. length (px_sha sample_vault_pki d) = 32"
    by (auto simp: sample_vault_pki_def sample_pki_def sample_digest_def)
  ultimately show ?thesis
    by (simp add: vault_job_def pki) (simp add: sample_vault_config_def sample_spec_def sample_vault_open split: if_splits)
qed


end
