(* ===== verification/Oidc.thy ===== *)
theory Oidc
  imports Complex_Main ConductorConfig ApiCore StrictJson
begin

text \<open>
  Bearer tokens, \<^verbatim>\<open>internal/conductor/oidc\<close>: what a token must look like (\<^verbatim>\<open>jws.go\<close>), the keys the
  provider publishes (\<^verbatim>\<open>jwk.go\<close>), fetching and caching them (\<^verbatim>\<open>discovery.go\<close>) and the decision about
  a request (\<^verbatim>\<open>oidc.go\<close>). Cryptography, the JSON lexer and decoder, URL parsing and the provider's
  answers are parameters. The cache is shared by all requests: each of its critical sections is one
  step, and other requests may have changed it before the step (\<open>ox_others\<close>).
\<close>

subsection \<open>Values, keys and parameters\<close>

text \<open>A JSON value as \<^verbatim>\<open>any\<close>; numbers are decoded as \<^verbatim>\<open>float64\<close>, whose finite values are rationals.\<close>

datatype jvalue = JString string | JNumber rat | JArray "jvalue list" | JOther

type_synonym members = "(string \<times> jvalue) list"

record jwk =
  jk_Kty :: string
  jk_Kid :: string
  jk_Use :: string
  jk_Alg :: string
  jk_N :: string
  jk_E :: string
  jk_Crv :: string
  jk_X :: string
  jk_Y :: string

datatype public_key = RSAKey nat nat | ECKey string string

record signing_key =
  sk_key :: public_key
  sk_alg :: string

record discovery =
  di_Issuer :: string
  di_JWKSURI :: string
  di_Authorization :: string
  di_Token :: string

record endpoints =
  ep_Authorization :: string
  ep_Token :: string

record oidc_config =
  oc_Issuer :: string
  oc_Audience :: string
  oc_PrincipalClaim :: string
  oc_DisplayNameClaim :: string
  oc_RolesClaim :: string
  oc_AdminValues :: "string list"
  oc_ViewerValues :: "string list"
  oc_ClockSkew :: duration
  oc_KeyCache :: duration

record oidc_state =
  os_keys :: "string \<rightharpoonup> signing_key"
  os_endpoints :: endpoints
  os_fetchedAt :: "gotime option"
  os_lastAttempt :: "gotime option"

text \<open>The answer to a request to the provider: the status and the body, if it could be read.\<close>

record oidc_world =
  ox_sha256 :: "string \<Rightarrow> string"
  ox_pkcs1v15 :: "nat \<Rightarrow> nat \<Rightarrow> string \<Rightarrow> string \<Rightarrow> bool"
  ox_pss :: "nat \<Rightarrow> nat \<Rightarrow> string \<Rightarrow> string \<Rightarrow> bool"
  ox_ecdsa :: "string \<Rightarrow> string \<Rightarrow> string \<Rightarrow> nat \<Rightarrow> nat \<Rightarrow> bool"
  ox_onCurve :: "string \<Rightarrow> string \<Rightarrow> bool"
  ox_lex :: "string \<Rightarrow> token list"
  ox_members :: "token list \<Rightarrow> (members \<times> token list) option"
  ox_jwks :: "string \<Rightarrow> jwk list option"
  ox_discovery :: "string \<Rightarrow> discovery option"
  ox_libs :: config_libs
  ox_answer :: "nat \<Rightarrow> string \<Rightarrow> (int \<times> string option) option"
  ox_now :: "nat \<Rightarrow> gotime"
  ox_others :: "nat \<Rightarrow> oidc_state \<Rightarrow> oidc_state"

subsection \<open>Limits\<close>

definition MaxPrincipalLength :: nat where "MaxPrincipalLength = 256"
definition MaxTokenSize :: nat where "MaxTokenSize = 16 * 1024"
definition MinRSABits :: nat where "MinRSABits = 2048"
definition MaxDiscoverySize :: nat where "MaxDiscoverySize = 256 * 1024"
definition MaxJWKSSize :: nat where "MaxJWKSSize = 1024 * 1024"
definition MaxKeys :: nat where "MaxKeys = 64"
definition RefreshMinInterval :: duration where "RefreshMinInterval = minute"
definition algRS256 :: string where "algRS256 = ''RS256''"
definition algPS256 :: string where "algPS256 = ''PS256''"
definition algES256 :: string where "algES256 = ''ES256''"

subsection \<open>Tokens\<close>

definition claim_value :: "members \<Rightarrow> string \<Rightarrow> jvalue option" where
  "claim_value ms name = map_of ms name"

definition text_of :: "jvalue option \<Rightarrow> string" where
  "text_of v = (case v of Some (JString s) \<Rightarrow> s | _ \<Rightarrow> [])"

record token_parts =
  tp_alg :: string
  tp_kid :: string
  tp_signingInput :: string
  tp_payload :: string
  tp_sig :: string

definition splitToken :: "oidc_world \<Rightarrow> string \<Rightarrow> token_parts option" where
  "splitToken X token =
     (if MaxTokenSize < length token then None
      else (case Split (CHR ''.'') token of
        [h, p, g] \<Rightarrow>
          if h = [] \<or> p = [] \<or> g = [] then None
          else (case b64_decode False h of
            None \<Rightarrow> None
          | Some rawHeader \<Rightarrow>
              (case Unmarshal (ox_members X) (ox_lex X rawHeader) of
                 Inl _ \<Rightarrow> None
               | Inr ms \<Rightarrow>
                   if claim_value ms ''crit'' \<noteq> None then None
                   else
                     let alg = text_of (claim_value ms ''alg''); kid = text_of (claim_value ms ''kid'') in
                     if alg \<notin> {algRS256, algPS256, algES256} then None
                     else if kid = [] then None
                     else (case (b64_decode False p, b64_decode False g) of
                             (Some payload, Some sig) \<Rightarrow>
                               Some \<lparr>tp_alg = alg, tp_kid = kid, tp_signingInput = h @ ''.'' @ p, tp_payload = payload, tp_sig = sig\<rparr>
                           | _ \<Rightarrow> None)))
      | _ \<Rightarrow> None))"

text \<open>\<^verbatim>\<open>big.Int.SetBytes\<close>\<close>

definition big_int :: "string \<Rightarrow> nat" where
  "big_int s = foldl (\<lambda>n c. n * 256 + byte_of c) 0 s"

definition verifySignature :: "oidc_world \<Rightarrow> string \<Rightarrow> public_key \<Rightarrow> string \<Rightarrow> string \<Rightarrow> bool" where
  "verifySignature X alg key inp sig =
     (let digest = ox_sha256 X inp in
      if alg = algRS256 then (case key of RSAKey n e \<Rightarrow> ox_pkcs1v15 X n e digest sig | _ \<Rightarrow> False)
      else if alg = algPS256 then (case key of RSAKey n e \<Rightarrow> ox_pss X n e digest sig | _ \<Rightarrow> False)
      else if alg = algES256
      then (case key of
              ECKey x y \<Rightarrow> length sig = 64 \<and> ox_ecdsa X x y digest (big_int (take 32 sig)) (big_int (drop 32 sig))
            | _ \<Rightarrow> False)
      else False)"

definition decodeClaims :: "oidc_world \<Rightarrow> string \<Rightarrow> members option" where
  "decodeClaims X payload = (case Unmarshal (ox_members X) (ox_lex X payload) of Inl _ \<Rightarrow> None | Inr ms \<Rightarrow> Some ms)"

text \<open>The conversion of a \<^verbatim>\<open>float64\<close> to \<^verbatim>\<open>int64\<close> truncates.\<close>

definition numericDate :: "jvalue option \<Rightarrow> int option" where
  "numericDate v =
     (case v of
        Some (JNumber n) \<Rightarrow>
          if n > 2 ^ 53 \<or> n < - (2 ^ 53) then None
          else Some (if 0 \<le> n then \<lfloor>n\<rfloor> else \<lceil>n\<rceil>)
      | _ \<Rightarrow> None)"

fun all_strings :: "jvalue list \<Rightarrow> string list option" where
  "all_strings [] = Some []"
| "all_strings (JString s # vs) = map_option (\<lambda>ss. s # ss) (all_strings vs)"
| "all_strings (_ # vs) = None"

definition stringList :: "jvalue option \<Rightarrow> string list" where
  "stringList v =
     (case v of
        Some (JString s) \<Rightarrow> [s]
      | Some (JArray vs) \<Rightarrow> (case all_strings vs of None \<Rightarrow> [] | Some ss \<Rightarrow> ss)
      | _ \<Rightarrow> [])"

subsection \<open>Keys\<close>

definition rsaKey :: "jwk \<Rightarrow> public_key option" where
  "rsaKey k =
     (case (b64_decode False (jk_N k), b64_decode False (jk_E k)) of
        (Some n, Some e) \<Rightarrow>
          if n = [] \<or> e = [] \<or> 4 < length e then None
          else if big_int n < 2 ^ (MinRSABits - 1) then None
          else if big_int e < 3 \<or> even (big_int e) then None
          else Some (RSAKey (big_int n) (big_int e))
      | _ \<Rightarrow> None)"

definition ecKey :: "oidc_world \<Rightarrow> jwk \<Rightarrow> public_key option" where
  "ecKey X k =
     (if jk_Crv k \<noteq> ''P-256'' then None
      else (case (b64_decode False (jk_X k), b64_decode False (jk_Y k)) of
              (Some x, Some y) \<Rightarrow> if length x \<noteq> 32 \<or> length y \<noteq> 32 \<or> \<not> ox_onCurve X x y then None else Some (ECKey x y)
            | _ \<Rightarrow> None))"

text \<open>What the loop over the key set does with one key: skip it, refuse the set, or add it.\<close>

datatype key_verdict = KSkip | KRefuse | KUse public_key

definition judge_key :: "oidc_world \<Rightarrow> jwk \<Rightarrow> key_verdict" where
  "judge_key X k =
     (let use = (\<lambda>p. case p of None \<Rightarrow> KRefuse | Some key \<Rightarrow> KUse key) in
      if jk_Kid k = [] \<or> (jk_Use k \<noteq> [] \<and> jk_Use k \<noteq> ''sig'') then KSkip
      else if jk_Kty k = ''RSA''
      then (if jk_Alg k \<noteq> [] \<and> jk_Alg k \<noteq> algRS256 \<and> jk_Alg k \<noteq> algPS256
            then (if jk_Alg k = algES256 then KRefuse else KSkip)
            else use (rsaKey k))
      else if jk_Kty k = ''EC''
      then (if jk_Alg k \<noteq> [] \<and> jk_Alg k \<noteq> algES256
            then (if jk_Alg k = algRS256 \<or> jk_Alg k = algPS256 then KRefuse else KSkip)
            else use (ecKey X k))
      else KSkip)"

fun collect_keys :: "oidc_world \<Rightarrow> (string \<rightharpoonup> signing_key) \<Rightarrow> jwk list \<Rightarrow> (string \<rightharpoonup> signing_key) option" where
  "collect_keys X found [] = Some found"
| "collect_keys X found (k # ks) =
     (case judge_key X k of
        KSkip \<Rightarrow> collect_keys X found ks
      | KRefuse \<Rightarrow> None
      | KUse key \<Rightarrow>
          if found (jk_Kid k) \<noteq> None then None
          else collect_keys X (found(jk_Kid k \<mapsto> \<lparr>sk_key = key, sk_alg = jk_Alg k\<rparr>)) ks)"

definition parseJWKS :: "oidc_world \<Rightarrow> string \<Rightarrow> (string \<rightharpoonup> signing_key) option" where
  "parseJWKS X data =
     (case ox_jwks X data of
        None \<Rightarrow> None
      | Some keys \<Rightarrow>
          if MaxKeys < length keys then None
          else (case collect_keys X Map.empty keys of
                  None \<Rightarrow> None
                | Some out \<Rightarrow> if list_all (\<lambda>k. out (jk_Kid k) = None) keys then None else Some out))"

subsection \<open>Fetching and caching\<close>

type_synonym 'a oidc = "(nat \<times> oidc_state, 'a) state"

text \<open>A critical section: it sees the cache as the other requests left it.\<close>

definition locked :: "oidc_world \<Rightarrow> (oidc_state \<Rightarrow> 'a \<times> oidc_state) \<Rightarrow> 'a oidc" where
  "locked X f = State (\<lambda>(n, s). case f (ox_others X n s) of (a, s') \<Rightarrow> (a, (Suc n, s')))"

definition oidc_now :: "oidc_world \<Rightarrow> gotime oidc" where
  "oidc_now X = State (\<lambda>(n, s). (ox_now X n, (Suc n, s)))"

definition http_get :: "oidc_world \<Rightarrow> string \<Rightarrow> nat \<Rightarrow> string option oidc" where
  "http_get X url most = State (\<lambda>(n, s).
     (case ox_answer X n url of
        None \<Rightarrow> None
      | Some (status, body) \<Rightarrow>
          if status \<noteq> 200 then None
          else (case body of None \<Rightarrow> None | Some data \<Rightarrow> if most < length data then None else Some data),
      (Suc n, s)))"

definition DiscoveryURL :: "string \<Rightarrow> string" where
  "DiscoveryURL issuer =
     (if issuer \<noteq> [] \<and> last issuer = CHR ''/'' then butlast issuer else issuer) @ ''/.well-known/openid-configuration''"

definition read_discovery :: "oidc_world \<Rightarrow> oidc_config \<Rightarrow> string \<Rightarrow> discovery option" where
  "read_discovery X C data =
     (case ox_discovery X data of
        None \<Rightarrow> None
      | Some doc \<Rightarrow>
          if di_Issuer doc \<noteq> oc_Issuer C then None
          else if \<not> list_all (ValidateIssuerURL (ox_libs X)) [di_JWKSURI doc, di_Authorization doc, di_Token doc] then None
          else Some doc)"

definition fetchDiscovery :: "oidc_world \<Rightarrow> oidc_config \<Rightarrow> discovery option oidc" where
  "fetchDiscovery X C =
     do { data \<leftarrow> http_get X (DiscoveryURL (oc_Issuer C)) MaxDiscoverySize;
          State_Monad.return (Option.bind data (read_discovery X C)) }"

definition fetchKeys :: "oidc_world \<Rightarrow> string \<Rightarrow> (string \<rightharpoonup> signing_key) option oidc" where
  "fetchKeys X uri =
     do { data \<leftarrow> http_get X uri MaxJWKSSize; State_Monad.return (Option.bind data (parseJWKS X)) }"

definition within_interval :: "gotime \<Rightarrow> gotime option \<Rightarrow> duration \<Rightarrow> bool" where
  "within_interval now t d \<longleftrightarrow> (case t of None \<Rightarrow> False | Some t \<Rightarrow> now - t < d)"

text \<open>The part of \<^verbatim>\<open>refresh\<close> that talks to the provider and installs what it got.\<close>

definition fetch_and_install :: "oidc_world \<Rightarrow> oidc_config \<Rightarrow> bool oidc" where
  "fetch_and_install X C =
     do {
       doc \<leftarrow> fetchDiscovery X C;
       case doc of
         None \<Rightarrow> State_Monad.return False
       | Some doc \<Rightarrow> do {
           keys \<leftarrow> fetchKeys X (di_JWKSURI doc);
           case keys of
             None \<Rightarrow> State_Monad.return False
           | Some keys \<Rightarrow> do {
               now \<leftarrow> oidc_now X;
               _ \<leftarrow> locked X (\<lambda>s. ((), s\<lparr>os_keys := keys,
                       os_endpoints := \<lparr>ep_Authorization = di_Authorization doc, ep_Token = di_Token doc\<rparr>,
                       os_fetchedAt := Some now\<rparr>));
               State_Monad.return True } } }"

definition refresh :: "oidc_world \<Rightarrow> oidc_config \<Rightarrow> bool oidc" where
  "refresh X C =
     do {
       now \<leftarrow> oidc_now X;
       recent \<leftarrow> locked X (\<lambda>s. if within_interval now (os_fetchedAt s) RefreshMinInterval then (True, s)
                               else (False, s\<lparr>os_lastAttempt := Some now\<rparr>));
       if recent then State_Monad.return True else fetch_and_install X C }"

definition keyFor :: "oidc_world \<Rightarrow> oidc_config \<Rightarrow> string \<Rightarrow> signing_key option oidc" where
  "keyFor X C kid =
     do {
       now \<leftarrow> oidc_now X;
       (key, stale, throttled) \<leftarrow> locked X (\<lambda>s. ((os_keys s kid, \<not> within_interval now (os_fetchedAt s) (oc_KeyCache C),
                                       within_interval now (os_lastAttempt s) RefreshMinInterval), s));
       if key \<noteq> None \<and> \<not> stale then State_Monad.return key
       else if throttled then State_Monad.return key
       else do { _ \<leftarrow> refresh X C; locked X (\<lambda>s. (os_keys s kid, s)) } }"

definition Endpoints :: "oidc_world \<Rightarrow> oidc_config \<Rightarrow> endpoints option oidc" where
  "Endpoints X C =
     do {
       now \<leftarrow> oidc_now X;
       (ep, fetched, throttled) \<leftarrow> locked X (\<lambda>s. ((os_endpoints s, os_fetchedAt s \<noteq> None,
                                       within_interval now (os_lastAttempt s) RefreshMinInterval), s));
       if fetched then State_Monad.return (Some ep)
       else if throttled then State_Monad.return None
       else do {
         ok \<leftarrow> refresh X C;
         if ok then locked X (\<lambda>s. (Some (os_endpoints s), s)) else State_Monad.return None } }"

definition Prime :: "oidc_world \<Rightarrow> oidc_config \<Rightarrow> bool oidc" where
  "Prime X C = refresh X C"

subsection \<open>Authentication\<close>

definition bearerToken :: "(nat \<Rightarrow> nat) \<Rightarrow> string list \<Rightarrow> string option" where
  "bearerToken tbl values =
     (case values of
        [v] \<Rightarrow>
          let scheme = takeWhile (\<lambda>c. c \<noteq> CHR '' '') v; token = TrimSpace (drop (Suc (length scheme)) v) in
          if CHR '' '' \<notin> set v \<or> \<not> EqualFold tbl scheme ''Bearer'' then None
          else if token = [] \<or> MaxTokenSize < length token then None
          else if list_ex (\<lambda>c. byte_of c \<le> 0x20 \<or> 0x7F \<le> byte_of c) token then None
          else Some token
      | _ \<Rightarrow> None)"

definition check_claims :: "oidc_config \<Rightarrow> gotime \<Rightarrow> members \<Rightarrow> bool" where
  "check_claims C moment ms =
     (let now = unix_of moment; skew = oc_ClockSkew C div second in
      if text_of (claim_value ms ''iss'') \<noteq> oc_Issuer C then False
      else if oc_Audience C \<notin> set (stringList (claim_value ms ''aud'')) then False
      else (case numericDate (claim_value ms ''exp'') of
              None \<Rightarrow> False
            | Some expiry \<Rightarrow>
                if expiry + skew \<le> now then False
                else
                  (case claim_value ms ''nbf'' of
                     None \<Rightarrow> True
                   | Some v \<Rightarrow> (case numericDate (Some v) of None \<Rightarrow> False | Some nbf \<Rightarrow> nbf - skew \<le> now)) \<and>
                  (case claim_value ms ''iat'' of
                     None \<Rightarrow> True
                   | Some v \<Rightarrow> (case numericDate (Some v) of None \<Rightarrow> False | Some iat \<Rightarrow> iat - skew \<le> now))))"

definition verify :: "oidc_world \<Rightarrow> oidc_config \<Rightarrow> string \<Rightarrow> members option oidc" where
  "verify X C token =
     (case splitToken X token of
        None \<Rightarrow> State_Monad.return None
      | Some t \<Rightarrow> do {
          key \<leftarrow> keyFor X C (tp_kid t);
          case key of
            None \<Rightarrow> State_Monad.return None
          | Some k \<Rightarrow>
              if sk_alg k \<noteq> [] \<and> sk_alg k \<noteq> tp_alg t then State_Monad.return None
              else if \<not> verifySignature X (tp_alg t) (sk_key k) (tp_signingInput t) (tp_sig t) then State_Monad.return None
              else (case decodeClaims X (tp_payload t) of
                      None \<Rightarrow> State_Monad.return None
                    | Some ms \<Rightarrow> do {
                        moment \<leftarrow> oidc_now X;
                        State_Monad.return (if check_claims C moment ms then Some ms else None) }) })"

definition printable_claim :: "oidc_world \<Rightarrow> nat \<Rightarrow> string \<Rightarrow> bool" where
  "printable_claim X most v \<longleftrightarrow>
     length v \<le> most \<and> valid_utf8 v \<and> TrimSpace v = v \<and>
     list_all (\<lambda>r. r \<noteq> rune_error \<and> IsPrint (pf_unicode (cl_platform (ox_libs X))) r) (runes v)"

definition principal_of :: "oidc_world \<Rightarrow> oidc_config \<Rightarrow> members \<Rightarrow> string option" where
  "principal_of X C ms =
     (let v = text_of (claim_value ms (oc_PrincipalClaim C)) in
      if v = [] \<or> \<not> printable_claim X MaxPrincipalLength v then None else Some v)"

definition displayName :: "oidc_world \<Rightarrow> oidc_config \<Rightarrow> members \<Rightarrow> string" where
  "displayName X C ms =
     (if oc_DisplayNameClaim C = [] then []
      else
        let v = text_of (claim_value ms (oc_DisplayNameClaim C)) in
        if v = [] \<or> \<not> printable_claim X MaxPrincipalDisplayNameLength v then [] else v)"

definition role_of :: "oidc_config \<Rightarrow> members \<Rightarrow> string option" where
  "role_of C ms =
     (let values = stringList (claim_value ms (oc_RolesClaim C)) in
      if list_ex (\<lambda>v. v \<in> set (oc_AdminValues C)) values then Some RoleAdmin
      else if list_ex (\<lambda>v. v \<in> set (oc_ViewerValues C)) values then Some RoleViewer
      else None)"

definition Authenticate :: "oidc_world \<Rightarrow> oidc_config \<Rightarrow> string list \<Rightarrow> (auth_error + principal) oidc" where
  "Authenticate X C values =
     (case bearerToken (cl_fold (ox_libs X)) values of
        None \<Rightarrow> State_Monad.return (Inl ErrUnauthenticated)
      | Some token \<Rightarrow> do {
          claims \<leftarrow> verify X C token;
          State_Monad.return (case claims of
            None \<Rightarrow> Inl ErrUnauthenticated
          | Some ms \<Rightarrow>
              (case principal_of X C ms of
                 None \<Rightarrow> Inl ErrUnauthenticated
               | Some name \<Rightarrow>
                   (case role_of C ms of
                      None \<Rightarrow> Inl ErrForbidden
                    | Some role \<Rightarrow> Inr \<lparr>pr_Name = name, pr_Authority = oc_Issuer C, pr_Role = role, pr_DisplayName = displayName X C ms\<rparr>))) })"

definition New_ok :: "oidc_config \<Rightarrow> bool" where
  "New_ok C \<longleftrightarrow>
     oc_Issuer C \<noteq> [] \<and> oc_Audience C \<noteq> [] \<and> oc_PrincipalClaim C \<noteq> [] \<and> oc_RolesClaim C \<noteq> [] \<and>
     oc_AdminValues C \<noteq> [] \<and> 0 < oc_ClockSkew C \<and> 0 < oc_KeyCache C"

end
