(* ===== verification/ConfigProps.thy ===== *)
theory ConfigProps
  imports ConductorConfig
begin

text \<open>
  What a validated Conductor configuration guarantees, and that validating it again changes
  nothing.
\<close>

subsection \<open>Sections\<close>

lemma default_int_again [simp]: "default_int d (default_int d v) = default_int d v"
  by (simp add: default_int_def)

lemma default_text_again [simp]: "default_text d (default_text d v) = default_text d v"
  by (simp add: default_text_def)

lemma OIDC_defaults_again [simp]: "OIDC_defaults (OIDC_defaults s) = OIDC_defaults s"
  by (simp add: OIDC_defaults_def)

lemma OIDC_validate_iff: "OIDC_validate L s = Some s' \<longleftrightarrow> s' = OIDC_defaults s \<and> OIDC_ok L s'"
  by (auto simp: OIDC_validate_def Let_def)

lemma OIDC_validate_again: "OIDC_validate L s = Some s' \<Longrightarrow> OIDC_validate L s' = Some s'"
  by (auto simp: OIDC_validate_iff)

lemma Scheduler_validate_again: "Scheduler_validate s = Some s' \<Longrightarrow> Scheduler_validate s' = Some s'"
  by (auto simp: Scheduler_validate_def Let_def split: if_splits)

lemma ConductorSigning_validate_again: "ConductorSigning_validate j = Some j' \<Longrightarrow> ConductorSigning_validate j' = Some j'"
  by (auto simp: ConductorSigning_validate_def Let_def split: if_splits)

lemma ConductorResults_validate_again: "ConductorResults_validate L r = Some r' \<Longrightarrow> ConductorResults_validate L r' = Some r'"
  by (auto simp: ConductorResults_validate_def Let_def split: if_splits option.splits)

lemma ConductorProvisioning_validate_again:
  "ConductorProvisioning_validate L acme a = Some a' \<Longrightarrow> ConductorProvisioning_validate L acme a' = Some a'"
  by (auto simp: ConductorProvisioning_validate_def split: if_splits option.splits)

lemma NormalizeSuffix_again: "NormalizeSuffix s = Inr z \<Longrightarrow> NormalizeSuffix z = Inr z"
  by (auto simp: NormalizeSuffix_iff NormalizeFQDN_fixpoint dest: NormalizeFQDN_canonical)

lemma validate_zones_again: "validate_zones dns zs = Some zs' \<Longrightarrow> validate_zones dns zs' = Some zs'"
proof (induction zs arbitrary: zs')
  case (Cons x zs)
  then show ?case by (cases x) (auto simp: NormalizeSuffix_again split: if_splits sum.splits option.splits)
qed simp

lemma checked_section_again:
  "checked_section f x = Some y \<Longrightarrow> (\<And>v v'. f v = Some v' \<Longrightarrow> f v' = Some v') \<Longrightarrow> checked_section f y = Some y"
  by (auto simp: checked_section_def split: option.splits)

text \<open>Who can reach the listener: its own host only, or callers with a token over TLS.\<close>

definition server_sound :: "config_libs \<Rightarrow> server_section \<Rightarrow> bool" where
  "server_sound L s \<longleftrightarrow>
     (\<exists>host port. cl_splitHostPort L (se_Listen s) = Some (host, port) \<and> port \<noteq> [] \<and>
       (if IsLoopbackHost (cl_fold L) (cl_platform L) host then se_AuthMode s \<in> {AuthLocalhostDev, AuthOIDC}
        else se_AuthMode s = AuthOIDC \<and> (se_TLS s \<noteq> None \<or> se_BehindTLSProxy s))) \<and>
     (se_AuthMode s = AuthLocalhostDev \<longrightarrow> se_OIDC s = None \<and> se_TLS s = None \<and> \<not> se_BehindTLSProxy s) \<and>
     (se_AuthMode s = AuthOIDC \<longrightarrow> (\<exists>oi. se_OIDC s = Some oi \<and> OIDC_ok L oi \<and> OIDC_defaults oi = oi)) \<and>
     (\<forall>t. se_TLS s = Some t \<longrightarrow> TLS_validate t \<and> \<not> se_BehindTLSProxy s) \<and>
     1 \<le> se_ShutdownGraceSeconds s \<and> se_ShutdownGraceSeconds s \<le> MaxShutdownGraceSeconds \<and> se_Listen s \<noteq> []"

lemma modes: "AuthLocalhostDev \<noteq> AuthOIDC" "AuthLocalhostDev \<noteq> []" "AuthOIDC \<noteq> []" "DefaultListen \<noteq> []"
  by (simp_all add: AuthLocalhostDev_def AuthOIDC_def DefaultListen_def)

lemma default_text_nonempty: "d \<noteq> [] \<Longrightarrow> default_text d v \<noteq> []"
  by (simp add: default_text_def)

lemma Server_validate_sound:
  assumes "Server_validate L s = Some s'"
  shows "server_sound L s'"
proof -
  obtain host port where "cl_splitHostPort L (default_text DefaultListen (se_Listen s)) = Some (host, port)"
    using assms by (auto simp: Server_validate_def Let_def split: option.splits)
  then show ?thesis using assms default_text_nonempty[OF modes(4), of "se_Listen s"]
    by (cases "default_text AuthLocalhostDev (se_AuthMode s) = AuthLocalhostDev")
      (auto simp: Server_validate_def server_sound_def Let_def OIDC_validate_iff modes split: if_splits option.splits)
qed

lemma server_sound_validates:
  assumes "server_sound L s"
  shows "Server_validate L s = Some s"
proof -
  have d: "default_text DefaultListen (se_Listen s) = se_Listen s"
    "default_text AuthLocalhostDev (se_AuthMode s) = se_AuthMode s"
    "default_int DefaultShutdownGraceSeconds (se_ShutdownGraceSeconds s) = se_ShutdownGraceSeconds s"
    using assms by (auto simp: server_sound_def default_text_def default_int_def modes split: if_splits)
  obtain host port where h: "cl_splitHostPort L (se_Listen s) = Some (host, port)" "port \<noteq> []"
    using assms by (auto simp: server_sound_def)
  show ?thesis
  proof (cases "se_AuthMode s = AuthLocalhostDev")
    case True
    then show ?thesis using assms h d
      by (auto simp: Server_validate_def server_sound_def Let_def modes split: if_splits)
  next
    case False
    then obtain oi where "se_AuthMode s = AuthOIDC" "se_OIDC s = Some oi" "OIDC_validate L oi = Some oi"
      using assms by (auto simp: server_sound_def OIDC_validate_iff split: if_splits)
    then show ?thesis using assms h d False
      by (auto simp: Server_validate_def server_sound_def Let_def split: if_splits option.splits)
  qed
qed

subsection \<open>The whole configuration\<close>

lemma ConductorConfig_Validate_iff:
  "ConductorConfig_Validate L c = Some c' \<longleftrightarrow>
     co_APIVersion c = APIVersion \<and> co_Kind c = ConductorConfigKind \<and> Database_validate (co_DatabasePath c) \<and>
     co_ExecutionBindings c \<noteq> [] \<and>
     list_all (\<lambda>(n, b). IsBindingName n \<and> ExecutionBinding_validate (cl_platform L) b) (co_ExecutionBindings c) \<and>
     validateNames (co_ACMEBindings c) \<and> validateNames (co_DNSBindings c) \<and> validateNames (co_StoreBindings c) \<and>
     co_RemovedMigration c = None \<and>
     (\<exists>srv sch zones js rs ap.
        Server_validate L (co_Server c) = Some srv \<and> Scheduler_validate (co_Scheduler c) = Some sch \<and>
        validate_zones (co_DNSBindings c) (co_DNSChallengeZones c) = Some zones \<and>
        checked_section ConductorSigning_validate (co_JobSigning c) = Some js \<and>
        checked_section (ConductorResults_validate L) (co_ResultSigning c) = Some rs \<and>
        checked_section (ConductorProvisioning_validate L (co_ACMEBindings c)) (co_AccountProvisioning c) = Some ap \<and>
        c' = c\<lparr>co_Server := srv, co_Scheduler := sch, co_DNSChallengeZones := zones, co_JobSigning := js, co_ResultSigning := rs,
               co_AccountProvisioning := ap\<rparr>)"
  unfolding ConductorConfig_Validate_def by (auto simp: bind_eq_Some_conv)

text \<open>Every section of an accepted configuration is accepted unchanged.\<close>

lemma ConductorConfig_sections:
  assumes "ConductorConfig_Validate L c0 = Some c"
  shows "Server_validate L (co_Server c) = Some (co_Server c)"
    "Scheduler_validate (co_Scheduler c) = Some (co_Scheduler c)"
    "validate_zones (co_DNSBindings c) (co_DNSChallengeZones c) = Some (co_DNSChallengeZones c)"
    "checked_section ConductorSigning_validate (co_JobSigning c) = Some (co_JobSigning c)"
    "checked_section (ConductorResults_validate L) (co_ResultSigning c) = Some (co_ResultSigning c)"
    "checked_section (ConductorProvisioning_validate L (co_ACMEBindings c)) (co_AccountProvisioning c) = Some (co_AccountProvisioning c)"
proof -
  from assms obtain srv sch zones js rs ap where v:
    "Server_validate L (co_Server c0) = Some srv" "Scheduler_validate (co_Scheduler c0) = Some sch"
    "validate_zones (co_DNSBindings c0) (co_DNSChallengeZones c0) = Some zones"
    "checked_section ConductorSigning_validate (co_JobSigning c0) = Some js"
    "checked_section (ConductorResults_validate L) (co_ResultSigning c0) = Some rs"
    "checked_section (ConductorProvisioning_validate L (co_ACMEBindings c0)) (co_AccountProvisioning c0) = Some ap"
    and c: "c = c0\<lparr>co_Server := srv, co_Scheduler := sch, co_DNSChallengeZones := zones, co_JobSigning := js, co_ResultSigning := rs,
               co_AccountProvisioning := ap\<rparr>"
    unfolding ConductorConfig_Validate_iff by blast
  show "Server_validate L (co_Server c) = Some (co_Server c)"
    using server_sound_validates[OF Server_validate_sound[OF v(1)]] by (simp add: c)
  show "Scheduler_validate (co_Scheduler c) = Some (co_Scheduler c)"
    using Scheduler_validate_again[OF v(2)] by (simp add: c)
  show "validate_zones (co_DNSBindings c) (co_DNSChallengeZones c) = Some (co_DNSChallengeZones c)"
    using validate_zones_again[OF v(3)] by (simp add: c)
  show "checked_section ConductorSigning_validate (co_JobSigning c) = Some (co_JobSigning c)"
    using checked_section_again[OF v(4) ConductorSigning_validate_again] by (simp add: c)
  show "checked_section (ConductorResults_validate L) (co_ResultSigning c) = Some (co_ResultSigning c)"
    using checked_section_again[OF v(5) ConductorResults_validate_again] by (simp add: c)
  show "checked_section (ConductorProvisioning_validate L (co_ACMEBindings c)) (co_AccountProvisioning c) = Some (co_AccountProvisioning c)"
    using checked_section_again[OF v(6) ConductorProvisioning_validate_again] by (simp add: c)
qed

lemma ConductorConfig_Validate_again:
  assumes "ConductorConfig_Validate L c0 = Some c"
  shows "ConductorConfig_Validate L c = Some c"
proof -
  note v = ConductorConfig_sections[OF assms]
  have "c = c\<lparr>co_Server := co_Server c, co_Scheduler := co_Scheduler c, co_DNSChallengeZones := co_DNSChallengeZones c,
      co_JobSigning := co_JobSigning c, co_ResultSigning := co_ResultSigning c, co_AccountProvisioning := co_AccountProvisioning c\<rparr>" by simp
  with v show ?thesis using assms unfolding ConductorConfig_Validate_iff by auto
qed

lemma Scheduler_validate_sound:
  "Scheduler_validate s = Some s' \<Longrightarrow>
     1 \<le> sc_TickSeconds s' \<and> 1 \<le> sc_MaxConcurrentRuns s' \<and> sc_MaxConcurrentRuns s' \<le> MaxMaxConcurrentRuns \<and>
     1 \<le> sc_RetryBackoffSeconds s' \<and> sc_RetryBackoffSeconds s' \<le> sc_MaxRetryBackoffSeconds s' \<and>
     sc_MaxRetryBackoffSeconds s' \<le> MaxRetryBackoffSeconds"
  by (auto simp: Scheduler_validate_def Let_def split: if_splits)

lemma ConductorProvisioning_validate_sound:
  "ConductorProvisioning_validate L acme a = Some a' \<Longrightarrow>
     cv_pub a' \<noteq> None \<and> set (cv_TargetScopedBindings a') \<subseteq> set (cv_Bindings a') \<and> set (cv_Bindings a') \<subseteq> set acme"
  by (auto simp: ConductorProvisioning_validate_def list_all_iff split: if_splits option.splits)

lemma validate_zones_sound:
  "validate_zones dns zs = Some zs' \<Longrightarrow> \<forall>(n, z) \<in> set zs'. n \<in> set dns \<and> NormalizeSuffix z = Inr z"
proof (induction zs arbitrary: zs')
  case (Cons x zs)
  then show ?case by (cases x) (fastforce simp: NormalizeSuffix_again split: if_splits sum.splits option.splits)
qed simp

text \<open>
  Property C14: a configuration the Conductor accepts is fit to run with. Its listener is reachable
  from other hosts only in the mode that requires tokens, and then behind TLS; in that mode no value
  of the roles claim grants both roles. The scheduler's pace is bounded and the first retry delay
  does not exceed the largest. Binding names are valid and listed once, the bindings with account
  provisioning are ACME bindings and the target-scoped ones are among them, and challenge zones are
  canonical names of known DNS bindings. Validating the accepted configuration again accepts it
  unchanged.
\<close>

theorem conductor_config_sound:
  assumes "ConductorConfig_Read L D data = Some c"
  shows "server_sound L (co_Server c) \<and>
    (\<forall>oi. se_OIDC (co_Server c) = Some oi \<longrightarrow> set (oi_AdminRoles oi) \<inter> set (oi_ViewerRoles oi) = {}) \<and>
    1 \<le> sc_TickSeconds (co_Scheduler c) \<and>
    1 \<le> sc_MaxConcurrentRuns (co_Scheduler c) \<and> sc_MaxConcurrentRuns (co_Scheduler c) \<le> MaxMaxConcurrentRuns \<and>
    1 \<le> sc_RetryBackoffSeconds (co_Scheduler c) \<and>
    sc_RetryBackoffSeconds (co_Scheduler c) \<le> sc_MaxRetryBackoffSeconds (co_Scheduler c) \<and>
    sc_MaxRetryBackoffSeconds (co_Scheduler c) \<le> MaxRetryBackoffSeconds \<and>
    (\<forall>names \<in> {co_ACMEBindings c, co_DNSBindings c, co_StoreBindings c}. distinct names \<and> names \<noteq> [] \<and> list_all IsBindingName names) \<and>
    set (TargetScoped (co_AccountProvisioning c)) \<subseteq> set (EABBindings (co_AccountProvisioning c)) \<and>
    set (EABBindings (co_AccountProvisioning c)) \<subseteq> set (co_ACMEBindings c) \<and>
    (\<forall>(n, z) \<in> set (co_DNSChallengeZones c). n \<in> set (co_DNSBindings c) \<and> NormalizeSuffix z = Inr z) \<and>
    ConductorConfig_Validate L c = Some c"
proof -
  obtain c0 where c0: "ConductorConfig_Validate L c0 = Some c"
    using assms by (auto simp: ConductorConfig_Read_def split: if_splits option.splits)
  have again: "ConductorConfig_Validate L c = Some c" by (rule ConductorConfig_Validate_again[OF c0])
  note ap = ConductorConfig_sections[OF c0]
  note srv = Server_validate_sound[OF ap(1)]
  have roles: "set (oi_AdminRoles oi) \<inter> set (oi_ViewerRoles oi) = {}" if "se_OIDC (co_Server c) = Some oi" for oi
    using srv that by (auto simp: server_sound_def OIDC_ok_def split: if_splits)
  have prov: "set (TargetScoped (co_AccountProvisioning c)) \<subseteq> set (EABBindings (co_AccountProvisioning c)) \<and>
      set (EABBindings (co_AccountProvisioning c)) \<subseteq> set (co_ACMEBindings c)"
    using ap(6) ConductorProvisioning_validate_sound
    by (fastforce simp: checked_section_def TargetScoped_def EABBindings_def split: option.splits)
  have names: "\<forall>names \<in> {co_ACMEBindings c, co_DNSBindings c, co_StoreBindings c}. distinct names \<and> names \<noteq> [] \<and> list_all IsBindingName names"
    using again unfolding ConductorConfig_Validate_iff by (auto simp: validateNames_def)
  show ?thesis using srv roles prov names Scheduler_validate_sound[OF ap(2)] validate_zones_sound[OF ap(3)] again by blast
qed

definition sample_libs :: config_libs where
  "sample_libs = \<lparr>cl_platform = \<lparr>pf_unicode = \<lparr>print_table = (\<lambda>_. False), lower_table = (\<lambda>r. r)\<rparr>, pf_parseURL = (\<lambda>_. None),
       pf_parseIP = (\<lambda>s. if s = ''127.0.0.1'' then Some IPLoopback else None), pf_jsonValid = (\<lambda>_. True), pf_parsePublicKey = (\<lambda>_. None)\<rparr>,
     cl_crypto = sample_crypto,
     cl_fold = (\<lambda>r. r), cl_issuerURL = (\<lambda>_. None),
     cl_splitHostPort = (\<lambda>s. if s = DefaultListen then Some (''127.0.0.1'', ''8080'') else None), cl_provisioningKey = Some\<rparr>"

definition sample_document :: conductor_config where
  "sample_document = \<lparr>co_APIVersion = APIVersion, co_Kind = ConductorConfigKind,
     co_Server = \<lparr>se_Listen = [], se_AuthMode = [], se_OIDC = None, se_TLS = None, se_BehindTLSProxy = False, se_ShutdownGraceSeconds = 0\<rparr>,
     co_DatabasePath = ''/var/lib/registry.db'',
     co_Scheduler = \<lparr>sc_TickSeconds = 0, sc_MaxConcurrentRuns = 0, sc_RetryBackoffSeconds = 0, sc_MaxRetryBackoffSeconds = 0\<rparr>,
     co_ExecutionBindings = [(''local'', \<lparr>xb_Type = ''local-process'', xb_Config = ''{}''\<rparr>)],
     co_ACMEBindings = [''ca''], co_DNSBindings = [''dns''], co_StoreBindings = [''fs''],
     co_DNSChallengeZones = [(''dns'', ''Acme.Example.org'')], co_JobSigning = None, co_ResultSigning = None, co_RemovedMigration = None,
     co_AccountProvisioning = Some \<lparr>cv_PublicKey = ''key'', cv_Bindings = [''ca''], cv_TargetScopedBindings = [], cv_pub = None\<rparr>\<rparr>"

definition sample_document_codec :: "conductor_config codec" where
  "sample_document_codec = \<lparr>cd_read = (\<lambda>_. Some sample_document), cd_write = (\<lambda>_. [])\<rparr>"

definition sample_config :: conductor_config where
  "sample_config = sample_document\<lparr>
     co_Server := \<lparr>se_Listen = DefaultListen, se_AuthMode = AuthLocalhostDev, se_OIDC = None, se_TLS = None, se_BehindTLSProxy = False,
       se_ShutdownGraceSeconds = 900\<rparr>,
     co_Scheduler := \<lparr>sc_TickSeconds = 60, sc_MaxConcurrentRuns = 2, sc_RetryBackoffSeconds = 300, sc_MaxRetryBackoffSeconds = 21600\<rparr>,
     co_DNSChallengeZones := [(''dns'', ''acme.example.org'')],
     co_AccountProvisioning := Some \<lparr>cv_PublicKey = ''key'', cv_Bindings = [''ca''], cv_TargetScopedBindings = [], cv_pub = Some ''key''\<rparr>\<rparr>"

lemma sample_sections:
  "Server_validate sample_libs (co_Server sample_document) = Some (co_Server sample_config)"
  "Scheduler_validate (co_Scheduler sample_document) = Some (co_Scheduler sample_config)"
  "validate_zones (co_DNSBindings sample_document) (co_DNSChallengeZones sample_document) = Some (co_DNSChallengeZones sample_config)"
  "checked_section (ConductorProvisioning_validate sample_libs (co_ACMEBindings sample_document)) (co_AccountProvisioning sample_document)
     = Some (co_AccountProvisioning sample_config)"
  by code_simp+

lemma sample_lists:
  "Database_validate (co_DatabasePath sample_document)"
  "list_all (\<lambda>(n, b). IsBindingName n \<and> ExecutionBinding_validate (cl_platform sample_libs) b) (co_ExecutionBindings sample_document)"
  "validateNames (co_ACMEBindings sample_document)" "validateNames (co_DNSBindings sample_document)" "validateNames (co_StoreBindings sample_document)"
  by code_simp+

lemma sample_config_read: "ConductorConfig_Read sample_libs sample_document_codec [] = Some sample_config"
proof -
  have "ConductorConfig_Validate sample_libs sample_document = Some sample_config"
    unfolding ConductorConfig_Validate_iff using sample_sections sample_lists
    by (auto simp: checked_section_def sample_document_def sample_config_def)
  then show ?thesis by (simp add: ConductorConfig_Read_def sample_document_codec_def)
qed

theorem conductor_config_sound_witness:
  "server_sound sample_libs (co_Server sample_config) \<and> ConductorConfig_Validate sample_libs sample_config = Some sample_config \<and>
   se_AuthMode (co_Server sample_config) = AuthLocalhostDev"
  using conductor_config_sound[OF sample_config_read] by (simp add: sample_config_def)

end
