(* ===== verification/OidcProps.thy ===== *)
theory OidcProps
  imports Oidc Effects ConfigProps
begin

text \<open>
  Which tokens are accepted: only those signed by a key the configured issuer publishes, for this
  audience, within their validity, with a role the configuration grants; and where the keys in the
  cache come from.
\<close>

subsection \<open>Published keys\<close>

text \<open>The key \<open>k\<close> was published under \<open>kid\<close>: the issuer's discovery document named the key set that holds it.\<close>

definition published :: "oidc_world \<Rightarrow> oidc_config \<Rightarrow> string \<Rightarrow> signing_key \<Rightarrow> bool" where
  "published X C kid k \<longleftrightarrow>
     (\<exists>n m data doc body keys.
        ox_answer X n (DiscoveryURL (oc_Issuer C)) = Some (200, Some data) \<and> read_discovery X C data = Some doc \<and>
        ox_answer X m (di_JWKSURI doc) = Some (200, Some body) \<and> parseJWKS X body = Some keys \<and> keys kid = Some k)"

definition keys_published :: "oidc_world \<Rightarrow> oidc_config \<Rightarrow> oidc_state \<Rightarrow> bool" where
  "keys_published X C s \<longleftrightarrow> (\<forall>kid k. os_keys s kid = Some k \<longrightarrow> published X C kid k)"

text \<open>The other requests use the same code.\<close>

definition fair_others :: "oidc_world \<Rightarrow> oidc_config \<Rightarrow> bool" where
  "fair_others X C \<longleftrightarrow> (\<forall>n s. keys_published X C s \<longrightarrow> keys_published X C (ox_others X n s))"

definition strong_key :: "oidc_world \<Rightarrow> signing_key \<Rightarrow> bool" where
  "strong_key X k = (case sk_key k of
     RSAKey n e \<Rightarrow> 2 ^ (MinRSABits - 1) \<le> n \<and> 3 \<le> e \<and> odd e \<and> sk_alg k \<in> {[], algRS256, algPS256}
   | ECKey x y \<Rightarrow> ox_onCurve X x y \<and> sk_alg k \<in> {[], algES256})"

lemma judge_key_strong: "judge_key X k = KUse key \<Longrightarrow> strong_key X \<lparr>sk_key = key, sk_alg = jk_Alg k\<rparr>"
  by (auto simp: judge_key_def Let_def strong_key_def rsaKey_def ecKey_def split: if_splits option.splits)

lemma collect_keys_strong:
  "collect_keys X found ks = Some out \<Longrightarrow> (\<And>kid k. found kid = Some k \<Longrightarrow> strong_key X k) \<Longrightarrow> out kid = Some k \<Longrightarrow> strong_key X k"
proof (induction X found ks arbitrary: kid k rule: collect_keys.induct)
  case (2 X found j ks)
  show ?case
  proof (cases "judge_key X j")
    case (KUse key)
    have "strong_key X k'" if "(found(jk_Kid j \<mapsto> \<lparr>sk_key = key, sk_alg = jk_Alg j\<rparr>)) kid' = Some k'" for kid' k'
      using that 2(4)[of kid' k'] judge_key_strong[OF KUse] by (auto split: if_splits)
    moreover have "found (jk_Kid j) = None" "collect_keys X (found(jk_Kid j \<mapsto> \<lparr>sk_key = key, sk_alg = jk_Alg j\<rparr>)) ks = Some out"
      using 2(3) KUse by (auto split: if_splits)
    ultimately show ?thesis using 2(2)[OF KUse _ _ _ 2(5)] by blast
  qed (use 2 in auto)
qed auto

lemma published_strong: "published X C kid k \<Longrightarrow> strong_key X k"
  by (auto simp: published_def parseJWKS_def split: option.splits if_splits dest: collect_keys_strong)

subsection \<open>The cache holds published keys only\<close>

definition cached :: "oidc_world \<Rightarrow> oidc_config \<Rightarrow> nat \<times> oidc_state \<Rightarrow> bool" where
  "cached X C st \<longleftrightarrow> keys_published X C (snd st)"

lemma triple_now: "triple (cached X C) (oidc_now X) (\<lambda>_. cached X C)"
  by (auto simp: triple_def oidc_now_def cached_def)

lemma triple_get:
  "triple (cached X C) (http_get X url most)
     (\<lambda>r st. cached X C st \<and> (\<forall>data. r = Some data \<longrightarrow> (\<exists>n. ox_answer X n url = Some (200, Some data))))"
  by (fastforce simp: triple_def http_get_def cached_def split: option.splits if_splits)

lemma triple_locked:
  assumes "fair_others X C" "\<And>s a s'. keys_published X C s \<Longrightarrow> f s = (a, s') \<Longrightarrow> keys_published X C s' \<and> Q a"
  shows "triple (cached X C) (locked X f) (\<lambda>a st. cached X C st \<and> Q a)"
proof (rule tripleI)
  fix st r st' assume c: "cached X C st" and run: "run_state (locked X f) st = (r, st')"
  obtain n s where st: "st = (n, s)" by (cases st)
  have o: "keys_published X C (ox_others X n s)" using c assms(1) st by (simp add: cached_def fair_others_def)
  obtain a s' where f: "f (ox_others X n s) = (a, s')" by (cases "f (ox_others X n s)")
  then show "cached X C st' \<and> Q r" using run st assms(2)[OF o f] by (auto simp: locked_def cached_def)
qed

lemma triple_locked_cached:
  assumes "fair_others X C" "\<And>s a s'. keys_published X C s \<Longrightarrow> f s = (a, s') \<Longrightarrow> keys_published X C s'"
  shows "triple (cached X C) (locked X f) (\<lambda>_. cached X C)"
  by (rule triple_post[OF triple_locked[OF assms(1), where Q = "\<lambda>_. True"]]) (use assms(2) in auto)

lemma triple_fetchDiscovery:
  "triple (cached X C) (fetchDiscovery X C)
     (\<lambda>r st. cached X C st \<and> (\<forall>doc. r = Some doc \<longrightarrow>
        (\<exists>n data. ox_answer X n (DiscoveryURL (oc_Issuer C)) = Some (200, Some data) \<and> read_discovery X C data = Some doc)))"
  unfolding fetchDiscovery_def
  by (rule triple_bind[OF triple_get], rule triple_return, clarsimp simp: bind_eq_Some_conv, blast)

lemma triple_fetchKeys:
  "triple (cached X C) (fetchKeys X uri)
     (\<lambda>r st. cached X C st \<and> (\<forall>keys. r = Some keys \<longrightarrow>
        (\<exists>m body. ox_answer X m uri = Some (200, Some body) \<and> parseJWKS X body = Some keys)))"
  unfolding fetchKeys_def
  by (rule triple_bind[OF triple_get], rule triple_return, clarsimp simp: bind_eq_Some_conv, blast)

lemma triple_install:
  assumes "fair_others X C" "\<And>kid k. keys kid = Some k \<Longrightarrow> published X C kid k"
  shows "triple (cached X C) (locked X (\<lambda>s. ((), s\<lparr>os_keys := keys, os_endpoints := ep, os_fetchedAt := t\<rparr>))) (\<lambda>_. cached X C)"
  by (rule triple_locked_cached[OF assms(1)]) (use assms(2) in \<open>auto simp: keys_published_def\<close>)

lemma triple_fetch_and_install:
  assumes "fair_others X C"
  shows "triple (cached X C) (fetch_and_install X C) (\<lambda>_. cached X C)"
  unfolding fetch_and_install_def
proof (rule triple_bind[OF triple_fetchDiscovery])
  fix doc
  show "triple (\<lambda>st. cached X C st \<and> (\<forall>d. doc = Some d \<longrightarrow>
        (\<exists>n data. ox_answer X n (DiscoveryURL (oc_Issuer C)) = Some (200, Some data) \<and> read_discovery X C data = Some d)))
     (case doc of
         None \<Rightarrow> State_Monad.return False
       | Some doc \<Rightarrow> do {
           keys \<leftarrow> fetchKeys X (di_JWKSURI doc);
           case keys of
             None \<Rightarrow> State_Monad.return False
           | Some keys \<Rightarrow> do {
               now \<leftarrow> oidc_now X;
               _ \<leftarrow> locked X (\<lambda>s. ((), s\<lparr>os_keys := keys,
                       os_endpoints := \<lparr>ep_Authorization = di_Authorization doc, ep_Token = di_Token doc\<rparr>,
                       os_fetchedAt := Some now\<rparr>));
               State_Monad.return True } }) (\<lambda>_. cached X C)"
  proof (cases doc)
    case (Some d)
    show ?thesis unfolding Some option.case
    proof (subst conj_commute, rule triple_fact, rule triple_bind[OF triple_fetchKeys], rule triple_pre)
      fix keys
      assume d: "\<forall>d'. Some d = Some d' \<longrightarrow>
        (\<exists>n data. ox_answer X n (DiscoveryURL (oc_Issuer C)) = Some (200, Some data) \<and> read_discovery X C data = Some d')"
      let ?fetched = "\<forall>ks. keys = Some ks \<longrightarrow> (\<exists>m body. ox_answer X m (di_JWKSURI d) = Some (200, Some body) \<and> parseJWKS X body = Some ks)"
      show "triple (\<lambda>st. ?fetched \<and> cached X C st) (case keys of
             None \<Rightarrow> State_Monad.return False
           | Some keys \<Rightarrow> do {
               now \<leftarrow> oidc_now X;
               _ \<leftarrow> locked X (\<lambda>s. ((), s\<lparr>os_keys := keys,
                       os_endpoints := \<lparr>ep_Authorization = di_Authorization d, ep_Token = di_Token d\<rparr>,
                       os_fetchedAt := Some now\<rparr>));
               State_Monad.return True }) (\<lambda>_. cached X C)"
      proof (rule triple_fact)
        assume k: ?fetched
        have "published X C kid x" if "keys = Some ks" "ks kid = Some x" for ks kid x
          using d k that unfolding published_def by blast
        then show "triple (cached X C) (case keys of
             None \<Rightarrow> State_Monad.return False
           | Some keys \<Rightarrow> do {
               now \<leftarrow> oidc_now X;
               _ \<leftarrow> locked X (\<lambda>s. ((), s\<lparr>os_keys := keys,
                       os_endpoints := \<lparr>ep_Authorization = di_Authorization d, ep_Token = di_Token d\<rparr>,
                       os_fetchedAt := Some now\<rparr>));
               State_Monad.return True }) (\<lambda>_. cached X C)"
          by (cases keys) (auto intro!: triple_return triple_bind[OF triple_now] triple_bind[OF triple_install[OF assms]])
      qed
    qed auto
  qed (auto intro: triple_return)
qed

lemma triple_refresh:
  assumes "fair_others X C"
  shows "triple (cached X C) (refresh X C) (\<lambda>_. cached X C)"
  unfolding refresh_def
proof (rule triple_bind[OF triple_now], rule triple_bind[OF triple_locked_cached[OF assms]])
  fix now recent
  show "triple (cached X C) (if recent then State_Monad.return True else fetch_and_install X C) (\<lambda>_. cached X C)"
    using triple_fetch_and_install[OF assms] by (auto intro: triple_return)
qed (auto simp: keys_published_def split: if_splits)

lemma triple_keyFor:
  assumes "fair_others X C"
  shows "triple (cached X C) (keyFor X C kid) (\<lambda>r st. cached X C st \<and> (\<forall>k. r = Some k \<longrightarrow> published X C kid k))"
proof -
  let ?Q = "\<lambda>r st. cached X C st \<and> (\<forall>k. r = Some k \<longrightarrow> published X C kid k)"
  have last: "triple (cached X C) (do { _ \<leftarrow> refresh X C; locked X (\<lambda>s. (os_keys s kid, s)) }) ?Q"
    by (rule triple_bind[OF triple_refresh[OF assms]], rule triple_locked[OF assms]) (auto simp: keys_published_def)
  show ?thesis unfolding keyFor_def
  proof (rule triple_bind[OF triple_now], rule triple_bind[OF triple_locked[OF assms, where Q = "\<lambda>(key, _). \<forall>k. key = Some k \<longrightarrow> published X C kid k"]])
    fix x :: "signing_key option \<times> bool \<times> bool"
    show "triple (\<lambda>st. cached X C st \<and> (case x of (key, _) \<Rightarrow> \<forall>k. key = Some k \<longrightarrow> published X C kid k))
       (case x of (key, stale, throttled) \<Rightarrow>
          if key \<noteq> None \<and> \<not> stale then State_Monad.return key
          else if throttled then State_Monad.return key
          else do { _ \<leftarrow> refresh X C; locked X (\<lambda>s. (os_keys s kid, s)) }) ?Q"
      by (cases x) (auto intro: triple_return triple_pre[OF last])
  qed (auto simp: keys_published_def)
qed

subsection \<open>Accepted tokens\<close>

text \<open>What a token must be for \<open>ms\<close> to be its verified claims.\<close>

definition verified_token :: "oidc_world \<Rightarrow> oidc_config \<Rightarrow> string \<Rightarrow> members \<Rightarrow> gotime \<Rightarrow> bool" where
  "verified_token X C token ms moment \<longleftrightarrow>
     (\<exists>t k. splitToken X token = Some t \<and> published X C (tp_kid t) k \<and> strong_key X k \<and> sk_alg k \<in> {[], tp_alg t} \<and>
        verifySignature X (tp_alg t) (sk_key k) (tp_signingInput t) (tp_sig t) \<and>
        decodeClaims X (tp_payload t) = Some ms \<and> check_claims C moment ms)"

lemma run_now: "run_state (oidc_now X) (n, s) = (ox_now X n, (Suc n, s))"
  by (simp add: oidc_now_def)

lemma verify_sound:
  assumes run: "run_state (verify X C token) (n, s) = (Some ms, (n', s'))" and "keys_published X C s" "fair_others X C"
  shows "\<exists>m. verified_token X C token ms (ox_now X m)" "keys_published X C s'"
proof -
  obtain t where t: "splitToken X token = Some t" using run by (auto simp: verify_def split: option.splits)
  obtain r n1 s1 where key: "run_state (keyFor X C (tp_kid t)) (n, s) = (r, (n1, s1))" by (metis prod_cases3)
  have pub: "keys_published X C s1" "\<And>k. r = Some k \<Longrightarrow> published X C (tp_kid t) k"
    using tripleD[OF triple_keyFor[OF assms(3)] _ key] assms(2) by (auto simp: cached_def)
  obtain k where k: "r = Some k" using run t key by (auto simp: verify_def run_bind split: option.splits)
  note pk = pub(2)[OF k]
  have "verified_token X C token ms (ox_now X n1) \<and> s' = s1"
    using run t key k pk published_strong[OF pk]
    by (auto simp: verify_def verified_token_def run_bind run_now split: if_splits option.splits)
  then show "\<exists>m. verified_token X C token ms (ox_now X m)" "keys_published X C s'" using pub(1) by auto
qed

lemma role_of_admin: "role_of C ms = Some r \<Longrightarrow>
    (r = RoleAdmin \<longleftrightarrow> set (stringList (claim_value ms (oc_RolesClaim C))) \<inter> set (oc_AdminValues C) \<noteq> {}) \<and>
    (r = RoleAdmin \<or> r = RoleViewer \<and> set (stringList (claim_value ms (oc_RolesClaim C))) \<inter> set (oc_ViewerValues C) \<noteq> {})"
  by (auto simp: role_of_def Let_def list_ex_iff RoleAdmin_def RoleViewer_def split: if_splits)

text \<open>The caller \<open>p\<close> presented a verified token in the header \<open>values\<close>, and is who its claims say.\<close>

definition accepted_caller :: "oidc_world \<Rightarrow> oidc_config \<Rightarrow> string list \<Rightarrow> principal \<Rightarrow> bool" where
  "accepted_caller X C values p \<longleftrightarrow>
    (\<exists>token ms m.
       bearerToken (cl_fold (ox_libs X)) values = Some token \<and> verified_token X C token ms (ox_now X m) \<and>
       text_of (claim_value ms ''iss'') = oc_Issuer C \<and> oc_Audience C \<in> set (stringList (claim_value ms ''aud'')) \<and>
       (\<exists>e. numericDate (claim_value ms ''exp'') = Some e \<and> unix_of (ox_now X m) < e + oc_ClockSkew C div second) \<and>
       pr_Name p = text_of (claim_value ms (oc_PrincipalClaim C)) \<and> pr_Name p \<noteq> [] \<and> printable_claim X MaxPrincipalLength (pr_Name p) \<and>
       pr_Authority p = oc_Issuer C \<and>
       (pr_Role p = RoleAdmin \<longleftrightarrow> set (stringList (claim_value ms (oc_RolesClaim C))) \<inter> set (oc_AdminValues C) \<noteq> {}) \<and>
       (pr_Role p = RoleAdmin \<or> pr_Role p = RoleViewer))"

lemma Authenticate_sound:
  assumes run: "run_state (Authenticate X C values) (n, s) = (Inr p, (n', s'))"
    and "keys_published X C s" "fair_others X C"
  shows "accepted_caller X C values p" "keys_published X C s'"
proof -
  obtain token where token: "bearerToken (cl_fold (ox_libs X)) values = Some token"
    using run by (auto simp: Authenticate_def split: option.splits)
  obtain r n1 s1 where v: "run_state (verify X C token) (n, s) = (r, (n1, s1))" by (metis prod_cases3)
  obtain ms name role where r: "r = Some ms" "principal_of X C ms = Some name" "role_of C ms = Some role" "s' = s1"
    and p: "p = \<lparr>pr_Name = name, pr_Authority = oc_Issuer C, pr_Role = role, pr_DisplayName = displayName X C ms\<rparr>"
    using run token v by (auto simp: Authenticate_def run_bind split: option.splits)
  obtain m where m: "verified_token X C token ms (ox_now X m)" and s1: "keys_published X C s1"
    using verify_sound[OF v[unfolded r(1)] assms(2,3)] by blast
  then have "check_claims C (ox_now X m) ms" by (auto simp: verified_token_def)
  then have claims: "text_of (claim_value ms ''iss'') = oc_Issuer C" "oc_Audience C \<in> set (stringList (claim_value ms ''aud''))"
    "\<exists>e. numericDate (claim_value ms ''exp'') = Some e \<and> unix_of (ox_now X m) < e + oc_ClockSkew C div second"
    by (auto simp: check_claims_def Let_def split: if_splits option.splits)
  have name: "name = text_of (claim_value ms (oc_PrincipalClaim C))" "name \<noteq> []" "printable_claim X MaxPrincipalLength name"
    using r(2) by (auto simp: principal_of_def Let_def split: if_splits)
  show "accepted_caller X C values p" unfolding accepted_caller_def
    using token m claims name p role_of_admin[OF r(3)] by (intro conjI exI[of _ token] exI[of _ ms] exI[of _ m]) auto
  show "keys_published X C s'" using s1 r(4) by simp
qed

text \<open>
  Property C16: who an accepted request comes from. The request carries one bearer token, whose
  header names one of three asymmetric algorithms and a key the configured issuer published for
  it; the key is strong enough and the signature over header and payload verifies under it. The
  claims name the issuer and this API's audience and the time is within their validity, up to the
  clock skew. The principal is the configured claim under the issuer's authority, a non-empty
  printable name, and is an administrator exactly if its roles contain an administrator value. The
  cache never holds a key the issuer did not publish, whatever other requests do in between.
\<close>

theorem oidc_token_sound:
  assumes run: "run_state (Authenticate X C values) (n, s) = (Inr p, (n', s'))"
    and "keys_published X C s" "fair_others X C"
  shows "keys_published X C s' \<and>
    (\<exists>token ms m.
       bearerToken (cl_fold (ox_libs X)) values = Some token \<and> verified_token X C token ms (ox_now X m) \<and>
       text_of (claim_value ms ''iss'') = oc_Issuer C \<and> oc_Audience C \<in> set (stringList (claim_value ms ''aud'')) \<and>
       (\<exists>e. numericDate (claim_value ms ''exp'') = Some e \<and> unix_of (ox_now X m) < e + oc_ClockSkew C div second) \<and>
       pr_Name p = text_of (claim_value ms (oc_PrincipalClaim C)) \<and> pr_Name p \<noteq> [] \<and> printable_claim X MaxPrincipalLength (pr_Name p) \<and>
       pr_Authority p = oc_Issuer C \<and>
       (pr_Role p = RoleAdmin \<longleftrightarrow> set (stringList (claim_value ms (oc_RolesClaim C))) \<inter> set (oc_AdminValues C) \<noteq> {}) \<and>
       (pr_Role p = RoleAdmin \<or> pr_Role p = RoleViewer))"
  using Authenticate_sound[OF assms] unfolding accepted_caller_def by blast

definition sample_provider :: oidc_config where
  "sample_provider = \<lparr>oc_Issuer = ''https://id'', oc_Audience = ''api'', oc_PrincipalClaim = ''sub'', oc_DisplayNameClaim = [],
     oc_RolesClaim = ''roles'', oc_AdminValues = [''Admin''], oc_ViewerValues = [], oc_ClockSkew = 60 * second, oc_KeyCache = hour\<rparr>"

definition sample_jwk :: jwk where
  "sample_jwk = \<lparr>jk_Kty = ''EC'', jk_Kid = ''k1'', jk_Use = [], jk_Alg = algES256, jk_N = [], jk_E = [], jk_Crv = ''P-256'',
     jk_X = replicate 43 CHR ''A'', jk_Y = replicate 43 CHR ''A''\<rparr>"

definition sample_discovery :: discovery where
  "sample_discovery = \<lparr>di_Issuer = ''https://id'', di_JWKSURI = ''keys'', di_Authorization = ''auth'', di_Token = ''token''\<rparr>"

text \<open>Documents are told apart by one letter; every signature verifies.\<close>

definition sample_members :: "token list \<Rightarrow> (members \<times> token list) option" where
  "sample_members ts = (case ts of
     [_, TString s, _, _] \<Rightarrow> Some (if s = ''h'' then [(''alg'', JString algES256), (''kid'', JString ''k1'')]
       else [(''iss'', JString ''https://id''), (''aud'', JArray [JString ''api'']), (''exp'', JNumber 1000),
             (''sub'', JString ''alice''), (''roles'', JString ''Admin'')], [])
   | _ \<Rightarrow> None)"

definition sample_oidc :: oidc_world where
  "sample_oidc = \<lparr>ox_sha256 = (\<lambda>s. s), ox_pkcs1v15 = (\<lambda>_ _ _ _. False), ox_pss = (\<lambda>_ _ _ _. False), ox_ecdsa = (\<lambda>_ _ _ _ _. True),
     ox_onCurve = (\<lambda>_ _. True), ox_lex = (\<lambda>s. [TDelim (CHR ''{''), TString s, TNull, TDelim (CHR ''}'')]), ox_members = sample_members,
     ox_jwks = (\<lambda>_. Some [sample_jwk]), ox_discovery = (\<lambda>_. Some sample_discovery),
     ox_libs = sample_libs\<lparr>cl_issuerURL := (\<lambda>_. Some \<lparr>u_Scheme = ''https'', u_Host = ''id'', u_Hostname = ''id'', u_User = False, u_Fragment = [],
       u_Opaque = [], u_RawQuery = [], u_ForceQuery = False\<rparr>)\<rparr>,
     ox_answer = (\<lambda>_ _. Some (200, Some [])), ox_now = (\<lambda>_. 0), ox_others = (\<lambda>_ s. s)\<rparr>"

definition sample_zeros :: string where "sample_zeros = replicate 32 (CHR 0x00)"

definition sample_signing :: signing_key where
  "sample_signing = \<lparr>sk_key = ECKey sample_zeros sample_zeros, sk_alg = algES256\<rparr>"

definition sample_cache :: oidc_state where
  "sample_cache = \<lparr>os_keys = [''k1'' \<mapsto> sample_signing], os_endpoints = \<lparr>ep_Authorization = [], ep_Token = []\<rparr>,
     os_fetchedAt = Some 0, os_lastAttempt = Some 0\<rparr>"

definition sample_token :: string where
  "sample_token = ''aA.cA.'' @ replicate 86 CHR ''A''"

definition sample_claims :: members where
  "sample_claims = fst (the (sample_members [TNull, TString ''p'', TNull, TNull]))"

definition sample_admin :: principal where
  "sample_admin = \<lparr>pr_Name = ''alice'', pr_Authority = ''https://id'', pr_Role = RoleAdmin, pr_DisplayName = []\<rparr>"

lemma sample_bearer: "bearerToken (cl_fold (ox_libs sample_oidc)) [''Bearer '' @ sample_token] = Some sample_token"
  by code_simp

lemma sample_split: "splitToken sample_oidc sample_token =
    Some \<lparr>tp_alg = algES256, tp_kid = ''k1'', tp_signingInput = ''aA.cA'', tp_payload = ''p'', tp_sig = replicate 64 (CHR 0x00)\<rparr>"
  by code_simp

lemma sample_judge: "judge_key sample_oidc sample_jwk = KUse (ECKey sample_zeros sample_zeros)"
  by code_simp

lemma sample_decode: "decodeClaims sample_oidc ''p'' = Some sample_claims"
  by code_simp

lemma sample_claims: "sample_claims = [(''iss'', JString ''https://id''), (''aud'', JArray [JString ''api'']), (''exp'', JNumber 1000),
    (''sub'', JString ''alice''), (''roles'', JString ''Admin'')]"
  by (simp add: sample_claims_def sample_members_def)

lemma sample_checks: "check_claims sample_provider 0 sample_claims"
  by (simp add: check_claims_def sample_claims sample_provider_def claim_value_def text_of_def stringList_def numericDate_def unix_of_def)

lemma rune_pairs_ascii: "list_all (\<lambda>c. byte_of c < 128) s \<Longrightarrow> rune_pairs s = map (\<lambda>c. (byte_of c, 1)) s"
  by (induction s) (auto simp: decode_rune_def)

lemma sample_name: "principal_of sample_oidc sample_provider sample_claims = Some ''alice''"
proof -
  have "TrimSpace ''alice'' = ''alice''" by (rule TrimSpace_visible) (simp_all add: visible_def byte_of_def)
  moreover have "rune_pairs ''alice'' = [(97, 1), (108, 1), (105, 1), (99, 1), (101, 1)]"
    by (subst rune_pairs_ascii) (simp_all add: byte_of_def)
  then have "valid_utf8 ''alice''" "runes ''alice'' = [97, 108, 105, 99, 101]" 
    unfolding valid_utf8_def runes_def by (simp_all add: rune_error_def del: rune_pairs.simps)
  ultimately show ?thesis
    by (simp add: principal_of_def sample_claims sample_provider_def claim_value_def text_of_def printable_claim_def MaxPrincipalLength_def
        rune_error_def IsPrint_def)
qed

lemma sample_role: "role_of sample_provider sample_claims = Some RoleAdmin"
  by code_simp

lemma sample_login: "run_state (Authenticate sample_oidc sample_provider [''Bearer '' @ sample_token]) (0, sample_cache) =
    (Inr sample_admin, (3, sample_cache))"
proof -
  have key: "run_state (keyFor sample_oidc sample_provider ''k1'') (0, sample_cache) = (Some sample_signing, (2, sample_cache))"
    by (simp add: keyFor_def run_bind run_now locked_def sample_oidc_def sample_cache_def within_interval_def sample_provider_def)
  have sig: "verifySignature sample_oidc algES256 (sk_key sample_signing) ''aA.cA'' (replicate 64 (CHR 0x00))"
    by (simp add: verifySignature_def sample_signing_def algRS256_def algPS256_def algES256_def sample_oidc_def)
  have "run_state (verify sample_oidc sample_provider sample_token) (0, sample_cache) = (Some sample_claims, (3, sample_cache))"
    using key sig sample_decode sample_checks sample_split
    by (simp add: verify_def run_bind run_now sample_signing_def) (simp add: sample_oidc_def)
  then show ?thesis unfolding Authenticate_def sample_bearer
    by (simp add: run_bind sample_name sample_role sample_admin_def displayName_def) (simp add: sample_provider_def)
qed

lemma sample_published: "keys_published sample_oidc sample_provider sample_cache"
proof -
  have "parseJWKS sample_oidc [] = Some [''k1'' \<mapsto> sample_signing]"
    using sample_judge by (simp add: parseJWKS_def MaxKeys_def sample_signing_def sample_oidc_def[THEN arg_cong[where f = ox_jwks]] sample_jwk_def)
  moreover have "read_discovery sample_oidc sample_provider [] = Some sample_discovery"
    by (simp add: read_discovery_def sample_oidc_def sample_discovery_def sample_provider_def ValidateIssuerURL_def)
  ultimately have "published sample_oidc sample_provider ''k1'' sample_signing"
    unfolding published_def by (intro exI) (auto simp: sample_oidc_def[THEN arg_cong[where f = ox_answer]])
  then show ?thesis by (auto simp: keys_published_def sample_cache_def)
qed

theorem oidc_token_sound_witness:
  "keys_published sample_oidc sample_provider sample_cache \<and> pr_Role sample_admin = RoleAdmin \<and> pr_Authority sample_admin = oc_Issuer sample_provider"
proof -
  have "fair_others sample_oidc sample_provider" by (simp add: fair_others_def sample_oidc_def)
  from oidc_token_sound[OF sample_login sample_published this] show ?thesis by (auto simp: sample_admin_def)
qed

end
