(* ===== verification/Conductor.thy ===== *)
theory Conductor
  imports OidcProps ApiProps "HOL-Library.Multiset"
begin

text \<open>
  How the Conductor puts its parts together, \<^verbatim>\<open>internal/conductor/conductor.go\<close>: the authenticator,
  the API server and the scheduler's settings that an accepted configuration gives.
\<close>

subsection \<open>From the configuration to the parts\<close>

definition oidc_config_of :: "oidc_section \<Rightarrow> oidc_config" where
  "oidc_config_of s =
     \<lparr>oc_Issuer = oi_Issuer s, oc_Audience = oi_Audience s, oc_PrincipalClaim = oi_PrincipalClaim s,
      oc_DisplayNameClaim = (if oi_DisplayNameClaim s = NoOIDCDisplayNameClaim then [] else oi_DisplayNameClaim s),
      oc_RolesClaim = oi_RolesClaim s, oc_AdminValues = oi_AdminRoles s, oc_ViewerValues = oi_ViewerRoles s,
      oc_ClockSkew = oi_ClockSkewSeconds s * second, oc_KeyCache = oi_KeyCacheSeconds s * second\<rparr>"

text \<open>
  The authenticator as it decides when the key cache is in state \<open>st\<close>; \<open>authorizations\<close> are the values of
  the \<^verbatim>\<open>Authorization\<close> header. \<open>None\<close> is an error: the Conductor does not start.
\<close>

definition buildAuth ::
  "config_libs \<Rightarrow> oidc_world \<Rightarrow> server \<Rightarrow> (request \<Rightarrow> string list) \<Rightarrow> conductor_config \<Rightarrow> string \<Rightarrow> nat \<times> oidc_state
    \<Rightarrow> (request \<Rightarrow> auth_error + principal) option" where
  "buildAuth L X S authorizations c port st =
     (let srv = co_Server c in
      if se_AuthMode srv = AuthLocalhostDev then Some (LocalhostDev_Authenticate S (cl_splitHostPort L) port)
      else if se_AuthMode srv = AuthOIDC
      then (case se_OIDC srv of
              None \<Rightarrow> None
            | Some oi \<Rightarrow>
                let C = oidc_config_of oi in
                if New_ok C then Some (\<lambda>r. fst (run_state (Authenticate X C (authorizations r)) st)) else None)
      else None)"

text \<open>\<^verbatim>\<open>sortStrings\<close>: the entry at index \<open>j\<close> moves down past larger ones.\<close>

fun sift_down :: "nat \<Rightarrow> string list \<Rightarrow> string list" where
  "sift_down 0 s = s"
| "sift_down (Suc j) s = (if s ! Suc j < s ! j then sift_down j (s[Suc j := s ! j, j := s ! Suc j]) else s)"

definition sortStrings :: "string list \<Rightarrow> string list" where
  "sortStrings s = foldl (\<lambda>s i. sift_down i s) s [1..<length s]"

definition bindings_of :: "conductor_config \<Rightarrow> bindings" where
  "bindings_of c =
     \<lparr>bn_Execution = sortStrings (map fst (co_ExecutionBindings c)), bn_ACME = co_ACMEBindings c, bn_DNS = co_DNSBindings c,
      bn_Store = co_StoreBindings c\<rparr>"

text \<open>The server \<open>S\<close> stands for what the configuration does not decide.\<close>

definition server_of ::
  "config_libs \<Rightarrow> oidc_world \<Rightarrow> server \<Rightarrow> (request \<Rightarrow> string list) \<Rightarrow> conductor_config \<Rightarrow> string \<Rightarrow> nat \<times> oidc_state \<Rightarrow> server" where
  "server_of L X S authorizations c port st =
     S\<lparr>sv_bind := bindings_of c, sv_auth := buildAuth L X S authorizations c port st,
       sv_provisioning := Provisioning_Key (co_AccountProvisioning c),
       sv_eabBindings := EABBindings (co_AccountProvisioning c), sv_targetScoped := TargetScoped (co_AccountProvisioning c)\<rparr>"

definition sched_cfg_of :: "(gotime \<Rightarrow> string) \<Rightarrow> conductor_config \<Rightarrow> sched_cfg" where
  "sched_cfg_of fmt c =
     \<lparr>c_eab = set (EABBindings (co_AccountProvisioning c)), c_scoped = set (TargetScoped (co_AccountProvisioning c)),
      c_backoff = sc_RetryBackoffSeconds (co_Scheduler c) * second, c_maxBack = sc_MaxRetryBackoffSeconds (co_Scheduler c) * second,
      c_maxRuns = nat (sc_MaxConcurrentRuns (co_Scheduler c)), c_rfc3339 = fmt\<rparr>"

subsection \<open>Sorting\<close>

lemma length_sift [simp]: "length (sift_down j s) = length s"
  by (induction j s rule: sift_down.induct) auto

lemma mset_sift: "j < length s \<Longrightarrow> mset (sift_down j s) = mset s"
  by (induction j s rule: sift_down.induct) (auto simp: mset_swap)

lemma sift_above: "j < i \<Longrightarrow> sift_down j s ! i = s ! i"
  by (induction j s rule: sift_down.induct) auto

text \<open>If all but the entry at \<open>j\<close> are in order among the first ones, \<open>sift_down\<close> brings them in order.\<close>

lemma sift_sorted:
  assumes "j < length s" "\<And>a b. a < b \<Longrightarrow> b \<le> m \<Longrightarrow> a \<noteq> j \<Longrightarrow> b \<noteq> j \<Longrightarrow> s ! a \<le> s ! b" "\<And>b. j < b \<Longrightarrow> b \<le> m \<Longrightarrow> s ! j \<le> s ! b"
    "j \<le> m" "m < length s" "a < b" "b \<le> m"
  shows "sift_down j s ! a \<le> sift_down j s ! b"
  using assms
proof (induction j s arbitrary: a b rule: sift_down.induct)
  case (1 s)
  then show ?case by (cases "a = 0") auto
next
  case (2 j s)
  show ?case
  proof (cases "s ! Suc j < s ! j")
    case True
    let ?s = "s[Suc j := s ! j, j := s ! Suc j]"
    have at: "?s ! i = (if i = j then s ! Suc j else if i = Suc j then s ! j else s ! i)" if "i < length s" for i
      using that 2(2) by (auto simp: nth_list_update)
    have "sift_down j ?s ! a \<le> sift_down j ?s ! b"
    proof (rule 2(1)[OF True])
      fix x y assume xy: "x < y" "y \<le> m" "x \<noteq> j" "y \<noteq> j"
      then have "x < length s" "y < length s" using 2(6) by auto
      then show "?s ! x \<le> ?s ! y" unfolding at[OF \<open>x < length s\<close>] at[OF \<open>y < length s\<close>]
        using xy 2(3)[of x j] 2(3)[of j y] 2(3)[of x y] 2(5) by auto
    next
      fix y assume y: "j < y" "y \<le> m"
      then have "y < length s" using 2(6) by auto
      then show "?s ! j \<le> ?s ! y" unfolding at[OF \<open>y < length s\<close>] using y 2(2) 2(4)[of y] at[of j] True by auto
    qed (use 2 in auto)
    then show ?thesis using True by simp
  next
    case False
    then have below: "s ! x \<le> s ! Suc j" if "x \<le> j" for x
      using that 2(3)[of x j] 2(5) by (cases "x = j") (auto intro: order_trans)
    then show ?thesis using False 2(3)[of a b] 2(4)[of b] 2(7,8) by (cases "b = Suc j"; cases "a = Suc j") auto
  qed
qed

lemma sortStrings_sort: "sortStrings s = sort s"
proof -
  define f where "f = (\<lambda>k. foldl (\<lambda>s i. sift_down i s) s [1..<k])"
  have step: "f (Suc k) = sift_down k (f k)" if "1 \<le> k" for k using that by (simp add: f_def)
  have len: "length (f k) = length s" for k
  proof (induction k)
    case (Suc k)
    then show ?case by (cases "1 \<le> k") (simp_all add: step, simp add: f_def)
  qed (simp add: f_def)
  have inv: "k \<le> length s \<Longrightarrow> mset (f k) = mset s \<and> (\<forall>a b. a < b \<longrightarrow> b < k \<longrightarrow> f k ! a \<le> f k ! b)" for k
  proof (induction k)
    case (Suc k)
    show ?case
    proof (cases "1 \<le> k")
      case True
      have "mset (f (Suc k)) = mset s" using step[OF True] mset_sift[of k "f k"] len[of k] Suc by simp
      moreover have "f (Suc k) ! a \<le> f (Suc k) ! b" if "a < b" "b < Suc k" for a b
        unfolding step[OF True] by (rule sift_sorted[where m = k]) (use Suc len[of k] that in auto)
      ultimately show ?thesis by blast
    qed (simp add: f_def)
  qed (simp add: f_def)
  have "sortStrings s = f (length s)" by (simp add: sortStrings_def f_def)
  moreover have "sorted (f (length s))" using inv[of "length s"] len[of "length s"] by (auto simp: sorted_iff_nth_mono_less)
  ultimately show ?thesis using inv[of "length s"] by (metis order_refl properties_for_sort)
qed

end
