(* ===== verification/Spec2Isabelle.thy ===== *)
theory Spec2Isabelle
  imports SchedQueue Ids Replay StrictJson RunnerProps ApiCallers ExchangeProps KeyVaultProps Conductor
begin

text \<open>
  \<^bold>\<open>ACME Conductor.\<close> The program keeps TLS certificates current for an organisation. A \<^emph>\<open>Conductor\<close>
  (\<^verbatim>\<open>src/internal/conductor\<close>) holds the registry of targets, policies, runs and ACME account
  generations in SQLite, serves a REST API, decides which target is due, and starts one execution per
  run through a launcher. A \<^emph>\<open>Runner\<close> (\<^verbatim>\<open>src/internal/runner\<close>) takes one job, checks it against its own
  policy, runs \<^verbatim>\<open>lego\<close>, stores the certificate and reports a Result. The two share only documents: the
  job and the Result, each in a signed envelope (\<^verbatim>\<open>src/pkg/api/v1alpha1\<close>). This development models the
  core of both, operation by operation, as executable functions; this theory imports all others and
  holds what ties the Conductor's parts together.

  \<^bold>\<open>Common ground.\<close> \<open>Prelude\<close> has bytes, ASCII classes, Go's \<^verbatim>\<open>strings\<close> functions, validation as a list of
  checks, and machine integers (\<^verbatim>\<open>int64\<close> with its wrap-around); \<open>GoStrings\<close>, \<open>Strconv\<close>, \<open>Utf8\<close> and
  \<open>Base64\<close> the rest of the standard library the program uses. A string is a list of bytes. \<open>Effects\<close>
  is a state monad with steps that may fail and its triples; \<open>FileSys\<close> the file system, in which any
  call may fail, a write may be partial, and a killed process is one whose further calls all fail.

  \<^bold>\<open>Contract\<close> (\<^verbatim>\<open>internal/policy\<close>, \<^verbatim>\<open>pkg/api/v1alpha1\<close>, \<^verbatim>\<open>internal/strictjson\<close>). \<open>Policy\<close>: host names, suffixes
  and \<open>Authorize\<close>. \<open>Contract\<close>: the job and the Result with every check of \<^verbatim>\<open>Validate\<close>. \<open>Envelope\<close>: signing
  and verification. \<open>Provision\<close>: the sealed External Account Binding. \<open>StrictJson\<close>: the walk that refuses
  repeated keys. Shown: host names are normalised exactly; a validated job is authorised by every
  Runner whose policy is at least as wide; what is signed verifies and comes back, and what verifies
  was signed; a sealed binding opens with its own key and context only.

  \<^bold>\<open>Registry\<close> (\<^verbatim>\<open>internal/conductor/registry\<close>, \<^verbatim>\<open>internal/conductor/sqlite\<close>). \<open>Registry\<close> has the domain,
  \<open>Tables\<close> the relational operations, \<open>AuditLog\<close>, \<open>AccountStore\<close>, \<open>TargetStore\<close> and \<open>RunStore\<close> the
  transactions over a database \<open>db\<close> whose tables are lists of rows; a transaction that fails changes
  nothing. \<open>Ids\<close> generates identifiers at word width. \<open>RegistryInv\<close> proves the invariant \<open>db_inv\<close> (keys,
  references, one owner per name, account generations) kept by every operation, \<open>RegistrySteps\<close> is the
  step relation \<open>reg_step\<close>, \<open>RegistryHistory\<close> the history \<open>follows\<close> of a database along steps (locale
  \<open>guarded_steps\<close> of \<open>Transition\<close>, and \<open>row_history\<close> once per table), \<open>RegistryProps\<close> and \<open>RegistryOps\<close>
  what the operations promise: no lost update, retirement is final, a name has one owner.

  \<^bold>\<open>Scheduler\<close> (\<^verbatim>\<open>internal/conductor/scheduler\<close>). \<open>SchedPolicy\<close>: when a target is due, back-off without
  overflow. \<open>Sched\<close>: recovery, sweep, planning and the retried recording of outcomes, in a monad where
  other processes change the registry between any two calls and calls fail, committed or not;
  \<open>SchedExec\<close>: one run from claim to end. \<open>SchedProps\<close>: all of it stays within \<open>reg_step\<close>. \<open>SchedLive\<close>:
  an execution returns and ends its run. \<open>SchedQueue\<close>: dispatch, sweep, what recovery leaves behind.
  The fuel of \<open>record_run\<close> counts retries; \<open>execute_returns\<close> says how much is enough, from the clock and
  the time the code allows.

  \<^bold>\<open>API\<close> (\<^verbatim>\<open>internal/conductor/api\<close>). \<open>ApiCore\<close>, \<open>ApiRequest\<close> and the theories per resource model the
  routing, authentication, every handler with its checks in order and its status codes. \<open>ApiFrame\<close> is
  the interface between handlers and registry (locales \<open>api_frame\<close>, \<open>api_commands\<close>), interpreted three
  times: for the step relation and for changing nothing (\<open>ApiProps\<close>), for attribution to the caller
  (\<open>ApiCallers\<close>). \<open>ConductorConfig\<close>/\<open>ConfigProps\<close>: the Conductor's configuration and what acceptance
  guarantees. \<open>Oidc\<close>/\<open>OidcProps\<close> (\<^verbatim>\<open>internal/conductor/oidc\<close>): bearer tokens, key sets and their cache.
  \<open>Conductor\<close>: how \<^verbatim>\<open>Serve\<close> and \<^verbatim>\<open>buildAuth\<close> wire these.

  \<^bold>\<open>Runner\<close> (\<^verbatim>\<open>internal/runner\<close>). \<open>RunnerConfig\<close>, \<open>LegoCmd\<close> (the command line and environment of lego),
  \<open>Redact\<close> (its log), \<open>Accounts\<close> (work directories and account state), \<open>Replay\<close> (the ledger of run
  identifiers), \<open>Reconcile\<close> (one job), \<open>RunJob\<close> (from transport to Result). \<open>ReconcileSafe\<close> proves the
  reconcile safe once over the locale \<open>runner_frame\<close>, whose store laws two stores discharge: the
  filesystem store (\<open>CertStore\<close>, \<open>FsStore\<close>; interpreted in \<open>RunnerFiles\<close>) and Azure Key Vault
  (\<open>KeyVault\<close>; interpreted in \<open>KeyVaultProps\<close>). \<open>RunReport\<close> and \<open>RunnerProps\<close>: a run that can be
  identified is reported, only admitted jobs run.

  \<^bold>\<open>Between the two\<close> (\<^verbatim>\<open>internal/exchange\<close>). \<open>Exchange\<close> has
  the exchange directory as programs of system calls that any number of processes interleave, and
  crash at any point; \<open>ExchangeProps\<close> shows that a job has one taker.

  \<^bold>\<open>Parameters.\<close> What is not in the repository is an argument: cryptography (Ed25519, SHA-256, X25519,
  AES-GCM, RSA and ECDSA verification), X.509, PEM and PKCS parsing, JSON codecs (the strict decoders are
  given by what they read), URL and address parsing, Unicode tables beyond ASCII, SQLite's atomicity,
  the HTTP client, lego, Azure. Named hypotheses state what the code relies on of them
  (\<open>crypto_ok\<close>, \<open>only_signed\<close>, \<open>honest\<close>, \<open>tells_what_it_holds\<close>, \<open>takes_imports\<close>, \<open>world_ok\<close>), and each
  property with hypotheses has a witness on concrete instances.

  \<^bold>\<open>Not modelled.\<close> The GUI pages and their assets; the command line programs; the launchers; process start-up, signals
  and pipes of lego; the SQL text and schema migration (the tables are); file locks across processes
  (\<^verbatim>\<open>internal/fslock\<close>: the lock is one call of \<open>FileSys\<close>); generation of key files; the DNS delegation
  look-ups shown next to a target; fakes and helpers of the tests. These are input and output around the
  logic modelled here, or are reached through its parameters.
\<close>

lemma accepted_oidc:
  assumes "OIDC_ok L oi" "\<forall>u. cl_issuerURL L [] = Some u \<longrightarrow> u_Host u = []"
  shows "New_ok (oidc_config_of oi)"
proof -
  have "oi_Issuer oi \<noteq> []" using assms by (auto simp: OIDC_ok_def ValidateIssuerURL_def split: option.splits if_splits)
  then show ?thesis using assms(1) by (auto simp: OIDC_ok_def New_ok_def oidc_config_of_def oidcValue_def claimNameRe_def MinOIDCKeyCacheSeconds_def)
qed

lemma accepted_modes:
  assumes "ConductorConfig_Read L D data = Some c"
  obtains "se_AuthMode (co_Server c) = AuthLocalhostDev"
  | oi where "se_AuthMode (co_Server c) = AuthOIDC" "se_OIDC (co_Server c) = Some oi" "OIDC_ok L oi"
proof -
  obtain c0 where "ConductorConfig_Validate L c0 = Some c"
    using assms by (auto simp: ConductorConfig_Read_def split: if_splits option.splits)
  from Server_validate_sound[OF ConductorConfig_sections(1)[OF this]] show ?thesis
    using that by (auto simp: server_sound_def split: if_splits)
qed

lemma accepted_pace:
  assumes "ConductorConfig_Read L D data = Some c"
  shows "0 < c_backoff (sched_cfg_of fmt c) \<and> c_backoff (sched_cfg_of fmt c) \<le> c_maxBack (sched_cfg_of fmt c) \<and>
    c_maxBack (sched_cfg_of fmt c) < 2 ^ 63 \<and> 1 \<le> c_maxRuns (sched_cfg_of fmt c) \<and> c_maxRuns (sched_cfg_of fmt c) \<le> 64"
proof -
  obtain c0 where "ConductorConfig_Validate L c0 = Some c"
    using assms by (auto simp: ConductorConfig_Read_def split: if_splits option.splits)
  from Scheduler_validate_sound[OF ConductorConfig_sections(2)[OF this]] show ?thesis
    by (auto simp: sched_cfg_of_def MaxMaxConcurrentRuns_def MaxRetryBackoffSeconds_def)
qed

lemma dev_caller_local:
  "LocalhostDev_Authenticate S splt port r = Inr p \<Longrightarrow>
     \<exists>host x. splt (rq_RemoteAddr r) = Some (host, x) \<and> pf_parseIP (sv_platform S) host = Some IPLoopback"
  by (auto simp: LocalhostDev_Authenticate_def split: option.splits if_splits)



end
